(* ===== verification/Prelude.thy ===== *)
theory Prelude
  imports Main "HOL-Library.Word" "HOL-Library.AList"
begin

text \<open>
  Shared vocabulary of the development: the machine integers of the Rust code at their
  widths, the saturating and checked arithmetic of the standard library, the result type
  of fallible operations, HashMap and IndexMap as maps and association lists, and the
  decimal printing of integers.

  Conventions.
  \<^item> H256 and U256 are both 256-bit words; the big-endian conversions between them
    (\<open>h256_to_u256\<close>, \<open>u256_to_h256\<close>) are therefore the identity.
  \<^item> An operation that returns \<open>Result<T, E>\<close> and may also panic has the result
    type \<open>res\<close>; one that returns a plain value and may panic has an \<open>option\<close>,
    \<open>None\<close> being the panic.
  \<^item> A HashMap that is only looked up is a map; one that the code iterates over is an
    association list with distinct keys, whose order stands for the arbitrary iteration
    order. An IndexMap is an association list in insertion order.
\<close>

section \<open>Machine integers\<close>

type_synonym u8 = "8 word"
type_synonym u16 = "16 word"
type_synonym u32 = "32 word"
type_synonym u64 = "64 word"
type_synonym u256 = "256 word"
type_synonym h256 = "256 word"
type_synonym h160 = "160 word"
type_synonym address = "160 word"
type_synonym bytes = "8 word list"

named_theorems word_arith \<open>unfolding rules for the standard library arithmetic\<close>
named_theorems frame \<open>what an operation leaves unchanged\<close>

definition sat_add :: "'a::len word \<Rightarrow> 'a word \<Rightarrow> 'a word" where
  "sat_add a b = (if unat a + unat b < 2 ^ LENGTH('a) then a + b else - 1)"

definition sat_sub :: "'a::len word \<Rightarrow> 'a word \<Rightarrow> 'a word" where
  "sat_sub a b = (if b \<le> a then a - b else 0)"

definition sat_mul :: "'a::len word \<Rightarrow> 'a word \<Rightarrow> 'a word" where
  "sat_mul a b = (if unat a * unat b < 2 ^ LENGTH('a) then a * b else - 1)"

definition checked_add :: "'a::len word \<Rightarrow> 'a word \<Rightarrow> 'a word option" where
  "checked_add a b = (if unat a + unat b < 2 ^ LENGTH('a) then Some (a + b) else None)"

definition checked_sub :: "'a::len word \<Rightarrow> 'a word \<Rightarrow> 'a word option" where
  "checked_sub a b = (if b \<le> a then Some (a - b) else None)"

definition checked_mul :: "'a::len word \<Rightarrow> 'a word \<Rightarrow> 'a word option" where
  "checked_mul a b = (if unat a * unat b < 2 ^ LENGTH('a) then Some (a * b) else None)"

text \<open>\<open>as_u64\<close> and \<open>as_u32\<close> of the big integers panic when the value does not fit.\<close>

definition as_u64 :: "'a::len word \<Rightarrow> u64 option" where
  "as_u64 x = (if unat x < 2 ^ 64 then Some (ucast x) else None)"

definition as_u32 :: "'a::len word \<Rightarrow> u32 option" where
  "as_u32 x = (if unat x < 2 ^ 32 then Some (ucast x) else None)"

lemma unat_bound64: "unat (x :: u64) < 18446744073709551616"
  using unsigned_less [of x] by simp

lemma unat_bound32: "unat (x :: u32) < 4294967296"
  using unsigned_less [of x] by simp

lemma unat_minus_1: "unat (- 1 :: 'a::len word) = 2 ^ LENGTH('a) - 1"
  by (simp add: unsigned_minus_1_eq_mask mask_eq_exp_minus_1)

lemma unat_sat_add:
  "unat (sat_add a (b :: 'a::len word)) = min (unat a + unat b) (2 ^ LENGTH('a) - 1)"
proof (cases "unat a + unat b < 2 ^ LENGTH('a)")
  case True
  then have "unat (a + b) = unat a + unat b" by (simp add: unat_add_lem [THEN iffD1])
  with True show ?thesis by (simp add: sat_add_def)
next
  case False
  then show ?thesis by (simp add: sat_add_def unat_minus_1)
qed

lemma unat_sat_mul:
  "unat (sat_mul a (b :: 'a::len word)) = min (unat a * unat b) (2 ^ LENGTH('a) - 1)"
proof (cases "unat a * unat b < 2 ^ LENGTH('a)")
  case True
  then have "unat (a * b) = unat a * unat b" by (simp add: unat_mult_lem [THEN iffD1])
  with True show ?thesis by (simp add: sat_mul_def)
next
  case False
  then show ?thesis by (simp add: sat_mul_def unat_minus_1)
qed

lemma unat_sat_sub: "unat (sat_sub a (b :: 'a::len word)) = unat a - unat b"
  by (auto simp: sat_sub_def unat_sub word_le_nat_alt)

lemma sat_add_ge: "a \<le> sat_add a (b :: 'a::len word)"
proof -
  have "unat a < 2 ^ LENGTH('a)" by (rule unsigned_less)
  then have "unat a \<le> 2 ^ LENGTH('a) - 1" by linarith
  then show ?thesis by (simp add: word_le_nat_alt unat_sat_add)
qed

lemma unat_less_max: "unat (a :: 'a::len word) + 1 < 2 ^ LENGTH('a) \<longleftrightarrow> a \<noteq> - 1"
proof -
  have "unat a < 2 ^ LENGTH('a)" by (rule unsigned_less)
  moreover have "unat a = 2 ^ LENGTH('a) - 1 \<longleftrightarrow> a = - 1"
    by (metis unat_minus_1 unsigned_word_eqI)
  ultimately show ?thesis by linarith
qed

lemma sat_add_one: "a \<noteq> - 1 \<Longrightarrow> sat_add a (1 :: 'a::len word) = a + 1"
  using unat_less_max [of a] by (simp add: sat_add_def)

lemma checked_add_one: "checked_add a (1 :: 'a::len word) = (if a = - 1 then None else Some (a + 1))"
  using unat_less_max [of a] by (simp add: checked_add_def)

lemma unat_plus_one: "a \<noteq> - 1 \<Longrightarrow> unat (a + 1 :: 'a::len word) = unat a + 1"
  using unat_less_max [of a] by (simp add: unat_add_lem [THEN iffD1])

lemma word_less_plus_one: "a \<noteq> - 1 \<Longrightarrow> b \<le> a \<Longrightarrow> b < (a + 1 :: 'a::len word)"
  by (simp add: word_less_nat_alt word_le_nat_alt unat_plus_one)

lemma checked_add_Some:
  "checked_add a b = Some c \<Longrightarrow> c = a + b \<and> unat c = unat a + unat (b :: 'a::len word)"
  by (auto simp: checked_add_def unat_add_lem [THEN iffD1] split: if_splits)

lemma ucast_u64_u256 [simp]: "ucast (ucast (x :: u64) :: u256) = x"
  by (rule bit_word_eqI) (simp add: bit_unsigned_iff)

lemma ucast_u32_u64 [simp]: "ucast (ucast (x :: u32) :: u64) = x"
  by (rule bit_word_eqI) (simp add: bit_unsigned_iff)

lemma as_u64_ucast [simp]: "as_u64 (ucast (x :: u64) :: u256) = Some x"
proof -
  have "unat x < 2 ^ 256" using unat_bound64 [of x] by simp
  then have "unat (ucast x :: u256) = unat x" by (simp add: unsigned_ucast_eq take_bit_nat_eq_self)
  then show ?thesis by (simp add: as_u64_def unat_bound64)
qed

lemma as_u64_id [simp]: "as_u64 (x :: u64) = Some x"
  by (simp add: as_u64_def unat_bound64)

lemma as_u32_ucast [simp]: "as_u32 (ucast (x :: u32) :: u64) = Some x"
proof -
  have "unat x < 2 ^ 64" using unat_bound32 [of x] by simp
  then have "unat (ucast x :: u64) = unat x" by (simp add: unsigned_ucast_eq take_bit_nat_eq_self)
  then show ?thesis by (simp add: as_u32_def unat_bound32)
qed

section \<open>Results\<close>

text \<open>
  \<open>Ok\<close> and \<open>Err\<close> are the two values of a Rust \<open>Result\<close>; \<open>Panic\<close> is the
  third way a call can end.
\<close>

datatype ('e, 'a) res = Ok 'a | Err 'e | Panic

fun is_Ok :: "('e, 'a) res \<Rightarrow> bool" where
  "is_Ok (Ok _) = True"
| "is_Ok _ = False"

fun rbind :: "('e, 'a) res \<Rightarrow> ('a \<Rightarrow> ('e, 'b) res) \<Rightarrow> ('e, 'b) res" where
  "rbind (Ok x) f = f x"
| "rbind (Err e) f = Err e"
| "rbind Panic f = Panic"

fun map_err :: "('e \<Rightarrow> 'f) \<Rightarrow> ('e, 'a) res \<Rightarrow> ('f, 'a) res" where
  "map_err f (Ok x) = Ok x"
| "map_err f (Err e) = Err (f e)"
| "map_err f Panic = Panic"

fun ok_flatten :: "('e, 'a option) res \<Rightarrow> 'a option" where
  "ok_flatten (Ok x) = x"
| "ok_flatten _ = None"

fun res_ok :: "('e, 'a) res \<Rightarrow> 'a option" where
  "res_ok (Ok x) = Some x"
| "res_ok _ = None"

definition expect :: "'a option \<Rightarrow> ('e, 'a) res" where
  "expect m = (case m of None \<Rightarrow> Panic | Some x \<Rightarrow> Ok x)"

definition unwrap :: "('e, 'a) res \<Rightarrow> 'a option" where
  "unwrap r = (case r of Ok x \<Rightarrow> Some x | _ \<Rightarrow> None)"

lemma unwrap_simps [simp]: "unwrap (Ok x) = Some x" "unwrap (Err e) = None" "unwrap Panic = None"
  by (simp_all add: unwrap_def)

lemma expect_simps [simp]: "expect (Some x) = Ok x" "expect None = Panic"
  by (simp_all add: expect_def)

lemma rbind_eq_Ok: "rbind r f = Ok y \<longleftrightarrow> (\<exists>x. r = Ok x \<and> f x = Ok y)"
  by (cases r) auto

lemma map_err_eq_Ok: "map_err f r = Ok y \<longleftrightarrow> r = Ok y"
  by (cases r) auto

definition or_else :: "'a option \<Rightarrow> 'a option \<Rightarrow> 'a option" where
  "or_else a b = (case a of None \<Rightarrow> b | Some x \<Rightarrow> Some x)"

lemma or_else_simps [simp]: "or_else None b = b" "or_else (Some x) b = Some x"
  by (simp_all add: or_else_def)

definition unwrap_or :: "'a option \<Rightarrow> 'a \<Rightarrow> 'a" where
  "unwrap_or m d = (case m of None \<Rightarrow> d | Some x \<Rightarrow> x)"

lemma unwrap_or_simps [simp]: "unwrap_or None d = d" "unwrap_or (Some x) d = x"
  by (simp_all add: unwrap_or_def)

section \<open>Association lists\<close>

text \<open>The two operations of HashMap and IndexMap that the code uses, besides \<open>map_of\<close>.\<close>

abbreviation al_insert :: "'k \<Rightarrow> 'v \<Rightarrow> ('k \<times> 'v) list \<Rightarrow> ('k \<times> 'v) list" where
  "al_insert \<equiv> AList.update"

abbreviation al_remove :: "'k \<Rightarrow> ('k \<times> 'v) list \<Rightarrow> ('k \<times> 'v) list" where
  "al_remove \<equiv> AList.delete"

lemma map_of_al_insert [simp]: "map_of (al_insert k v xs) = (map_of xs)(k \<mapsto> v)"
  by (rule ext) (simp add: update_conv')

lemma map_of_al_remove [simp]: "map_of (al_remove k xs) = (map_of xs)(k := None)"
  by (rule ext) (simp add: delete_conv')

lemma distinct_al_insert: "distinct (map fst xs) \<Longrightarrow> distinct (map fst (al_insert k v xs))"
  by (rule distinct_update)

lemma length_al_insert:
  "length (al_insert k v xs) = (if k \<in> fst ` set xs then length xs else Suc (length xs))"
  by (induction xs) auto

lemma al_insert_nonempty [simp]: "al_insert k v xs \<noteq> []"
  by (induction xs) auto

lemma map_of_map_val: "map_of (map (\<lambda>(k, v). (k, f v)) xs) k = map_option f (map_of xs k)"
  by (induction xs) auto

section \<open>Decimal printing\<close>

definition digit_char :: "nat \<Rightarrow> char" where
  "digit_char d = char_of (48 + d)"

fun dec_string :: "nat \<Rightarrow> string" where
  "dec_string n = (if n < 10 then [digit_char n] else dec_string (n div 10) @ [digit_char (n mod 10)])"

declare dec_string.simps [simp del]

lemma dec_string_small: "n < 10 \<Longrightarrow> dec_string n = [digit_char n]"
  by (simp add: dec_string.simps)

lemma dec_string_step: "10 \<le> n \<Longrightarrow> dec_string n = dec_string (n div 10) @ [digit_char (n mod 10)]"
  by (simp add: dec_string.simps [of n])

lemma dec_string_nonempty [simp]: "dec_string n \<noteq> []"
  by (subst dec_string.simps) simp

definition char_digit :: "char \<Rightarrow> nat option" where
  "char_digit c = (let k = of_char c :: nat in if 48 \<le> k \<and> k \<le> 57 then Some (k - 48) else None)"

lemma char_digit_digit_char [simp]: "d < 10 \<Longrightarrow> char_digit (digit_char d) = Some d"
  by (simp add: char_digit_def digit_char_def)

lemma digit_char_inj: "d < 10 \<Longrightarrow> e < 10 \<Longrightarrow> digit_char d = digit_char e \<longleftrightarrow> d = e"
  by (metis char_digit_digit_char option.inject)

lemma digit_char_digit: "d < 10 \<Longrightarrow> digit_char d \<noteq> CHR ''_''"
proof
  assume "d < 10" and eq: "digit_char d = CHR ''_''"
  then have "char_digit (CHR ''_'') = Some d" by (metis char_digit_digit_char)
  then show False by (simp add: char_digit_def)
qed

lemma dec_string_no_underscore: "CHR ''_'' \<notin> set (dec_string n)"
proof (induction n rule: dec_string.induct)
  case (1 n)
  show ?case
  proof (cases "n < 10")
    case True
    then show ?thesis using digit_char_digit [of n] by (auto simp: dec_string_small)
  next
    case False
    then show ?thesis
      using 1 digit_char_digit [of "n mod 10"] by (auto simp: dec_string_step)
  qed
qed

text \<open>\<open>str::parse\<close> for unsigned integers: a non-empty digit string whose value fits.\<close>

fun dec_value :: "nat \<Rightarrow> string \<Rightarrow> nat option" where
  "dec_value acc [] = Some acc"
| "dec_value acc (c # cs) =
     (case char_digit c of None \<Rightarrow> None | Some d \<Rightarrow> dec_value (10 * acc + d) cs)"

lemma dec_value_append:
  "dec_value acc (xs @ ys) = Option.bind (dec_value acc xs) (\<lambda>a. dec_value a ys)"
  by (induction xs arbitrary: acc) (auto split: option.splits)

lemma dec_value_dec_string: "dec_value 0 (dec_string n) = Some n"
proof (induction n rule: dec_string.induct)
  case (1 n)
  show ?case
  proof (cases "n < 10")
    case True
    then show ?thesis by (simp add: dec_string_small)
  next
    case False
    with 1 show ?thesis by (simp add: dec_string_step dec_value_append)
  qed
qed

end
