(* ===== verification/Api_Types.thy ===== *)
theory Api_Types
  imports Prelude
begin

text \<open>
  The data that the node exchanges with its libraries and its clients: the types of
  \<open>zksync_types::api\<close>, \<open>zksync_types::l2\<close> and \<open>zksync_multivm::interface\<close>,
  with the fields that the code under src/ reads or writes. A value of a library type that
  the code only observes through methods (a revert reason, a halt reason) is represented by
  the results of those methods. \<open>sprog\<close> is what the node sees of a run of the virtual
  machine: a finite interaction with the storage it was given.
\<close>

section \<open>Storage keys and block identifiers\<close>

datatype storage_key = StorageKey (key_address: address) (key_slot: h256)

datatype block_number =
  Committed | Finalized | Latest | L1Committed | Earliest | Pending | Number u64

datatype block_id =
  BlockNumberId block_number | BlockNumberObject block_number | BlockHashObject h256

section \<open>Transactions\<close>

datatype tx_type =
  LegacyTransaction | EIP2930Transaction | EIP1559Transaction | EIP712Transaction
| PriorityOpTransaction | ProtocolUpgradeTransaction

record fee =
  gas_limit :: u256
  max_fee_per_gas :: u256
  max_priority_fee_per_gas :: u256
  gas_per_pubdata_limit :: u256

record input_data =
  in_hash :: h256
  in_data :: bytes

text \<open>
  \<open>L2Tx\<close>: the common data, the execute part and the envelope in one record.
  \<open>initiator_account()\<close> is \<open>initiator\<close>, \<open>recipient_account()\<close> is \<open>recipient\<close>.
\<close>

record l2_tx =
  nonce :: u32
  tx_fee :: fee
  initiator :: address
  signature :: bytes
  transaction_type :: tx_type
  tx_input :: "input_data option"
  recipient :: "address option"
  calldata :: bytes
  tx_value :: u256
  received_timestamp_ms :: u64
  raw_bytes :: "bytes option"

record api_tx =
  at_hash :: h256
  at_nonce :: u256
  at_block_hash :: "h256 option"
  at_block_number :: "u64 option"
  at_transaction_index :: "u64 option"
  at_from :: "address option"
  at_to :: "address option"
  at_value :: u256
  at_gas_price :: "u256 option"
  at_gas :: u256
  at_input :: bytes
  at_v :: "u64 option"
  at_r :: "u256 option"
  at_s :: "u256 option"
  at_raw :: "bytes option"
  at_transaction_type :: "u64 option"
  at_max_fee_per_gas :: "u256 option"
  at_max_priority_fee_per_gas :: "u256 option"
  at_chain_id :: u256
  at_l1_batch_number :: "u64 option"
  at_l1_batch_tx_index :: "u64 option"

datatype tx_variant = TxFull api_tx | TxHash h256

record block =
  b_hash :: h256
  b_parent_hash :: h256
  b_number :: u64
  b_timestamp :: u256
  b_l1_batch_number :: "u64 option"
  b_transactions :: "tx_variant list"
  b_gas_used :: u256
  b_gas_limit :: u256

section \<open>Logs and receipts\<close>

record log =
  l_address :: address
  l_topics :: "h256 list"
  l_data :: bytes
  l_block_hash :: "h256 option"
  l_block_number :: "u64 option"
  l_l1_batch_number :: "u64 option"
  l_transaction_hash :: "h256 option"
  l_transaction_index :: "u64 option"
  l_log_index :: "u256 option"
  l_transaction_log_index :: "u256 option"
  l_removed :: "bool option"
  l_block_timestamp :: "u64 option"

record receipt =
  r_transaction_hash :: h256
  r_transaction_index :: u64
  r_block_hash :: h256
  r_block_number :: u64
  r_l1_batch_number :: "u64 option"
  r_from :: address
  r_to :: "address option"
  r_gas_used :: "u256 option"
  r_contract_address :: "address option"
  r_logs :: "log list"
  r_status :: u64
  r_effective_gas_price :: "u256 option"
  r_transaction_type :: "u64 option"

section \<open>Calls and execution results\<close>

datatype call_type = CallCall | CallCreate | CallNearCall

datatype call = Call
  (c_type: call_type) (c_from: address) (c_to: address) (c_gas: u64) (c_gas_used: u64)
  (c_value: u256) (c_input: bytes) (c_output: bytes) (c_error: "string option")
  (c_revert_reason: "string option") (c_calls: "call list")

datatype debug_call_type = DebugCall | DebugCreate

datatype debug_call = DebugCallOut
  (d_type: debug_call_type) (d_from: address) (d_to: address) (d_gas: u256) (d_gas_used: u256)
  (d_value: u256) (d_input: bytes) (d_output: bytes) (d_error: "string option")
  (d_revert_reason: "string option") (d_calls: "debug_call list")

text \<open>
  A revert reason is seen through \<open>to_string\<close>, \<open>to_user_friendly_string\<close> and
  \<open>encoded_data\<close>; a halt reason through \<open>to_string\<close>.
\<close>

record vm_revert =
  rv_string :: string
  rv_friendly :: string
  rv_data :: bytes

datatype exec_result = Success bytes | Revert vm_revert | Halt string

definition is_failed :: "exec_result \<Rightarrow> bool" where
  "is_failed r = (case r of Success _ \<Rightarrow> False | _ \<Rightarrow> True)"

lemma is_failed_simps [simp]:
  "is_failed (Success b) = False" "is_failed (Revert v) = True" "is_failed (Halt s) = True"
  by (simp_all add: is_failed_def)

record vm_event =
  ev_address :: address
  ev_topics :: "h256 list"
  ev_value :: bytes

datatype storage_log_kind = LogRead | InitialWrite | RepeatedWrite

record storage_log =
  sl_kind :: storage_log_kind
  sl_key :: storage_key
  sl_value :: h256
  sl_previous_value :: h256

definition is_write :: "storage_log \<Rightarrow> bool" where
  "is_write l = (sl_kind l \<noteq> LogRead)"

record vm_result =
  vm_exec :: exec_result
  vm_events :: "vm_event list"
  vm_storage_logs :: "storage_log list"
  vm_gas_used :: u64
  vm_computational_gas_used :: u32
  vm_pubdata_published :: u32
  vm_gas_refunded :: u64

datatype exec_mode = VerifyExecute | EstimateFee | EthCall

section \<open>Errors\<close>

datatype web3_error =
  NoBlock
| PrunedBlock u32
| PrunedL1Batch u32
| ProxyError string
| TooManyTopics
| FilterNotFound
| LogsLimitExceeded nat u32 u32
| InvalidFilterBlockHash
| TreeApiUnavailable
| SubmitTransactionError string bytes
| SerializationError string
| InternalError string
| MethodNotImplemented

datatype error_code = CodeInternalError | CodeInvalidParams | CodeMethodNotFound | CodeServerError int

record rpc_error =
  e_code :: error_code
  e_message :: string
  e_data :: "string option"

type_synonym 'a rpc = "(rpc_error, 'a) res"

section \<open>Runs of the virtual machine\<close>

text \<open>
  The virtual machine is a library. What it does to the node is the sequence of calls it
  makes to the storage view it was given (\<open>read_value\<close>, \<open>set_value\<close>, which answers
  the previous value, \<open>is_write_initial\<close> and \<open>load_factory_dep\<close>), each continuing
  with the answer, and the value it returns in the end.
\<close>

datatype 'r sprog =
  Return 'r
| ReadValue storage_key "h256 \<Rightarrow> 'r sprog"
| SetValue storage_key h256 "h256 \<Rightarrow> 'r sprog"
| IsWriteInitial storage_key "bool \<Rightarrow> 'r sprog"
| LoadFactoryDep h256 "bytes option \<Rightarrow> 'r sprog"

section \<open>Fee parameters\<close>

text \<open>
  Floating-point values are kept as their IEEE 754 bit patterns: an \<open>f64\<close> is a 64-bit
  word, an \<open>f32\<close> a 32-bit word.
\<close>

type_synonym f64 = "64 word"
type_synonym f32 = "32 word"

record fee_model_config =
  fm_minimal_l2_gas_price :: u64
  fm_compute_overhead_part :: f64
  fm_pubdata_overhead_part :: f64
  fm_batch_overhead_l1_gas :: u64
  fm_max_gas_per_batch :: u64
  fm_max_pubdata_per_batch :: u64

datatype fee_params =
  FeeParamsV1
| FeeParamsV2 (fp_config: fee_model_config) (fp_l1_gas_price: u64) (fp_l1_pubdata_price: u64)

section \<open>Requests\<close>

text \<open>
  \<open>CallRequest\<close> and \<open>TransactionRequest\<close>: the fields the node itself looks at; the
  others are only handed on and are kept together.
\<close>

record call_request =
  cr_gas :: "u256 option"
  cr_gas_price :: "u256 option"
  cr_max_fee_per_gas :: "u256 option"
  cr_max_priority_fee_per_gas :: "u256 option"
  cr_eip712_gas_per_pubdata :: "u256 option"
  cr_rest :: bytes

record tx_request =
  rq_gas :: u256
  rq_gas_price :: u256
  rq_max_priority_fee_per_gas :: "u256 option"
  rq_transaction_type :: "u64 option"
  rq_chain_id :: "u64 option"
  rq_r :: "u256 option"
  rq_s :: "u256 option"
  rq_v :: "u64 option"
  rq_rest :: bytes

section \<open>Batch and system environment\<close>

datatype batch_fee_input =
  L1Pegged u64 u64
| PubdataIndependent (fi_l1_gas_price: u64) (fi_fair_l2_gas_price: u64) (fi_fair_pubdata_price: u64)

record l2_block =
  lb_number :: u32
  lb_hash :: h256
  lb_timestamp :: u64

record l1_batch_env =
  be_previous_batch_hash :: "h256 option"
  be_number :: u32
  be_timestamp :: u64
  be_fee_input :: batch_fee_input
  be_fee_account :: address
  be_enforced_base_fee :: "u64 option"
  be_first_number :: u32
  be_first_timestamp :: u64
  be_first_prev_block_hash :: h256
  be_first_max_virtual_blocks :: u32

record contract_code =
  cc_code :: "u256 list"
  cc_hash :: h256

record base_contracts =
  bootloader :: contract_code
  default_aa :: contract_code

record system_env =
  se_zk_porter_available :: bool
  se_version :: u16
  se_contracts :: base_contracts
  se_bootloader_gas_limit :: u32
  se_execution_mode :: exec_mode
  se_validation_gas_limit :: u32
  se_chain_id :: u64

section \<open>Results of a run\<close>

text \<open>
  What the bootloader debug slots contain is read by a tracer at the end of a run, so the
  debug section of the bootloader memory is part of the result of a run, slot by slot.
\<close>

record inspect_out =
  io_compressed :: "(string, bytes list) res"
  io_result :: vm_result
  io_traces :: "call list"
  io_debug_slots :: "nat \<Rightarrow> u256"
  io_bootloader :: "unit sprog"

record run_out =
  ro_result :: vm_result
  ro_traces :: "call list"

section \<open>What a fork source answers\<close>

text \<open>
  A raw transaction (\<open>zksync_types::Transaction\<close>) converts to an L2 transaction or, for L1
  and upgrade transactions, only has a hash for the node.
\<close>

datatype raw_transaction = RawL2 l2_tx | RawOther h256

type_synonym datetime = "64 word \<times> u32"

datatype block_status = BlockSealed | BlockVerified

record block_details =
  bd_number :: u32
  bd_l1_batch_number :: u32
  bd_timestamp :: u64
  bd_l1_tx_count :: nat
  bd_l2_tx_count :: nat
  bd_root_hash :: "h256 option"
  bd_status :: block_status
  bd_commit_tx_hash :: "h256 option"
  bd_committed_at :: "datetime option"
  bd_prove_tx_hash :: "h256 option"
  bd_proven_at :: "datetime option"
  bd_execute_tx_hash :: "h256 option"
  bd_executed_at :: "datetime option"
  bd_l1_gas_price :: u64
  bd_l2_fair_gas_price :: u64
  bd_fair_pubdata_price :: "u64 option"
  bd_base_system_contracts_hashes :: "h256 \<times> h256"
  bd_operator_address :: address
  bd_protocol_version :: "u16 option"

datatype transaction_status = TxPending | TxIncluded | TxVerified | TxFailed

record transaction_details =
  td_is_l1_originated :: bool
  td_status :: transaction_status
  td_fee :: u256
  td_gas_per_pubdata :: u256
  td_initiator_address :: address
  td_received_at :: datetime
  td_eth_commit_tx_hash :: "h256 option"
  td_eth_prove_tx_hash :: "h256 option"
  td_eth_execute_tx_hash :: "h256 option"

record bridge_addresses =
  br_l1_shared_default_bridge :: "address option"
  br_l2_shared_default_bridge :: "address option"
  br_l1_erc20_default_bridge :: "address option"
  br_l2_erc20_default_bridge :: "address option"
  br_l1_weth_bridge :: "address option"
  br_l2_weth_bridge :: "address option"

record token =
  tk_l1_address :: address
  tk_l2_address :: address
  tk_name :: string
  tk_symbol :: string
  tk_decimals :: u8

end
