(* ===== verification/Externals.thy ===== *)
theory Externals
  imports Api_Types
begin

text \<open>
  The library functions and constants the node relies on (\<open>zksync_types\<close>,
  \<open>zksync_utils\<close>, \<open>zksync_multivm\<close>, \<open>zkevm_opcode_defs\<close>, \<open>hex\<close>,
  \<open>serde_json\<close>). None of them is code of the repository, so they are not defined here:
  they are the fields of a record that every definition using one of them takes as its
  argument \<open>E\<close>.
\<close>

record ext =
  \<comment> \<open>hashing and byte conversions\<close>
  x_keccak256 :: "bytes \<Rightarrow> h256"
  x_bytecode_to_code_hash :: "bytes list \<Rightarrow> h256 option"
  x_hash_bytecode :: "bytes \<Rightarrow> h256 option"
  x_bytes_to_be_words :: "bytes \<Rightarrow> u256 list"
  x_u256_to_be_bytes :: "u256 \<Rightarrow> bytes"
  x_hex_encode :: "bytes \<Rightarrow> string"
  x_hex_decode :: "string \<Rightarrow> (string, bytes) res"
  \<comment> \<open>storage keys and packed storage values\<close>
  x_eth_balance_key :: "address \<Rightarrow> storage_key"
  x_token_balance_key :: "address \<Rightarrow> address \<Rightarrow> storage_key"
  x_nonce_key :: "address \<Rightarrow> storage_key"
  x_code_key :: "address \<Rightarrow> storage_key"
  x_decompose_full_nonce :: "u256 \<Rightarrow> u256 \<times> u256"
  x_nonces_to_full_nonce :: "u256 \<Rightarrow> u256 \<Rightarrow> u256"
  x_unpack_block_info :: "u256 \<Rightarrow> u64 \<times> u64"
  x_h256_to_account_address :: "h256 \<Rightarrow> address"
  x_legacy_block_hash :: "u32 \<Rightarrow> h256"
  \<comment> \<open>system addresses and limits\<close>
  x_system_context_address :: address
  x_block_info_position :: h256
  x_account_code_storage_address :: address
  x_contract_deployer_address :: address
  x_bootloader_address :: address
  x_base_token_address :: address
  x_batch_gas_limit :: u64
  x_batch_computational_gas_limit :: u32
  x_eth_call_gas_limit :: u64
  x_max_l2_tx_gas_limit :: u64
  x_max_l1_tx_gas_limit :: u64
  x_eip_1559_tx_type :: u64
  x_max_vm_pubdata_per_batch :: u32
  x_protocol_version_latest :: u16
  x_l1_gas_per_pubdata_byte :: u32
  x_bytes_per_derived_key :: u32
  x_bytes_per_enumeration_index :: u32
  x_compress_with_best_strategy :: "u256 \<Rightarrow> u256 \<Rightarrow> bytes"
  \<comment> \<open>files embedded in the binary, artifacts read at run time, genesis\<close>
  x_system_address :: "string \<Rightarrow> address"
  x_include_bytes :: "string \<Rightarrow> bytes"
  x_artifact_bytecode :: "bytes \<Rightarrow> string option option"
  x_read_sys_contract_bytecode :: "string \<Rightarrow> bytes"
  x_read_zbin_bytecode :: "string \<Rightarrow> bytes"
  x_get_system_smart_contracts :: "(address \<times> bytes) list"
  x_system_context_init_writes :: "u64 \<Rightarrow> (storage_key \<times> h256) list"
  x_l2_chain_id_try_from :: "u64 \<Rightarrow> u64 option"
  \<comment> \<open>transactions and requests\<close>
  x_tx_hash :: "l2_tx \<Rightarrow> h256"
  x_tx_payer :: "l2_tx \<Rightarrow> address"
  x_tx_encoding_len :: "l2_tx \<Rightarrow> nat"
  x_tx_type_code :: "tx_type \<Rightarrow> u32"
  x_extract_chain_id :: "l2_tx \<Rightarrow> u64 option"
  x_set_input :: "l2_tx \<Rightarrow> bytes \<Rightarrow> h256 \<Rightarrow> l2_tx"
  x_api_tx_of_l2_tx :: "l2_tx \<Rightarrow> api_tx"
  x_default_signature :: bytes
  x_l2_tx_from_request :: "tx_request \<Rightarrow> nat \<Rightarrow> (string, l2_tx) res"
  x_request_of_call :: "call_request \<Rightarrow> tx_request"
  x_request_from_bytes :: "bytes \<Rightarrow> u64 \<Rightarrow> (string, tx_request \<times> h256) res"
  x_request_tx_hash :: "tx_request \<Rightarrow> (string, h256) res"
  x_request_signed_bytes :: "tx_request \<Rightarrow> (string, bytes) res"
  x_datetime_from_timestamp :: "64 word \<Rightarrow> u32 \<Rightarrow> (64 word \<times> u32) option"
  x_fmt_h256 :: "h256 \<Rightarrow> string"
  x_fmt_address :: "address \<Rightarrow> string"
  x_parse_h256 :: "string \<Rightarrow> h256 option"
  x_web3_display :: "web3_error \<Rightarrow> string"
  \<comment> \<open>fees\<close>
  x_scale_fee_input :: "fee_params \<Rightarrow> f64 \<Rightarrow> f64 \<Rightarrow> batch_fee_input"
  x_adjust_pubdata_price :: "batch_fee_input \<Rightarrow> u256 \<Rightarrow> batch_fee_input"
  x_derive_base_fee_and_gas_per_pubdata :: "batch_fee_input \<Rightarrow> u64 \<times> u64"
  x_derive_overhead :: "u64 \<Rightarrow> u32 \<Rightarrow> nat \<Rightarrow> u8 \<Rightarrow> u32"
  x_max_gas_per_pubdata_byte :: u64
  \<comment> \<open>the virtual machine and the storage readers that come with it\<close>
  x_load_last_l2_block :: "l2_block option sprog"
  x_vm_bootloader :: "l1_batch_env \<Rightarrow> system_env \<Rightarrow> unit sprog"
  x_vm_inspect_with_compression :: "l1_batch_env \<Rightarrow> system_env \<Rightarrow> l2_tx \<Rightarrow> inspect_out sprog"
  x_vm_run_tx :: "l1_batch_env \<Rightarrow> system_env \<Rightarrow> l2_tx \<Rightarrow> run_out sprog"

text \<open>The hexadecimal text of a byte string with the prefix that JSON-RPC data carries.\<close>

definition hex_0x :: "ext \<Rightarrow> bytes \<Rightarrow> string" where
  "hex_0x E bs = ''0x'' @ x_hex_encode E bs"

section \<open>A concrete instance\<close>

text \<open>
  An instance for the witnesses: simple functions of the right types that behave as the code
  expects of the libraries (distinct storage keys, a virtual machine that succeeds at once).
\<close>

definition ext0 :: ext where
  "ext0 = \<lparr>x_keccak256 = \<lambda>bs. foldl (\<lambda>h b. h + ucast b) 1040 bs,
     x_bytecode_to_code_hash = \<lambda>cs. Some (of_nat (length cs)),
     x_hash_bytecode = \<lambda>bs. Some (of_nat (length bs)),
     x_bytes_to_be_words = \<lambda>_. [], x_u256_to_be_bytes = \<lambda>_. [],
     x_hex_encode = \<lambda>_. [], x_hex_decode = \<lambda>_. Ok [],
     x_eth_balance_key = \<lambda>a. StorageKey 10 (ucast a),
     x_token_balance_key = \<lambda>t a. StorageKey t (ucast a),
     x_nonce_key = \<lambda>a. StorageKey 3 (ucast a), x_code_key = \<lambda>a. StorageKey 2 (ucast a),
     x_decompose_full_nonce = \<lambda>n. (n mod 2 ^ 128, n div 2 ^ 128),
     x_nonces_to_full_nonce = \<lambda>t d. t + d * 2 ^ 128,
     x_unpack_block_info = \<lambda>v. (ucast (v div 2 ^ 128), ucast v),
     x_h256_to_account_address = \<lambda>h. ucast h, x_legacy_block_hash = \<lambda>n. ucast n,
     x_system_context_address = 11, x_block_info_position = 0,
     x_account_code_storage_address = 2, x_contract_deployer_address = 6,
     x_bootloader_address = 1, x_base_token_address = 10,
     x_batch_gas_limit = 100000000, x_batch_computational_gas_limit = 100000000,
     x_eth_call_gas_limit = 50000000, x_max_l2_tx_gas_limit = 80000000,
     x_max_l1_tx_gas_limit = 72000000, x_eip_1559_tx_type = 2,
     x_max_vm_pubdata_per_batch = 100000, x_protocol_version_latest = 25,
     x_l1_gas_per_pubdata_byte = 17, x_bytes_per_derived_key = 32, x_bytes_per_enumeration_index = 4,
     x_compress_with_best_strategy = \<lambda>_ _. [1],
     x_system_address = \<lambda>_. 5, x_include_bytes = \<lambda>_. [], x_artifact_bytecode = \<lambda>_. Some (Some ''0x''),
     x_read_sys_contract_bytecode = \<lambda>_. [], x_read_zbin_bytecode = \<lambda>_. [],
     x_get_system_smart_contracts = [], x_system_context_init_writes = \<lambda>_. [],
     x_l2_chain_id_try_from = Some,
     x_tx_hash = \<lambda>tx. ucast (nonce tx) + 500, x_tx_payer = initiator, x_tx_encoding_len = \<lambda>_. 10,
     x_tx_type_code = \<lambda>_. 2, x_extract_chain_id = \<lambda>_. None,
     x_set_input = \<lambda>tx bs h. tx\<lparr>tx_input := Some \<lparr>in_hash = h, in_data = bs\<rparr>\<rparr>,
     x_api_tx_of_l2_tx = \<lambda>tx. \<lparr>at_hash = ucast (nonce tx) + 500, at_nonce = ucast (nonce tx),
       at_block_hash = None, at_block_number = None, at_transaction_index = None,
       at_from = Some (initiator tx), at_to = recipient tx, at_value = tx_value tx,
       at_gas_price = None, at_gas = gas_limit (tx_fee tx), at_input = calldata tx,
       at_v = None, at_r = None, at_s = None, at_raw = None, at_transaction_type = None,
       at_max_fee_per_gas = None, at_max_priority_fee_per_gas = None, at_chain_id = 260,
       at_l1_batch_number = None, at_l1_batch_tx_index = None\<rparr>,
     x_default_signature = [1], x_l2_tx_from_request = \<lambda>_ _. Err ''unsupported'',
     x_request_of_call = \<lambda>c. \<lparr>rq_gas = 0, rq_gas_price = 0, rq_max_priority_fee_per_gas = None,
       rq_transaction_type = None, rq_chain_id = None, rq_r = None, rq_s = None, rq_v = None,
       rq_rest = cr_rest c\<rparr>,
     x_request_from_bytes = \<lambda>_ _. Err ''unsupported'', x_request_tx_hash = \<lambda>_. Err ''unsupported'',
     x_request_signed_bytes = \<lambda>_. Err ''unsupported'',
     x_datetime_from_timestamp = \<lambda>s n. Some (s, n),
     x_fmt_h256 = \<lambda>h. dec_string (unat h), x_fmt_address = \<lambda>a. dec_string (unat a),
     x_parse_h256 = \<lambda>s. map_option of_nat (dec_value 0 s), x_web3_display = \<lambda>_. ''error'',
     x_scale_fee_input = \<lambda>_ _ _. PubdataIndependent 1 1 1, x_adjust_pubdata_price = \<lambda>f _. f,
     x_derive_base_fee_and_gas_per_pubdata = \<lambda>_. (1, 1), x_derive_overhead = \<lambda>_ _ _ _. 0,
     x_max_gas_per_pubdata_byte = 50000,
     x_load_last_l2_block = Return None, x_vm_bootloader = \<lambda>_ _. Return (),
     x_vm_inspect_with_compression = \<lambda>_ _ _. Return \<lparr>io_compressed = Ok [],
       io_result = \<lparr>vm_exec = Success [], vm_events = [], vm_storage_logs = [], vm_gas_used = 0,
         vm_computational_gas_used = 0, vm_pubdata_published = 0, vm_gas_refunded = 0\<rparr>,
       io_traces = [], io_debug_slots = \<lambda>_. 0, io_bootloader = Return ()\<rparr>,
     x_vm_run_tx = \<lambda>_ _ _. Return \<lparr>ro_result =
       \<lparr>vm_exec = Success [], vm_events = [], vm_storage_logs = [], vm_gas_used = 0,
         vm_computational_gas_used = 0, vm_pubdata_published = 0, vm_gas_refunded = 0\<rparr>,
       ro_traces = []\<rparr>\<rparr>"

lemma hash_of_zeros [simp]: "foldl (\<lambda>h b. h + ucast (b :: 8 word)) (a :: 256 word) (map (\<lambda>_. 0) xs) = a"
  by (induction xs) simp_all

end
