(* ===== verification/Config.thy ===== *)
theory Config
  imports Prelude
begin

text \<open>
  The configuration of the node (\<open>src/config/mod.rs\<close>, \<open>src/config/cli.rs\<close>): the
  option types with their parsers and printers, the defaults, and the way command line
  options override a configuration file; and the log filter directives of
  \<open>src/observability.rs\<close>. The default values of the source are instances of the class
  \<open>default\<close>.
\<close>

section \<open>Options\<close>

datatype show_calls = ShowCallsNone | ShowCallsUser | ShowCallsSystem | ShowCallsAll

datatype show_storage_logs =
  ShowStorageLogsNone | ShowStorageLogsRead | ShowStorageLogsWrite | ShowStorageLogsPaid | ShowStorageLogsAll

datatype show_vm_details = ShowVMDetailsNone | ShowVMDetailsAll

datatype show_gas_details = ShowGasDetailsNone | ShowGasDetailsAll

datatype contracts_option = BuiltIn | LocalContracts | BuiltInWithoutSecurity

datatype cache_config = CacheNone | CacheMemory | CacheDisk (cache_dir: string) (cache_reset: bool)

datatype log_level = LevelTrace | LevelDebug | LevelInfo | LevelWarn | LevelError

datatype cache_type = CacheTypeNone | CacheTypeMemory | CacheTypeDisk

datatype dev_system_contracts = DevBuiltIn | DevBuiltInNoVerify | DevLocal

subsection \<open>Parsing and printing\<close>

definition to_lower :: "char \<Rightarrow> char" where
  "to_lower c = (let k = of_char c :: nat in if 65 \<le> k \<and> k \<le> 90 then char_of (k + 32) else c)"

definition to_lowercase :: "string \<Rightarrow> string" where
  "to_lowercase s = map to_lower s"

definition parse_show_calls :: "string \<Rightarrow> (string, show_calls) res" where
  "parse_show_calls s =
     (let l = to_lowercase s in
      if l = ''none'' then Ok ShowCallsNone
      else if l = ''user'' then Ok ShowCallsUser
      else if l = ''system'' then Ok ShowCallsSystem
      else if l = ''all'' then Ok ShowCallsAll
      else Err (''Unknown ShowCalls value '' @ s @ '' - expected one of none|user|system|all.''))"

fun print_show_calls :: "show_calls \<Rightarrow> string" where
  "print_show_calls ShowCallsNone = ''None''"
| "print_show_calls ShowCallsUser = ''User''"
| "print_show_calls ShowCallsSystem = ''System''"
| "print_show_calls ShowCallsAll = ''All''"

definition parse_show_storage_logs :: "string \<Rightarrow> (string, show_storage_logs) res" where
  "parse_show_storage_logs s =
     (let l = to_lowercase s in
      if l = ''none'' then Ok ShowStorageLogsNone
      else if l = ''read'' then Ok ShowStorageLogsRead
      else if l = ''write'' then Ok ShowStorageLogsWrite
      else if l = ''paid'' then Ok ShowStorageLogsPaid
      else if l = ''all'' then Ok ShowStorageLogsAll
      else Err (''Unknown ShowStorageLogs value '' @ s @ '' - expected one of none|read|write|paid|all.''))"

fun print_show_storage_logs :: "show_storage_logs \<Rightarrow> string" where
  "print_show_storage_logs ShowStorageLogsNone = ''None''"
| "print_show_storage_logs ShowStorageLogsRead = ''Read''"
| "print_show_storage_logs ShowStorageLogsWrite = ''Write''"
| "print_show_storage_logs ShowStorageLogsPaid = ''Paid''"
| "print_show_storage_logs ShowStorageLogsAll = ''All''"

definition parse_show_vm_details :: "string \<Rightarrow> (string, show_vm_details) res" where
  "parse_show_vm_details s =
     (let l = to_lowercase s in
      if l = ''none'' then Ok ShowVMDetailsNone
      else if l = ''all'' then Ok ShowVMDetailsAll
      else Err (''Unknown ShowVMDetails value '' @ s @ '' - expected one of none|all.''))"

fun print_show_vm_details :: "show_vm_details \<Rightarrow> string" where
  "print_show_vm_details ShowVMDetailsNone = ''None''"
| "print_show_vm_details ShowVMDetailsAll = ''All''"

definition parse_show_gas_details :: "string \<Rightarrow> (string, show_gas_details) res" where
  "parse_show_gas_details s =
     (let l = to_lowercase s in
      if l = ''none'' then Ok ShowGasDetailsNone
      else if l = ''all'' then Ok ShowGasDetailsAll
      else Err (''Unknown ShowGasDetails value '' @ s @ '' - expected one of none|all.''))"

fun print_show_gas_details :: "show_gas_details \<Rightarrow> string" where
  "print_show_gas_details ShowGasDetailsNone = ''None''"
| "print_show_gas_details ShowGasDetailsAll = ''All''"

section \<open>Configuration\<close>

record gas_estimation =
  price_scale_factor :: "64 word option"
  limit_scale_factor :: "32 word option"

record gas_config =
  gc_l1_gas_price :: "u64 option"
  gc_l2_gas_price :: "u64 option"
  gc_estimation :: "gas_estimation option"

definition DEFAULT_L1_GAS_PRICE :: u64 where "DEFAULT_L1_GAS_PRICE = 50000000000"
definition DEFAULT_L2_GAS_PRICE :: u64 where "DEFAULT_L2_GAS_PRICE = 25000000"
definition DEFAULT_FAIR_PUBDATA_PRICE :: u64 where "DEFAULT_FAIR_PUBDATA_PRICE = 450000000000"

text \<open>The bit patterns of the \<open>f64\<close> 1.5 and the \<open>f32\<close> 1.3.\<close>

definition DEFAULT_ESTIMATE_GAS_PRICE_SCALE_FACTOR :: "64 word" where
  "DEFAULT_ESTIMATE_GAS_PRICE_SCALE_FACTOR = 0x3FF8000000000000"
definition DEFAULT_ESTIMATE_GAS_SCALE_FACTOR :: "32 word" where
  "DEFAULT_ESTIMATE_GAS_SCALE_FACTOR = 0x3FA66666"

record node_config =
  nc_port :: u16
  nc_show_calls :: show_calls
  nc_show_outputs :: bool
  nc_show_storage_logs :: show_storage_logs
  nc_show_vm_details :: show_vm_details
  nc_show_gas_details :: show_gas_details
  nc_resolve_hashes :: bool
  nc_system_contracts_options :: contracts_option

record log_config =
  lc_level :: log_level
  lc_file_path :: string

record test_node_config =
  tc_node :: node_config
  tc_gas :: "gas_config option"
  tc_log :: log_config
  tc_cache :: cache_config

instantiation show_calls :: default begin
definition "default = ShowCallsNone"
instance ..
end

instantiation show_storage_logs :: default begin
definition "default = ShowStorageLogsNone"
instance ..
end

instantiation show_vm_details :: default begin
definition "default = ShowVMDetailsNone"
instance ..
end

instantiation show_gas_details :: default begin
definition "default = ShowGasDetailsNone"
instance ..
end

instantiation contracts_option :: default begin
definition "default = BuiltIn"
instance ..
end

instantiation log_level :: default begin
definition "default = LevelInfo"
instance ..
end

instantiation cache_config :: default begin
definition "default = CacheDisk ''.cache'' False"
instance ..
end

definition default_gas_config :: gas_config where
  "default_gas_config = \<lparr>gc_l1_gas_price = None, gc_l2_gas_price = None, gc_estimation = None\<rparr>"

definition default_node_config :: node_config where
  "default_node_config = \<lparr>nc_port = 8011, nc_show_calls = default, nc_show_outputs = False,
     nc_show_storage_logs = default, nc_show_vm_details = default, nc_show_gas_details = default,
     nc_resolve_hashes = False, nc_system_contracts_options = default\<rparr>"

definition default_log_config :: log_config where
  "default_log_config = \<lparr>lc_level = default, lc_file_path = ''era_test_node.log''\<rparr>"

definition default_test_node_config :: test_node_config where
  "default_test_node_config = \<lparr>tc_node = default_node_config, tc_gas = None,
     tc_log = default_log_config, tc_cache = default\<rparr>"

section \<open>Command line\<close>

datatype command = Run | Fork string "u64 option" | ReplayTx string h256

record cli =
  cli_command :: "command option"
  cli_config :: "string option"
  cli_debug_mode :: bool
  cli_port :: "u16 option"
  cli_show_calls :: "show_calls option"
  cli_show_outputs :: "bool option"
  cli_show_storage_logs :: "show_storage_logs option"
  cli_show_vm_details :: "show_vm_details option"
  cli_show_gas_details :: "show_gas_details option"
  cli_l1_gas_price :: "u64 option"
  cli_l2_gas_price :: "u64 option"
  cli_resolve_hashes :: "bool option"
  cli_dev_system_contracts :: "dev_system_contracts option"
  cli_log :: "log_level option"
  cli_log_file_path :: "string option"
  cli_cache :: "cache_type option"
  cli_reset_cache :: "bool option"
  cli_cache_dir :: "string option"
  cli_override_bytecodes_dir :: "string option"

fun dev_contracts_option :: "dev_system_contracts \<Rightarrow> contracts_option" where
  "dev_contracts_option DevBuiltIn = BuiltIn"
| "dev_contracts_option DevBuiltInNoVerify = BuiltInWithoutSecurity"
| "dev_contracts_option DevLocal = LocalContracts"

definition set_opt :: "'v option \<Rightarrow> ('v \<Rightarrow> 's \<Rightarrow> 's) \<Rightarrow> 's \<Rightarrow> 's" where
  "set_opt m upd s = (case m of None \<Rightarrow> s | Some v \<Rightarrow> upd v s)"

definition override_node :: "cli \<Rightarrow> node_config \<Rightarrow> node_config" where
  "override_node opt c0 =
     (let c1 = set_opt (cli_port opt) (\<lambda>v c. c\<lparr>nc_port := v\<rparr>) c0;
          c2 = (if cli_debug_mode opt
                then c1\<lparr>nc_show_calls := ShowCallsAll, nc_show_outputs := True,
                        nc_show_gas_details := ShowGasDetailsAll, nc_resolve_hashes := True\<rparr>
                else c1);
          c3 = set_opt (cli_show_calls opt) (\<lambda>v c. c\<lparr>nc_show_calls := v\<rparr>) c2;
          c4 = set_opt (cli_show_outputs opt) (\<lambda>v c. c\<lparr>nc_show_outputs := v\<rparr>) c3;
          c5 = set_opt (cli_show_storage_logs opt) (\<lambda>v c. c\<lparr>nc_show_storage_logs := v\<rparr>) c4;
          c6 = set_opt (cli_show_vm_details opt) (\<lambda>v c. c\<lparr>nc_show_vm_details := v\<rparr>) c5;
          c7 = set_opt (cli_show_gas_details opt) (\<lambda>v c. c\<lparr>nc_show_gas_details := v\<rparr>) c6;
          c8 = set_opt (cli_resolve_hashes opt) (\<lambda>v c. c\<lparr>nc_resolve_hashes := v\<rparr>) c7
      in set_opt (cli_dev_system_contracts opt)
           (\<lambda>v c. c\<lparr>nc_system_contracts_options := dev_contracts_option v\<rparr>) c8)"

definition override_gas :: "cli \<Rightarrow> gas_config option \<Rightarrow> gas_config option" where
  "override_gas opt g0 =
     (let g1 = set_opt (cli_l1_gas_price opt)
                 (\<lambda>v g. Some ((unwrap_or g default_gas_config)\<lparr>gc_l1_gas_price := Some v\<rparr>)) g0
      in set_opt (cli_l2_gas_price opt)
           (\<lambda>v g. Some ((unwrap_or g default_gas_config)\<lparr>gc_l2_gas_price := Some v\<rparr>)) g1)"

definition override_log :: "cli \<Rightarrow> log_config \<Rightarrow> log_config" where
  "override_log opt l0 =
     (let l1 = set_opt (cli_log opt) (\<lambda>v l. l\<lparr>lc_level := v\<rparr>) l0
      in set_opt (cli_log_file_path opt) (\<lambda>v l. l\<lparr>lc_file_path := v\<rparr>) l1)"

text \<open>\<open>None\<close> is the panic on a missing cache directory.\<close>

definition override_cache :: "cli \<Rightarrow> cache_config \<Rightarrow> cache_config option" where
  "override_cache opt c =
     (case cli_cache opt of
        None \<Rightarrow> Some c
      | Some CacheTypeNone \<Rightarrow> Some CacheNone
      | Some CacheTypeMemory \<Rightarrow> Some CacheMemory
      | Some CacheTypeDisk \<Rightarrow>
          (case cli_cache_dir opt of
             None \<Rightarrow> None
           | Some dir \<Rightarrow> Some (CacheDisk dir (unwrap_or (cli_reset_cache opt) False))))"

definition override_with_opts :: "cli \<Rightarrow> test_node_config \<Rightarrow> test_node_config option" where
  "override_with_opts opt c =
     (case override_cache opt (tc_cache c) of
        None \<Rightarrow> None
      | Some cache \<Rightarrow>
          Some (c\<lparr>tc_node := override_node opt (tc_node c), tc_gas := override_gas opt (tc_gas c),
                  tc_log := override_log opt (tc_log c), tc_cache := cache\<rparr>))"

section \<open>Log directives\<close>

text \<open>
  A \<open>LevelFilter\<close> is one of the five levels; its lower-case name is what the directives use.
  The filter state of the subscriber is the directive string last accepted by
  \<open>parse_filter\<close>; whether a directive parses is decided by the library (\<open>valid\<close>).
\<close>

fun level_name :: "log_level \<Rightarrow> string" where
  "level_name LevelTrace = ''trace''"
| "level_name LevelDebug = ''debug''"
| "level_name LevelInfo = ''info''"
| "level_name LevelWarn = ''warn''"
| "level_name LevelError = ''error''"

fun print_log_level :: "log_level \<Rightarrow> string" where
  "print_log_level LevelTrace = ''TRACE''"
| "print_log_level LevelDebug = ''DEBUG''"
| "print_log_level LevelInfo = ''INFO''"
| "print_log_level LevelWarn = ''WARN''"
| "print_log_level LevelError = ''ERROR''"

fun join :: "string \<Rightarrow> string list \<Rightarrow> string" where
  "join sep [] = []"
| "join sep [x] = x"
| "join sep (x # xs) = x @ sep @ join sep xs"

record observability =
  ob_binary_names :: "string list"
  ob_reload_handle :: "string option"

fun split_on :: "char \<Rightarrow> string \<Rightarrow> string list" where
  "split_on c [] = [[]]"
| "split_on c (x # xs) =
     (if x = c then [] # split_on c xs
      else case split_on c xs of [] \<Rightarrow> [[x]] | y # ys \<Rightarrow> (x # y) # ys)"

definition parse_filter :: "(string \<Rightarrow> bool) \<Rightarrow> string \<Rightarrow> (string, string) res" where
  "parse_filter valid directive =
     (if list_all valid (split_on (CHR '','') directive) then Ok directive else Err ''invalid filter directive'')"

definition init_directive :: "string list \<Rightarrow> log_level \<Rightarrow> string" where
  "init_directive names level = join '','' (map (\<lambda>x. x @ ''='' @ level_name level) names)"

definition init_observability ::
  "(string \<Rightarrow> bool) \<Rightarrow> string list \<Rightarrow> log_level \<Rightarrow> (string, observability) res" where
  "init_observability valid names level =
     rbind (parse_filter valid (init_directive names level)) (\<lambda>f.
       Ok \<lparr>ob_binary_names = names, ob_reload_handle = Some f\<rparr>)"

definition set_level_directive :: "string list \<Rightarrow> log_level \<Rightarrow> string" where
  "set_level_directive names level = join (''='' @ level_name level @ '','') names"

definition modify_filter :: "observability \<Rightarrow> string \<Rightarrow> observability" where
  "modify_filter ob f =
     ob\<lparr>ob_reload_handle := (case ob_reload_handle ob of None \<Rightarrow> None | Some _ \<Rightarrow> Some f)\<rparr>"

definition set_log_level ::
  "(string \<Rightarrow> bool) \<Rightarrow> log_level \<Rightarrow> observability \<Rightarrow> observability \<times> (string, unit) res" where
  "set_log_level valid level ob =
     (case parse_filter valid (set_level_directive (ob_binary_names ob) level) of
        Ok f \<Rightarrow> (modify_filter ob f, Ok ())
      | Err e \<Rightarrow> (ob, Err e)
      | Panic \<Rightarrow> (ob, Panic))"

definition set_logging ::
  "(string \<Rightarrow> bool) \<Rightarrow> string \<Rightarrow> observability \<Rightarrow> observability \<times> (string, unit) res" where
  "set_logging valid directive ob =
     (case parse_filter valid directive of
        Ok f \<Rightarrow> (modify_filter ob f, Ok ())
      | Err e \<Rightarrow> (ob, Err e)
      | Panic \<Rightarrow> (ob, Panic))"

section \<open>Properties\<close>

text \<open>What the four display options print is read back, and so is every mixture of upper and
  lower case of it.\<close>

theorem show_options_roundtrip:
  "parse_show_calls (print_show_calls a) = Ok a \<and>
   parse_show_calls (to_lowercase (print_show_calls a)) = Ok a \<and>
   parse_show_storage_logs (print_show_storage_logs b) = Ok b \<and>
   parse_show_storage_logs (to_lowercase (print_show_storage_logs b)) = Ok b \<and>
   parse_show_vm_details (print_show_vm_details c) = Ok c \<and>
   parse_show_vm_details (to_lowercase (print_show_vm_details c)) = Ok c \<and>
   parse_show_gas_details (print_show_gas_details d) = Ok d \<and>
   parse_show_gas_details (to_lowercase (print_show_gas_details d)) = Ok d"
proof -
  have "parse_show_calls (print_show_calls a) = Ok a \<and>
        parse_show_calls (to_lowercase (print_show_calls a)) = Ok a"
    by (cases a; simp only:; code_simp)
  moreover have "parse_show_storage_logs (print_show_storage_logs b) = Ok b \<and>
        parse_show_storage_logs (to_lowercase (print_show_storage_logs b)) = Ok b"
    by (cases b; simp only:; code_simp)
  moreover have "parse_show_vm_details (print_show_vm_details c) = Ok c \<and>
        parse_show_vm_details (to_lowercase (print_show_vm_details c)) = Ok c"
    by (cases c; simp only:; code_simp)
  moreover have "parse_show_gas_details (print_show_gas_details d) = Ok d \<and>
        parse_show_gas_details (to_lowercase (print_show_gas_details d)) = Ok d"
    by (cases d; simp only:; code_simp)
  ultimately show ?thesis by blast
qed

lemma set_opt_simps [simp]: "set_opt None upd s = s" "set_opt (Some v) upd s = upd v s"
  by (simp_all add: set_opt_def)

lemma override_node_port: "nc_port (override_node opt c) = unwrap_or (cli_port opt) (nc_port c)"
  by (simp add: override_node_def set_opt_def unwrap_or_def Let_def split: option.splits)

lemma override_node_debug:
  "nc_show_calls (override_node opt c) = unwrap_or (cli_show_calls opt)
      (if cli_debug_mode opt then ShowCallsAll else nc_show_calls c)"
  "nc_show_outputs (override_node opt c) = unwrap_or (cli_show_outputs opt)
      (cli_debug_mode opt \<or> nc_show_outputs c)"
  "nc_show_gas_details (override_node opt c) = unwrap_or (cli_show_gas_details opt)
      (if cli_debug_mode opt then ShowGasDetailsAll else nc_show_gas_details c)"
  "nc_resolve_hashes (override_node opt c) = unwrap_or (cli_resolve_hashes opt)
      (cli_debug_mode opt \<or> nc_resolve_hashes c)"
  by (simp_all add: override_node_def set_opt_def unwrap_or_def Let_def split: option.splits)

lemma override_node_plain:
  "nc_show_storage_logs (override_node opt c) =
      unwrap_or (cli_show_storage_logs opt) (nc_show_storage_logs c)"
  "nc_show_vm_details (override_node opt c) =
      unwrap_or (cli_show_vm_details opt) (nc_show_vm_details c)"
  "nc_system_contracts_options (override_node opt c) =
      unwrap_or (map_option dev_contracts_option (cli_dev_system_contracts opt)) (nc_system_contracts_options c)"
  by (simp_all add: override_node_def set_opt_def unwrap_or_def Let_def split: option.splits)

text \<open>C37: the precedence of the settings. Unless the command line asks for a disk cache without
  naming its directory (a panic), every one of the eight node settings is the command line's value
  when given, else the debug mode's value for the four settings debug mode turns on, else the
  file's; so are the level and the file of the log; the two gas prices override the file's one by
  one; the cache is replaced as a whole, by the kind that is asked for, a disk cache with the
  directory of the command line and reset only when it says so.\<close>

theorem override_precedence:
  "(override_with_opts opt c = None \<longleftrightarrow> cli_cache opt = Some CacheTypeDisk \<and> cli_cache_dir opt = None) \<and>
   (\<forall>c'. override_with_opts opt c = Some c' \<longrightarrow>
      nc_port (tc_node c') = unwrap_or (cli_port opt) (nc_port (tc_node c)) \<and>
      nc_show_calls (tc_node c') = unwrap_or (cli_show_calls opt)
        (if cli_debug_mode opt then ShowCallsAll else nc_show_calls (tc_node c)) \<and>
      nc_show_outputs (tc_node c') = unwrap_or (cli_show_outputs opt)
        (cli_debug_mode opt \<or> nc_show_outputs (tc_node c)) \<and>
      nc_show_gas_details (tc_node c') = unwrap_or (cli_show_gas_details opt)
        (if cli_debug_mode opt then ShowGasDetailsAll else nc_show_gas_details (tc_node c)) \<and>
      nc_resolve_hashes (tc_node c') = unwrap_or (cli_resolve_hashes opt)
        (cli_debug_mode opt \<or> nc_resolve_hashes (tc_node c)) \<and>
      nc_show_storage_logs (tc_node c') =
        unwrap_or (cli_show_storage_logs opt) (nc_show_storage_logs (tc_node c)) \<and>
      nc_show_vm_details (tc_node c') = unwrap_or (cli_show_vm_details opt) (nc_show_vm_details (tc_node c)) \<and>
      nc_system_contracts_options (tc_node c') = (case cli_dev_system_contracts opt of
          None \<Rightarrow> nc_system_contracts_options (tc_node c)
        | Some DevBuiltIn \<Rightarrow> BuiltIn
        | Some DevBuiltInNoVerify \<Rightarrow> BuiltInWithoutSecurity
        | Some DevLocal \<Rightarrow> LocalContracts) \<and>
      tc_gas c' = (if cli_l1_gas_price opt = None \<and> cli_l2_gas_price opt = None then tc_gas c
        else let g = unwrap_or (tc_gas c) default_gas_config in
          Some (g\<lparr>gc_l1_gas_price := or_else (cli_l1_gas_price opt) (gc_l1_gas_price g),
                  gc_l2_gas_price := or_else (cli_l2_gas_price opt) (gc_l2_gas_price g)\<rparr>)) \<and>
      tc_log c' = \<lparr>lc_level = unwrap_or (cli_log opt) (lc_level (tc_log c)),
        lc_file_path = unwrap_or (cli_log_file_path opt) (lc_file_path (tc_log c))\<rparr> \<and>
      (cli_cache opt = None \<longrightarrow> tc_cache c' = tc_cache c) \<and>
      (cli_cache opt = Some CacheTypeNone \<longrightarrow> tc_cache c' = CacheNone) \<and>
      (cli_cache opt = Some CacheTypeMemory \<longrightarrow> tc_cache c' = CacheMemory) \<and>
      (cli_cache opt = Some CacheTypeDisk \<longrightarrow>
         (\<exists>dir. cli_cache_dir opt = Some dir \<and> tc_cache c' = CacheDisk dir (cli_reset_cache opt = Some True))))"
proof (intro conjI allI impI)
  show "override_with_opts opt c = None \<longleftrightarrow> cli_cache opt = Some CacheTypeDisk \<and> cli_cache_dir opt = None"
    by (auto simp: override_with_opts_def override_cache_def split: option.splits cache_type.splits)
next
  fix c' assume c': "override_with_opts opt c = Some c'"
  then have n: "tc_node c' = override_node opt (tc_node c)"
    and g: "tc_gas c' = override_gas opt (tc_gas c)" and l: "tc_log c' = override_log opt (tc_log c)"
    by (auto simp: override_with_opts_def split: option.splits)
  show "tc_gas c' = (if cli_l1_gas_price opt = None \<and> cli_l2_gas_price opt = None then tc_gas c
        else let g = unwrap_or (tc_gas c) default_gas_config in
          Some (g\<lparr>gc_l1_gas_price := or_else (cli_l1_gas_price opt) (gc_l1_gas_price g),
                  gc_l2_gas_price := or_else (cli_l2_gas_price opt) (gc_l2_gas_price g)\<rparr>))"
    by (cases "cli_l1_gas_price opt"; cases "cli_l2_gas_price opt")
       (simp_all add: g override_gas_def Let_def)
  show "tc_log c' = \<lparr>lc_level = unwrap_or (cli_log opt) (lc_level (tc_log c)),
        lc_file_path = unwrap_or (cli_log_file_path opt) (lc_file_path (tc_log c))\<rparr>"
    by (simp add: l override_log_def set_opt_def unwrap_or_def Let_def split: option.splits)
  show "nc_system_contracts_options (tc_node c') = (case cli_dev_system_contracts opt of
          None \<Rightarrow> nc_system_contracts_options (tc_node c)
        | Some DevBuiltIn \<Rightarrow> BuiltIn
        | Some DevBuiltInNoVerify \<Rightarrow> BuiltInWithoutSecurity
        | Some DevLocal \<Rightarrow> LocalContracts)"
    by (simp add: n override_node_plain unwrap_or_def split: option.split dev_system_contracts.split)
qed (auto simp: override_with_opts_def override_cache_def override_node_port override_node_debug override_node_plain
       unwrap_or_def split: option.splits)

definition witness_cli :: cli where
  "witness_cli = \<lparr>cli_command = None, cli_config = None, cli_debug_mode = True, cli_port = None,
     cli_show_calls = Some ShowCallsUser, cli_show_outputs = None, cli_show_storage_logs = None,
     cli_show_vm_details = None, cli_show_gas_details = None, cli_l1_gas_price = Some 7,
     cli_l2_gas_price = None, cli_resolve_hashes = None, cli_dev_system_contracts = None,
     cli_log = None, cli_log_file_path = None, cli_cache = None, cli_reset_cache = None,
     cli_cache_dir = None, cli_override_bytecodes_dir = None\<rparr>"

definition overriding_cli :: cli where
  "overriding_cli = witness_cli\<lparr>cli_show_vm_details := Some ShowVMDetailsAll, cli_dev_system_contracts := Some DevLocal,
     cli_log_file_path := Some ''node.log'', cli_cache := Some CacheTypeDisk, cli_cache_dir := Some ''cache''\<rparr>"

lemma override_precedence_witness:
  "\<exists>c'. override_with_opts overriding_cli default_test_node_config = Some c' \<and>
     nc_show_calls (tc_node c') = ShowCallsUser \<and> nc_show_outputs (tc_node c') \<and>
     map_option gc_l1_gas_price (tc_gas c') = Some (Some 7) \<and> nc_show_vm_details (tc_node c') = ShowVMDetailsAll \<and>
     nc_system_contracts_options (tc_node c') = LocalContracts \<and> lc_file_path (tc_log c') = ''node.log'' \<and>
     tc_cache c' = CacheDisk ''cache'' False"
  using override_precedence [of overriding_cli default_test_node_config]
  by (cases "override_with_opts overriding_cli default_test_node_config")
     (simp_all add: overriding_cli_def witness_cli_def default_test_node_config_def)

lemma join_append:
  "join s (xs @ [x]) = concat (map (\<lambda>y. y @ s) xs) @ x"
proof (induction xs)
  case (Cons y ys)
  then show ?case by (cases ys) simp_all
qed simp

text \<open>The directive that \<open>set_log_level\<close> installs gives the level to every binary name but
  the last, while the directive of the start-up gives it to all of them; with the single
  name that the program registers, the level is never named.\<close>

theorem set_log_level_misses_last_name:
  "set_level_directive (names @ [n]) level =
     concat (map (\<lambda>x. x @ ''='' @ level_name level @ '','') names) @ n \<and>
   init_directive (names @ [n]) level =
     concat (map (\<lambda>x. x @ ''='' @ level_name level @ '','') names) @ n @ ''='' @ level_name level \<and>
   set_level_directive [''era_test_node''] LevelWarn = ''era_test_node'' \<and>
   init_directive [''era_test_node''] LevelWarn = ''era_test_node=warn''"
  by (simp add: set_level_directive_def init_directive_def join_append comp_def)

end
