(* ===== verification/Cache.thy ===== *)
theory Cache
  imports Externals Config
begin

text \<open>
  The cache of \<open>src/cache.rs\<close>: its maps, the lookups and insertions guarded by the
  configuration, and its persistence on disk.

  The disk is the contents of the cache directory: for every existing cache type directory
  its files with their contents, in the order a listing returns them. What the file system
  does that the code cannot decide (whether a directory can be made or removed, whether a
  file can be created, opened or fully written) and the JSON conversions of \<open>serde_json\<close>
  are the fields of the record \<open>io\<close>. The interface \<open>map_cache\<close> states what the callers
  of the cache rely on.
\<close>

section \<open>State\<close>

definition CACHE_TYPE_BLOCKS_FULL :: string where "CACHE_TYPE_BLOCKS_FULL = ''blocks_full''"
definition CACHE_TYPE_BLOCKS_MIN :: string where "CACHE_TYPE_BLOCKS_MIN = ''blocks_min''"
definition CACHE_TYPE_BLOCK_RAW_TRANSACTIONS :: string where
  "CACHE_TYPE_BLOCK_RAW_TRANSACTIONS = ''block_raw_transactions''"
definition CACHE_TYPE_TRANSACTIONS :: string where "CACHE_TYPE_TRANSACTIONS = ''transactions''"
definition CACHE_TYPE_RESOLVER_SELECTORS :: string where
  "CACHE_TYPE_RESOLVER_SELECTORS = ''resolver_selectors''"
definition CACHE_TYPE_KEY_VALUE :: string where "CACHE_TYPE_KEY_VALUE = ''key_value''"
definition CACHE_KEY_BRIDGE_ADDRESSES :: string where "CACHE_KEY_BRIDGE_ADDRESSES = ''bridge_addresses''"

lemmas cache_type_defs = CACHE_TYPE_BLOCKS_FULL_def CACHE_TYPE_BLOCKS_MIN_def
  CACHE_TYPE_BLOCK_RAW_TRANSACTIONS_def CACHE_TYPE_TRANSACTIONS_def
  CACHE_TYPE_RESOLVER_SELECTORS_def CACHE_TYPE_KEY_VALUE_def CACHE_KEY_BRIDGE_ADDRESSES_def

definition cache_types :: "string list" where
  "cache_types = [CACHE_TYPE_BLOCKS_FULL, CACHE_TYPE_BLOCKS_MIN, CACHE_TYPE_BLOCK_RAW_TRANSACTIONS,
     CACHE_TYPE_TRANSACTIONS, CACHE_TYPE_RESOLVER_SELECTORS, CACHE_TYPE_KEY_VALUE]"

record cache =
  ca_config :: cache_config
  ca_block_hashes :: "u64 \<rightharpoonup> h256"
  ca_blocks_full :: "h256 \<rightharpoonup> block"
  ca_blocks_min :: "h256 \<rightharpoonup> block"
  ca_block_raw_transactions :: "u64 \<rightharpoonup> raw_transaction list"
  ca_transactions :: "h256 \<rightharpoonup> api_tx"
  ca_resolver_selectors :: "string \<rightharpoonup> string"
  ca_bridge_addresses :: "bridge_addresses option"
  ca_confirmed_tokens :: "u32 \<times> u8 \<rightharpoonup> token list"

definition empty_cache :: "cache_config \<Rightarrow> cache" where
  "empty_cache config = \<lparr>ca_config = config, ca_block_hashes = Map.empty,
     ca_blocks_full = Map.empty, ca_blocks_min = Map.empty,
     ca_block_raw_transactions = Map.empty, ca_transactions = Map.empty,
     ca_resolver_selectors = Map.empty, ca_bridge_addresses = None,
     ca_confirmed_tokens = Map.empty\<rparr>"

type_synonym disk = "(string \<times> (string \<times> string) list) list"

record io =
  io_mkdir_ok :: "string \<Rightarrow> bool"
  io_rmdir_ok :: "string \<Rightarrow> bool"
  io_create_ok :: "string \<Rightarrow> string \<Rightarrow> bool"
  io_written :: "string \<Rightarrow> string \<Rightarrow> string \<Rightarrow> string"
  io_list_ok :: "string \<Rightarrow> bool"
  io_open_ok :: "string \<Rightarrow> string \<Rightarrow> bool"
  io_name_ok :: "string \<Rightarrow> bool"
  io_block_json :: "block \<Rightarrow> string"
  io_parse_block :: "string \<Rightarrow> block option"
  io_raw_json :: "raw_transaction list \<Rightarrow> string"
  io_parse_raw :: "string \<Rightarrow> raw_transaction list option"
  io_tx_json :: "api_tx \<Rightarrow> string"
  io_parse_tx :: "string \<Rightarrow> api_tx option"
  io_string_json :: "string \<Rightarrow> string"
  io_parse_string :: "string \<Rightarrow> string option"
  io_bridge_json :: "bridge_addresses \<Rightarrow> string"
  io_parse_bridge :: "string \<Rightarrow> bridge_addresses option"

text \<open>The cache together with the disk it writes to.\<close>

type_synonym cache_state = "cache \<times> disk"

section \<open>Disk\<close>

definition is_none :: "cache_config \<Rightarrow> bool" where
  "is_none c = (case c of CacheNone \<Rightarrow> True | _ \<Rightarrow> False)"

definition write_to_disk :: "io \<Rightarrow> cache \<Rightarrow> string \<Rightarrow> string \<Rightarrow> string \<Rightarrow> disk \<Rightarrow> disk" where
  "write_to_disk io c cache_type key data d =
     (case ca_config c of
        CacheDisk dir reset \<Rightarrow>
          (case map_of d cache_type of
             Some files \<Rightarrow>
               if io_create_ok io cache_type key
               then al_insert cache_type (al_insert key (io_written io cache_type key data) files) d
               else d
           | None \<Rightarrow> d)
      | _ \<Rightarrow> d)"

text \<open>\<open>u64::from_str\<close>: an optional plus sign, then decimal digits whose value fits.\<close>

definition parse_u64 :: "string \<Rightarrow> u64 option" where
  "parse_u64 s =
     (let ds = (case s of [] \<Rightarrow> [] | c # cs \<Rightarrow> if c = CHR ''+'' then cs else s) in
      if ds = [] then None
      else case dec_value 0 ds of
             None \<Rightarrow> None
           | Some n \<Rightarrow> if n < 2 ^ 64 then Some (of_nat n) else None)"

definition invalid_key :: "string \<Rightarrow> string" where
  "invalid_key key = ''invalid key for cache file '' @ key"

definition failed_parsing :: "string \<Rightarrow> string" where
  "failed_parsing key = ''failed parsing json for cache file '' @ key"

definition parsed :: "string \<Rightarrow> 'a option \<Rightarrow> (string, 'a) res" where
  "parsed key m = (case m of None \<Rightarrow> Err (failed_parsing key) | Some x \<Rightarrow> Ok x)"

definition valid_key :: "string \<Rightarrow> 'a option \<Rightarrow> (string, 'a) res" where
  "valid_key key m = (case m of None \<Rightarrow> Err (invalid_key key) | Some x \<Rightarrow> Ok x)"

definition load_entry :: "ext \<Rightarrow> io \<Rightarrow> string \<Rightarrow> string \<Rightarrow> string \<Rightarrow> cache \<Rightarrow> (string, cache) res" where
  "load_entry E io cache_type key content c =
     (if cache_type = CACHE_TYPE_BLOCKS_FULL then
        rbind (valid_key key (x_parse_h256 E key)) (\<lambda>k.
        rbind (parsed key (io_parse_block io content)) (\<lambda>block.
          Ok (c\<lparr>ca_block_hashes := (ca_block_hashes c)(b_number block \<mapsto> b_hash block),
                ca_blocks_full := (ca_blocks_full c)(k \<mapsto> block)\<rparr>)))
      else if cache_type = CACHE_TYPE_BLOCKS_MIN then
        rbind (valid_key key (x_parse_h256 E key)) (\<lambda>k.
        rbind (parsed key (io_parse_block io content)) (\<lambda>block.
          Ok (c\<lparr>ca_block_hashes := (ca_block_hashes c)(b_number block \<mapsto> b_hash block),
                ca_blocks_min := (ca_blocks_min c)(k \<mapsto> block)\<rparr>)))
      else if cache_type = CACHE_TYPE_BLOCK_RAW_TRANSACTIONS then
        rbind (valid_key key (parse_u64 key)) (\<lambda>k.
        rbind (parsed key (io_parse_raw io content)) (\<lambda>txs.
          Ok (c\<lparr>ca_block_raw_transactions := (ca_block_raw_transactions c)(k \<mapsto> txs)\<rparr>)))
      else if cache_type = CACHE_TYPE_TRANSACTIONS then
        rbind (valid_key key (x_parse_h256 E key)) (\<lambda>k.
        rbind (parsed key (io_parse_tx io content)) (\<lambda>tx.
          Ok (c\<lparr>ca_transactions := (ca_transactions c)(k \<mapsto> tx)\<rparr>)))
      else if cache_type = CACHE_TYPE_RESOLVER_SELECTORS then
        rbind (parsed key (io_parse_string io content)) (\<lambda>v.
          Ok (c\<lparr>ca_resolver_selectors := (ca_resolver_selectors c)(key \<mapsto> v)\<rparr>))
      else if cache_type = CACHE_TYPE_KEY_VALUE then
        (if key = CACHE_KEY_BRIDGE_ADDRESSES then
           rbind (parsed key (io_parse_bridge io content)) (\<lambda>br.
             Ok (c\<lparr>ca_bridge_addresses := Some br\<rparr>))
         else Err (''invalid cache_type_value key '' @ cache_type))
      else Err (''invalid cache_type '' @ cache_type))"

fun load_files ::
  "ext \<Rightarrow> io \<Rightarrow> string \<Rightarrow> (string \<times> string) list \<Rightarrow> cache \<Rightarrow> cache \<times> (string, unit) res" where
  "load_files E io cache_type [] c = (c, Ok ())"
| "load_files E io cache_type ((key, content) # files) c =
     (if \<not> io_name_ok io key then (c, Err ''failed converting filename to string'')
      else if \<not> io_open_ok io cache_type key then (c, Err (''failed reading file: '' @ key))
      else case load_entry E io cache_type key content c of
             Ok c' \<Rightarrow> load_files E io cache_type files c'
           | Err e \<Rightarrow> (c, Err e)
           | Panic \<Rightarrow> (c, Panic))"

fun load_types :: "ext \<Rightarrow> io \<Rightarrow> disk \<Rightarrow> string list \<Rightarrow> cache \<Rightarrow> cache \<times> (string, unit) res" where
  "load_types E io d [] c = (c, Ok ())"
| "load_types E io d (t # ts) c =
     (case (if io_list_ok io t then map_of d t else None) of
        None \<Rightarrow> (c, Err (''failed reading dir '' @ t))
      | Some files \<Rightarrow>
          (case load_files E io t files c of
             (c', Ok _) \<Rightarrow> load_types E io d ts c'
           | (c', r) \<Rightarrow> (c', r)))"

definition read_all_from_disk :: "ext \<Rightarrow> io \<Rightarrow> disk \<Rightarrow> cache \<Rightarrow> cache \<times> (string, unit) res" where
  "read_all_from_disk E io d c = load_types E io d cache_types c"

text \<open>
  \<open>None\<close> is the panic when a directory cannot be made. The removal of the cache directory
  itself after its type directories has no effect on what the cache reads.
\<close>

definition cache_new :: "ext \<Rightarrow> io \<Rightarrow> cache_config \<Rightarrow> disk \<Rightarrow> cache_state option" where
  "cache_new E io config d =
     (case config of
        CacheDisk dir reset \<Rightarrow>
          (let d1 = (if reset then filter (\<lambda>(t, _). \<not> (t \<in> set cache_types \<and> io_rmdir_ok io t)) d else d)
           in if list_all (io_mkdir_ok io) cache_types
              then let d2 = foldl (\<lambda>d t. if map_of d t = None then al_insert t [] d else d) d1 cache_types
                   in Some (fst (read_all_from_disk E io d2 (empty_cache config)), d2)
              else None)
      | _ \<Rightarrow> Some (empty_cache config, d))"

section \<open>Lookups\<close>

definition get_block :: "h256 \<Rightarrow> bool \<Rightarrow> cache \<Rightarrow> block option" where
  "get_block hash full_transactions c =
     (if is_none (ca_config c) then None
      else if full_transactions then ca_blocks_full c hash else ca_blocks_min c hash)"

definition get_block_hash :: "u64 \<Rightarrow> cache \<Rightarrow> h256 option" where
  "get_block_hash number c = (if is_none (ca_config c) then None else ca_block_hashes c number)"

definition get_block_raw_transactions :: "u64 \<Rightarrow> cache \<Rightarrow> raw_transaction list option" where
  "get_block_raw_transactions number c =
     (if is_none (ca_config c) then None else ca_block_raw_transactions c number)"

definition get_confirmed_tokens :: "u32 \<Rightarrow> u8 \<Rightarrow> cache \<Rightarrow> token list option" where
  "get_confirmed_tokens fr limit c =
     (if is_none (ca_config c) then None else ca_confirmed_tokens c (fr, limit))"

definition get_transaction :: "h256 \<Rightarrow> cache \<Rightarrow> api_tx option" where
  "get_transaction hash c = (if is_none (ca_config c) then None else ca_transactions c hash)"

definition get_resolver_selector :: "string \<Rightarrow> cache \<Rightarrow> string option" where
  "get_resolver_selector selector c =
     (if is_none (ca_config c) then None else ca_resolver_selectors c selector)"

definition get_bridge_addresses :: "cache \<Rightarrow> bridge_addresses option" where
  "get_bridge_addresses c = (if is_none (ca_config c) then None else ca_bridge_addresses c)"

section \<open>Insertions\<close>

definition insert_block :: "ext \<Rightarrow> io \<Rightarrow> h256 \<Rightarrow> bool \<Rightarrow> block \<Rightarrow> cache_state \<Rightarrow> cache_state" where
  "insert_block E io hash full_transactions block cd =
     (let (c, d) = cd in
      if is_none (ca_config c) then (c, d)
      else
        let c1 = c\<lparr>ca_block_hashes := (ca_block_hashes c)(b_number block \<mapsto> b_hash block)\<rparr> in
        if full_transactions
        then (c1\<lparr>ca_blocks_full := (ca_blocks_full c)(hash \<mapsto> block)\<rparr>,
              write_to_disk io c1 CACHE_TYPE_BLOCKS_FULL (x_fmt_h256 E hash) (io_block_json io block) d)
        else (c1\<lparr>ca_blocks_min := (ca_blocks_min c)(hash \<mapsto> block)\<rparr>,
              write_to_disk io c1 CACHE_TYPE_BLOCKS_MIN (x_fmt_h256 E hash) (io_block_json io block) d))"

definition insert_block_raw_transactions ::
  "io \<Rightarrow> u64 \<Rightarrow> raw_transaction list \<Rightarrow> cache_state \<Rightarrow> cache_state" where
  "insert_block_raw_transactions io number txs cd =
     (let (c, d) = cd in
      if is_none (ca_config c) then (c, d)
      else (c\<lparr>ca_block_raw_transactions := (ca_block_raw_transactions c)(number \<mapsto> txs)\<rparr>,
            write_to_disk io c CACHE_TYPE_BLOCK_RAW_TRANSACTIONS (dec_string (unat number))
              (io_raw_json io txs) d))"

definition set_confirmed_tokens :: "u32 \<Rightarrow> u8 \<Rightarrow> token list \<Rightarrow> cache_state \<Rightarrow> cache_state" where
  "set_confirmed_tokens fr limit tokens cd =
     (let (c, d) = cd in
      if is_none (ca_config c) then (c, d)
      else (c\<lparr>ca_confirmed_tokens := (ca_confirmed_tokens c)((fr, limit) \<mapsto> tokens)\<rparr>, d))"

definition insert_transaction :: "ext \<Rightarrow> io \<Rightarrow> h256 \<Rightarrow> api_tx \<Rightarrow> cache_state \<Rightarrow> cache_state" where
  "insert_transaction E io hash tx cd =
     (let (c, d) = cd in
      if is_none (ca_config c) then (c, d)
      else (c\<lparr>ca_transactions := (ca_transactions c)(hash \<mapsto> tx)\<rparr>,
            write_to_disk io c CACHE_TYPE_TRANSACTIONS (x_fmt_h256 E hash) (io_tx_json io tx) d))"

definition insert_resolver_selector :: "io \<Rightarrow> string \<Rightarrow> string \<Rightarrow> cache_state \<Rightarrow> cache_state" where
  "insert_resolver_selector io selector v cd =
     (let (c, d) = cd in
      if is_none (ca_config c) then (c, d)
      else (c\<lparr>ca_resolver_selectors := (ca_resolver_selectors c)(selector \<mapsto> v)\<rparr>,
            write_to_disk io c CACHE_TYPE_RESOLVER_SELECTORS selector (io_string_json io v) d))"

definition set_bridge_addresses :: "io \<Rightarrow> bridge_addresses \<Rightarrow> cache_state \<Rightarrow> cache_state" where
  "set_bridge_addresses io br cd =
     (let (c, d) = cd in
      if is_none (ca_config c) then (c, d)
      else (c\<lparr>ca_bridge_addresses := Some br\<rparr>,
            write_to_disk io c CACHE_TYPE_KEY_VALUE CACHE_KEY_BRIDGE_ADDRESSES (io_bridge_json io br) d))"

section \<open>The interface of a cached table\<close>

locale map_cache =
  fixes lookup :: "'k \<Rightarrow> 'c \<Rightarrow> 'v option"
    and insert_entry :: "'k \<Rightarrow> 'v \<Rightarrow> 'c \<Rightarrow> 'c"
    and enabled :: "'c \<Rightarrow> bool"
  assumes lookup_insert:
      "enabled c \<Longrightarrow> lookup k' (insert_entry k v c) = (if k' = k then Some v else lookup k' c)"
    and lookup_disabled: "\<not> enabled c \<Longrightarrow> lookup k c = None"
    and insert_disabled: "\<not> enabled c \<Longrightarrow> insert_entry k v c = c"
    and enabled_insert: "enabled (insert_entry k v c) = enabled c"
begin

fun insert_all :: "('k \<times> 'v) list \<Rightarrow> 'c \<Rightarrow> 'c" where
  "insert_all [] c = c"
| "insert_all ((k, v) # xs) c = insert_all xs (insert_entry k v c)"

lemma lookup_insert_all:
  "lookup k (insert_all xs c) =
     (if enabled c then (case map_of (rev xs) k of Some v \<Rightarrow> Some v | None \<Rightarrow> lookup k c) else None)"
  by (induction xs c rule: insert_all.induct)
     (auto simp: lookup_insert lookup_disabled insert_disabled enabled_insert map_add_def
        split: option.splits)

end

abbreviation cache_enabled :: "cache_state \<Rightarrow> bool" where
  "cache_enabled cd \<equiv> \<not> is_none (ca_config (fst cd))"

lemmas lookup_defs = get_block_def get_block_hash_def get_block_raw_transactions_def
  get_confirmed_tokens_def get_transaction_def get_resolver_selector_def get_bridge_addresses_def

lemmas insert_defs = insert_block_def insert_block_raw_transactions_def set_confirmed_tokens_def
  insert_transaction_def insert_resolver_selector_def set_bridge_addresses_def

lemma insert_config:
  "ca_config (fst (insert_block E io h f b cd)) = ca_config (fst cd)"
  "ca_config (fst (insert_block_raw_transactions io n txs cd)) = ca_config (fst cd)"
  "ca_config (fst (set_confirmed_tokens fr l ts cd)) = ca_config (fst cd)"
  "ca_config (fst (insert_transaction E io h tx cd)) = ca_config (fst cd)"
  "ca_config (fst (insert_resolver_selector io k v cd)) = ca_config (fst cd)"
  "ca_config (fst (set_bridge_addresses io br cd)) = ca_config (fst cd)"
  by (simp_all add: insert_defs split_beta Let_def)

interpretation blocks: map_cache "\<lambda>(h, f) cd. get_block h f (fst cd)"
  "\<lambda>(h, f). insert_block E io h f" cache_enabled for E io
  by unfold_locales (auto simp: get_block_def insert_block_def Let_def split: prod.splits)

interpretation raw_txs: map_cache "\<lambda>n cd. get_block_raw_transactions n (fst cd)"
  "insert_block_raw_transactions io" cache_enabled for io
  by unfold_locales
     (auto simp: get_block_raw_transactions_def insert_block_raw_transactions_def split: prod.splits)

interpretation tokens: map_cache "\<lambda>(fr, l) cd. get_confirmed_tokens fr l (fst cd)"
  "\<lambda>(fr, l). set_confirmed_tokens fr l" cache_enabled
  by unfold_locales (auto simp: get_confirmed_tokens_def set_confirmed_tokens_def split: prod.splits)

interpretation txs: map_cache "\<lambda>h cd. get_transaction h (fst cd)"
  "insert_transaction E io" cache_enabled for E io
  by unfold_locales (auto simp: get_transaction_def insert_transaction_def split: prod.splits)

interpretation selectors: map_cache "\<lambda>s cd. get_resolver_selector s (fst cd)"
  "insert_resolver_selector io" cache_enabled for io
  by unfold_locales (auto simp: get_resolver_selector_def insert_resolver_selector_def split: prod.splits)

interpretation bridges: map_cache "\<lambda>(_ :: unit) cd. get_bridge_addresses (fst cd)"
  "\<lambda>_. set_bridge_addresses io" cache_enabled for io
  by unfold_locales (auto simp: get_bridge_addresses_def set_bridge_addresses_def split: prod.splits)

end
