(* ===== verification/Http_Fork_Source.thy ===== *)
theory Http_Fork_Source
  imports Cache
begin

text \<open>
  \<open>src/http_fork_source.rs\<close>: the fork source that asks a remote node over HTTP and caches
  some of the answers. The remote node is the record \<open>remote\<close>, one function per request
  the source sends; a request may fail, and the client cannot be created when the URL does
  not parse (a panic). The state is the cache with its disk. No operation on the cache
  panics, so its lock is never poisoned.
\<close>

section \<open>Remote node\<close>

record remote =
  rm_url :: string
  rm_url_ok :: bool
  rm_storage_at :: "address \<Rightarrow> u256 \<Rightarrow> block_id option \<Rightarrow> (string, h256) res"
  rm_bytecode_by_hash :: "h256 \<Rightarrow> (string, bytes option) res"
  rm_transaction_by_hash :: "h256 \<Rightarrow> (string, api_tx option) res"
  rm_transaction_details :: "h256 \<Rightarrow> (string, transaction_details option) res"
  rm_raw_block_transactions :: "u32 \<Rightarrow> (string, raw_transaction list) res"
  rm_block_by_hash :: "h256 \<Rightarrow> bool \<Rightarrow> (string, block option) res"
  rm_block_by_number :: "block_number \<Rightarrow> bool \<Rightarrow> (string, block option) res"
  rm_block_details :: "u32 \<Rightarrow> (string, block_details option) res"
  rm_fee_params :: "(string, fee_params) res"
  rm_transaction_count_by_hash :: "h256 \<Rightarrow> (string, u256 option) res"
  rm_transaction_count_by_number :: "block_number \<Rightarrow> (string, u256 option) res"
  rm_transaction_by_block_hash_and_index :: "h256 \<Rightarrow> u64 \<Rightarrow> (string, api_tx option) res"
  rm_transaction_by_block_number_and_index :: "block_number \<Rightarrow> u64 \<Rightarrow> (string, api_tx option) res"
  rm_bridge_contracts :: "(string, bridge_addresses) res"
  rm_confirmed_tokens :: "u32 \<Rightarrow> u8 \<Rightarrow> (string, token list) res"
  rm_block_number :: "(string, u64) res"

text \<open>A request: \<open>create_client\<close>, then the call, with the error of \<open>wrap_err\<close> around it.\<close>

definition http_call :: "remote \<Rightarrow> string \<Rightarrow> (string, 'a) res \<Rightarrow> (string, 'a) res" where
  "http_call R wrap r = (if rm_url_ok R then map_err (\<lambda>_. wrap) r else Panic)"

definition client_failed :: string where
  "client_failed = ''fork http client failed''"

section \<open>Uncached requests\<close>

definition http_get_storage_at :: "remote \<Rightarrow> address \<Rightarrow> u256 \<Rightarrow> block_id option \<Rightarrow> (string, h256) res" where
  "http_get_storage_at R a i b = http_call R client_failed (rm_storage_at R a i b)"

definition http_get_bytecode_by_hash :: "remote \<Rightarrow> h256 \<Rightarrow> (string, bytes option) res" where
  "http_get_bytecode_by_hash R h = http_call R client_failed (rm_bytecode_by_hash R h)"

definition http_get_transaction_details :: "remote \<Rightarrow> h256 \<Rightarrow> (string, transaction_details option) res" where
  "http_get_transaction_details R h = http_call R client_failed (rm_transaction_details R h)"

definition http_get_block_transaction_count_by_hash :: "remote \<Rightarrow> h256 \<Rightarrow> (string, u256 option) res" where
  "http_get_block_transaction_count_by_hash R h =
     http_call R client_failed (rm_transaction_count_by_hash R h)"

definition http_get_block_transaction_count_by_number ::
  "remote \<Rightarrow> block_number \<Rightarrow> (string, u256 option) res" where
  "http_get_block_transaction_count_by_number R n =
     http_call R client_failed (rm_transaction_count_by_number R n)"

definition http_get_transaction_by_block_hash_and_index ::
  "remote \<Rightarrow> h256 \<Rightarrow> u64 \<Rightarrow> (string, api_tx option) res" where
  "http_get_transaction_by_block_hash_and_index R h i =
     http_call R client_failed (rm_transaction_by_block_hash_and_index R h i)"

definition http_get_transaction_by_block_number_and_index ::
  "remote \<Rightarrow> block_number \<Rightarrow> u64 \<Rightarrow> (string, api_tx option) res" where
  "http_get_transaction_by_block_number_and_index R n i =
     http_call R client_failed (rm_transaction_by_block_number_and_index R n i)"

definition http_get_block_details :: "remote \<Rightarrow> u32 \<Rightarrow> (string, block_details option) res" where
  "http_get_block_details R n =
     http_call R (''Failed to get block details for '' @ dec_string (unat n) @ '' l2 block in fork http client'')
       (rm_block_details R n)"

definition http_get_fee_params :: "remote \<Rightarrow> (string, fee_params) res" where
  "http_get_fee_params R = http_call R client_failed (rm_fee_params R)"

section \<open>Cached requests\<close>

text \<open>What an answer leaves in the cache, if anything.\<close>

definition remember :: "('v \<Rightarrow> 'c \<Rightarrow> 'c) \<Rightarrow> 'v option \<Rightarrow> 'c \<Rightarrow> 'c" where
  "remember put m c = (case m of None \<Rightarrow> c | Some v \<Rightarrow> put v c)"

definition http_get_transaction_by_hash ::
  "ext \<Rightarrow> io \<Rightarrow> remote \<Rightarrow> h256 \<Rightarrow> cache_state \<Rightarrow> (string, api_tx option) res \<times> cache_state" where
  "http_get_transaction_by_hash E io R hash cd =
     (case get_transaction hash (fst cd) of
        Some transaction \<Rightarrow> (Ok (Some transaction), cd)
      | None \<Rightarrow>
          (case http_call R client_failed (rm_transaction_by_hash R hash) of
             Ok maybe_transaction \<Rightarrow>
               (Ok maybe_transaction, remember (insert_transaction E io hash) maybe_transaction cd)
           | r \<Rightarrow> (r, cd)))"

definition http_get_raw_block_transactions ::
  "io \<Rightarrow> remote \<Rightarrow> u32 \<Rightarrow> cache_state \<Rightarrow> (string, raw_transaction list) res \<times> cache_state" where
  "http_get_raw_block_transactions io R block_number cd =
     (let number = ucast block_number :: u64 in
      case get_block_raw_transactions number (fst cd) of
        Some transactions \<Rightarrow> (Ok transactions, cd)
      | None \<Rightarrow>
          (case http_call R client_failed (rm_raw_block_transactions R block_number) of
             Ok transactions \<Rightarrow>
               (Ok transactions,
                remember (insert_block_raw_transactions io number)
                  (if transactions = [] then None else Some transactions) cd)
           | r \<Rightarrow> (r, cd)))"

definition http_get_block_by_hash ::
  "ext \<Rightarrow> io \<Rightarrow> remote \<Rightarrow> h256 \<Rightarrow> bool \<Rightarrow> cache_state \<Rightarrow> (string, block option) res \<times> cache_state" where
  "http_get_block_by_hash E io R hash full_transactions cd =
     (case get_block hash full_transactions (fst cd) of
        Some block \<Rightarrow> (Ok (Some block), cd)
      | None \<Rightarrow>
          (case http_call R client_failed (rm_block_by_hash R hash full_transactions) of
             Ok block \<Rightarrow> (Ok block, remember (insert_block E io hash full_transactions) block cd)
           | r \<Rightarrow> (r, cd)))"

definition cached_block_by_number :: "block_number \<Rightarrow> bool \<Rightarrow> cache \<Rightarrow> block option" where
  "cached_block_by_number bn full_transactions c =
     Option.bind (case bn of Number n \<Rightarrow> Some n | _ \<Rightarrow> None) (\<lambda>number.
     Option.bind (get_block_hash number c) (\<lambda>hash. get_block hash full_transactions c))"

definition http_get_block_by_number ::
  "ext \<Rightarrow> io \<Rightarrow> remote \<Rightarrow> block_number \<Rightarrow> bool \<Rightarrow> cache_state
     \<Rightarrow> (string, block option) res \<times> cache_state" where
  "http_get_block_by_number E io R bn full_transactions cd =
     (case cached_block_by_number bn full_transactions (fst cd) of
        Some block \<Rightarrow> (Ok (Some block), cd)
      | None \<Rightarrow>
          (case http_call R client_failed (rm_block_by_number R bn full_transactions) of
             Ok block \<Rightarrow>
               (Ok block, remember (\<lambda>b. insert_block E io (b_hash b) full_transactions b) block cd)
           | r \<Rightarrow> (r, cd)))"

definition http_get_bridge_contracts ::
  "io \<Rightarrow> remote \<Rightarrow> cache_state \<Rightarrow> (string, bridge_addresses) res \<times> cache_state" where
  "http_get_bridge_contracts io R cd =
     (case get_bridge_addresses (fst cd) of
        Some br \<Rightarrow> (Ok br, cd)
      | None \<Rightarrow>
          (case http_call R client_failed (rm_bridge_contracts R) of
             Ok br \<Rightarrow> (Ok br, set_bridge_addresses io br cd)
           | r \<Rightarrow> (r, cd)))"

definition http_get_confirmed_tokens ::
  "remote \<Rightarrow> u32 \<Rightarrow> u8 \<Rightarrow> cache_state \<Rightarrow> (string, token list) res \<times> cache_state" where
  "http_get_confirmed_tokens R fr limit cd =
     (case get_confirmed_tokens fr limit (fst cd) of
        Some tokens \<Rightarrow> (Ok tokens, cd)
      | None \<Rightarrow>
          (case http_call R client_failed (rm_confirmed_tokens R fr limit) of
             Ok tokens \<Rightarrow> (Ok tokens, set_confirmed_tokens fr limit tokens cd)
           | r \<Rightarrow> (r, cd)))"

section \<open>The interface of a read-through table\<close>

text \<open>
  A request answered through a cached table: a hit answers from the table, a miss asks the
  remote and keeps what the answer stores. Inside the locale, a table that only holds remote
  answers stays so, and every answer is the remote's.
\<close>

locale read_through = map_cache lookup insert_entry enabled
  for lookup :: "'k \<Rightarrow> 'c \<Rightarrow> 'v option"
    and insert_entry :: "'k \<Rightarrow> 'v \<Rightarrow> 'c \<Rightarrow> 'c"
    and enabled :: "'c \<Rightarrow> bool" +
  fixes fetch :: "'k \<Rightarrow> 'c \<Rightarrow> ('e, 'r) res \<times> 'c"
    and remote :: "'k \<Rightarrow> ('e, 'r) res"
    and store :: "'r \<Rightarrow> 'v option"
    and reply :: "'v \<Rightarrow> 'r"
  assumes fetch_hit: "lookup k c = Some v \<Longrightarrow> fetch k c = (Ok (reply v), c)"
    and fetch_miss: "lookup k c = None \<Longrightarrow> remote k = Ok r \<Longrightarrow>
      fetch k c = (Ok r, case store r of None \<Rightarrow> c | Some v \<Rightarrow> insert_entry k v c)"
    and fetch_fail: "lookup k c = None \<Longrightarrow> \<not> is_Ok (remote k) \<Longrightarrow> fetch k c = (remote k, c)"
    and reply_store: "store r = Some v \<Longrightarrow> reply v = r"
begin

definition coherent :: "'c \<Rightarrow> bool" where
  "coherent c \<longleftrightarrow> (\<forall>k v. lookup k c = Some v \<longrightarrow> remote k = Ok (reply v))"

lemma coherent_disabled: "\<not> enabled c \<Longrightarrow> coherent c"
  by (simp add: coherent_def lookup_disabled)

lemma coherent_insert:
  assumes "coherent c" and "remote k = Ok r" and "store r = Some v"
  shows "coherent (insert_entry k v c)"
proof (cases "enabled c")
  case True
  then show ?thesis using assms by (auto simp: coherent_def lookup_insert reply_store)
next
  case False
  then show ?thesis using assms by (simp add: insert_disabled)
qed

lemma fetch_state:
  "snd (fetch k c) = c \<or> (\<exists>r v. lookup k c = None \<and> remote k = Ok r \<and> store r = Some v \<and>
     snd (fetch k c) = insert_entry k v c)"
proof (cases "lookup k c")
  case None
  show ?thesis
  proof (cases "remote k")
    case (Ok r)
    then show ?thesis using None by (cases "store r") (simp_all add: fetch_miss)
  qed (simp_all add: None fetch_fail)
qed (simp add: fetch_hit)

lemma fetch_coherent: "coherent c \<Longrightarrow> coherent (snd (fetch k c))"
  using fetch_state [of k c] coherent_insert by metis

lemma fetch_remote: "coherent c \<Longrightarrow> fst (fetch k c) = remote k"
proof (cases "lookup k c")
  case None
  then show ?thesis by (cases "remote k") (simp_all add: fetch_miss fetch_fail)
next
  case (Some v)
  assume "coherent c"
  with Some show ?thesis by (simp add: fetch_hit coherent_def)
qed

lemma fetch_enabled: "enabled (snd (fetch k c)) = enabled c"
  using fetch_state [of k c] by (auto simp: enabled_insert)

lemma fetch_cached:
  assumes "enabled c" and "coherent c" and "remote k = Ok r" and "store r = Some v"
  shows "\<exists>w. lookup k (snd (fetch k c)) = Some w \<and> reply w = r"
proof (cases "lookup k c")
  case None
  then show ?thesis using assms by (simp add: fetch_miss lookup_insert reply_store)
next
  case (Some w)
  then show ?thesis using assms by (auto simp: fetch_hit coherent_def)
qed

end

subsection \<open>The cached requests are read-through tables\<close>

lemma http_call_not_Ok:
  "\<not> is_Ok (http_call R w r) \<Longrightarrow> (case http_call R w r of Ok x \<Rightarrow> f x | q \<Rightarrow> (q, cd)) = (http_call R w r, cd)"
  by (cases "http_call R w r") simp_all

interpretation tx_source: read_through "\<lambda>h cd. get_transaction h (fst cd)"
  "insert_transaction E io" cache_enabled "http_get_transaction_by_hash E io R"
  "\<lambda>h. http_call R client_failed (rm_transaction_by_hash R h)" "\<lambda>r. r" Some for E io R
  by unfold_locales
     (auto simp: http_get_transaction_by_hash_def remember_def split: option.splits res.splits)

interpretation block_source: read_through "\<lambda>(h, f) cd. get_block h f (fst cd)"
  "\<lambda>(h, f). insert_block E io h f" cache_enabled "\<lambda>(h, f). http_get_block_by_hash E io R h f"
  "\<lambda>(h, f). http_call R client_failed (rm_block_by_hash R h f)" "\<lambda>r. r" Some for E io R
  by unfold_locales
     (auto simp: http_get_block_by_hash_def remember_def split: option.splits res.splits)

definition raw_lookup :: "u32 \<Rightarrow> cache_state \<Rightarrow> raw_transaction list option" where
  "raw_lookup n cd = get_block_raw_transactions (ucast n) (fst cd)"

definition raw_insert :: "io \<Rightarrow> u32 \<Rightarrow> raw_transaction list \<Rightarrow> cache_state \<Rightarrow> cache_state" where
  "raw_insert io n = insert_block_raw_transactions io (ucast n)"

definition nonempty_list :: "'a list \<Rightarrow> 'a list option" where
  "nonempty_list xs = (if xs = [] then None else Some xs)"

lemma ucast_u32_u64_inj: "(ucast (a :: u32) :: u64) = ucast b \<longleftrightarrow> a = b"
  by (metis ucast_u32_u64)

interpretation raw_source: read_through raw_lookup "raw_insert io" cache_enabled
  "http_get_raw_block_transactions io R"
  "\<lambda>n. http_call R client_failed (rm_raw_block_transactions R n)" nonempty_list "\<lambda>v. v" for io R
proof unfold_locales
  show "cache_enabled c \<Longrightarrow> raw_lookup k' (raw_insert io k v c) = (if k' = k then Some v else raw_lookup k' c)"
    for c k' k v
    using raw_txs.lookup_insert [of c "ucast k'" io "ucast k" v]
    by (simp add: raw_lookup_def raw_insert_def ucast_u32_u64_inj)
qed (auto simp: raw_lookup_def raw_insert_def raw_txs.lookup_disabled raw_txs.insert_disabled
       insert_config nonempty_list_def http_get_raw_block_transactions_def Let_def remember_def
       split: option.splits res.splits if_splits)

interpretation bridge_source: read_through "\<lambda>(_ :: unit) cd. get_bridge_addresses (fst cd)"
  "\<lambda>_. set_bridge_addresses io" cache_enabled "\<lambda>_. http_get_bridge_contracts io R"
  "\<lambda>_. http_call R client_failed (rm_bridge_contracts R)" Some "\<lambda>v. v" for io R
  by unfold_locales (auto simp: http_get_bridge_contracts_def split: option.splits res.splits)

interpretation token_source: read_through "\<lambda>(fr, l) cd. get_confirmed_tokens fr l (fst cd)"
  "\<lambda>(fr, l). set_confirmed_tokens fr l" cache_enabled "\<lambda>(fr, l). http_get_confirmed_tokens R fr l"
  "\<lambda>(fr, l). http_call R client_failed (rm_confirmed_tokens R fr l)" Some "\<lambda>v. v" for R
  by unfold_locales (auto simp: http_get_confirmed_tokens_def split: option.splits res.splits)

section \<open>A session of requests\<close>

datatype http_request =
  ReqTx h256 | ReqRaw u32 | ReqBlockHash h256 bool | ReqBlockNumber block_number bool
| ReqBridge | ReqTokens u32 u8

datatype http_answer =
  AnsTx "(string, api_tx option) res" | AnsRaw "(string, raw_transaction list) res"
| AnsBlock "(string, block option) res" | AnsBridge "(string, bridge_addresses) res"
| AnsTokens "(string, token list) res"

fun serve :: "ext \<Rightarrow> io \<Rightarrow> remote \<Rightarrow> http_request \<Rightarrow> cache_state \<Rightarrow> http_answer \<times> cache_state" where
  "serve E io R (ReqTx h) cd = map_prod AnsTx id (http_get_transaction_by_hash E io R h cd)"
| "serve E io R (ReqRaw n) cd = map_prod AnsRaw id (http_get_raw_block_transactions io R n cd)"
| "serve E io R (ReqBlockHash h f) cd = map_prod AnsBlock id (http_get_block_by_hash E io R h f cd)"
| "serve E io R (ReqBlockNumber n f) cd = map_prod AnsBlock id (http_get_block_by_number E io R n f cd)"
| "serve E io R ReqBridge cd = map_prod AnsBridge id (http_get_bridge_contracts io R cd)"
| "serve E io R (ReqTokens fr l) cd = map_prod AnsTokens id (http_get_confirmed_tokens R fr l cd)"

fun serve_all ::
  "ext \<Rightarrow> io \<Rightarrow> remote \<Rightarrow> http_request list \<Rightarrow> cache_state \<Rightarrow> http_answer list \<times> cache_state" where
  "serve_all E io R [] cd = ([], cd)"
| "serve_all E io R (q # qs) cd =
     (let (a, cd1) = serve E io R q cd; (as, cd2) = serve_all E io R qs cd1 in (a # as, cd2))"

text \<open>The answer of the remote node itself, asked directly.\<close>

fun remote_answer :: "remote \<Rightarrow> http_request \<Rightarrow> http_answer" where
  "remote_answer R (ReqTx h) = AnsTx (http_call R client_failed (rm_transaction_by_hash R h))"
| "remote_answer R (ReqRaw n) = AnsRaw (http_call R client_failed (rm_raw_block_transactions R n))"
| "remote_answer R (ReqBlockHash h f) = AnsBlock (http_call R client_failed (rm_block_by_hash R h f))"
| "remote_answer R (ReqBlockNumber n f) = AnsBlock (http_call R client_failed (rm_block_by_number R n f))"
| "remote_answer R ReqBridge = AnsBridge (http_call R client_failed (rm_bridge_contracts R))"
| "remote_answer R (ReqTokens fr l) = AnsTokens (http_call R client_failed (rm_confirmed_tokens R fr l))"

text \<open>
  What the cache by block number relies on: the remote serves one chain. A block served by
  hash has that hash, is served under its own number and the two forms of it have the same
  number; a block served by number is served by its hash.
\<close>

definition serves_one_chain :: "remote \<Rightarrow> bool" where
  "serves_one_chain R \<longleftrightarrow>
     (\<forall>h f b. rm_block_by_hash R h f = Ok (Some b) \<longrightarrow>
        b_hash b = h \<and> rm_block_by_number R (Number (b_number b)) f = Ok (Some b)) \<and>
     (\<forall>h f f' b b'. rm_block_by_hash R h f = Ok (Some b) \<longrightarrow> rm_block_by_hash R h f' = Ok (Some b') \<longrightarrow>
        b_number b = b_number b') \<and>
     (\<forall>n f b. rm_block_by_number R n f = Ok (Some b) \<longrightarrow>
        rm_block_by_hash R (b_hash b) f = Ok (Some b))"

definition number_index_coherent :: "remote \<Rightarrow> cache \<Rightarrow> bool" where
  "number_index_coherent R c \<longleftrightarrow> (\<forall>n h. get_block_hash n c = Some h \<longrightarrow>
     (\<exists>f b. rm_block_by_hash R h f = Ok (Some b) \<and> b_number b = n))"

definition source_coherent :: "ext \<Rightarrow> io \<Rightarrow> remote \<Rightarrow> cache_state \<Rightarrow> bool" where
  "source_coherent E io R cd \<longleftrightarrow> tx_source.coherent R cd \<and> raw_source.coherent R cd \<and>
     block_source.coherent R cd \<and> bridge_source.coherent R cd \<and> token_source.coherent R cd \<and>
     number_index_coherent R (fst cd)"

lemmas coherent_defs = tx_source.coherent_def raw_source.coherent_def block_source.coherent_def
  bridge_source.coherent_def token_source.coherent_def number_index_coherent_def raw_lookup_def

subsection \<open>Insertions into one table leave the others alone\<close>

lemma insert_transaction_frame [frame]:
  "get_block h' f (fst (insert_transaction E io h v cd)) = get_block h' f (fst cd)"
  "get_block_hash n (fst (insert_transaction E io h v cd)) = get_block_hash n (fst cd)"
  "get_block_raw_transactions n (fst (insert_transaction E io h v cd)) = get_block_raw_transactions n (fst cd)"
  "get_bridge_addresses (fst (insert_transaction E io h v cd)) = get_bridge_addresses (fst cd)"
  "get_confirmed_tokens fr l (fst (insert_transaction E io h v cd)) = get_confirmed_tokens fr l (fst cd)"
  by (simp_all add: insert_transaction_def lookup_defs split_beta)

lemma insert_raw_frame [frame]:
  "get_block h' f (fst (insert_block_raw_transactions io n v cd)) = get_block h' f (fst cd)"
  "get_block_hash m (fst (insert_block_raw_transactions io n v cd)) = get_block_hash m (fst cd)"
  "get_transaction h' (fst (insert_block_raw_transactions io n v cd)) = get_transaction h' (fst cd)"
  "get_bridge_addresses (fst (insert_block_raw_transactions io n v cd)) = get_bridge_addresses (fst cd)"
  "get_confirmed_tokens fr l (fst (insert_block_raw_transactions io n v cd)) = get_confirmed_tokens fr l (fst cd)"
  by (simp_all add: insert_block_raw_transactions_def lookup_defs split_beta)

lemma insert_block_frame [frame]:
  "get_transaction h' (fst (insert_block E io h f v cd)) = get_transaction h' (fst cd)"
  "get_block_raw_transactions n (fst (insert_block E io h f v cd)) = get_block_raw_transactions n (fst cd)"
  "get_bridge_addresses (fst (insert_block E io h f v cd)) = get_bridge_addresses (fst cd)"
  "get_confirmed_tokens fr l (fst (insert_block E io h f v cd)) = get_confirmed_tokens fr l (fst cd)"
  by (simp_all add: insert_block_def lookup_defs split_beta Let_def)

lemma set_bridge_frame [frame]:
  "get_block h' f (fst (set_bridge_addresses io v cd)) = get_block h' f (fst cd)"
  "get_block_hash m (fst (set_bridge_addresses io v cd)) = get_block_hash m (fst cd)"
  "get_transaction h' (fst (set_bridge_addresses io v cd)) = get_transaction h' (fst cd)"
  "get_block_raw_transactions n (fst (set_bridge_addresses io v cd)) = get_block_raw_transactions n (fst cd)"
  "get_confirmed_tokens fr l (fst (set_bridge_addresses io v cd)) = get_confirmed_tokens fr l (fst cd)"
  by (simp_all add: set_bridge_addresses_def lookup_defs split_beta)

lemma set_tokens_frame [frame]:
  "get_block h' f (fst (set_confirmed_tokens fr l v cd)) = get_block h' f (fst cd)"
  "get_block_hash m (fst (set_confirmed_tokens fr l v cd)) = get_block_hash m (fst cd)"
  "get_transaction h' (fst (set_confirmed_tokens fr l v cd)) = get_transaction h' (fst cd)"
  "get_block_raw_transactions n (fst (set_confirmed_tokens fr l v cd)) = get_block_raw_transactions n (fst cd)"
  "get_bridge_addresses (fst (set_confirmed_tokens fr l v cd)) = get_bridge_addresses (fst cd)"
  by (simp_all add: set_confirmed_tokens_def lookup_defs split_beta)

lemma get_block_hash_insert:
  "get_block_hash n (fst (insert_block E io h f b cd)) =
     (if cache_enabled cd \<and> n = b_number b then Some (b_hash b) else get_block_hash n (fst cd))"
  by (auto simp: insert_block_def get_block_hash_def split_beta Let_def)

subsection \<open>Every request keeps the source coherent\<close>

lemma http_call_Ok: "http_call R w r = Ok x \<longleftrightarrow> rm_url_ok R \<and> r = Ok x"
  by (cases r) (auto simp: http_call_def)

lemma coherent_tx: "source_coherent E io R cd \<Longrightarrow> source_coherent E io R (snd (http_get_transaction_by_hash E io R h cd))"
  using tx_source.fetch_state [where k = h and c = cd and E = E and io = io and R = R]
    tx_source.fetch_coherent [where k = h and c = cd and E = E and io = io and R = R]
  by (fastforce simp: source_coherent_def coherent_defs frame)

lemma coherent_raw: "source_coherent E io R cd \<Longrightarrow> source_coherent E io R (snd (http_get_raw_block_transactions io R n cd))"
  using raw_source.fetch_state [where k = n and c = cd and io = io and R = R]
    raw_source.fetch_coherent [where k = n and c = cd and io = io and R = R]
  by (fastforce simp: source_coherent_def coherent_defs frame raw_insert_def)

lemma coherent_bridge: "source_coherent E io R cd \<Longrightarrow> source_coherent E io R (snd (http_get_bridge_contracts io R cd))"
  using bridge_source.fetch_state [where c = cd and io = io and R = R]
    bridge_source.fetch_coherent [where c = cd and io = io and R = R]
  by (fastforce simp: source_coherent_def coherent_defs frame)

lemma coherent_tokens: "source_coherent E io R cd \<Longrightarrow> source_coherent E io R (snd (http_get_confirmed_tokens R fr l cd))"
  using token_source.fetch_state [where k = "(fr, l)" and c = cd and R = R]
    token_source.fetch_coherent [where k = "(fr, l)" and c = cd and R = R]
  by (fastforce simp: source_coherent_def coherent_defs frame)

lemma coherent_insert_block:
  assumes "source_coherent E io R cd" and "serves_one_chain R" and "rm_url_ok R"
    and b: "rm_block_by_hash R (b_hash b) f = Ok (Some b)"
  shows "source_coherent E io R (insert_block E io (b_hash b) f b cd)"
proof -
  have "block_source.coherent R (insert_block E io (b_hash b) f b cd)"
    using block_source.coherent_insert [of R cd "(b_hash b, f)" "Some b" b E io] assms
    by (simp add: source_coherent_def http_call_Ok)
  moreover have "number_index_coherent R (fst (insert_block E io (b_hash b) f b cd))"
    using assms by (auto simp: source_coherent_def number_index_coherent_def get_block_hash_insert)
  ultimately show ?thesis
    using assms(1) by (simp add: source_coherent_def coherent_defs frame)
qed

lemma coherent_block_hash:
  assumes "source_coherent E io R cd" and "serves_one_chain R"
  shows "source_coherent E io R (snd (http_get_block_by_hash E io R h f cd))"
proof (cases "get_block h f (fst cd)")
  case None
  show ?thesis
  proof (cases "http_call R client_failed (rm_block_by_hash R h f)")
    case (Ok m)
    then have m: "rm_block_by_hash R h f = Ok m" "rm_url_ok R" by (simp_all add: http_call_Ok)
    have "source_coherent E io R (insert_block E io h f b cd)" if "m = Some b" for b
      using coherent_insert_block [OF assms m(2), of b f] m(1) that assms(2)
      by (auto simp: serves_one_chain_def)
    then show ?thesis
      using None Ok assms(1) by (cases m) (simp_all add: http_get_block_by_hash_def remember_def)
  qed (use None assms in \<open>simp_all add: http_get_block_by_hash_def\<close>)
qed (use assms in \<open>simp add: http_get_block_by_hash_def\<close>)

lemma coherent_block_number:
  assumes "source_coherent E io R cd" and "serves_one_chain R"
  shows "source_coherent E io R (snd (http_get_block_by_number E io R n f cd))"
proof (cases "cached_block_by_number n f (fst cd)")
  case None
  show ?thesis
  proof (cases "http_call R client_failed (rm_block_by_number R n f)")
    case (Ok m)
    then have m: "rm_block_by_number R n f = Ok m" "rm_url_ok R" by (simp_all add: http_call_Ok)
    have "source_coherent E io R (insert_block E io (b_hash b) f b cd)" if "m = Some b" for b
      using coherent_insert_block [OF assms m(2), of b f] m(1) that assms(2)
      by (auto simp: serves_one_chain_def)
    then show ?thesis
      using None Ok assms(1) by (cases m) (simp_all add: http_get_block_by_number_def remember_def)
  qed (use None assms in \<open>simp_all add: http_get_block_by_number_def\<close>)
qed (use assms in \<open>simp add: http_get_block_by_number_def\<close>)

lemma cached_block_by_number_remote:
  assumes "source_coherent E io R cd" and "serves_one_chain R"
    and "cached_block_by_number n f (fst cd) = Some b"
  shows "http_call R client_failed (rm_block_by_number R n f) = Ok (Some b)"
proof -
  obtain k h where n: "n = Number k" and h: "get_block_hash k (fst cd) = Some h"
    and b: "get_block h f (fst cd) = Some b"
    using assms(3) by (auto simp: cached_block_by_number_def bind_eq_Some_conv split: block_number.splits)
  have bh: "rm_block_by_hash R h f = Ok (Some b)" and url: "rm_url_ok R"
    using assms(1) b by (auto simp: source_coherent_def coherent_defs http_call_Ok)
  obtain f' b' where "rm_block_by_hash R h f' = Ok (Some b')" "b_number b' = k"
    using assms(1) h unfolding source_coherent_def number_index_coherent_def by blast
  then have "b_number b = k" using bh assms(2) unfolding serves_one_chain_def by metis
  then have "rm_block_by_number R (Number k) f = Ok (Some b)"
    using bh assms(2) unfolding serves_one_chain_def by metis
  then show ?thesis using n url by (simp add: http_call_Ok)
qed

lemma block_number_remote:
  assumes "source_coherent E io R cd" and "serves_one_chain R"
  shows "fst (http_get_block_by_number E io R n f cd) = http_call R client_failed (rm_block_by_number R n f)"
  using cached_block_by_number_remote [OF assms, of n f]
  by (auto simp: http_get_block_by_number_def split: option.splits res.splits)

lemma serve_coherent:
  assumes "source_coherent E io R cd" and "serves_one_chain R"
  shows "fst (serve E io R q cd) = remote_answer R q \<and> source_coherent E io R (snd (serve E io R q cd))"
proof (cases q)
  case (ReqTx h)
  then show ?thesis
    using assms coherent_tx tx_source.fetch_remote by (simp add: source_coherent_def)
next
  case (ReqRaw n)
  then show ?thesis
    using assms coherent_raw raw_source.fetch_remote by (simp add: source_coherent_def)
next
  case (ReqBlockHash h f)
  then show ?thesis
    using assms coherent_block_hash block_source.fetch_remote [where R = R and c = cd and k = "(h, f)"]
    by (simp add: source_coherent_def)
next
  case (ReqBlockNumber n f)
  then show ?thesis using assms coherent_block_number block_number_remote by simp
next
  case ReqBridge
  then show ?thesis
    using assms coherent_bridge bridge_source.fetch_remote [where R = R and c = cd]
    by (simp add: source_coherent_def)
next
  case (ReqTokens fr l)
  then show ?thesis
    using assms coherent_tokens token_source.fetch_remote [where R = R and c = cd and k = "(fr, l)"]
    by (simp add: source_coherent_def)
qed

lemma source_coherent_empty: "source_coherent E io R (empty_cache config, d)"
proof -
  have "get_transaction h (empty_cache config) = None" "get_block_raw_transactions n (empty_cache config) = None"
    "get_block h f (empty_cache config) = None" "get_bridge_addresses (empty_cache config) = None"
    "get_confirmed_tokens fr l (empty_cache config) = None" "get_block_hash n (empty_cache config) = None"
    for h n f fr l
    by (simp_all add: lookup_defs empty_cache_def)
  then show ?thesis by (simp add: source_coherent_def coherent_defs)
qed

lemma serve_all_coherent:
  "source_coherent E io R cd \<Longrightarrow> serves_one_chain R \<Longrightarrow>
   fst (serve_all E io R qs cd) = map (remote_answer R) qs \<and>
   source_coherent E io R (snd (serve_all E io R qs cd))"
proof (induction qs arbitrary: cd)
  case (Cons q qs)
  then show ?case
    using serve_coherent [of E io R cd q] by (simp add: split_beta)
qed simp

section \<open>Properties\<close>

text \<open>C22: caching is transparent. For a remote that serves one chain, whatever the cache
  configuration, every session of cached requests that starts with an empty cache answers
  each request exactly as the remote would, errors included.\<close>

theorem http_session_transparent:
  assumes "serves_one_chain R"
  shows "fst (serve_all E io R qs (empty_cache config, d)) = map (remote_answer R) qs"
  using serve_all_coherent [OF source_coherent_empty assms] ..

definition witness_block :: block where
  "witness_block = \<lparr>b_hash = 5, b_parent_hash = 4, b_number = 3, b_timestamp = 100,
     b_l1_batch_number = Some 3, b_transactions = [], b_gas_used = 0, b_gas_limit = 0\<rparr>"

definition witness_remote :: remote where
  "witness_remote = \<lparr>rm_url = ''http://localhost'', rm_url_ok = True,
     rm_storage_at = \<lambda>_ _ _. Ok 0, rm_bytecode_by_hash = \<lambda>_. Ok None,
     rm_transaction_by_hash = \<lambda>_. Ok None, rm_transaction_details = \<lambda>_. Ok None,
     rm_raw_block_transactions = \<lambda>_. Err ''not found'',
     rm_block_by_hash = \<lambda>h _. Ok (if h = 5 then Some witness_block else None),
     rm_block_by_number = \<lambda>n _. Ok (if n = Latest \<or> n = Number 3 then Some witness_block else None),
     rm_block_details = \<lambda>_. Ok None, rm_fee_params = Err ''no fees'',
     rm_transaction_count_by_hash = \<lambda>_. Ok None, rm_transaction_count_by_number = \<lambda>_. Ok None,
     rm_transaction_by_block_hash_and_index = \<lambda>_ _. Ok None,
     rm_transaction_by_block_number_and_index = \<lambda>_ _. Ok None,
     rm_bridge_contracts = Err ''no bridges'', rm_confirmed_tokens = \<lambda>_ _. Ok [],
     rm_block_number = Ok 3\<rparr>"

lemma witness_remote_chain: "serves_one_chain witness_remote"
  by (auto simp: serves_one_chain_def witness_remote_def witness_block_def split: if_splits)

lemma http_session_transparent_witness:
  "\<forall>E io d. fst (serve_all E io witness_remote
       [ReqBlockNumber Latest True, ReqBlockNumber (Number 3) True, ReqRaw 3] (empty_cache CacheMemory, d)) =
     [AnsBlock (Ok (Some witness_block)), AnsBlock (Ok (Some witness_block)), AnsRaw (Err client_failed)]"
  using http_session_transparent [OF witness_remote_chain, of _ _
      "[ReqBlockNumber Latest True, ReqBlockNumber (Number 3) True, ReqRaw 3]" CacheMemory]
  by (auto simp: http_call_def) (simp_all add: witness_remote_def)

lemma http_block_kept:
  assumes "cache_enabled cd" and "http_get_block_by_number E io R n f cd = (Ok (Some b), cd')"
    and "cached_block_by_number n f (fst cd) = None"
  shows "get_block (b_hash b) f (fst cd') = Some b \<and> get_block_hash (b_number b) (fst cd') = Some (b_hash b)"
proof -
  have cd': "cd' = insert_block E io (b_hash b) f b cd"
    using assms(2,3) by (auto simp: http_get_block_by_number_def remember_def split: res.splits option.splits)
  show ?thesis
    using assms(1) blocks.lookup_insert [of cd "(b_hash b, f)" E io "(b_hash b, f)" b]
    by (simp add: cd' get_block_hash_insert)
qed

text \<open>What the enabled cache has learnt needs no remote. A transaction or a block answered by a
  request is answered again, the same, by any later state of the remote (even a failing one):
  the transaction and the block by hash, and the block by its own number.\<close>

theorem http_answers_are_kept:
  assumes "cache_enabled cd"
  shows "(http_get_transaction_by_hash E io R h cd = (Ok (Some tx), cd1) \<longrightarrow>
           http_get_transaction_by_hash E io R' h cd1 = (Ok (Some tx), cd1)) \<and>
    (http_get_block_by_hash E io R h f cd = (Ok (Some b), cd2) \<longrightarrow>
           http_get_block_by_hash E io R' h f cd2 = (Ok (Some b), cd2)) \<and>
    (cached_block_by_number n f (fst cd) = None \<longrightarrow>
     http_get_block_by_number E io R n f cd = (Ok (Some b), cd3) \<longrightarrow>
           http_get_block_by_number E io R' (Number (b_number b)) f cd3 = (Ok (Some b), cd3) \<and>
           http_get_block_by_hash E io R' (b_hash b) f cd3 = (Ok (Some b), cd3))"
proof (intro conjI impI)
  assume a: "http_get_transaction_by_hash E io R h cd = (Ok (Some tx), cd1)"
  show "http_get_transaction_by_hash E io R' h cd1 = (Ok (Some tx), cd1)"
    using a assms txs.lookup_insert [of cd h E io h tx]
    by (auto simp: http_get_transaction_by_hash_def remember_def split: option.splits res.splits)
next
  assume a: "http_get_block_by_hash E io R h f cd = (Ok (Some b), cd2)"
  show "http_get_block_by_hash E io R' h f cd2 = (Ok (Some b), cd2)"
    using a assms blocks.lookup_insert [of cd "(h, f)" E io "(h, f)" b]
    by (auto simp: http_get_block_by_hash_def remember_def split: option.splits res.splits)
next
  assume miss: "cached_block_by_number n f (fst cd) = None"
    and a: "http_get_block_by_number E io R n f cd = (Ok (Some b), cd3)"
  note kept = http_block_kept [OF assms a miss]
  show "http_get_block_by_hash E io R' (b_hash b) f cd3 = (Ok (Some b), cd3)"
    using kept by (simp add: http_get_block_by_hash_def)
  show "http_get_block_by_number E io R' (Number (b_number b)) f cd3 = (Ok (Some b), cd3)"
    using kept by (simp add: http_get_block_by_number_def cached_block_by_number_def)
qed

lemma http_answers_are_kept_witness:
  "\<forall>E io R'. http_get_block_by_number E io R' (Number 3) True
       (insert_block E io 5 True witness_block (empty_cache CacheMemory, [])) =
     (Ok (Some witness_block), insert_block E io 5 True witness_block (empty_cache CacheMemory, []))"
proof (intro allI)
  fix E io R'
  have "http_get_block_by_number E io witness_remote Latest True (empty_cache CacheMemory, []) =
      (Ok (Some witness_block), insert_block E io 5 True witness_block (empty_cache CacheMemory, []))"
    by (simp add: http_get_block_by_number_def cached_block_by_number_def remember_def http_call_def)
       (simp add: witness_remote_def witness_block_def remember_def)
  then show "http_get_block_by_number E io R' (Number 3) True
       (insert_block E io 5 True witness_block (empty_cache CacheMemory, [])) =
     (Ok (Some witness_block), insert_block E io 5 True witness_block (empty_cache CacheMemory, []))"
    using http_answers_are_kept [where cd = "(empty_cache CacheMemory, [])" and n = Latest and f = True
        and R = witness_remote and b = witness_block and E = E and io = io and R' = R'
        and ?cd3.0 = "insert_block E io 5 True witness_block (empty_cache CacheMemory, [])"]
    by (simp add: cached_block_by_number_def empty_cache_def is_none_def witness_block_def)
qed

end
