(* ===== verification/Fork.thy ===== *)
theory Fork
  imports Http_Fork_Source
begin

text \<open>
  Networks, fork sources and fork details of \<open>src/fork.rs\<close>: the trait \<open>ForkSource\<close> as a
  record of functions, the construction of \<open>ForkDetails\<close> from a remote node, the selection
  of the transactions to replay and the gas prices of a forked block. A URL that parses has a
  remote node behind it: \<open>client\<close> maps it to that node, other URLs to \<open>None\<close>.
\<close>

section \<open>Networks\<close>

datatype fork_network = Mainnet | SepoliaTestnet | GoerliTestnet | OtherNetwork string

fun to_url :: "fork_network \<Rightarrow> string" where
  "to_url Mainnet = ''https://mainnet.era.zksync.io:443''"
| "to_url SepoliaTestnet = ''https://sepolia.era.zksync.dev:443''"
| "to_url GoerliTestnet = ''https://testnet.era.zksync.dev:443''"
| "to_url (OtherNetwork url) = url"

text \<open>The bit patterns of the \<open>f64\<close> values 1.5, 2.0, 1.2 and the \<open>f32\<close> value 1.2.\<close>

fun local_gas_scale_factors :: "fork_network \<Rightarrow> f64 \<times> f32" where
  "local_gas_scale_factors Mainnet = (0x3FF8000000000000, 0x3F99999A)"
| "local_gas_scale_factors SepoliaTestnet = (0x4000000000000000, 0x3F99999A)"
| "local_gas_scale_factors GoerliTestnet = (0x3FF3333333333333, 0x3F99999A)"
| "local_gas_scale_factors (OtherNetwork _) =
     (DEFAULT_ESTIMATE_GAS_PRICE_SCALE_FACTOR, DEFAULT_ESTIMATE_GAS_SCALE_FACTOR)"

section \<open>Fork sources\<close>

record fork_source =
  fs_fork_url :: "(string, string) res"
  fs_storage_at :: "address \<Rightarrow> u256 \<Rightarrow> block_id option \<Rightarrow> (string, h256) res"
  fs_bytecode_by_hash :: "h256 \<Rightarrow> (string, bytes option) res"
  fs_transaction_by_hash :: "h256 \<Rightarrow> (string, api_tx option) res"
  fs_transaction_details :: "h256 \<Rightarrow> (string, transaction_details option) res"
  fs_raw_block_transactions :: "u32 \<Rightarrow> (string, raw_transaction list) res"
  fs_block_by_hash :: "h256 \<Rightarrow> bool \<Rightarrow> (string, block option) res"
  fs_block_by_number :: "block_number \<Rightarrow> bool \<Rightarrow> (string, block option) res"
  fs_block_details :: "u32 \<Rightarrow> (string, block_details option) res"
  fs_fee_params :: "(string, fee_params) res"
  fs_transaction_count_by_hash :: "h256 \<Rightarrow> (string, u256 option) res"
  fs_transaction_count_by_number :: "block_number \<Rightarrow> (string, u256 option) res"
  fs_transaction_by_block_hash_and_index :: "h256 \<Rightarrow> u64 \<Rightarrow> (string, api_tx option) res"
  fs_transaction_by_block_number_and_index :: "block_number \<Rightarrow> u64 \<Rightarrow> (string, api_tx option) res"
  fs_bridge_contracts :: "(string, bridge_addresses) res"
  fs_confirmed_tokens :: "u32 \<Rightarrow> u8 \<Rightarrow> (string, token list) res"

text \<open>
  The HTTP source as a fork source: the remote's answers. That its cache does not change them
  is the transparency theorem of the theory of the HTTP source.
\<close>

definition http_fork_source :: "remote \<Rightarrow> fork_source" where
  "http_fork_source R = \<lparr>fs_fork_url = Ok (rm_url R),
     fs_storage_at = http_get_storage_at R,
     fs_bytecode_by_hash = http_get_bytecode_by_hash R,
     fs_transaction_by_hash = \<lambda>h. http_call R client_failed (rm_transaction_by_hash R h),
     fs_transaction_details = http_get_transaction_details R,
     fs_raw_block_transactions = \<lambda>n. http_call R client_failed (rm_raw_block_transactions R n),
     fs_block_by_hash = \<lambda>h f. http_call R client_failed (rm_block_by_hash R h f),
     fs_block_by_number = \<lambda>n f. http_call R client_failed (rm_block_by_number R n f),
     fs_block_details = http_get_block_details R,
     fs_fee_params = http_get_fee_params R,
     fs_transaction_count_by_hash = http_get_block_transaction_count_by_hash R,
     fs_transaction_count_by_number = http_get_block_transaction_count_by_number R,
     fs_transaction_by_block_hash_and_index = http_get_transaction_by_block_hash_and_index R,
     fs_transaction_by_block_number_and_index = http_get_transaction_by_block_number_and_index R,
     fs_bridge_contracts = http_call R client_failed (rm_bridge_contracts R),
     fs_confirmed_tokens = \<lambda>fr l. http_call R client_failed (rm_confirmed_tokens R fr l)\<rparr>"

record fork_details =
  fd_source :: fork_source
  fd_l1_block :: u32
  fd_l2_block :: block
  fd_l2_miniblock :: u64
  fd_l2_miniblock_hash :: h256
  fd_block_timestamp :: u64
  fd_overwrite_chain_id :: "u64 option"
  fd_l1_gas_price :: u64
  fd_l2_fair_gas_price :: u64
  fd_fair_pubdata_price :: u64
  fd_price_scale_factor :: f64
  fd_scale_factor :: f32
  fd_fee_params :: "fee_params option"
  fd_cache_config :: cache_config

section \<open>Protocol versions\<close>

definition SUPPORTED_VERSIONS :: "u16 list" where
  "SUPPORTED_VERSIONS = [9, 10, 11, 12, 13, 14, 15, 16, 17, 18, 19, 20, 21, 22, 23, 24, 25]"

definition supported_protocol_versions :: "u16 \<Rightarrow> bool" where
  "supported_protocol_versions version = (version \<in> set SUPPORTED_VERSIONS)"

definition version_name :: "u16 \<Rightarrow> string" where
  "version_name v = ''Version'' @ dec_string (unat v)"

definition supported_versions_to_string :: string where
  "supported_versions_to_string = join '', '' (map version_name SUPPORTED_VERSIONS)"

section \<open>Creating fork details\<close>

definition quoted :: "string \<Rightarrow> string" where
  "quoted s = CHR 0x22 # s @ [CHR 0x22]"

definition print_version_option :: "u16 option \<Rightarrow> string" where
  "print_version_option v = (case v of None \<Rightarrow> ''None'' | Some n \<Rightarrow> ''Some('' @ version_name n @ '')'')"

definition ok_or :: "'a option \<Rightarrow> 'e \<Rightarrow> ('e, 'a) res" where
  "ok_or m e = (case m of None \<Rightarrow> Err e | Some x \<Rightarrow> Ok x)"

text \<open>
  \<open>Panic\<close> stands for the panics of the library client and of a cache directory that cannot
  be made. The block number is cut to 32 bits by the cast, as in the code.
\<close>

definition from_network_and_miniblock_and_chain ::
  "ext \<Rightarrow> io \<Rightarrow> disk \<Rightarrow> fork_network \<Rightarrow> remote \<Rightarrow> u64 \<Rightarrow> u64 option \<Rightarrow> cache_config
     \<Rightarrow> (string, fork_details) res" where
  "from_network_and_miniblock_and_chain E io d network R miniblock chain_id cache_config =
     (let url = to_url network; number = dec_string (unat miniblock) in
      rbind (rm_block_details R (ucast miniblock)) (\<lambda>opt_block_details.
      rbind (ok_or opt_block_details
        (''Could not find block '' @ number @ '' in '' @ quoted url)) (\<lambda>block_details.
      rbind (ok_or (bd_root_hash block_details)
        (''fork block #'' @ number @ '' missing root hash'')) (\<lambda>root_hash.
      rbind (rm_block_by_hash R root_hash True) (\<lambda>opt_block.
      rbind (ok_or opt_block
        (''Could not find block #'' @ number @ '' ('' @ x_fmt_h256 E root_hash @ '') in '' @ quoted url)) (\<lambda>block.
      if \<not> (case bd_protocol_version block_details of
               None \<Rightarrow> False | Some v \<Rightarrow> supported_protocol_versions v)
      then Err (''This block is using the unsupported protocol version: '' @
                print_version_option (bd_protocol_version block_details) @
                ''. This binary supports versions '' @ supported_versions_to_string @ ''.'')
      else
        (let (price_scale, gas_scale) = local_gas_scale_factors network;
             fee_params = res_ok (rm_fee_params R)
         in case cache_new E io cache_config d of
              None \<Rightarrow> Panic
            | Some _ \<Rightarrow>
                Ok \<lparr>fd_source = http_fork_source R,
                    fd_l1_block = bd_l1_batch_number block_details,
                    fd_l2_block = block,
                    fd_l2_miniblock = miniblock,
                    fd_l2_miniblock_hash = root_hash,
                    fd_block_timestamp = bd_timestamp block_details,
                    fd_overwrite_chain_id = chain_id,
                    fd_l1_gas_price = bd_l1_gas_price block_details,
                    fd_l2_fair_gas_price = bd_l2_fair_gas_price block_details,
                    fd_fair_pubdata_price =
                      unwrap_or (bd_fair_pubdata_price block_details) DEFAULT_FAIR_PUBDATA_PRICE,
                    fd_price_scale_factor = price_scale,
                    fd_scale_factor = gas_scale,
                    fd_fee_params = fee_params,
                    fd_cache_config = cache_config\<rparr>)))))))"

definition parse_fork_network :: "string \<Rightarrow> fork_network" where
  "parse_fork_network fork =
     (if fork = ''mainnet'' then Mainnet
      else if fork = ''sepolia-testnet'' then SepoliaTestnet
      else if fork = ''goerli-testnet'' then GoerliTestnet
      else OtherNetwork fork)"

definition fork_network_and_client ::
  "(string \<Rightarrow> remote option) \<Rightarrow> string \<Rightarrow> (string, fork_network \<times> remote) res" where
  "fork_network_and_client client fork =
     (let network = parse_fork_network fork; url = to_url network in
      case client url of
        None \<Rightarrow> Err (''Unable to parse client URL: '' @ url)
      | Some R \<Rightarrow> Ok (network, R))"

definition from_network ::
  "ext \<Rightarrow> io \<Rightarrow> disk \<Rightarrow> (string \<Rightarrow> remote option) \<Rightarrow> string \<Rightarrow> u64 option \<Rightarrow> cache_config
     \<Rightarrow> (string, fork_details) res" where
  "from_network E io d client fork fork_at cache_config =
     rbind (fork_network_and_client client fork) (\<lambda>(network, R).
     rbind (case fork_at of Some n \<Rightarrow> Ok n | None \<Rightarrow> rm_block_number R) (\<lambda>l2_miniblock.
       from_network_and_miniblock_and_chain E io d network R l2_miniblock None cache_config))"

definition from_network_tx ::
  "ext \<Rightarrow> io \<Rightarrow> disk \<Rightarrow> (string \<Rightarrow> remote option) \<Rightarrow> string \<Rightarrow> h256 \<Rightarrow> cache_config
     \<Rightarrow> (string, fork_details) res" where
  "from_network_tx E io d client fork tx cache_config =
     rbind (fork_network_and_client client fork) (\<lambda>(network, R).
     rbind (rm_transaction_by_hash R tx) (\<lambda>opt_tx_details.
     rbind (ok_or opt_tx_details (''could not find '' @ x_fmt_h256 E tx)) (\<lambda>tx_details.
     rbind (expect (as_u64 (at_chain_id tx_details))) (\<lambda>chain_id.
     rbind (ok_or (x_l2_chain_id_try_from E chain_id)
        (''erroneous chain id '' @ dec_string (unat (at_chain_id tx_details)))) (\<lambda>overwrite_chain_id.
     rbind (ok_or (at_block_number tx_details)
        (''tx '' @ x_fmt_h256 E tx @ '' has no block number'')) (\<lambda>block_number.
     rbind (expect (as_u32 block_number)) (\<lambda>miniblock_number.
       from_network_and_miniblock_and_chain E io d network R (ucast (sat_sub miniblock_number 1))
         (Some overwrite_chain_id) cache_config)))))))"

definition from_url ::
  "ext \<Rightarrow> io \<Rightarrow> disk \<Rightarrow> (string \<Rightarrow> remote option) \<Rightarrow> string \<Rightarrow> u64 option \<Rightarrow> cache_config
     \<Rightarrow> (string, fork_details) res" where
  "from_url E io d client url fork_at cache_config =
     (case client url of
        None \<Rightarrow> Err ''invalid URL''
      | Some R \<Rightarrow>
          rbind (case fork_at of Some n \<Rightarrow> Ok n | None \<Rightarrow> rm_block_number R) (\<lambda>l2_miniblock.
            from_network_and_miniblock_and_chain E io d (OtherNetwork url) R l2_miniblock None cache_config))"

section \<open>Replaying and gas prices\<close>

fun raw_hash :: "ext \<Rightarrow> raw_transaction \<Rightarrow> h256" where
  "raw_hash E (RawL2 tx) = x_tx_hash E tx"
| "raw_hash E (RawOther h) = h"

fun raw_l2_tx :: "raw_transaction \<Rightarrow> l2_tx option" where
  "raw_l2_tx (RawL2 tx) = Some tx"
| "raw_l2_tx (RawOther h) = None"

fun collect_until ::
  "ext \<Rightarrow> h256 \<Rightarrow> string \<Rightarrow> raw_transaction list \<Rightarrow> l2_tx list \<Rightarrow> (string, l2_tx list) res" where
  "collect_until E replay_tx not_found [] tx_to_apply = Err not_found"
| "collect_until E replay_tx not_found (tx # txs) tx_to_apply =
     (case raw_l2_tx tx of
        None \<Rightarrow> Panic
      | Some l2 \<Rightarrow>
          (let tx_to_apply = tx_to_apply @ [l2] in
           if raw_hash E tx = replay_tx then Ok tx_to_apply
           else collect_until E replay_tx not_found txs tx_to_apply))"

definition get_earlier_transactions_in_same_block ::
  "ext \<Rightarrow> fork_details \<Rightarrow> h256 \<Rightarrow> (string, l2_tx list) res" where
  "get_earlier_transactions_in_same_block E fd replay_tx =
     rbind (map_err (\<lambda>e. ''Cannot get transaction to replay by hash from fork source: '' @ e)
              (fs_transaction_by_hash (fd_source fd) replay_tx)) (\<lambda>opt_tx_details.
     rbind (ok_or opt_tx_details (''Cannot find transaction '' @ x_fmt_h256 E replay_tx)) (\<lambda>tx_details.
     rbind (ok_or (at_block_number tx_details) ''Block has no number'') (\<lambda>block_number.
     rbind (expect (as_u32 block_number)) (\<lambda>miniblock.
     rbind (fs_raw_block_transactions (fd_source fd) miniblock) (\<lambda>block_transactions.
       collect_until E replay_tx
         (''Cound not find tx '' @ x_fmt_h256 E replay_tx @ '' in miniblock: '' @ dec_string (unat miniblock))
         block_transactions [])))))"

definition get_block_gas_details :: "fork_details \<Rightarrow> u32 \<Rightarrow> (u64 \<times> u64 \<times> u64) option" where
  "get_block_gas_details fd miniblock =
     (case fs_block_details (fd_source fd) miniblock of
        Ok (Some block_details) \<Rightarrow>
          (case bd_fair_pubdata_price block_details of
             Some fair_pubdata_price \<Rightarrow>
               Some (bd_l1_gas_price block_details, bd_l2_fair_gas_price block_details, fair_pubdata_price)
           | None \<Rightarrow> None)
      | _ \<Rightarrow> None)"

section \<open>Properties\<close>

lemma collect_until_Ok:
  "collect_until E h msg txs acc = Ok out \<longleftrightarrow>
     (\<exists>pre tx post. txs = map RawL2 pre @ RawL2 tx # post \<and> out = acc @ pre @ [tx] \<and>
        x_tx_hash E tx = h \<and> h \<notin> x_tx_hash E ` set pre)"
proof (induction txs arbitrary: acc)
  case (Cons t txs)
  show ?case
  proof (cases t)
    case (RawL2 l2)
    show ?thesis
    proof (cases "x_tx_hash E l2 = h")
      case True
      then show ?thesis using RawL2 by (auto simp: Let_def Cons_eq_append_conv map_eq_Cons_conv)
    next
      case False
      have "collect_until E h msg (t # txs) acc = Ok out \<longleftrightarrow>
          (\<exists>pre tx post. txs = map RawL2 pre @ RawL2 tx # post \<and> out = (acc @ [l2]) @ pre @ [tx] \<and>
             x_tx_hash E tx = h \<and> h \<notin> x_tx_hash E ` set pre)"
        using False RawL2 Cons.IH by (simp add: Let_def)
      also have "\<dots> \<longleftrightarrow> (\<exists>pre tx post. t # txs = map RawL2 pre @ RawL2 tx # post \<and> out = acc @ pre @ [tx] \<and>
             x_tx_hash E tx = h \<and> h \<notin> x_tx_hash E ` set pre)" (is "?L = ?R")
      proof
        assume ?L
        then obtain pre tx post where "txs = map RawL2 pre @ RawL2 tx # post" "out = acc @ (l2 # pre) @ [tx]"
            "x_tx_hash E tx = h" "h \<notin> x_tx_hash E ` set pre"
          by auto
        then show ?R using RawL2 False by (intro exI [of _ "l2 # pre"] exI [of _ tx] exI [of _ post]) auto
      next
        assume ?R
        then obtain pre tx post where "t # txs = map RawL2 pre @ RawL2 tx # post" "out = acc @ pre @ [tx]"
            "x_tx_hash E tx = h" "h \<notin> x_tx_hash E ` set pre"
          by blast
        then show ?L using RawL2 False by (cases pre) auto
      qed
      finally show ?thesis .
    qed
  qed (auto simp: Cons_eq_append_conv map_eq_Cons_conv)
qed simp

lemma rbind_Ok: "rbind m f = Ok y \<longleftrightarrow> (\<exists>x. m = Ok x \<and> f x = Ok y)"
  by (cases m) auto

lemma ok_or_Ok: "ok_or m e = Ok x \<longleftrightarrow> m = Some x"
  by (cases m) (auto simp: ok_or_def)

lemma expect_Ok: "expect m = Ok x \<longleftrightarrow> m = Some x"
  by (cases m) auto

lemma map_err_Ok: "map_err f r = Ok x \<longleftrightarrow> r = Ok x"
  by (cases r) auto

lemmas res_Ok = rbind_Ok ok_or_Ok expect_Ok map_err_Ok

text \<open>The transactions to replay. When the lookup succeeds, the result is the transactions of
  the block that holds the given one, from the first up to and including the first
  transaction with the given hash, all of them L2 transactions: the given transaction is the
  last element and occurs nowhere before.\<close>

theorem replay_transactions:
  assumes "get_earlier_transactions_in_same_block E fd h = Ok out"
  shows "\<exists>tx_details n txs pre tx post. fs_transaction_by_hash (fd_source fd) h = Ok (Some tx_details) \<and>
    at_block_number tx_details = Some n \<and> fs_raw_block_transactions (fd_source fd) (ucast n) = Ok txs \<and>
    txs = map RawL2 pre @ RawL2 tx # post \<and> out = pre @ [tx] \<and>
    x_tx_hash E tx = h \<and> h \<notin> x_tx_hash E ` set pre"
proof -
  obtain td n m txs where 1: "fs_transaction_by_hash (fd_source fd) h = Ok (Some td)"
      "at_block_number td = Some n" "as_u32 n = Some m" "fs_raw_block_transactions (fd_source fd) m = Ok txs"
    and c: "collect_until E h (''Cound not find tx '' @ x_fmt_h256 E h @ '' in miniblock: '' @ dec_string (unat m))
       txs [] = Ok out"
    using assms by (auto simp: get_earlier_transactions_in_same_block_def res_Ok)
  have "m = ucast n" using 1(3) by (simp add: as_u32_def split: if_splits)
  then show ?thesis using 1 c by (auto simp: collect_until_Ok)
qed

definition witness_l2_tx :: "u32 \<Rightarrow> l2_tx" where
  "witness_l2_tx n = \<lparr>nonce = n, tx_fee = \<lparr>gas_limit = 1000000, max_fee_per_gas = 100,
     max_priority_fee_per_gas = 1, gas_per_pubdata_limit = 50000\<rparr>, initiator = 9, signature = [1],
     transaction_type = EIP1559Transaction, tx_input = Some \<lparr>in_hash = 3, in_data = []\<rparr>,
     recipient = Some 8, calldata = [], tx_value = 0, received_timestamp_ms = 0, raw_bytes = None\<rparr>"

definition witness_fork_details :: fork_details where
  "witness_fork_details = \<lparr>fd_source = (http_fork_source witness_remote)
       \<lparr>fs_transaction_by_hash := \<lambda>h. Ok (Some ((x_api_tx_of_l2_tx ext0 (witness_l2_tx 1))\<lparr>at_block_number := Some 3\<rparr>)),
        fs_raw_block_transactions := \<lambda>n. Ok [RawL2 (witness_l2_tx 0), RawL2 (witness_l2_tx 1), RawOther 7],
        fs_storage_at := \<lambda>a i b. Ok (if a = 20 then 77 else 0)\<rparr>,
     fd_l1_block = 3, fd_l2_block = witness_block, fd_l2_miniblock = 3, fd_l2_miniblock_hash = 5,
     fd_block_timestamp = 100, fd_overwrite_chain_id = None, fd_l1_gas_price = 1,
     fd_l2_fair_gas_price = 1, fd_fair_pubdata_price = 1,
     fd_price_scale_factor = 0x3FF8000000000000, fd_scale_factor = 0x3F99999A,
     fd_fee_params = None, fd_cache_config = CacheMemory\<rparr>"

lemma witness_replay:
  "get_earlier_transactions_in_same_block ext0 witness_fork_details 501 = Ok [witness_l2_tx 0, witness_l2_tx 1]"
  by (simp add: get_earlier_transactions_in_same_block_def witness_fork_details_def ok_or_def
      ext0_def witness_l2_tx_def as_u32_def)

lemma replay_transactions_witness:
  "\<exists>tx. last [witness_l2_tx 0, witness_l2_tx 1] = tx \<and> x_tx_hash ext0 tx = 501"
  using replay_transactions [OF witness_replay] by (metis last_snoc)

text \<open>What a fork is made of. When a fork is created at a height, the remote knows the details
  of that block and serves it by its root hash, its protocol version is a supported one, and
  the fork's batch, block, hash, timestamp and prices are the remote's (the default pubdata
  price when it has none); the scale factors are those of the network.\<close>

theorem fork_details_of_remote:
  assumes "from_network_and_miniblock_and_chain E io d network R miniblock chain_id cc = Ok fd"
  shows "\<exists>det v blk. rm_block_details R (ucast miniblock) = Ok (Some det) \<and>
    bd_protocol_version det = Some v \<and> 9 \<le> v \<and> v \<le> 25 \<and>
    bd_root_hash det = Some (fd_l2_miniblock_hash fd) \<and>
    rm_block_by_hash R (fd_l2_miniblock_hash fd) True = Ok (Some blk) \<and> fd_l2_block fd = blk \<and>
    fd_l2_miniblock fd = miniblock \<and> fd_l1_block fd = bd_l1_batch_number det \<and>
    fd_block_timestamp fd = bd_timestamp det \<and> fd_overwrite_chain_id fd = chain_id \<and>
    fd_fair_pubdata_price fd = unwrap_or (bd_fair_pubdata_price det) 450000000000 \<and>
    (fd_price_scale_factor fd, fd_scale_factor fd) = local_gas_scale_factors network"
proof -
  obtain det root blk where 1: "rm_block_details R (ucast miniblock) = Ok (Some det)"
      "bd_root_hash det = Some root" "rm_block_by_hash R root True = Ok (Some blk)"
    using assms by (auto simp: from_network_and_miniblock_and_chain_def res_Ok Let_def)
  obtain v where v: "bd_protocol_version det = Some v" "supported_protocol_versions v"
    using assms 1 by (auto simp: from_network_and_miniblock_and_chain_def ok_or_def Let_def split: if_splits option.splits)
  then have "9 \<le> v \<and> v \<le> 25"
    by (auto simp: supported_protocol_versions_def SUPPORTED_VERSIONS_def)
  moreover have "fd_l2_miniblock_hash fd = root \<and> fd_l2_block fd = blk \<and>
    fd_l2_miniblock fd = miniblock \<and> fd_l1_block fd = bd_l1_batch_number det \<and>
    fd_block_timestamp fd = bd_timestamp det \<and> fd_overwrite_chain_id fd = chain_id \<and>
    fd_fair_pubdata_price fd = unwrap_or (bd_fair_pubdata_price det) 450000000000 \<and>
    (fd_price_scale_factor fd, fd_scale_factor fd) = local_gas_scale_factors network"
    using assms 1 v
    by (auto simp: from_network_and_miniblock_and_chain_def ok_or_def Let_def DEFAULT_FAIR_PUBDATA_PRICE_def
        split: prod.splits option.splits)
  ultimately show ?thesis using 1 v by auto
qed

definition witness_details :: block_details where
  "witness_details = \<lparr>bd_number = 3, bd_l1_batch_number = 3, bd_timestamp = 100, bd_l1_tx_count = 0,
     bd_l2_tx_count = 0, bd_root_hash = Some 5, bd_status = BlockVerified, bd_commit_tx_hash = None,
     bd_committed_at = None, bd_prove_tx_hash = None, bd_proven_at = None, bd_execute_tx_hash = None,
     bd_executed_at = None, bd_l1_gas_price = 1, bd_l2_fair_gas_price = 1, bd_fair_pubdata_price = None,
     bd_base_system_contracts_hashes = (0, 0), bd_operator_address = 0, bd_protocol_version = Some 24\<rparr>"

lemma witness_from_network:
  "\<forall>io d. \<exists>fd. from_network_and_miniblock_and_chain ext0 io d Mainnet
     (witness_remote\<lparr>rm_block_details := \<lambda>_. Ok (Some witness_details)\<rparr>) 3 None CacheMemory = Ok fd"
  by (simp add: from_network_and_miniblock_and_chain_def ok_or_def Let_def cache_new_def)
     (simp add: witness_remote_def witness_details_def supported_protocol_versions_def
        SUPPORTED_VERSIONS_def cache_new_def)

lemma fork_details_of_remote_witness:
  "\<forall>io d. \<exists>fd. from_network_and_miniblock_and_chain ext0 io d Mainnet
     (witness_remote\<lparr>rm_block_details := \<lambda>_. Ok (Some witness_details)\<rparr>) 3 None CacheMemory = Ok fd \<and>
     fd_block_timestamp fd = 100 \<and> fd_fair_pubdata_price fd = 450000000000"
proof (intro allI)
  fix io d
  obtain fd where fd: "from_network_and_miniblock_and_chain ext0 io d Mainnet
     (witness_remote\<lparr>rm_block_details := \<lambda>_. Ok (Some witness_details)\<rparr>) 3 None CacheMemory = Ok fd"
    using witness_from_network by blast
  show "\<exists>fd. from_network_and_miniblock_and_chain ext0 io d Mainnet
     (witness_remote\<lparr>rm_block_details := \<lambda>_. Ok (Some witness_details)\<rparr>) 3 None CacheMemory = Ok fd \<and>
     fd_block_timestamp fd = 100 \<and> fd_fair_pubdata_price fd = 450000000000"
    using fd fork_details_of_remote [OF fd] by (auto simp: witness_details_def)
qed

end
