(* ===== verification/System_Contracts.thy ===== *)
theory System_Contracts
  imports Externals Config
begin

text \<open>
  The system contracts of the node: \<open>src/deps/system_contracts.rs\<close> (the contracts embedded
  in the binary) and \<open>src/system_contracts.rs\<close> (the five sets of bootloader and default
  account, and which of them an execution uses). The bytes of the embedded files and the
  addresses of \<open>zksync_types\<close> are parameters. \<open>None\<close> is a panic.
\<close>

section \<open>Embedded contracts\<close>

definition ECADD_PRECOMPILE_ADDRESS :: address where "ECADD_PRECOMPILE_ADDRESS = 6"
definition ECMUL_PRECOMPILE_ADDRESS :: address where "ECMUL_PRECOMPILE_ADDRESS = 7"

definition strip_prefix :: "string \<Rightarrow> string \<Rightarrow> string option" where
  "strip_prefix p s = (if take (length p) s = p then Some (drop (length p) s) else None)"

definition bytecode_from_slice :: "ext \<Rightarrow> string \<Rightarrow> bytes \<Rightarrow> bytes option" where
  "bytecode_from_slice E artifact_name contents =
     Option.bind (x_artifact_bytecode E contents) (\<lambda>artifact.
     Option.bind artifact (\<lambda>bytecode.
     Option.bind (strip_prefix ''0x'' bytecode) (\<lambda>hex. res_ok (x_hex_decode E hex))))"

definition json_contracts :: "(string \<times> string) list" where
  "json_contracts =
     [(''AccountCodeStorage'', ''ACCOUNT_CODE_STORAGE_ADDRESS''),
      (''NonceHolder'', ''NONCE_HOLDER_ADDRESS''),
      (''KnownCodesStorage'', ''KNOWN_CODES_STORAGE_ADDRESS''),
      (''ImmutableSimulator'', ''IMMUTABLE_SIMULATOR_STORAGE_ADDRESS''),
      (''ContractDeployer'', ''CONTRACT_DEPLOYER_ADDRESS''),
      (''L1Messenger'', ''L1_MESSENGER_ADDRESS''),
      (''MsgValueSimulator'', ''MSG_VALUE_SIMULATOR_ADDRESS''),
      (''L2BaseToken'', ''L2_BASE_TOKEN_ADDRESS''),
      (''SystemContext'', ''SYSTEM_CONTEXT_ADDRESS''),
      (''BootloaderUtilities'', ''BOOTLOADER_UTILITIES_ADDRESS''),
      (''Compressor'', ''COMPRESSOR_ADDRESS''),
      (''PubdataChunkPublisher'', ''PUBDATA_CHUNK_PUBLISHER_ADDRESS''),
      (''Create2Factory'', ''CREATE2_FACTORY_ADDRESS'')]"

definition yul_contracts :: "ext \<Rightarrow> (string \<times> address) list" where
  "yul_contracts E =
     [(''Keccak256'', x_system_address E ''KECCAK256_PRECOMPILE_ADDRESS''),
      (''SHA256'', x_system_address E ''SHA256_PRECOMPILE_ADDRESS''),
      (''Ecrecover'', x_system_address E ''ECRECOVER_PRECOMPILE_ADDRESS''),
      (''EventWriter'', x_system_address E ''EVENT_WRITER_ADDRESS''),
      (''EcAdd'', ECADD_PRECOMPILE_ADDRESS),
      (''EcMul'', ECMUL_PRECOMPILE_ADDRESS),
      (''EcPairing'', x_system_address E ''EC_PAIRING_PRECOMPILE_ADDRESS''),
      (''CodeOracle'', x_system_address E ''CODE_ORACLE_ADDRESS''),
      (''P256Verify'', x_system_address E ''P256VERIFY_PRECOMPILE_ADDRESS'')]"

definition compiled_in_system_contracts :: "ext \<Rightarrow> (address \<times> bytes) list option" where
  "compiled_in_system_contracts E =
     Option.bind (those (map (\<lambda>(pname, addr).
         map_option (Pair (x_system_address E addr))
           (bytecode_from_slice E pname (x_include_bytes E (''contracts/'' @ pname @ ''.json''))))
       json_contracts)) (\<lambda>deployed.
     let yul = map (\<lambda>(pname, addr). (addr, x_include_bytes E (''contracts/'' @ pname @ ''.yul.zbin'')))
                 (yul_contracts E)
     in Option.bind (bytecode_from_slice E ''EmptyContract'' (x_include_bytes E ''contracts/EmptyContract.json''))
          (\<lambda>empty_bytecode.
            Some (deployed @ yul @ map (\<lambda>a. (a, empty_bytecode)) [0, x_bootloader_address E])))"

section \<open>Contract sets\<close>

record system_contracts =
  sc_baseline :: base_contracts
  sc_playground :: base_contracts
  sc_fee_estimate :: base_contracts
  sc_baseline_impersonating :: base_contracts
  sc_fee_estimate_impersonating :: base_contracts

definition get_deployed_contracts :: "ext \<Rightarrow> contracts_option \<Rightarrow> (address \<times> bytes) list option" where
  "get_deployed_contracts E opts =
     (case opts of
        BuiltIn \<Rightarrow> compiled_in_system_contracts E
      | BuiltInWithoutSecurity \<Rightarrow> compiled_in_system_contracts E
      | LocalContracts \<Rightarrow> Some (x_get_system_smart_contracts E))"

definition bsc_load_with_bootloader :: "ext \<Rightarrow> bytes \<Rightarrow> contracts_option \<Rightarrow> base_contracts option" where
  "bsc_load_with_bootloader E bootloader_bytecode opts =
     Option.bind (x_hash_bytecode E bootloader_bytecode) (\<lambda>boot_hash.
     Option.bind (case opts of
         BuiltIn \<Rightarrow> bytecode_from_slice E ''DefaultAccount'' (x_include_bytes E ''deps/contracts/DefaultAccount.json'')
       | LocalContracts \<Rightarrow> Some (x_read_sys_contract_bytecode E ''DefaultAccount'')
       | BuiltInWithoutSecurity \<Rightarrow> bytecode_from_slice E ''DefaultAccountNoSecurity''
           (x_include_bytes E ''deps/contracts/DefaultAccountNoSecurity.json'')) (\<lambda>bytecode.
     Option.bind (x_hash_bytecode E bytecode) (\<lambda>aa_hash.
       Some \<lparr>bootloader = \<lparr>cc_code = x_bytes_to_be_words E bootloader_bytecode, cc_hash = boot_hash\<rparr>,
             default_aa = \<lparr>cc_code = x_bytes_to_be_words E bytecode, cc_hash = aa_hash\<rparr>\<rparr>)))"

definition local_artifact :: "string \<Rightarrow> string" where
  "local_artifact name = ''contracts/system-contracts/bootloader/build/artifacts/'' @ name"

definition bootloader_bytes :: "ext \<Rightarrow> string \<Rightarrow> string \<Rightarrow> contracts_option \<Rightarrow> bytes" where
  "bootloader_bytes E embedded local opts =
     (case opts of
        BuiltIn \<Rightarrow> x_include_bytes E (''deps/contracts/'' @ embedded)
      | BuiltInWithoutSecurity \<Rightarrow> x_include_bytes E (''deps/contracts/'' @ embedded)
      | LocalContracts \<Rightarrow> x_read_zbin_bytecode E (local_artifact local))"

definition playground :: "ext \<Rightarrow> contracts_option \<Rightarrow> base_contracts option" where
  "playground E opts = bsc_load_with_bootloader E
     (bootloader_bytes E ''playground_batch.yul.zbin'' ''playground_batch.yul.zbin'' opts) opts"

definition fee_estimate_contracts :: "ext \<Rightarrow> contracts_option \<Rightarrow> base_contracts option" where
  "fee_estimate_contracts E opts = bsc_load_with_bootloader E
     (bootloader_bytes E ''fee_estimate.yul.zbin'' ''fee_estimate.yul.zbin'' opts) opts"

definition fee_estimate_impersonating_contracts :: "ext \<Rightarrow> contracts_option \<Rightarrow> base_contracts option" where
  "fee_estimate_impersonating_contracts E opts = bsc_load_with_bootloader E
     (bootloader_bytes E ''fee_estimate_impersonating.yul.zbin'' ''fee_estimate.yul.zbin'' opts) opts"

definition baseline_contracts :: "ext \<Rightarrow> contracts_option \<Rightarrow> base_contracts option" where
  "baseline_contracts E opts = bsc_load_with_bootloader E
     (bootloader_bytes E ''proved_batch.yul.zbin'' ''proved_batch.yul.zbin'' opts) opts"

definition baseline_impersonating_contracts :: "ext \<Rightarrow> contracts_option \<Rightarrow> base_contracts option" where
  "baseline_impersonating_contracts E opts = bsc_load_with_bootloader E
     (bootloader_bytes E ''proved_batch_impersonating.yul.zbin'' ''proved_batch.yul.zbin'' opts) opts"

definition from_options :: "ext \<Rightarrow> contracts_option \<Rightarrow> system_contracts option" where
  "from_options E opts =
     Option.bind (baseline_contracts E opts) (\<lambda>b.
     Option.bind (playground E opts) (\<lambda>p.
     Option.bind (fee_estimate_contracts E opts) (\<lambda>f.
     Option.bind (baseline_impersonating_contracts E opts) (\<lambda>bi.
     Option.bind (fee_estimate_impersonating_contracts E opts) (\<lambda>fi.
       Some \<lparr>sc_baseline = b, sc_playground = p, sc_fee_estimate = f,
             sc_baseline_impersonating = bi, sc_fee_estimate_impersonating = fi\<rparr>)))))"

fun contracts :: "system_contracts \<Rightarrow> exec_mode \<Rightarrow> bool \<Rightarrow> base_contracts option" where
  "contracts sc VerifyExecute False = Some (sc_baseline sc)"
| "contracts sc EstimateFee False = Some (sc_fee_estimate sc)"
| "contracts sc EthCall False = Some (sc_playground sc)"
| "contracts sc VerifyExecute True = Some (sc_baseline_impersonating sc)"
| "contracts sc EstimateFee True = Some (sc_fee_estimate_impersonating sc)"
| "contracts sc EthCall True = None"

definition contracts_for_l2_call :: "system_contracts \<Rightarrow> base_contracts option" where
  "contracts_for_l2_call sc = contracts sc EthCall False"

definition contracts_for_fee_estimate :: "system_contracts \<Rightarrow> bool \<Rightarrow> base_contracts option" where
  "contracts_for_fee_estimate sc impersonating = contracts sc EstimateFee impersonating"

definition base_hashes :: "base_contracts \<Rightarrow> h256 \<times> h256" where
  "base_hashes b = (cc_hash (bootloader b), cc_hash (default_aa b))"

section \<open>Lemmas\<close>

lemma contracts_None: "contracts sc mode imp = None \<longleftrightarrow> mode = EthCall \<and> imp"
  by (cases mode; cases imp) simp_all

lemma default_account_shared:
  "from_options E opts = Some sc \<Longrightarrow>
   default_aa (sc_playground sc) = default_aa (sc_baseline sc) \<and>
   default_aa (sc_fee_estimate sc) = default_aa (sc_baseline sc) \<and>
   default_aa (sc_baseline_impersonating sc) = default_aa (sc_baseline sc) \<and>
   default_aa (sc_fee_estimate_impersonating sc) = default_aa (sc_baseline sc)"
  by (auto simp: from_options_def baseline_contracts_def playground_def fee_estimate_contracts_def
      baseline_impersonating_contracts_def fee_estimate_impersonating_contracts_def
      bsc_load_with_bootloader_def bind_eq_Some_conv)

text \<open>Which contracts run. The impersonating sets differ from the plain ones at most in the
  bootloader (the default account is one and the same in all five sets), with contracts read
  from disk they do not differ at all, and the only selection that panics is an
  impersonated read-only call.\<close>

theorem contract_selection:
  assumes "from_options E opts = Some sc"
  shows "(contracts sc mode imp = None \<longleftrightarrow> mode = EthCall \<and> imp) \<and>
    (\<forall>b. contracts sc mode imp = Some b \<longrightarrow> default_aa b = default_aa (sc_baseline sc)) \<and>
    (opts = LocalContracts \<longrightarrow> mode \<noteq> EthCall \<longrightarrow> contracts sc mode True = contracts sc mode False)"
proof (intro conjI allI impI)
  show "contracts sc mode imp = None \<longleftrightarrow> mode = EthCall \<and> imp" by (rule contracts_None)
  show "default_aa b = default_aa (sc_baseline sc)" if "contracts sc mode imp = Some b" for b
    using that default_account_shared [OF assms] by (cases mode; cases imp) auto
  show "contracts sc mode True = contracts sc mode False" if "opts = LocalContracts" "mode \<noteq> EthCall"
    using that assms
    by (cases mode) (auto simp: from_options_def baseline_contracts_def fee_estimate_contracts_def
        baseline_impersonating_contracts_def fee_estimate_impersonating_contracts_def
        bootloader_bytes_def bind_eq_Some_conv)
qed

lemma contract_selection_witness:
  "\<exists>sc. from_options ext0 LocalContracts = Some sc \<and>
     contracts sc VerifyExecute True = contracts sc VerifyExecute False \<and> contracts sc EthCall True = None"
proof -
  obtain sc where sc: "from_options ext0 LocalContracts = Some sc"
    by (simp add: from_options_def baseline_contracts_def playground_def fee_estimate_contracts_def
        baseline_impersonating_contracts_def fee_estimate_impersonating_contracts_def
        bsc_load_with_bootloader_def bootloader_bytes_def ext0_def)
  show ?thesis
    using sc contract_selection [OF sc, of VerifyExecute True] contract_selection [OF sc, of EthCall True]
    by auto
qed

end
