(* ===== verification/Utils.thy ===== *)
theory Utils
  imports Externals
begin

text \<open>
  The helpers of \<open>src/utils.rs\<close>: printing of large numbers, bytecode chunking and hashing,
  block number resolution, the conversion of VM call traces to debug output, and the mapping
  of errors to JSON-RPC errors.
\<close>

section \<open>Numbers for humans\<close>

definition to_human_size :: "u256 \<Rightarrow> string" where
  "to_human_size input =
     (let s = dec_string (unat input);
          tmp = concat (map (\<lambda>(index, val). if 0 < index \<and> index mod 3 = 0 then [CHR ''_'', val] else [val])
                  (enumerate 0 (rev s)))
      in rev tmp)"

section \<open>Bytecode\<close>

function chunks :: "nat \<Rightarrow> 'a list \<Rightarrow> 'a list list" where
  "chunks n xs = (if xs = [] \<or> n = 0 then [] else take n xs # chunks n (drop n xs))"
  by pat_completeness auto
termination
  by (relation "measure (\<lambda>(n, xs). length xs)") auto

declare chunks.simps [simp del]

definition bytes_to_chunks :: "bytes \<Rightarrow> bytes list option" where
  "bytes_to_chunks bs = those (map (\<lambda>el. if length el = 32 then Some el else None) (chunks 32 bs))"

definition hash_bytecode :: "ext \<Rightarrow> bytes \<Rightarrow> (string, h256) res" where
  "hash_bytecode E code =
     (if length code mod 32 \<noteq> 0 then Err ''bytes must be divisible by 32''
      else case bytes_to_chunks code of
             None \<Rightarrow> Panic
           | Some chunked_code \<Rightarrow>
               (case x_bytecode_to_code_hash E chunked_code of
                  Some hash \<Rightarrow> Ok hash
                | None \<Rightarrow> Err ''invalid bytecode''))"

definition bytecode_to_factory_dep :: "ext \<Rightarrow> bytes \<Rightarrow> (string, u256 \<times> u256 list) res" where
  "bytecode_to_factory_dep E bytecode =
     rbind (hash_bytecode E bytecode) (\<lambda>bytecode_hash.
       Ok (bytecode_hash, x_bytes_to_be_words E bytecode))"

text \<open>The inverse direction, as the two callers write it: every word back to its bytes.\<close>

definition words_to_bytes :: "ext \<Rightarrow> u256 list \<Rightarrow> bytes" where
  "words_to_bytes E ws = concat (map (x_u256_to_be_bytes E) ws)"

section \<open>Block numbers\<close>

definition to_real_block_number :: "block_number \<Rightarrow> u64 \<Rightarrow> u64" where
  "to_real_block_number bn latest =
     (case bn of
        Finalized \<Rightarrow> latest
      | Pending \<Rightarrow> latest
      | Committed \<Rightarrow> latest
      | L1Committed \<Rightarrow> latest
      | Latest \<Rightarrow> latest
      | Earliest \<Rightarrow> 0
      | Number n \<Rightarrow> n)"

section \<open>Errors\<close>

definition into_jsrpc_error :: "ext \<Rightarrow> web3_error \<Rightarrow> rpc_error" where
  "into_jsrpc_error E err =
     \<lparr>e_code = (case err of
         InternalError _ \<Rightarrow> CodeInternalError
       | MethodNotImplemented \<Rightarrow> CodeInternalError
       | NoBlock \<Rightarrow> CodeInvalidParams
       | PrunedBlock _ \<Rightarrow> CodeInvalidParams
       | PrunedL1Batch _ \<Rightarrow> CodeInvalidParams
       | ProxyError _ \<Rightarrow> CodeInvalidParams
       | TooManyTopics \<Rightarrow> CodeInvalidParams
       | FilterNotFound \<Rightarrow> CodeInvalidParams
       | LogsLimitExceeded _ _ _ \<Rightarrow> CodeInvalidParams
       | InvalidFilterBlockHash \<Rightarrow> CodeInvalidParams
       | TreeApiUnavailable \<Rightarrow> CodeInvalidParams
       | SubmitTransactionError _ _ \<Rightarrow> CodeServerError 3
       | SerializationError _ \<Rightarrow> CodeServerError 3),
      e_message = x_web3_display E err,
      e_data = (case err of
         SubmitTransactionError _ bs \<Rightarrow> Some (hex_0x E bs)
       | _ \<Rightarrow> None)\<rparr>"

definition into_jsrpc_error_message :: "string \<Rightarrow> rpc_error" where
  "into_jsrpc_error_message msg = \<lparr>e_code = CodeInternalError, e_message = msg, e_data = None\<rparr>"

definition report_into_jsrpc_error :: "ext \<Rightarrow> string \<Rightarrow> rpc_error" where
  "report_into_jsrpc_error E error = into_jsrpc_error E (InternalError error)"

definition internal_rpc_error :: "ext \<Rightarrow> string \<Rightarrow> rpc_error" where
  "internal_rpc_error E msg = into_jsrpc_error E (InternalError msg)"

definition internal_error :: "string \<Rightarrow> string \<Rightarrow> web3_error" where
  "internal_error method_name error = InternalError error"

definition not_implemented :: "string \<Rightarrow> 'a rpc" where
  "not_implemented method_name =
     Err \<lparr>e_code = CodeMethodNotFound,
          e_message = ''Method '' @ method_name @ '' is not implemented'',
          e_data = None\<rparr>"

section \<open>Debug output\<close>

fun debug_type_of :: "call_type \<Rightarrow> debug_call_type option" where
  "debug_type_of CallCall = Some DebugCall"
| "debug_type_of CallCreate = Some DebugCreate"
| "debug_type_of CallNearCall = None"

fun call_to_debug_call :: "call \<Rightarrow> debug_call option" where
  "call_to_debug_call (Call ty fr tt gas gas_used v inp outp er rv calls) =
     (case those (map call_to_debug_call calls) of
        None \<Rightarrow> None
      | Some calls' \<Rightarrow>
          (case debug_type_of ty of
             None \<Rightarrow> None
           | Some debug_type \<Rightarrow>
               Some (DebugCallOut debug_type fr tt (ucast gas) (ucast gas_used) v inp outp er rv calls')))"

definition create_debug_output ::
  "ext \<Rightarrow> l2_tx \<Rightarrow> vm_result \<Rightarrow> call list \<Rightarrow> (web3_error, debug_call) res" where
  "create_debug_output E l2_tx result traces =
     (let calltype = (if unwrap_or (map_option (\<lambda>addr. addr = x_contract_deployer_address E) (recipient l2_tx)) False
                      then DebugCreate else DebugCall)
      in case vm_exec result of
           Success output \<Rightarrow>
             rbind (expect (recipient l2_tx)) (\<lambda>to.
             rbind (expect (those (map call_to_debug_call traces))) (\<lambda>calls.
               Ok (DebugCallOut calltype (initiator l2_tx) to (gas_limit (tx_fee l2_tx))
                     (ucast (vm_gas_used result)) (tx_value l2_tx) (calldata l2_tx) output None None calls)))
         | Revert output \<Rightarrow>
             rbind (expect (recipient l2_tx)) (\<lambda>to.
             rbind (expect (those (map call_to_debug_call traces))) (\<lambda>calls.
               Ok (DebugCallOut calltype (initiator l2_tx) to (gas_limit (tx_fee l2_tx))
                     (ucast (vm_gas_used result)) (tx_value l2_tx) (calldata l2_tx) [] None
                     (Some (rv_string output)) calls)))
         | Halt reason \<Rightarrow> Err (SubmitTransactionError reason []))"

section \<open>Dates and hashes\<close>

definition utc_datetime_from_epoch_ms :: "ext \<Rightarrow> u64 \<Rightarrow> (64 word \<times> u32) option" where
  "utc_datetime_from_epoch_ms E millis =
     (let secs = millis div 1000;
          nanos = (millis mod 1000) * 1000000
      in x_datetime_from_timestamp E secs (ucast nanos))"

definition h256_to_u64 :: "h256 \<Rightarrow> u64" where
  "h256_to_u64 v = ucast v"

section \<open>Lemmas\<close>

subsection \<open>Grouping by thousands\<close>

definition pad3 :: "nat \<Rightarrow> string" where
  "pad3 m = [digit_char (m div 100), digit_char (m div 10 mod 10), digit_char (m mod 10)]"

text \<open>The reference: the decimal number with its groups of three separated by an underscore.\<close>

fun human_ref :: "nat \<Rightarrow> string" where
  "human_ref n = (if n < 1000 then dec_string n else human_ref (n div 1000) @ [CHR ''_''] @ pad3 (n mod 1000))"

declare human_ref.simps [simp del]

abbreviation sep :: "nat \<times> char \<Rightarrow> string" where
  "sep \<equiv> \<lambda>(index, val). if 0 < index \<and> index mod 3 = 0 then [CHR ''_'', val] else [val]"

lemma sep_shift: "0 < i \<Longrightarrow> concat (map sep (enumerate (i + 3) xs)) = concat (map sep (enumerate i xs))"
proof (induction xs arbitrary: i)
  case (Cons x xs)
  then show ?case using Cons.IH [of "Suc i"] by simp
qed simp

lemma sep_tail:
  "xs \<noteq> [] \<Longrightarrow> concat (map sep (enumerate 3 xs)) = CHR ''_'' # concat (map sep (enumerate 0 xs))"
  using sep_shift [of 1 "tl xs"] by (cases xs) simp_all

lemma digits3:
  "y < 10 \<Longrightarrow> z < 10 \<Longrightarrow>
   (100 * x + 10 * y + z) div 100 = x \<and> (100 * x + 10 * y + z) div 10 mod 10 = y \<and>
   (100 * x + 10 * y + z) mod 10 = (z :: nat)"
proof (intro conjI)
  assume b: "y < 10" "z < 10"
  then show "(100 * x + 10 * y + z) div 100 = x" by linarith
  have "(100 * x + 10 * y + z) div 10 = 10 * x + y" using b by linarith
  then show "(100 * x + 10 * y + z) div 10 mod 10 = y" using b by simp
  have "(100 * x + 10 * y + z) mod 10 = (10 * (10 * x + y) + z) mod 10" by simp
  also have "\<dots> = z mod 10" by (rule mod_mult_self4)
  finally show "(100 * x + 10 * y + z) mod 10 = z" using b by simp
qed

lemma dec_string_thousands:
  assumes "1000 \<le> n"
  shows "dec_string n = dec_string (n div 1000) @ pad3 (n mod 1000)"
proof -
  have a: "n div 10 div 10 = n div 100" "n div 100 div 10 = n div 1000"
    by (simp_all add: div_mult2_eq [symmetric])
  have e: "n mod 1000 = 100 * (n div 100 mod 10) + 10 * (n div 10 mod 10) + n mod 10"
    using mod_mult2_eq [of n 100 10] mod_mult2_eq [of n 10 10] by simp
  have d: "n mod 1000 div 100 = n div 100 mod 10" "n mod 1000 div 10 mod 10 = n div 10 mod 10"
    "n mod 1000 mod 10 = n mod 10"
    unfolding e using digits3 [of "n div 10 mod 10" "n mod 10" "n div 100 mod 10"] by simp_all
  have "dec_string n = dec_string (n div 10) @ [digit_char (n mod 10)]"
    using assms by (simp add: dec_string_step)
  also have "dec_string (n div 10) = dec_string (n div 100) @ [digit_char (n div 10 mod 10)]"
    using assms by (simp add: dec_string_step [of "n div 10"] a)
  also have "dec_string (n div 100) = dec_string (n div 1000) @ [digit_char (n div 100 mod 10)]"
    using assms by (simp add: dec_string_step [of "n div 100"] a)
  finally show ?thesis by (simp add: pad3_def d)
qed

lemma dec_string_short: "n < 1000 \<Longrightarrow> length (dec_string n) \<le> 3"
  by (cases "n < 10"; cases "n < 100") (simp_all add: dec_string_small dec_string_step)

lemma sep_short: "length xs \<le> 3 \<Longrightarrow> concat (map sep (enumerate 0 xs)) = xs"
  by (cases xs; cases "tl xs"; cases "tl (tl xs)"; cases "tl (tl (tl xs))") auto

lemma human_grouping: "rev (concat (map sep (enumerate 0 (rev (dec_string n))))) = human_ref n"
proof (induction n rule: human_ref.induct)
  case (1 n)
  show ?case
  proof (cases "n < 1000")
    case True
    then show ?thesis by (simp add: human_ref.simps sep_short dec_string_short)
  next
    case False
    let ?r = "rev (dec_string (n div 1000))"
    have three: "Suc (Suc (Suc 0)) = 3" by simp
    obtain a b c where p: "pad3 (n mod 1000) = [a, b, c]" by (simp add: pad3_def)
    have "rev (dec_string n) = [c, b, a] @ ?r"
      using False p by (simp add: dec_string_thousands)
    then have "concat (map sep (enumerate 0 (rev (dec_string n)))) =
        [c, b, a] @ concat (map sep (enumerate 3 ?r))"
      by (simp add: three)
    then show ?thesis
      using False p 1 by (simp add: human_ref.simps [of n] sep_tail)
  qed
qed

subsection \<open>Chunks\<close>

lemma chunks_Nil [simp]: "chunks n [] = []"
  by (simp add: chunks.simps)

lemma concat_chunks: "0 < n \<Longrightarrow> concat (chunks n xs) = xs"
proof (induction n xs rule: chunks.induct)
  case (1 n xs)
  then show ?case by (cases "xs = []") (simp_all add: chunks.simps [of n xs])
qed

lemma chunks_length:
  "0 < n \<Longrightarrow> (\<forall>c \<in> set (chunks n xs). length c = n) \<longleftrightarrow> length xs mod n = 0"
proof (induction n xs rule: chunks.induct)
  case (1 n xs)
  show ?case
  proof (cases "xs = []")
    case False
    have c: "chunks n xs = take n xs # chunks n (drop n xs)"
      using False 1 by (simp add: chunks.simps [of n xs])
    show ?thesis
    proof (cases "n \<le> length xs")
      case True
      then show ?thesis using 1 False by (simp add: c le_mod_geq)
    next
      case short: False
      then show ?thesis using False by (simp add: c)
    qed
  qed simp
qed

lemma those_map_Some: "those (map f xs) = Some ys \<Longrightarrow> \<forall>x \<in> set xs. \<exists>y. f x = Some y"
  by (induction xs arbitrary: ys) (auto split: option.splits)

lemma those_map_if: "those (map (\<lambda>x. if P x then Some x else None) xs) = (if \<forall>x \<in> set xs. P x then Some xs else None)"
  by (induction xs) auto

lemma those_map_None: "those (map f xs) = None \<longleftrightarrow> (\<exists>x \<in> set xs. f x = None)"
  by (induction xs) (auto split: option.splits)

lemma bytes_to_chunks_eq:
  "bytes_to_chunks bs = (if length bs mod 32 = 0 then Some (chunks 32 bs) else None)"
  using chunks_length [of 32 bs] by (simp add: bytes_to_chunks_def those_map_if)

lemma hash_bytecode_eq:
  "hash_bytecode E code =
     (if length code mod 32 \<noteq> 0 then Err ''bytes must be divisible by 32''
      else case x_bytecode_to_code_hash E (chunks 32 code) of
             Some hash \<Rightarrow> Ok hash | None \<Rightarrow> Err ''invalid bytecode'')"
  by (simp add: hash_bytecode_def bytes_to_chunks_eq)

subsection \<open>Debug calls\<close>

fun no_near_call :: "call \<Rightarrow> bool" where
  "no_near_call (Call ty _ _ _ _ _ _ _ _ _ calls) = (ty \<noteq> CallNearCall \<and> list_all no_near_call calls)"

fun call_count :: "call \<Rightarrow> nat" where
  "call_count (Call _ _ _ _ _ _ _ _ _ _ calls) = Suc (sum_list (map call_count calls))"

fun debug_call_count :: "debug_call \<Rightarrow> nat" where
  "debug_call_count (DebugCallOut _ _ _ _ _ _ _ _ _ _ calls) = Suc (sum_list (map debug_call_count calls))"

lemma debug_type_of_None: "debug_type_of ty = None \<longleftrightarrow> ty = CallNearCall"
  by (cases ty) auto

lemma call_to_debug_call_None: "call_to_debug_call c = None \<longleftrightarrow> \<not> no_near_call c"
proof (induction c rule: call_to_debug_call.induct)
  case (1 ty fr tt gas gas_used v inp outp er rv calls)
  have "those (map call_to_debug_call calls) = None \<longleftrightarrow> \<not> list_all no_near_call calls"
    using 1 by (auto simp: those_map_None list_all_iff)
  then show ?case by (auto simp: debug_type_of_None split: option.splits)
qed

lemma those_sum:
  assumes "\<And>x y. x \<in> set xs \<Longrightarrow> f x = Some y \<Longrightarrow> h y = g x"
    and "those (map f xs) = Some ys"
  shows "sum_list (map h ys) = sum_list (map g xs)"
  using assms
proof (induction xs arbitrary: ys)
  case (Cons x xs)
  then show ?case by (fastforce split: option.splits)
qed simp

lemma call_to_debug_call_count:
  "call_to_debug_call c = Some d \<Longrightarrow> debug_call_count d = call_count c"
proof (induction c arbitrary: d rule: call_to_debug_call.induct)
  case (1 ty fr tt gas gas_used v inp outp er rv calls)
  then obtain calls' where c: "those (map call_to_debug_call calls) = Some calls'"
    by (auto split: option.splits)
  have "sum_list (map debug_call_count calls') = sum_list (map call_count calls)"
    by (rule those_sum [OF _ c]) (use 1 in auto)
  then show ?case using 1 c by (auto split: option.splits)
qed

subsection \<open>Dates\<close>

lemma epoch_ms_split:
  "unat ((millis mod 1000) * 1000000 :: u64) = unat millis mod 1000 * 1000000"
proof -
  have "unat (millis mod 1000) = unat millis mod 1000" by (simp add: unat_mod_distrib)
  moreover have "unat millis mod 1000 * 1000000 < 2 ^ 64"
    using mod_less_divisor [of 1000 "unat millis"] by simp
  ultimately show ?thesis by (simp add: unat_word_ariths)
qed

section \<open>Properties\<close>

text \<open>\<open>to_human_size\<close> prints every U256 in decimal with an underscore between groups of
  three digits: below one thousand just the number, else the printing of the thousands
  followed by an underscore and the last three digits.\<close>

theorem to_human_size_groups: "to_human_size input = human_ref (unat input)"
  using human_grouping [of "unat input"] by (simp add: to_human_size_def)

text \<open>\<open>hash_bytecode\<close> never panics: a length that is no multiple of 32 is an error before
  the bytecode is cut up, and otherwise the hash is that of 32-byte chunks whose
  concatenation is the bytecode.\<close>

theorem hash_bytecode_total:
  "hash_bytecode E code \<noteq> Panic \<and>
   (length code mod 32 \<noteq> 0 \<longrightarrow> hash_bytecode E code = Err ''bytes must be divisible by 32'') \<and>
   (length code mod 32 = 0 \<longrightarrow> (\<exists>cs. concat cs = code \<and> (\<forall>c \<in> set cs. length c = 32) \<and>
      hash_bytecode E code =
        (case x_bytecode_to_code_hash E cs of Some h \<Rightarrow> Ok h | None \<Rightarrow> Err ''invalid bytecode'')))"
  using concat_chunks [of 32 code] chunks_length [of 32 code]
  by (auto simp: hash_bytecode_eq split: option.splits intro!: exI [of _ "chunks 32 code"])

lemma hash_bytecode_total_witness:
  "\<forall>E. hash_bytecode E [1, 2, 3] = Err ''bytes must be divisible by 32''"
proof
  show "hash_bytecode E [1, 2, 3] = Err ''bytes must be divisible by 32''" for E
    using hash_bytecode_total [of E "[1, 2, 3]"] by simp
qed

text \<open>The conversion of a call trace to debug output is defined exactly when the trace holds no
  near call at any depth (the code panics otherwise), and then the converted tree has as many
  calls as the trace and the same root parties, value, input and output.\<close>

theorem call_to_debug_call_total:
  "(call_to_debug_call c = None \<longleftrightarrow> \<not> no_near_call c) \<and>
   (\<forall>d. call_to_debug_call c = Some d \<longrightarrow> debug_call_count d = call_count c \<and>
      d_from d = c_from c \<and> d_to d = c_to c \<and> d_value d = c_value c \<and>
      d_input d = c_input c \<and> d_output d = c_output c \<and> length (d_calls d) = length (c_calls c))"
proof (intro conjI allI impI)
  fix d assume d: "call_to_debug_call c = Some d"
  show "debug_call_count d = call_count c" using d by (rule call_to_debug_call_count)
  obtain ty fr tt g gu v i ou er rv cs where c: "c = Call ty fr tt g gu v i ou er rv cs" by (cases c)
  obtain cs' where cs': "those (map call_to_debug_call cs) = Some cs'"
    using d by (auto simp: c split: option.splits)
  then have "length cs' = length cs" using those_sum [of cs call_to_debug_call "\<lambda>_. 1 :: nat" "\<lambda>_. 1 :: nat" cs']
    by (simp add: sum_list_triv)
  then show "length (d_calls d) = length (c_calls c)" using d cs' by (auto simp: c split: option.splits)
  show "d_from d = c_from c" "d_to d = c_to c" "d_value d = c_value c" "d_input d = c_input c"
    "d_output d = c_output c"
    using d by (auto simp: c split: option.splits)
qed (rule call_to_debug_call_None)

lemma call_to_debug_call_total_witness:
  "\<exists>d. call_to_debug_call (Call CallCall 1 2 3 4 5 [] [] None None
          [Call CallCreate 2 6 1 1 0 [] [] None None []]) = Some d \<and> debug_call_count d = 2"
  using call_to_debug_call_total [of "Call CallCall 1 2 3 4 5 [] [] None None
          [Call CallCreate 2 6 1 1 0 [] [] None None []]"] by auto

end
