(* ===== verification/Fork_Storage.thy ===== *)
theory Fork_Storage
  imports Fork System_Contracts Utils
begin

text \<open>
  The storages of the node: \<open>InMemoryStorage\<close> (\<open>src/deps/mod.rs\<close>), \<open>ForkStorage\<close>
  (\<open>src/fork.rs\<close>) and \<open>StorageView\<close> (\<open>src/deps/storage_view.rs\<close>), and the run of a
  virtual machine program against a storage view.

  A reader may change state (its caches) and may panic; \<open>read_ops\<close> collects its
  operations. The interface \<open>read_storage\<close> states that a reader has a fixed contents, which
  reads do not change; all three storages are instances, the view over any reader.
\<close>

section \<open>In-memory storage\<close>

record in_memory_storage =
  im_state :: "storage_key \<rightharpoonup> h256"
  im_factory_deps :: "h256 \<rightharpoonup> bytes"

definition im_set_value :: "storage_key \<Rightarrow> h256 \<Rightarrow> in_memory_storage \<Rightarrow> in_memory_storage" where
  "im_set_value key v s = s\<lparr>im_state := (im_state s)(key \<mapsto> v)\<rparr>"

definition im_store_factory_dep :: "h256 \<Rightarrow> bytes \<Rightarrow> in_memory_storage \<Rightarrow> in_memory_storage" where
  "im_store_factory_dep hash bytecode s = s\<lparr>im_factory_deps := (im_factory_deps s)(hash \<mapsto> bytecode)\<rparr>"

definition im_read_value :: "in_memory_storage \<Rightarrow> storage_key \<Rightarrow> h256" where
  "im_read_value s key = unwrap_or (im_state s key) 0"

definition im_is_write_initial :: "in_memory_storage \<Rightarrow> storage_key \<Rightarrow> bool" where
  "im_is_write_initial s key = (im_state s key = None)"

definition im_load_factory_dep :: "in_memory_storage \<Rightarrow> h256 \<Rightarrow> bytes option" where
  "im_load_factory_dep s hash = im_factory_deps s hash"

text \<open>
  Storage at genesis: the code hash of every deployed contract and the writes of the system
  context, in this order; \<open>hasher\<close> is the hash function the caller passes (its panic is
  \<open>None\<close>).
\<close>

definition with_system_contracts_and_chain_id ::
  "ext \<Rightarrow> u64 \<Rightarrow> (bytes \<Rightarrow> h256 option) \<Rightarrow> contracts_option \<Rightarrow> in_memory_storage option" where
  "with_system_contracts_and_chain_id E chain_id hasher opts =
     Option.bind (get_deployed_contracts E opts) (\<lambda>cs.
     Option.bind (those (map (\<lambda>(a, code). map_option (\<lambda>h. (a, h, code)) (hasher code)) cs)) (\<lambda>hashed.
       Some \<lparr>im_state = foldl (\<lambda>m (k, v). m(k \<mapsto> v)) Map.empty
               (map (\<lambda>(a, h, code). (x_code_key E a, h)) hashed @ x_system_context_init_writes E chain_id),
             im_factory_deps = foldl (\<lambda>m (k, v). m(k \<mapsto> v)) Map.empty
               (map (\<lambda>(a, h, code). (h, code)) hashed)\<rparr>))"

section \<open>Fork storage\<close>

record fork_storage =
  fo_raw :: in_memory_storage
  fo_value_cache :: "storage_key \<rightharpoonup> h256"
  fo_dep_cache :: "h256 \<rightharpoonup> bytes option"
  fo_fork :: "fork_details option"
  fo_chain_id :: u64

definition TEST_NODE_NETWORK_ID :: u64 where "TEST_NODE_NETWORK_ID = 260"

definition fork_storage_new :: "ext \<Rightarrow> fork_details option \<Rightarrow> contracts_option \<Rightarrow> fork_storage option" where
  "fork_storage_new E fork opts =
     (let chain_id = unwrap_or (Option.bind fork fd_overwrite_chain_id) TEST_NODE_NETWORK_ID in
      map_option (\<lambda>raw. \<lparr>fo_raw = raw, fo_value_cache = Map.empty, fo_dep_cache = Map.empty,
                        fo_fork = fork, fo_chain_id = chain_id\<rparr>)
        (with_system_contracts_and_chain_id E chain_id (x_hash_bytecode E) opts))"

definition fo_get_cache_config :: "fork_storage \<Rightarrow> cache_config" where
  "fo_get_cache_config fo = (case fo_fork fo of Some fd \<Rightarrow> fd_cache_config fd | None \<Rightarrow> default)"

definition fo_get_fork_url :: "fork_storage \<Rightarrow> (string, string) res" where
  "fo_get_fork_url fo =
     (case fo_fork fo of Some fd \<Rightarrow> fs_fork_url (fd_source fd) | None \<Rightarrow> Err ''not forked'')"

definition remote_value :: "fork_details \<Rightarrow> storage_key \<Rightarrow> (string, h256) res" where
  "remote_value fork key =
     fs_storage_at (fd_source fork) (key_address key) (key_slot key)
       (Some (BlockNumberId (Number (fd_l2_miniblock fork))))"

definition read_value_internal :: "storage_key \<Rightarrow> fork_storage \<Rightarrow> (string, h256) res \<times> fork_storage" where
  "read_value_internal key fo =
     (let local_storage = im_read_value (fo_raw fo) key in
      case fo_fork fo of
        None \<Rightarrow> (Ok local_storage, fo)
      | Some fork \<Rightarrow>
          if local_storage \<noteq> 0 then (Ok local_storage, fo)
          else case fo_value_cache fo key of
            Some v \<Rightarrow> (Ok v, fo)
          | None \<Rightarrow>
              (case remote_value fork key of
                 Ok result \<Rightarrow> (Ok result, fo\<lparr>fo_value_cache := (fo_value_cache fo)(key \<mapsto> result)\<rparr>)
               | Err e \<Rightarrow> (Err e, fo)
               | Panic \<Rightarrow> (Panic, fo)))"

definition load_factory_dep_internal :: "h256 \<Rightarrow> fork_storage \<Rightarrow> (string, bytes option) res \<times> fork_storage" where
  "load_factory_dep_internal hash fo =
     (let local_storage = im_load_factory_dep (fo_raw fo) hash in
      case fo_fork fo of
        None \<Rightarrow> (Ok local_storage, fo)
      | Some fork \<Rightarrow>
          if local_storage \<noteq> None then (Ok local_storage, fo)
          else case fo_dep_cache fo hash of
            Some v \<Rightarrow> (Ok v, fo)
          | None \<Rightarrow>
              (case fs_bytecode_by_hash (fd_source fork) hash of
                 Ok result \<Rightarrow> (Ok result, fo\<lparr>fo_dep_cache := (fo_dep_cache fo)(hash \<mapsto> result)\<rparr>)
               | Err e \<Rightarrow> (Err e, fo)
               | Panic \<Rightarrow> (Panic, fo)))"

definition is_write_initial_internal :: "storage_key \<Rightarrow> fork_storage \<Rightarrow> (string, bool) res \<times> fork_storage" where
  "is_write_initial_internal key fo =
     (case read_value_internal key fo of
        (Ok v, fo') \<Rightarrow>
          if v \<noteq> 0 then (Ok False, fo') else (Ok (im_is_write_initial (fo_raw fo') key), fo')
      | (Err e, fo') \<Rightarrow> (Err e, fo')
      | (Panic, fo') \<Rightarrow> (Panic, fo'))"

definition fo_set_value :: "storage_key \<Rightarrow> h256 \<Rightarrow> fork_storage \<Rightarrow> fork_storage" where
  "fo_set_value key v fo = fo\<lparr>fo_raw := im_set_value key v (fo_raw fo)\<rparr>"

definition fo_store_factory_dep :: "h256 \<Rightarrow> bytes \<Rightarrow> fork_storage \<Rightarrow> fork_storage" where
  "fo_store_factory_dep hash bytecode fo = fo\<lparr>fo_raw := im_store_factory_dep hash bytecode (fo_raw fo)\<rparr>"

section \<open>Readers\<close>

record 's read_ops =
  ro_value :: "storage_key \<Rightarrow> 's \<Rightarrow> (h256 \<times> 's) option"
  ro_initial :: "storage_key \<Rightarrow> 's \<Rightarrow> (bool \<times> 's) option"
  ro_dep :: "h256 \<Rightarrow> 's \<Rightarrow> (bytes option \<times> 's) option"

definition unwrapped :: "(string, 'a) res \<times> 's \<Rightarrow> ('a \<times> 's) option" where
  "unwrapped rs = map_option (\<lambda>x. (x, snd rs)) (unwrap (fst rs))"

definition im_ops :: "in_memory_storage read_ops" where
  "im_ops = \<lparr>ro_value = \<lambda>k s. Some (im_read_value s k, s),
     ro_initial = \<lambda>k s. Some (im_is_write_initial s k, s),
     ro_dep = \<lambda>h s. Some (im_load_factory_dep s h, s)\<rparr>"

text \<open>The \<open>ReadStorage\<close> implementation of the fork storage unwraps every error.\<close>

definition fo_ops :: "fork_storage read_ops" where
  "fo_ops = \<lparr>ro_value = \<lambda>k fo. unwrapped (read_value_internal k fo),
     ro_initial = \<lambda>k fo. unwrapped (is_write_initial_internal k fo),
     ro_dep = \<lambda>h fo. unwrapped (load_factory_dep_internal h fo)\<rparr>"

section \<open>Storage view\<close>

record 's storage_view =
  sv_storage_handle :: 's
  sv_modified :: "storage_key \<rightharpoonup> h256"
  sv_read :: "storage_key \<rightharpoonup> h256"
  sv_initial :: "storage_key \<rightharpoonup> bool"

definition storage_view_new :: "'s \<Rightarrow> 's storage_view" where
  "storage_view_new s = \<lparr>sv_storage_handle = s, sv_modified = Map.empty, sv_read = Map.empty,
     sv_initial = Map.empty\<rparr>"

definition clean_cache :: "'s storage_view \<Rightarrow> 's storage_view" where
  "clean_cache sv = sv\<lparr>sv_modified := Map.empty, sv_read := Map.empty, sv_initial := Map.empty\<rparr>"

definition get_value_no_log ::
  "'s read_ops \<Rightarrow> storage_key \<Rightarrow> 's storage_view \<Rightarrow> (h256 \<times> 's storage_view) option" where
  "get_value_no_log ops key sv =
     (case or_else (sv_modified sv key) (sv_read sv key) of
        Some v \<Rightarrow> Some (v, sv)
      | None \<Rightarrow>
          map_option (\<lambda>(v, s). (v, sv\<lparr>sv_storage_handle := s, sv_read := (sv_read sv)(key \<mapsto> v)\<rparr>))
            (ro_value ops key (sv_storage_handle sv)))"

definition sv_is_write_initial ::
  "'s read_ops \<Rightarrow> storage_key \<Rightarrow> 's storage_view \<Rightarrow> (bool \<times> 's storage_view) option" where
  "sv_is_write_initial ops key sv =
     (case sv_initial sv key of
        Some b \<Rightarrow> Some (b, sv)
      | None \<Rightarrow>
          map_option (\<lambda>(b, s). (b, sv\<lparr>sv_storage_handle := s, sv_initial := (sv_initial sv)(key \<mapsto> b)\<rparr>))
            (ro_initial ops key (sv_storage_handle sv)))"

definition sv_load_factory_dep ::
  "'s read_ops \<Rightarrow> h256 \<Rightarrow> 's storage_view \<Rightarrow> (bytes option \<times> 's storage_view) option" where
  "sv_load_factory_dep ops hash sv =
     map_option (\<lambda>(d, s). (d, sv\<lparr>sv_storage_handle := s\<rparr>)) (ro_dep ops hash (sv_storage_handle sv))"

definition sv_set_value ::
  "'s read_ops \<Rightarrow> storage_key \<Rightarrow> h256 \<Rightarrow> 's storage_view \<Rightarrow> (h256 \<times> 's storage_view) option" where
  "sv_set_value ops key v sv =
     map_option (\<lambda>(original, sv1). (original, sv1\<lparr>sv_modified := (sv_modified sv1)(key \<mapsto> v)\<rparr>))
       (get_value_no_log ops key sv)"

definition sv_ops :: "'s read_ops \<Rightarrow> 's storage_view read_ops" where
  "sv_ops ops = \<lparr>ro_value = get_value_no_log ops, ro_initial = sv_is_write_initial ops,
     ro_dep = sv_load_factory_dep ops\<rparr>"

section \<open>Running a program\<close>

primrec run :: "'s read_ops \<Rightarrow> 'r sprog \<Rightarrow> 's storage_view \<Rightarrow> ('r \<times> 's storage_view) option" where
  "run ops (Return r) sv = Some (r, sv)"
| "run ops (ReadValue k p) sv =
     (case get_value_no_log ops k sv of None \<Rightarrow> None | Some (v, sv') \<Rightarrow> run ops (p v) sv')"
| "run ops (SetValue k v p) sv =
     (case sv_set_value ops k v sv of None \<Rightarrow> None | Some (v', sv') \<Rightarrow> run ops (p v') sv')"
| "run ops (IsWriteInitial k p) sv =
     (case sv_is_write_initial ops k sv of None \<Rightarrow> None | Some (b, sv') \<Rightarrow> run ops (p b) sv')"
| "run ops (LoadFactoryDep h p) sv =
     (case sv_load_factory_dep ops h sv of None \<Rightarrow> None | Some (d, sv') \<Rightarrow> run ops (p d) sv')"

text \<open>A program that only reads, run against a reader directly.\<close>

primrec run_reader :: "'s read_ops \<Rightarrow> 'r sprog \<Rightarrow> 's \<Rightarrow> ('r \<times> 's) option" where
  "run_reader ops (Return r) s = Some (r, s)"
| "run_reader ops (ReadValue k p) s =
     (case ro_value ops k s of None \<Rightarrow> None | Some (v, s') \<Rightarrow> run_reader ops (p v) s')"
| "run_reader ops (SetValue k v p) s = None"
| "run_reader ops (IsWriteInitial k p) s =
     (case ro_initial ops k s of None \<Rightarrow> None | Some (b, s') \<Rightarrow> run_reader ops (p b) s')"
| "run_reader ops (LoadFactoryDep h p) s =
     (case ro_dep ops h s of None \<Rightarrow> None | Some (d, s') \<Rightarrow> run_reader ops (p d) s')"

section \<open>The interface of a readable storage\<close>

text \<open>
  A reader has contents: the value of every key, whether a write to it is initial, and the
  bytecode behind every hash, each possibly a panic. Reads answer the contents and leave a
  reader with the same contents.
\<close>

locale read_storage =
  fixes ops :: "'s read_ops"
    and val :: "'s \<Rightarrow> storage_key \<Rightarrow> h256 option"
    and ini :: "'s \<Rightarrow> storage_key \<Rightarrow> bool option"
    and dep :: "'s \<Rightarrow> h256 \<Rightarrow> bytes option option"
    and inv :: "'s \<Rightarrow> bool"
  assumes value_panic: "inv s \<Longrightarrow> val s k = None \<Longrightarrow> ro_value ops k s = None"
    and value_answer: "inv s \<Longrightarrow> val s k = Some v \<Longrightarrow>
      \<exists>s'. ro_value ops k s = Some (v, s') \<and> inv s' \<and> val s' = val s \<and> ini s' = ini s \<and> dep s' = dep s"
    and initial_panic: "inv s \<Longrightarrow> ini s k = None \<Longrightarrow> ro_initial ops k s = None"
    and initial_answer: "inv s \<Longrightarrow> ini s k = Some b \<Longrightarrow>
      \<exists>s'. ro_initial ops k s = Some (b, s') \<and> inv s' \<and> val s' = val s \<and> ini s' = ini s \<and> dep s' = dep s"
    and dep_panic: "inv s \<Longrightarrow> dep s h = None \<Longrightarrow> ro_dep ops h s = None"
    and dep_answer: "inv s \<Longrightarrow> dep s h = Some d \<Longrightarrow>
      \<exists>s'. ro_dep ops h s = Some (d, s') \<and> inv s' \<and> val s' = val s \<and> ini s' = ini s \<and> dep s' = dep s"
begin

lemma repeated_read:
  "inv s \<Longrightarrow> ro_value ops k s = Some (v, s1) \<Longrightarrow> \<exists>s2. ro_value ops k s1 = Some (v, s2) \<and> inv s1"
proof -
  assume i: "inv s" and r: "ro_value ops k s = Some (v, s1)"
  then have v: "val s k = Some v"
    using value_panic value_answer by (cases "val s k") fastforce+
  then have "inv s1" "val s1 = val s" using value_answer [OF i v] r by auto
  then show ?thesis using value_answer [of s1 k v] v by auto
qed

end

text \<open>The run of a program on an overlay over fixed contents: the specification of a view.\<close>

primrec pure_run ::
  "(storage_key \<Rightarrow> h256 option) \<Rightarrow> (storage_key \<Rightarrow> bool option) \<Rightarrow> (h256 \<Rightarrow> bytes option option) \<Rightarrow>
     'r sprog \<Rightarrow> (storage_key \<rightharpoonup> h256) \<Rightarrow> ('r \<times> (storage_key \<rightharpoonup> h256)) option" where
  "pure_run val ini dep (Return r) m = Some (r, m)"
| "pure_run val ini dep (ReadValue k p) m =
     Option.bind (or_else (m k) (val k)) (\<lambda>v. pure_run val ini dep (p v) m)"
| "pure_run val ini dep (SetValue k v p) m =
     Option.bind (or_else (m k) (val k)) (\<lambda>v'. pure_run val ini dep (p v') (m(k \<mapsto> v)))"
| "pure_run val ini dep (IsWriteInitial k p) m =
     Option.bind (ini k) (\<lambda>b. pure_run val ini dep (p b) m)"
| "pure_run val ini dep (LoadFactoryDep h p) m =
     Option.bind (dep h) (\<lambda>d. pure_run val ini dep (p d) m)"

locale viewed_storage = base: read_storage ops val ini dep inv
  for ops :: "'s read_ops"
    and val :: "'s \<Rightarrow> storage_key \<Rightarrow> h256 option"
    and ini :: "'s \<Rightarrow> storage_key \<Rightarrow> bool option"
    and dep :: "'s \<Rightarrow> h256 \<Rightarrow> bytes option option"
    and inv :: "'s \<Rightarrow> bool"
begin

definition view_val :: "'s storage_view \<Rightarrow> storage_key \<Rightarrow> h256 option" where
  "view_val sv k = or_else (sv_modified sv k) (val (sv_storage_handle sv) k)"

definition view_ini :: "'s storage_view \<Rightarrow> storage_key \<Rightarrow> bool option" where
  "view_ini sv = ini (sv_storage_handle sv)"

definition view_dep :: "'s storage_view \<Rightarrow> h256 \<Rightarrow> bytes option option" where
  "view_dep sv = dep (sv_storage_handle sv)"

text \<open>The caches of a view hold contents of the storage below it.\<close>

definition view_inv :: "'s storage_view \<Rightarrow> bool" where
  "view_inv sv \<longleftrightarrow> inv (sv_storage_handle sv) \<and>
     (\<forall>k v. sv_read sv k = Some v \<longrightarrow> val (sv_storage_handle sv) k = Some v) \<and>
     (\<forall>k b. sv_initial sv k = Some b \<longrightarrow> ini (sv_storage_handle sv) k = Some b)"

lemmas view_defs = view_val_def view_ini_def view_dep_def view_inv_def

definition same_below :: "'s storage_view \<Rightarrow> 's storage_view \<Rightarrow> bool" where
  "same_below sv sv' \<longleftrightarrow> view_inv sv' \<and> val (sv_storage_handle sv') = val (sv_storage_handle sv) \<and>
     ini (sv_storage_handle sv') = ini (sv_storage_handle sv) \<and>
     dep (sv_storage_handle sv') = dep (sv_storage_handle sv)"

lemma view_new: "inv s \<Longrightarrow> view_inv (storage_view_new s)"
  by (simp add: view_inv_def storage_view_new_def)

lemma uncached:
  assumes "view_inv sv"
  shows "val (sv_storage_handle sv) k = None \<Longrightarrow> sv_read sv k = None"
    and "ini (sv_storage_handle sv) k = None \<Longrightarrow> sv_initial sv k = None"
  using assms by (metis not_None_eq view_inv_def)+

lemma get_value_None:
  assumes "view_inv sv" and "view_val sv k = None"
  shows "get_value_no_log ops k sv = None"
proof -
  have "sv_modified sv k = None" "val (sv_storage_handle sv) k = None"
    using assms(2) by (simp_all add: view_val_def or_else_def split: option.splits)
  then show ?thesis
    using assms(1) uncached(1) [OF assms(1)] base.value_panic [of "sv_storage_handle sv" k]
    by (simp add: get_value_no_log_def view_inv_def)
qed

lemma get_value_Some:
  assumes "view_inv sv" and "view_val sv k = Some v"
  shows "\<exists>sv'. get_value_no_log ops k sv = Some (v, sv') \<and> same_below sv sv' \<and> sv_modified sv' = sv_modified sv"
proof (cases "or_else (sv_modified sv k) (sv_read sv k)")
  case None
  then have "sv_modified sv k = None" by (simp add: or_else_def split: option.splits)
  then have "val (sv_storage_handle sv) k = Some v" using assms(2) by (simp add: view_val_def)
  then obtain s' where "ro_value ops k (sv_storage_handle sv) = Some (v, s')" "inv s'"
      "val s' = val (sv_storage_handle sv)" "ini s' = ini (sv_storage_handle sv)"
      "dep s' = dep (sv_storage_handle sv)"
    using base.value_answer assms(1) unfolding view_inv_def by blast
  then show ?thesis
    using None assms \<open>val (sv_storage_handle sv) k = Some v\<close>
    by (auto simp: get_value_no_log_def same_below_def view_inv_def)
next
  case (Some w)
  then have "w = v" using assms by (auto simp: view_defs or_else_def split: option.splits)
  then show ?thesis using Some assms(1) by (simp add: get_value_no_log_def same_below_def)
qed

lemma initial_None: "view_inv sv \<Longrightarrow> view_ini sv k = None \<Longrightarrow> sv_is_write_initial ops k sv = None"
  using base.initial_panic [of "sv_storage_handle sv" k] uncached(2) [of sv k]
  by (simp add: view_ini_def view_inv_def sv_is_write_initial_def)

lemma initial_Some:
  assumes "view_inv sv" and "view_ini sv k = Some b"
  shows "\<exists>sv'. sv_is_write_initial ops k sv = Some (b, sv') \<and> same_below sv sv' \<and> sv_modified sv' = sv_modified sv"
proof (cases "sv_initial sv k")
  case None
  obtain s' where "ro_initial ops k (sv_storage_handle sv) = Some (b, s')" "inv s'"
      "val s' = val (sv_storage_handle sv)" "ini s' = ini (sv_storage_handle sv)"
      "dep s' = dep (sv_storage_handle sv)"
    using base.initial_answer assms unfolding view_inv_def view_ini_def by blast
  then show ?thesis
    using None assms by (auto simp: sv_is_write_initial_def same_below_def view_inv_def view_ini_def)
next
  case (Some c)
  then have "c = b" using assms by (auto simp: view_defs)
  then show ?thesis using Some assms(1) by (simp add: sv_is_write_initial_def same_below_def)
qed

lemma dep_None: "view_inv sv \<Longrightarrow> view_dep sv h = None \<Longrightarrow> sv_load_factory_dep ops h sv = None"
  using base.dep_panic [of "sv_storage_handle sv" h] by (simp add: view_defs sv_load_factory_dep_def)

lemma dep_Some:
  assumes "view_inv sv" and "view_dep sv h = Some d"
  shows "\<exists>sv'. sv_load_factory_dep ops h sv = Some (d, sv') \<and> same_below sv sv' \<and> sv_modified sv' = sv_modified sv"
proof -
  obtain s' where "ro_dep ops h (sv_storage_handle sv) = Some (d, s')" "inv s'"
      "val s' = val (sv_storage_handle sv)" "ini s' = ini (sv_storage_handle sv)"
      "dep s' = dep (sv_storage_handle sv)"
    using base.dep_answer assms unfolding view_inv_def view_dep_def by blast
  then show ?thesis using assms by (auto simp: sv_load_factory_dep_def same_below_def view_inv_def)
qed

lemma same_below_trans: "same_below a b \<Longrightarrow> same_below b c \<Longrightarrow> same_below a c"
  by (simp add: same_below_def)

lemma same_below_modify: "same_below sv sv' \<Longrightarrow> same_below sv (sv'\<lparr>sv_modified := m\<rparr>)"
  by (auto simp: same_below_def view_inv_def)

end

section \<open>A view refines the overlay, and is a readable storage again\<close>

context viewed_storage
begin

theorem run_refines:
  assumes "view_inv sv"
  shows "(case pure_run (val (sv_storage_handle sv)) (ini (sv_storage_handle sv))
            (dep (sv_storage_handle sv)) p (sv_modified sv) of
      None \<Rightarrow> run ops p sv = None
    | Some (r, m) \<Rightarrow> \<exists>sv'. run ops p sv = Some (r, sv') \<and> sv_modified sv' = m \<and> same_below sv sv')"
  using assms
proof (induction p arbitrary: sv)
  case (Return r)
  then show ?case by (simp add: same_below_def)
next
  case (ReadValue k p)
  show ?case
  proof (cases "view_val sv k")
    case None
    then show ?thesis using get_value_None [OF ReadValue.prems] by (simp add: view_val_def)
  next
    case (Some v)
    then obtain sv1 where 1: "get_value_no_log ops k sv = Some (v, sv1)" "same_below sv sv1"
        "sv_modified sv1 = sv_modified sv"
      using get_value_Some ReadValue.prems by blast
    then show ?thesis
      using ReadValue.IH [of "p v" sv1] Some
      by (auto simp: view_val_def same_below_def split: option.splits)
  qed
next
  case (SetValue k v p)
  show ?case
  proof (cases "view_val sv k")
    case None
    then show ?thesis
      using get_value_None [OF SetValue.prems] by (simp add: view_val_def sv_set_value_def)
  next
    case (Some w)
    then obtain sv1 where 1: "get_value_no_log ops k sv = Some (w, sv1)" "same_below sv sv1"
        "sv_modified sv1 = sv_modified sv"
      using get_value_Some SetValue.prems by blast
    define m where "m = (sv_modified sv)(k \<mapsto> v)"
    let ?sv2 = "sv1\<lparr>sv_modified := m\<rparr>"
    have "sv_set_value ops k v sv = Some (w, ?sv2)" using 1 by (simp add: sv_set_value_def m_def)
    moreover have "same_below sv ?sv2" using 1(2) by (rule same_below_modify)
    ultimately show ?thesis
      using SetValue.IH [of "p w" ?sv2] Some
      by (auto simp: view_val_def same_below_def m_def [symmetric] split: option.splits)
  qed
next
  case (IsWriteInitial k p)
  show ?case
  proof (cases "view_ini sv k")
    case None
    then show ?thesis using initial_None [OF IsWriteInitial.prems] by (simp add: view_ini_def)
  next
    case (Some b)
    then obtain sv1 where "sv_is_write_initial ops k sv = Some (b, sv1)" "same_below sv sv1"
        "sv_modified sv1 = sv_modified sv"
      using initial_Some IsWriteInitial.prems by blast
    then show ?thesis
      using IsWriteInitial.IH [of "p b" sv1] Some
      by (auto simp: view_ini_def same_below_def split: option.splits)
  qed
next
  case (LoadFactoryDep h p)
  show ?case
  proof (cases "view_dep sv h")
    case None
    then show ?thesis using dep_None [OF LoadFactoryDep.prems] by (simp add: view_dep_def)
  next
    case (Some d)
    then obtain sv1 where "sv_load_factory_dep ops h sv = Some (d, sv1)" "same_below sv sv1"
        "sv_modified sv1 = sv_modified sv"
      using dep_Some LoadFactoryDep.prems by blast
    then show ?thesis
      using LoadFactoryDep.IH [of "p d" sv1] Some
      by (auto simp: view_dep_def same_below_def split: option.splits)
  qed
qed

end

sublocale viewed_storage \<subseteq> view: read_storage "sv_ops ops" view_val view_ini view_dep view_inv
proof
  fix s k v assume "view_inv s" "view_val s k = Some v"
  then obtain s' where "get_value_no_log ops k s = Some (v, s')" "same_below s s'" "sv_modified s' = sv_modified s"
    using get_value_Some by blast
  then show "\<exists>s'. ro_value (sv_ops ops) k s = Some (v, s') \<and> view_inv s' \<and> view_val s' = view_val s \<and>
      view_ini s' = view_ini s \<and> view_dep s' = view_dep s"
    by (auto simp: sv_ops_def same_below_def view_val_def view_ini_def view_dep_def fun_eq_iff)
next
  fix s k b assume "view_inv s" "view_ini s k = Some b"
  then obtain s' where "sv_is_write_initial ops k s = Some (b, s')" "same_below s s'" "sv_modified s' = sv_modified s"
    using initial_Some by blast
  then show "\<exists>s'. ro_initial (sv_ops ops) k s = Some (b, s') \<and> view_inv s' \<and> view_val s' = view_val s \<and>
      view_ini s' = view_ini s \<and> view_dep s' = view_dep s"
    by (auto simp: sv_ops_def same_below_def view_val_def view_ini_def view_dep_def fun_eq_iff)
next
  fix s h d assume "view_inv s" "view_dep s h = Some d"
  then obtain s' where "sv_load_factory_dep ops h s = Some (d, s')" "same_below s s'" "sv_modified s' = sv_modified s"
    using dep_Some by blast
  then show "\<exists>s'. ro_dep (sv_ops ops) h s = Some (d, s') \<and> view_inv s' \<and> view_val s' = view_val s \<and>
      view_ini s' = view_ini s \<and> view_dep s' = view_dep s"
    by (auto simp: sv_ops_def same_below_def view_val_def view_ini_def view_dep_def fun_eq_iff)
qed (auto simp: sv_ops_def get_value_None initial_None dep_None)

section \<open>The storages of the code\<close>

interpretation im: viewed_storage im_ops "\<lambda>s k. Some (im_read_value s k)"
  "\<lambda>s k. Some (im_is_write_initial s k)" "\<lambda>s h. Some (im_load_factory_dep s h)" "\<lambda>_. True"
  by unfold_locales (auto simp: im_ops_def)

text \<open>The contents of a fork storage.\<close>

definition fork_value :: "fork_storage \<Rightarrow> storage_key \<Rightarrow> (string, h256) res" where
  "fork_value fo key =
     (case fo_fork fo of
        None \<Rightarrow> Ok (im_read_value (fo_raw fo) key)
      | Some fork \<Rightarrow>
          if im_read_value (fo_raw fo) key \<noteq> 0 then Ok (im_read_value (fo_raw fo) key)
          else remote_value fork key)"

definition fork_initial :: "fork_storage \<Rightarrow> storage_key \<Rightarrow> (string, bool) res" where
  "fork_initial fo key =
     rbind (fork_value fo key) (\<lambda>v. Ok (v = 0 \<and> im_is_write_initial (fo_raw fo) key))"

definition fork_dep :: "fork_storage \<Rightarrow> h256 \<Rightarrow> (string, bytes option) res" where
  "fork_dep fo hash =
     (case fo_fork fo of
        None \<Rightarrow> Ok (im_load_factory_dep (fo_raw fo) hash)
      | Some fork \<Rightarrow>
          if im_load_factory_dep (fo_raw fo) hash \<noteq> None then Ok (im_load_factory_dep (fo_raw fo) hash)
          else fs_bytecode_by_hash (fd_source fork) hash)"

definition caches_coherent :: "fork_storage \<Rightarrow> bool" where
  "caches_coherent fo \<longleftrightarrow> (\<forall>fork. fo_fork fo = Some fork \<longrightarrow>
     (\<forall>k v. fo_value_cache fo k = Some v \<longrightarrow> remote_value fork k = Ok v) \<and>
     (\<forall>h d. fo_dep_cache fo h = Some d \<longrightarrow> fs_bytecode_by_hash (fd_source fork) h = Ok d))"

definition same_contents :: "fork_storage \<Rightarrow> fork_storage \<Rightarrow> bool" where
  "same_contents fo fo' \<longleftrightarrow> caches_coherent fo' \<and> fo_raw fo' = fo_raw fo \<and> fo_fork fo' = fo_fork fo \<and>
     fo_chain_id fo' = fo_chain_id fo"

lemma same_contents_fork:
  "same_contents fo fo' \<Longrightarrow> fork_value fo' = fork_value fo \<and> fork_initial fo' = fork_initial fo \<and>
     fork_dep fo' = fork_dep fo"
  by (simp add: same_contents_def fork_value_def fork_initial_def fork_dep_def fun_eq_iff split: option.split)

lemma same_contents_trans: "same_contents a b \<Longrightarrow> same_contents b c \<Longrightarrow> same_contents a c"
  by (simp add: same_contents_def)

lemma read_value_correct:
  assumes "caches_coherent fo"
  shows "fst (read_value_internal k fo) = fork_value fo k \<and> same_contents fo (snd (read_value_internal k fo))"
  using assms
  by (auto simp: read_value_internal_def fork_value_def same_contents_def caches_coherent_def Let_def
      split: option.splits res.splits)

lemma load_factory_dep_correct:
  assumes "caches_coherent fo"
  shows "fst (load_factory_dep_internal h fo) = fork_dep fo h \<and>
    same_contents fo (snd (load_factory_dep_internal h fo))"
  using assms
  by (auto simp: load_factory_dep_internal_def fork_dep_def same_contents_def caches_coherent_def Let_def
      split: option.splits res.splits)

lemma is_write_initial_correct:
  assumes "caches_coherent fo"
  shows "fst (is_write_initial_internal k fo) = fork_initial fo k \<and>
    same_contents fo (snd (is_write_initial_internal k fo))"
  using read_value_correct [OF assms, of k]
  by (cases "read_value_internal k fo"; cases "fst (read_value_internal k fo)")
     (auto simp: is_write_initial_internal_def fork_initial_def same_contents_def)

lemma unwrapped_None: "unwrap (fst rs) = None \<Longrightarrow> unwrapped rs = None"
  by (simp add: unwrapped_def)

lemma unwrapped_Some: "unwrap (fst rs) = Some v \<Longrightarrow> unwrapped rs = Some (v, snd rs)"
  by (simp add: unwrapped_def)

interpretation fo: viewed_storage fo_ops "\<lambda>fo k. unwrap (fork_value fo k)"
  "\<lambda>fo k. unwrap (fork_initial fo k)" "\<lambda>fo h. unwrap (fork_dep fo h)" caches_coherent
proof unfold_locales
  fix s k v assume "caches_coherent s" "unwrap (fork_value s k) = Some v"
  then show "\<exists>s'. ro_value fo_ops k s = Some (v, s') \<and> caches_coherent s' \<and>
      (\<lambda>k. unwrap (fork_value s' k)) = (\<lambda>k. unwrap (fork_value s k)) \<and>
      (\<lambda>k. unwrap (fork_initial s' k)) = (\<lambda>k. unwrap (fork_initial s k)) \<and>
      (\<lambda>h. unwrap (fork_dep s' h)) = (\<lambda>h. unwrap (fork_dep s h))"
    using read_value_correct [of s k] same_contents_fork [of s "snd (read_value_internal k s)"]
    by (auto simp: fo_ops_def unwrapped_Some same_contents_def)
next
  fix s k v assume "caches_coherent s" "unwrap (fork_initial s k) = Some v"
  then show "\<exists>s'. ro_initial fo_ops k s = Some (v, s') \<and> caches_coherent s' \<and>
      (\<lambda>k. unwrap (fork_value s' k)) = (\<lambda>k. unwrap (fork_value s k)) \<and>
      (\<lambda>k. unwrap (fork_initial s' k)) = (\<lambda>k. unwrap (fork_initial s k)) \<and>
      (\<lambda>h. unwrap (fork_dep s' h)) = (\<lambda>h. unwrap (fork_dep s h))"
    using is_write_initial_correct [of s k] same_contents_fork [of s "snd (is_write_initial_internal k s)"]
    by (auto simp: fo_ops_def unwrapped_Some same_contents_def)
next
  fix s h d assume "caches_coherent s" "unwrap (fork_dep s h) = Some d"
  then show "\<exists>s'. ro_dep fo_ops h s = Some (d, s') \<and> caches_coherent s' \<and>
      (\<lambda>k. unwrap (fork_value s' k)) = (\<lambda>k. unwrap (fork_value s k)) \<and>
      (\<lambda>k. unwrap (fork_initial s' k)) = (\<lambda>k. unwrap (fork_initial s k)) \<and>
      (\<lambda>h. unwrap (fork_dep s' h)) = (\<lambda>h. unwrap (fork_dep s h))"
    using load_factory_dep_correct [of s h] same_contents_fork [of s "snd (load_factory_dep_internal h s)"]
    by (auto simp: fo_ops_def unwrapped_Some same_contents_def)
qed (auto simp: fo_ops_def unwrapped_def read_value_correct is_write_initial_correct load_factory_dep_correct)

subsection \<open>Reads leave the local storage alone\<close>

definition same_local :: "fork_storage \<Rightarrow> fork_storage \<Rightarrow> bool" where
  "same_local fo fo' \<longleftrightarrow> fo_raw fo' = fo_raw fo \<and> fo_fork fo' = fo_fork fo \<and> fo_chain_id fo' = fo_chain_id fo"

lemma same_local_refl [simp]: "same_local fo fo"
  by (simp add: same_local_def)

lemma same_local_trans: "same_local a b \<Longrightarrow> same_local b c \<Longrightarrow> same_local a c"
  by (simp add: same_local_def)

lemma read_value_local: "same_local fo (snd (read_value_internal k fo))"
  by (simp add: read_value_internal_def same_local_def Let_def split: option.split res.split)

lemma load_factory_dep_local: "same_local fo (snd (load_factory_dep_internal h fo))"
  by (simp add: load_factory_dep_internal_def same_local_def Let_def split: option.split res.split)

lemma is_write_initial_local: "same_local fo (snd (is_write_initial_internal k fo))"
  using read_value_local [of fo k] by (auto simp: is_write_initial_internal_def split: prod.split res.split)

lemma unwrapped_eq: "unwrapped rs = Some (v, s) \<longleftrightarrow> fst rs = Ok v \<and> s = snd rs"
  by (cases "fst rs") (auto simp: unwrapped_def)

lemma fo_ops_local:
  "ro_value fo_ops k fo = Some (v, fo') \<Longrightarrow> same_local fo fo'"
  "ro_initial fo_ops k fo = Some (b, fo') \<Longrightarrow> same_local fo fo'"
  "ro_dep fo_ops h fo = Some (d, fo') \<Longrightarrow> same_local fo fo'"
  by (auto simp: fo_ops_def unwrapped_eq read_value_local is_write_initial_local load_factory_dep_local)

lemma view_local:
  "get_value_no_log fo_ops k sv = Some (v, sv') \<Longrightarrow> same_local (sv_storage_handle sv) (sv_storage_handle sv')"
  "sv_is_write_initial fo_ops k sv = Some (b, sv') \<Longrightarrow> same_local (sv_storage_handle sv) (sv_storage_handle sv')"
  "sv_load_factory_dep fo_ops h sv = Some (d, sv') \<Longrightarrow> same_local (sv_storage_handle sv) (sv_storage_handle sv')"
  by (auto simp: get_value_no_log_def sv_is_write_initial_def sv_load_factory_dep_def
      intro: fo_ops_local split: option.splits)

lemma run_local: "run fo_ops p sv = Some (r, sv') \<Longrightarrow> same_local (sv_storage_handle sv) (sv_storage_handle sv')"
proof (induction p arbitrary: sv)
  case (SetValue k v p)
  then obtain w sv1 where 1: "get_value_no_log fo_ops k sv = Some (w, sv1)"
      "run fo_ops (p w) (sv1\<lparr>sv_modified := (sv_modified sv1)(k \<mapsto> v)\<rparr>) = Some (r, sv')"
    by (auto simp: sv_set_value_def split: option.splits)
  then show ?case using SetValue.IH [OF rangeI 1(2)] view_local(1) same_local_trans by fastforce
qed (auto split: option.splits, (metis rangeI same_local_trans view_local)+)

section \<open>Properties\<close>

text \<open>C12: what a run of the virtual machine does to the node's storage. Against a fresh view over a
  fork storage with coherent caches, a run behaves as the specification on an overlay over the
  storage's contents: it panics exactly when the specification has no result, answers the
  same value, and its modified keys are the overlay's; the local storage, the fork and the
  chain id are untouched, the contents are the same as before and the caches stay coherent.\<close>

theorem vm_run_refines_overlay:
  assumes "caches_coherent fo"
  shows "(case pure_run (\<lambda>k. unwrap (fork_value fo k)) (\<lambda>k. unwrap (fork_initial fo k))
            (\<lambda>h. unwrap (fork_dep fo h)) p Map.empty of
      None \<Rightarrow> run fo_ops p (storage_view_new fo) = None
    | Some (r, m) \<Rightarrow> \<exists>sv'. run fo_ops p (storage_view_new fo) = Some (r, sv') \<and> sv_modified sv' = m \<and>
        same_local fo (sv_storage_handle sv') \<and> caches_coherent (sv_storage_handle sv'))"
proof -
  have i: "fo.view_inv (storage_view_new fo)" using assms by (rule fo.view_new)
  show ?thesis
    using fo.run_refines [OF i, of p] run_local [of p "storage_view_new fo"]
    by (fastforce simp: storage_view_new_def fo.same_below_def fo.view_inv_def split: option.splits)
qed

lemma vm_run_refines_overlay_witness:
  "\<exists>sv'. run fo_ops (SetValue (StorageKey 1 2) 7 (\<lambda>old. ReadValue (StorageKey 1 2) (\<lambda>v. Return (old, v))))
      (storage_view_new \<lparr>fo_raw = \<lparr>im_state = Map.empty, im_factory_deps = Map.empty\<rparr>,
         fo_value_cache = Map.empty, fo_dep_cache = Map.empty, fo_fork = None, fo_chain_id = 260\<rparr>) =
      Some ((0, 7), sv') \<and> sv_modified sv' = [StorageKey 1 2 \<mapsto> 7]"
  using vm_run_refines_overlay [of "\<lparr>fo_raw = \<lparr>im_state = Map.empty, im_factory_deps = Map.empty\<rparr>,
         fo_value_cache = Map.empty, fo_dep_cache = Map.empty, fo_fork = None, fo_chain_id = 260\<rparr>"
      "SetValue (StorageKey 1 2) 7 (\<lambda>old. ReadValue (StorageKey 1 2) (\<lambda>v. Return (old, v)))"]
  by (auto simp: caches_coherent_def fork_value_def im_read_value_def)

lemma set_value_coherent [simp]:
  "caches_coherent (fo_set_value k v fo) = caches_coherent fo"
  "caches_coherent (fo_store_factory_dep h b fo) = caches_coherent fo"
  by (simp_all add: caches_coherent_def fo_set_value_def fo_store_factory_dep_def)

text \<open>C24: what a read after a write sees. With coherent caches, a key that was written reads back
  the written value, except that on a fork a written zero reads as the remote's value; every
  other key reads as before.\<close>

theorem read_after_write:
  assumes "caches_coherent fo"
  shows "fst (read_value_internal k' (fo_set_value k v fo)) =
    (if k' = k then
       (case fo_fork fo of
          None \<Rightarrow> Ok v
        | Some fork \<Rightarrow> if v \<noteq> 0 then Ok v else remote_value fork k)
     else fst (read_value_internal k' fo))"
proof -
  have "im_read_value (fo_raw (fo_set_value k v fo)) k' = (if k' = k then v else im_read_value (fo_raw fo) k')"
    by (simp add: fo_set_value_def im_set_value_def im_read_value_def)
  moreover have "fo_fork (fo_set_value k v fo) = fo_fork fo" by (simp add: fo_set_value_def)
  ultimately show ?thesis
    using read_value_correct [of "fo_set_value k v fo" k'] read_value_correct [of fo k'] assms
    by (auto simp: fork_value_def split: option.splits)
qed

text \<open>The witness: clearing a slot that the remote holds 77 in has no effect on a fork.\<close>

definition witness_fork_storage :: fork_storage where
  "witness_fork_storage = \<lparr>fo_raw = \<lparr>im_state = Map.empty, im_factory_deps = Map.empty\<rparr>,
     fo_value_cache = Map.empty, fo_dep_cache = Map.empty, fo_fork = Some witness_fork_details,
     fo_chain_id = 260\<rparr>"

lemma witness_fork_coherent: "caches_coherent witness_fork_storage"
  by (simp add: witness_fork_storage_def caches_coherent_def)

lemma read_after_write_witness:
  "fst (read_value_internal (StorageKey 20 1) (fo_set_value (StorageKey 20 1) 0 witness_fork_storage)) = Ok 77"
  using read_after_write [OF witness_fork_coherent, of "StorageKey 20 1" "StorageKey 20 1" 0]
  by (simp add: witness_fork_storage_def remote_value_def witness_fork_details_def)

text \<open>When a write is reported as initial. With coherent caches the answer is yes exactly when
  the key reads as zero and no local write to it is recorded; an error of the remote is an
  error of the check, and neither a read nor the check changes what is stored.\<close>

theorem write_initial_iff_untouched:
  assumes "caches_coherent fo"
  shows "fst (is_write_initial_internal k fo) =
      (case fst (read_value_internal k fo) of
         Ok v \<Rightarrow> Ok (v = 0 \<and> im_state (fo_raw fo) k = None)
       | Err e \<Rightarrow> Err e
       | Panic \<Rightarrow> Panic) \<and>
    fo_raw (snd (is_write_initial_internal k fo)) = fo_raw fo \<and>
    caches_coherent (snd (is_write_initial_internal k fo))"
  using is_write_initial_correct [OF assms, of k] read_value_correct [OF assms, of k]
  by (cases "fork_value fo k")
     (auto simp: fork_initial_def im_is_write_initial_def same_contents_def)

lemma write_initial_iff_untouched_witness:
  "fst (is_write_initial_internal (StorageKey 1 1) (fo_set_value (StorageKey 1 1) 0 witness_fork_storage)) = Ok False"
proof -
  have "fst (read_value_internal (StorageKey 1 1) (fo_set_value (StorageKey 1 1) 0 witness_fork_storage)) = Ok 0"
    by (simp add: read_value_internal_def fo_set_value_def im_set_value_def im_read_value_def Let_def
        witness_fork_storage_def remote_value_def witness_fork_details_def)
  moreover have "caches_coherent (fo_set_value (StorageKey 1 1) 0 witness_fork_storage)"
    using witness_fork_coherent by simp
  moreover have "im_state (fo_raw (fo_set_value (StorageKey 1 1) 0 witness_fork_storage)) (StorageKey 1 1) = Some 0"
    by (simp add: fo_set_value_def im_set_value_def)
  ultimately show ?thesis
    using write_initial_iff_untouched [of "fo_set_value (StorageKey 1 1) 0 witness_fork_storage" "StorageKey 1 1"]
    by simp
qed

lemma fork_storage_new_coherent: "fork_storage_new E fork opts = Some fo \<Longrightarrow> caches_coherent fo"
  by (auto simp: fork_storage_new_def Let_def caches_coherent_def)

end
