(* ===== verification/Filters.thy ===== *)
theory Filters
  imports Utils
begin

text \<open>
  The installed filters of \<open>src/filters.rs\<close>: the three kinds of filters, the
  \<open>EthFilters\<close> table, its operations, and the two contracts the node relies on: ids are
  fresh, and a filter delivers every notification it accepts exactly once and in order.
\<close>

section \<open>Data\<close>

record block_filter =
  bf_updates :: "h256 list"

record log_filter =
  lf_from_block :: block_number
  lf_to_block :: block_number
  lf_addresses :: "address list"
  lf_topics :: "h256 set option list"
  lf_updates :: "log list"

record pending_transaction_filter =
  pf_updates :: "h256 list"

datatype filter_type =
  BlockF block_filter
| LogF log_filter
| PendingTransactionF pending_transaction_filter

datatype filter_changes = Hashes "h256 list" | Logs "log list" | Empty h256

record eth_filters =
  id_counter :: u256
  filters :: "(u256 \<times> filter_type) list"

definition default_filters :: eth_filters where
  "default_filters = \<lparr>id_counter = 0, filters = []\<rparr>"

definition log_filter_new ::
  "block_number \<Rightarrow> block_number \<Rightarrow> address list \<Rightarrow> h256 set option list \<Rightarrow> log_filter" where
  "log_filter_new from_block to_block addresses topics =
     \<lparr>lf_from_block = from_block, lf_to_block = to_block, lf_addresses = addresses,
      lf_topics = topics, lf_updates = []\<rparr>"

text \<open>\<open>None\<close> is the panic of \<open>expect\<close> on a log without a block number.\<close>

definition log_matches :: "log_filter \<Rightarrow> log \<Rightarrow> u64 \<Rightarrow> bool option" where
  "log_matches f lg latest_block_number =
     (let from_n = to_real_block_number (lf_from_block f) latest_block_number;
          to_n = to_real_block_number (lf_to_block f) latest_block_number
      in case l_block_number lg of
           None \<Rightarrow> None
         | Some n \<Rightarrow>
             if n < from_n \<or> to_n < n then Some False
             else if lf_addresses f \<noteq> [] \<and> list_all (\<lambda>a. a \<noteq> l_address lg) (lf_addresses f) then Some False
             else
               let matched_topic = foldl (\<lambda>m (i, topic).
                     case lf_topics f ! i of
                       Some topic_set \<Rightarrow> if topic_set \<noteq> {} \<and> topic \<notin> topic_set then m[i := False] else m
                     | None \<Rightarrow> m)
                   (replicate 4 True) (enumerate 0 (take 4 (l_topics lg)))
               in Some (list_all id matched_topic))"

section \<open>Operations\<close>

definition add_filter :: "filter_type \<Rightarrow> eth_filters \<Rightarrow> (string, u256 \<times> eth_filters) res" where
  "add_filter f fs =
     (case checked_add (id_counter fs) 1 of
        None \<Rightarrow> Err ''overflow''
      | Some n \<Rightarrow> Ok (n, fs\<lparr>id_counter := n, filters := al_insert n f (filters fs)\<rparr>))"

definition add_block_filter :: "eth_filters \<Rightarrow> (string, u256 \<times> eth_filters) res" where
  "add_block_filter fs = add_filter (BlockF \<lparr>bf_updates = []\<rparr>) fs"

definition add_log_filter ::
  "block_number \<Rightarrow> block_number \<Rightarrow> address list \<Rightarrow> h256 set option list \<Rightarrow> eth_filters
     \<Rightarrow> (string, u256 \<times> eth_filters) res" where
  "add_log_filter from_block to_block addresses topics fs =
     add_filter (LogF \<lparr>lf_from_block = from_block, lf_to_block = to_block,
                       lf_addresses = addresses, lf_topics = topics, lf_updates = []\<rparr>) fs"

definition add_pending_transaction_filter :: "eth_filters \<Rightarrow> (string, u256 \<times> eth_filters) res" where
  "add_pending_transaction_filter fs = add_filter (PendingTransactionF \<lparr>pf_updates = []\<rparr>) fs"

definition remove_filter :: "u256 \<Rightarrow> eth_filters \<Rightarrow> bool \<times> eth_filters" where
  "remove_filter i fs =
     (map_of (filters fs) i \<noteq> None, fs\<lparr>filters := al_remove i (filters fs)\<rparr>)"

fun take_changes :: "filter_type \<Rightarrow> filter_changes \<times> filter_type" where
  "take_changes (BlockF f) =
     (if bf_updates f = [] then (Empty 0, BlockF f)
      else (Hashes (bf_updates f), BlockF (f\<lparr>bf_updates := []\<rparr>)))"
| "take_changes (LogF f) =
     (if lf_updates f = [] then (Empty 0, LogF f)
      else (Logs (lf_updates f), LogF (f\<lparr>lf_updates := []\<rparr>)))"
| "take_changes (PendingTransactionF f) =
     (if pf_updates f = [] then (Empty 0, PendingTransactionF f)
      else (Hashes (pf_updates f), PendingTransactionF (f\<lparr>pf_updates := []\<rparr>)))"

definition get_new_changes :: "u256 \<Rightarrow> eth_filters \<Rightarrow> (string, filter_changes) res \<times> eth_filters" where
  "get_new_changes i fs =
     (case map_of (filters fs) i of
        None \<Rightarrow> (Err ''invalid filter'', fs)
      | Some f \<Rightarrow> (let (changes, f') = take_changes f
                  in (Ok changes, fs\<lparr>filters := al_insert i f' (filters fs)\<rparr>)))"

definition get_filter :: "u256 \<Rightarrow> eth_filters \<Rightarrow> filter_type option" where
  "get_filter i fs = map_of (filters fs) i"

definition notify_new_block :: "h256 \<Rightarrow> eth_filters \<Rightarrow> eth_filters" where
  "notify_new_block hash fs = fs\<lparr>filters := map (\<lambda>(k, f). (k, case f of
       BlockF b \<Rightarrow> BlockF (b\<lparr>bf_updates := bf_updates b @ [hash]\<rparr>)
     | _ \<Rightarrow> f)) (filters fs)\<rparr>"

definition notify_new_pending_transaction :: "h256 \<Rightarrow> eth_filters \<Rightarrow> eth_filters" where
  "notify_new_pending_transaction hash fs = fs\<lparr>filters := map (\<lambda>(k, f). (k, case f of
       PendingTransactionF p \<Rightarrow> PendingTransactionF (p\<lparr>pf_updates := pf_updates p @ [hash]\<rparr>)
     | _ \<Rightarrow> f)) (filters fs)\<rparr>"

definition notify_new_log :: "log \<Rightarrow> u64 \<Rightarrow> eth_filters \<Rightarrow> eth_filters option" where
  "notify_new_log lg latest_block_number fs =
     map_option (\<lambda>xs. fs\<lparr>filters := xs\<rparr>)
       (those (map (\<lambda>(k, f). map_option (Pair k) (case f of
            LogF l \<Rightarrow> (case log_matches l lg latest_block_number of
                          None \<Rightarrow> None
                        | Some True \<Rightarrow> Some (LogF (l\<lparr>lf_updates := lf_updates l @ [lg]\<rparr>))
                        | Some False \<Rightarrow> Some f)
          | _ \<Rightarrow> Some f)) (filters fs)))"

section \<open>Matching of logs\<close>

lemma foldl_clear_length:
  "length (foldl (\<lambda>m (i, t). if bad i t then m[i := False] else m) m xs) = length m"
  by (induction xs arbitrary: m) (auto split: prod.splits)

lemma foldl_clear:
  "k < length m \<Longrightarrow>
   foldl (\<lambda>m (i, t). if bad i t then m[i := False] else m) m xs ! k \<longleftrightarrow>
     m ! k \<and> (\<forall>(i, t) \<in> set xs. i = k \<longrightarrow> \<not> bad i t)"
proof (induction xs arbitrary: m)
  case (Cons x xs)
  obtain i t where x: "x = (i, t)" by (cases x)
  show ?case using Cons by (cases "i = k") (auto simp: x)
qed simp

definition topic_ok :: "h256 set option \<Rightarrow> h256 \<Rightarrow> bool" where
  "topic_ok slot t = (case slot of None \<Rightarrow> True | Some ts \<Rightarrow> ts = {} \<or> t \<in> ts)"

lemma log_matches_None: "log_matches f lg n = None \<longleftrightarrow> l_block_number lg = None"
  by (auto simp: log_matches_def Let_def split: option.splits)

lemma matched_topic_alt:
  "foldl (\<lambda>m (i, topic).
       case ts ! i of
         Some topic_set \<Rightarrow> if topic_set \<noteq> {} \<and> topic \<notin> topic_set then m[i := False] else m
       | None \<Rightarrow> m) m xs =
   foldl (\<lambda>m (i, t). if \<not> topic_ok (ts ! i) t then m[i := False] else m) m xs"
  by (rule arg_cong [where f = "\<lambda>g. foldl g m xs"], intro ext)
     (auto simp: topic_ok_def split: option.splits)

lemma log_matches_spec:
  assumes "l_block_number lg = Some n"
  shows "log_matches f lg latest = Some
     (to_real_block_number (lf_from_block f) latest \<le> n \<and>
      n \<le> to_real_block_number (lf_to_block f) latest \<and>
      (lf_addresses f = [] \<or> l_address lg \<in> set (lf_addresses f)) \<and>
      (\<forall>i < min 4 (length (l_topics lg)). topic_ok (lf_topics f ! i) (l_topics lg ! i)))"
proof -
  let ?g = "\<lambda>m (i, t). if \<not> topic_ok (lf_topics f ! i) t then m[i := False] else m"
  let ?m = "foldl ?g (replicate 4 True) (enumerate 0 (take 4 (l_topics lg)))"
  have len: "length ?m = 4" by (simp add: foldl_clear_length)
  have nth: "?m ! k \<longleftrightarrow> (k < length (l_topics lg) \<longrightarrow> topic_ok (lf_topics f ! k) (l_topics lg ! k))"
    if "k < 4" for k
  proof -
    have "?m ! k \<longleftrightarrow> (\<forall>(i, t) \<in> set (enumerate 0 (take 4 (l_topics lg))).
        i = k \<longrightarrow> topic_ok (lf_topics f ! i) t)"
      using foldl_clear [of k "replicate 4 True" "\<lambda>i t. \<not> topic_ok (lf_topics f ! i) t"] that by simp
    then show ?thesis using that by (auto simp: in_set_enumerate_eq)
  qed
  have "list_all id ?m \<longleftrightarrow>
      (\<forall>i < min 4 (length (l_topics lg)). topic_ok (lf_topics f ! i) (l_topics lg ! i))"
    using nth by (auto simp: list_all_length len)
  then show ?thesis
    using assms by (auto simp: log_matches_def Let_def matched_topic_alt not_less list_all_iff)
qed

section \<open>The interface of an update stream\<close>

text \<open>
  A filter, seen by the node, is a buffer: a notification adds what the filter accepts, a
  poll takes everything. The locale states the four laws; its lemma is that nothing is lost,
  duplicated or reordered between installation and the last poll.
\<close>

datatype 'n stream_op = Note 'n | Drain

locale update_stream =
  fixes pending :: "'f \<Rightarrow> 'u list"
    and adds :: "'f \<Rightarrow> 'n \<Rightarrow> 'u list"
    and push :: "'n \<Rightarrow> 'f \<Rightarrow> 'f"
    and drain :: "'f \<Rightarrow> 'u list \<times> 'f"
  assumes pending_push: "pending (push n f) = pending f @ adds f n"
    and adds_push: "adds (push n f) m = adds f m"
    and drain_all: "fst (drain f) = pending f"
    and pending_drain: "pending (snd (drain f)) = []"
    and adds_drain: "adds (snd (drain f)) m = adds f m"
begin

fun play :: "'f \<Rightarrow> 'n stream_op list \<Rightarrow> 'u list \<times> 'f" where
  "play f [] = ([], f)"
| "play f (Note n # ops) = play (push n f) ops"
| "play f (Drain # ops) =
     (let (us, f1) = drain f; (vs, f2) = play f1 ops in (us @ vs, f2))"

fun noted :: "'f \<Rightarrow> 'n stream_op list \<Rightarrow> 'u list" where
  "noted f [] = []"
| "noted f (Note n # ops) = adds f n @ noted f ops"
| "noted f (Drain # ops) = noted f ops"

lemma noted_cong: "(\<And>m. adds f m = adds g m) \<Longrightarrow> noted f ops = noted g ops"
  by (induction ops rule: noted.induct) auto

lemma exactly_once: "fst (play f ops) @ pending (snd (play f ops)) = pending f @ noted f ops"
proof (induction f ops rule: play.induct)
  case (2 f n ops)
  then show ?case
    using noted_cong [of "push n f" f ops] by (simp add: pending_push adds_push)
next
  case (3 f ops)
  have "fst (play (snd (drain f)) ops) @ pending (snd (play (snd (drain f)) ops)) =
      noted (snd (drain f)) ops"
    using 3 [OF refl] by (metis append_Nil pending_drain prod.collapse)
  moreover have "noted (snd (drain f)) ops = noted f ops"
    by (rule noted_cong) (simp add: adds_drain)
  ultimately show ?case by (simp add: drain_all split_beta)
qed simp

lemma drained_is_empty: "pending (snd (play f (ops @ [Drain]))) = []"
  by (induction f ops rule: play.induct) (auto simp: pending_drain split: prod.splits)

end

section \<open>The filters as update streams\<close>

datatype update = UHash h256 | ULog log

datatype notification = NewBlock h256 | NewPendingTransaction h256 | NewLog log u64

fun filter_pending :: "filter_type \<Rightarrow> update list" where
  "filter_pending (BlockF f) = map UHash (bf_updates f)"
| "filter_pending (LogF f) = map ULog (lf_updates f)"
| "filter_pending (PendingTransactionF f) = map UHash (pf_updates f)"

text \<open>What a notification is to a filter: its update, or nothing.\<close>

fun filter_adds :: "filter_type \<Rightarrow> notification \<Rightarrow> update list" where
  "filter_adds (BlockF f) (NewBlock h) = [UHash h]"
| "filter_adds (PendingTransactionF f) (NewPendingTransaction h) = [UHash h]"
| "filter_adds (LogF f) (NewLog lg n) = (if log_matches f lg n = Some True then [ULog lg] else [])"
| "filter_adds _ _ = []"

fun filter_push :: "notification \<Rightarrow> filter_type \<Rightarrow> filter_type" where
  "filter_push (NewBlock h) (BlockF f) = BlockF (f\<lparr>bf_updates := bf_updates f @ [h]\<rparr>)"
| "filter_push (NewPendingTransaction h) (PendingTransactionF f) =
     PendingTransactionF (f\<lparr>pf_updates := pf_updates f @ [h]\<rparr>)"
| "filter_push (NewLog lg n) (LogF f) =
     (if log_matches f lg n = Some True then LogF (f\<lparr>lf_updates := lf_updates f @ [lg]\<rparr>) else LogF f)"
| "filter_push _ f = f"

fun changes_updates :: "filter_changes \<Rightarrow> update list" where
  "changes_updates (Hashes hs) = map UHash hs"
| "changes_updates (Logs ls) = map ULog ls"
| "changes_updates (Empty _) = []"

definition filter_drain :: "filter_type \<Rightarrow> update list \<times> filter_type" where
  "filter_drain f = (let (changes, f') = take_changes f in (changes_updates changes, f'))"

lemma log_matches_updates: "log_matches (f\<lparr>lf_updates := us\<rparr>) lg n = log_matches f lg n"
  by (cases "l_block_number lg") (simp_all add: log_matches_spec log_matches_None [THEN iffD2])

interpretation filter_stream: update_stream filter_pending filter_adds filter_push filter_drain
proof
  show "filter_pending (filter_push n f) = filter_pending f @ filter_adds f n" for n f
    by (cases n; cases f) auto
  show "filter_adds (filter_push n f) m = filter_adds f m" for n f m
    by (cases n; cases f; cases m) (auto simp: log_matches_updates)
  show "fst (filter_drain f) = filter_pending f" for f
    by (cases f) (auto simp: filter_drain_def)
  show "filter_pending (snd (filter_drain f)) = []" for f
    by (cases f) (auto simp: filter_drain_def)
  show "filter_adds (snd (filter_drain f)) m = filter_adds f m" for f m
    by (cases f; cases m) (auto simp: filter_drain_def log_matches_updates)
qed

subsection \<open>Notifying the table is pushing to every filter\<close>

lemma notify_new_block_push:
  "filters (notify_new_block h fs) = map (\<lambda>(k, f). (k, filter_push (NewBlock h) f)) (filters fs)"
  by (auto simp: notify_new_block_def split: filter_type.splits)

lemma notify_new_pending_push:
  "filters (notify_new_pending_transaction h fs) =
     map (\<lambda>(k, f). (k, filter_push (NewPendingTransaction h) f)) (filters fs)"
  by (auto simp: notify_new_pending_transaction_def split: filter_type.splits)

lemma those_map_all: "(\<And>x. x \<in> set xs \<Longrightarrow> f x = Some (g x)) \<Longrightarrow> those (map f xs) = Some (map g xs)"
  by (induction xs) auto

lemma notify_new_log_push:
  assumes "l_block_number lg \<noteq> None"
  shows "notify_new_log lg n fs =
     Some (fs\<lparr>filters := map (\<lambda>(k, f). (k, filter_push (NewLog lg n) f)) (filters fs)\<rparr>)"
proof -
  have some: "\<exists>b. log_matches l lg n = Some b" for l
    using assms log_matches_None [of l lg n] by auto
  have "those (map (\<lambda>(k, f). map_option (Pair k) (case f of
            LogF l \<Rightarrow> (case log_matches l lg n of
                          None \<Rightarrow> None
                        | Some True \<Rightarrow> Some (LogF (l\<lparr>lf_updates := lf_updates l @ [lg]\<rparr>))
                        | Some False \<Rightarrow> Some f)
          | _ \<Rightarrow> Some f)) (filters fs)) =
      Some (map (\<lambda>(k, f). (k, filter_push (NewLog lg n) f)) (filters fs))"
  proof (rule those_map_all, simp only: split_paired_all prod.case)
    fix k f
    show "map_option (Pair k) (case f of
            LogF l \<Rightarrow> (case log_matches l lg n of
                          None \<Rightarrow> None
                        | Some True \<Rightarrow> Some (LogF (l\<lparr>lf_updates := lf_updates l @ [lg]\<rparr>))
                        | Some False \<Rightarrow> Some f)
          | _ \<Rightarrow> Some f) = Some (k, filter_push (NewLog lg n) f)"
    proof (cases f)
      case (LogF l)
      then show ?thesis using some [of l] by (auto split: bool.splits)
    qed auto
  qed
  then show ?thesis by (simp add: notify_new_log_def)
qed

lemma notify_new_log_None:
  "notify_new_log lg n fs = None \<longleftrightarrow> l_block_number lg = None \<and> (\<exists>k l. (k, LogF l) \<in> set (filters fs))"
proof (cases "l_block_number lg")
  case None
  then have m: "\<And>l. log_matches l lg n = None" by (simp add: log_matches_None)
  have "notify_new_log lg n fs = None \<longleftrightarrow> (\<exists>(k, f) \<in> set (filters fs). \<exists>l. f = LogF l)"
    unfolding notify_new_log_def
  proof (simp add: those_map_None split_beta, rule bex_cong [OF refl])
    fix x
    show "((case snd x of
          LogF l \<Rightarrow> (case log_matches l lg n of None \<Rightarrow> None
            | Some True \<Rightarrow> Some (LogF (l\<lparr>lf_updates := lf_updates l @ [lg]\<rparr>))
            | Some False \<Rightarrow> Some (snd x))
          | _ \<Rightarrow> Some (snd x)) = None) = (\<exists>l. snd x = LogF l)"
      by (cases "snd x") (simp_all add: m)
  qed
  also have "\<dots> \<longleftrightarrow> (\<exists>k l. (k, LogF l) \<in> set (filters fs))" by blast
  finally show ?thesis using None by simp
next
  case (Some b)
  then show ?thesis by (simp add: notify_new_log_push)
qed

section \<open>Histories of the filter table\<close>

text \<open>
  The node serialises the operations on its filters, so a history is a sequence of steps,
  each an operation with its answer. A notification that would panic is no step.
\<close>

datatype filter_action =
  AddBlock
| AddLog block_number block_number "address list" "h256 set option list"
| AddPending
| Remove u256
| Poll u256
| Notify notification

datatype filter_answer =
  Id "(string, u256) res" | Existed bool | Changes "(string, filter_changes) res" | Notified

inductive filter_step :: "eth_filters \<Rightarrow> filter_action \<Rightarrow> filter_answer \<Rightarrow> eth_filters \<Rightarrow> bool" where
  add_block: "add_block_filter fs = Ok (i, fs') \<Longrightarrow> filter_step fs AddBlock (Id (Ok i)) fs'"
| add_block_err: "add_block_filter fs = Err e \<Longrightarrow> filter_step fs AddBlock (Id (Err e)) fs"
| add_log: "add_log_filter f t as ts fs = Ok (i, fs') \<Longrightarrow> filter_step fs (AddLog f t as ts) (Id (Ok i)) fs'"
| add_log_err: "add_log_filter f t as ts fs = Err e \<Longrightarrow> filter_step fs (AddLog f t as ts) (Id (Err e)) fs"
| add_pending: "add_pending_transaction_filter fs = Ok (i, fs') \<Longrightarrow> filter_step fs AddPending (Id (Ok i)) fs'"
| add_pending_err: "add_pending_transaction_filter fs = Err e \<Longrightarrow> filter_step fs AddPending (Id (Err e)) fs"
| remove: "remove_filter i fs = (b, fs') \<Longrightarrow> filter_step fs (Remove i) (Existed b) fs'"
| poll: "get_new_changes i fs = (r, fs') \<Longrightarrow> filter_step fs (Poll i) (Changes r) fs'"
| block: "filter_step fs (Notify (NewBlock h)) Notified (notify_new_block h fs)"
| pending: "filter_step fs (Notify (NewPendingTransaction h)) Notified (notify_new_pending_transaction h fs)"
| log: "notify_new_log lg n fs = Some fs' \<Longrightarrow> filter_step fs (Notify (NewLog lg n)) Notified fs'"

inductive_cases filter_step_cases: "filter_step fs a r fs'"

inductive filter_history :: "eth_filters \<Rightarrow> (filter_action \<times> filter_answer) list \<Rightarrow> eth_filters \<Rightarrow> bool" where
  nil: "filter_history fs [] fs"
| cons: "filter_step fs a r fs1 \<Longrightarrow> filter_history fs1 tr fs2 \<Longrightarrow> filter_history fs ((a, r) # tr) fs2"

inductive_simps filter_history_Nil: "filter_history fs [] fs'"
inductive_simps filter_history_Cons: "filter_history fs (x # tr) fs'"

fun issued_ids :: "(filter_action \<times> filter_answer) list \<Rightarrow> u256 list" where
  "issued_ids ((_, Id (Ok i)) # tr) = i # issued_ids tr"
| "issued_ids (_ # tr) = issued_ids tr"
| "issued_ids [] = []"

text \<open>What the polls of filter \<open>i\<close> delivered in a history.\<close>

fun delivered :: "u256 \<Rightarrow> (filter_action \<times> filter_answer) list \<Rightarrow> update list" where
  "delivered i ((Poll j, Changes (Ok c)) # tr) =
     (if i = j then changes_updates c @ delivered i tr else delivered i tr)"
| "delivered i (_ # tr) = delivered i tr"
| "delivered i [] = []"

text \<open>What the notifications of a history are to a filter.\<close>

fun owed :: "filter_type \<Rightarrow> (filter_action \<times> filter_answer) list \<Rightarrow> update list" where
  "owed f ((Notify n, _) # tr) = filter_adds f n @ owed f tr"
| "owed f (_ # tr) = owed f tr"
| "owed f [] = []"

subsection \<open>The invariant of the table\<close>

text \<open>Keys are distinct and between 1 and the counter.\<close>

definition filters_inv :: "eth_filters \<Rightarrow> bool" where
  "filters_inv fs \<longleftrightarrow> distinct (map fst (filters fs)) \<and>
     (\<forall>k \<in> fst ` set (filters fs). 0 < k \<and> k \<le> id_counter fs)"

lemma filters_inv_default: "filters_inv default_filters"
  by (simp add: filters_inv_def default_filters_def)

lemma add_filter_Ok:
  "add_filter f fs = Ok (i, fs') \<longleftrightarrow>
     id_counter fs \<noteq> - 1 \<and> i = id_counter fs + 1 \<and>
     fs' = fs\<lparr>id_counter := i, filters := al_insert i f (filters fs)\<rparr>"
  by (auto simp: add_filter_def checked_add_one)

lemma add_filter_Err: "add_filter f fs = Err e \<longleftrightarrow> id_counter fs = - 1 \<and> e = ''overflow''"
  by (auto simp: add_filter_def checked_add_one)

lemmas add_defs = add_block_filter_def add_log_filter_def add_pending_transaction_filter_def

lemma set_al_insert_keys: "fst ` set (al_insert k v xs) = insert k (fst ` set xs)"
  by (induction xs) auto

lemma filters_inv_add:
  assumes "add_filter f fs = Ok (i, fs')" and "filters_inv fs"
  shows "filters_inv fs' \<and> i \<notin> fst ` set (filters fs) \<and> id_counter fs < i \<and> id_counter fs' = i"
proof -
  have m: "id_counter fs \<noteq> - 1" and i: "i = id_counter fs + 1"
    and fs': "fs' = fs\<lparr>id_counter := i, filters := al_insert i f (filters fs)\<rparr>"
    using assms(1) by (simp_all add: add_filter_Ok)
  have less: "k < i" if "k \<le> id_counter fs" for k
    using word_less_plus_one [OF m that] i by simp
  show ?thesis
    using assms(2) less [of "id_counter fs"] less
    by (force simp: filters_inv_def fs' set_al_insert_keys distinct_al_insert
        intro: order_less_imp_le le_less_trans [OF word_coorder.extremum])
qed

lemma filters_inv_cong:
  "map fst (filters fs') = map fst (filters fs) \<Longrightarrow> id_counter fs' = id_counter fs \<Longrightarrow>
   filters_inv fs' = filters_inv fs"
  by (metis filters_inv_def list.set_map)

lemma map_of_delete_keys: "fst ` set (al_remove k xs) = fst ` set xs - {k}"
  by (induction xs) auto

lemma filters_inv_remove: "filters_inv fs \<Longrightarrow> filters_inv (snd (remove_filter i fs))"
  by (auto simp add: filters_inv_def remove_filter_def distinct_delete map_of_delete_keys)

lemma al_insert_same_keys: "map_of xs k = Some v \<Longrightarrow> map fst (al_insert k w xs) = map fst xs"
  by (induction xs) (auto split: if_splits)

lemma get_new_changes_keys:
  "map fst (filters (snd (get_new_changes i fs))) = map fst (filters fs) \<and>
   id_counter (snd (get_new_changes i fs)) = id_counter fs"
  by (auto simp: get_new_changes_def al_insert_same_keys split: option.splits prod.splits)

lemma notify_keys:
  "map fst (filters (notify_new_block h fs)) = map fst (filters fs)"
  "map fst (filters (notify_new_pending_transaction h fs)) = map fst (filters fs)"
  "id_counter (notify_new_block h fs) = id_counter fs"
  "id_counter (notify_new_pending_transaction h fs) = id_counter fs"
  by (auto simp: notify_new_block_push notify_new_pending_push)
     (simp_all add: notify_new_block_def notify_new_pending_transaction_def)

lemma those_keys: "those (map (\<lambda>(k, f). map_option (Pair k) (g f)) xs) = Some ys \<Longrightarrow> map fst ys = map fst xs"
  by (induction xs arbitrary: ys) (auto split: option.splits)

lemma notify_log_keys:
  "notify_new_log lg n fs = Some fs' \<Longrightarrow>
   map fst (filters fs') = map fst (filters fs) \<and> id_counter fs' = id_counter fs"
  by (auto simp: notify_new_log_def dest: those_keys)

lemma filter_step_inv:
  assumes "filter_step fs a r fs'" and "filters_inv fs"
  shows "filters_inv fs' \<and> id_counter fs \<le> id_counter fs'"
  using assms
proof cases
  case (add_block i)
  then show ?thesis using filters_inv_add assms(2) by (auto simp: add_defs intro: less_imp_le)
next
  case (add_log f t as ts i)
  then show ?thesis using filters_inv_add assms(2) by (auto simp: add_defs intro: less_imp_le)
next
  case (add_pending i)
  then show ?thesis using filters_inv_add assms(2) by (auto simp: add_defs intro: less_imp_le)
next
  case (remove i b)
  then show ?thesis using filters_inv_remove [OF assms(2), of i] by (auto simp: remove_filter_def)
next
  case (poll i r)
  then show ?thesis
    using get_new_changes_keys [of i fs] filters_inv_cong [of fs' fs] assms(2) by simp
next
  case (log lg n)
  then show ?thesis
    using notify_log_keys [of lg n fs fs'] filters_inv_cong [of fs' fs] assms(2) by simp
next
  case (block h)
  then show ?thesis
    using filters_inv_cong [OF notify_keys(1,3), of h fs] assms(2) by (simp add: notify_keys)
next
  case (pending h)
  then show ?thesis
    using filters_inv_cong [OF notify_keys(2,4), of h fs] assms(2) by (simp add: notify_keys)
qed (use assms(2) in auto)

lemma filter_history_inv:
  "filter_history fs tr fs' \<Longrightarrow> filters_inv fs \<Longrightarrow> filters_inv fs' \<and> id_counter fs \<le> id_counter fs'"
  by (induction rule: filter_history.induct) (auto dest: filter_step_inv intro: order_trans)

text \<open>Only an \<open>Id (Ok i)\<close> answer issues an id, and it is above every earlier one.\<close>

lemma filter_step_issue:
  assumes "filter_step fs a (Id (Ok i)) fs'" and "filters_inv fs"
  shows "id_counter fs < i \<and> id_counter fs' = i"
  using assms
  by (auto elim!: filter_step_cases simp: add_defs dest: filters_inv_add)

lemma issued_ids_Cons:
  "issued_ids ((a, r) # tr) = (case r of Id (Ok i) \<Rightarrow> i # issued_ids tr | _ \<Rightarrow> issued_ids tr)"
  by (auto split: filter_answer.splits res.splits)

lemma issued_above:
  "filter_history fs tr fs' \<Longrightarrow> filters_inv fs \<Longrightarrow> i \<in> set (issued_ids tr) \<Longrightarrow> id_counter fs < i"
proof (induction rule: filter_history.induct)
  case (cons fs a r fs1 tr fs2)
  have "id_counter fs \<le> id_counter fs1" "filters_inv fs1"
    using filter_step_inv cons by blast+
  then show ?case
    using cons filter_step_issue [of fs a _ fs1]
    by (auto simp: issued_ids_Cons split: filter_answer.splits res.splits)
qed simp

lemma issued_sorted:
  "filter_history fs tr fs' \<Longrightarrow> filters_inv fs \<Longrightarrow> sorted_wrt (<) (issued_ids tr)"
proof (induction rule: filter_history.induct)
  case (cons fs a r fs1 tr fs2)
  have "filters_inv fs1" using filter_step_inv cons by blast
  then show ?case
    using cons filter_step_issue [of fs a _ fs1] issued_above [of fs1 tr fs2]
    by (auto simp: issued_ids_Cons split: filter_answer.splits res.splits)
qed simp

subsection \<open>A history is a play of every filter's stream\<close>

lemma notify_new_log_Some:
  assumes "notify_new_log lg n fs = Some fs'"
  shows "filters fs' = map (\<lambda>(k, f). (k, filter_push (NewLog lg n) f)) (filters fs)"
proof (cases "l_block_number lg")
  case None
  then have no: "LogF l \<noteq> snd x" if "x \<in> set (filters fs)" for x l
    using assms notify_new_log_None [of lg n fs] that by (cases x) auto
  have "those (map (\<lambda>(k, f). map_option (Pair k) (case f of
            LogF l \<Rightarrow> (case log_matches l lg n of
                          None \<Rightarrow> None
                        | Some True \<Rightarrow> Some (LogF (l\<lparr>lf_updates := lf_updates l @ [lg]\<rparr>))
                        | Some False \<Rightarrow> Some f)
          | _ \<Rightarrow> Some f)) (filters fs)) = Some (map (\<lambda>(k, f). (k, filter_push (NewLog lg n) f)) (filters fs))"
    using no by (intro those_map_all) (fastforce split: filter_type.splits)
  then show ?thesis using assms by (auto simp: notify_new_log_def)
next
  case (Some b)
  then show ?thesis using assms notify_new_log_push [of lg n fs] by auto
qed

fun stream_ops :: "u256 \<Rightarrow> (filter_action \<times> filter_answer) list \<Rightarrow> notification stream_op list" where
  "stream_ops i ((Notify n, _) # tr) = Note n # stream_ops i tr"
| "stream_ops i ((Poll j, _) # tr) = (if i = j then Drain # stream_ops i tr else stream_ops i tr)"
| "stream_ops i (_ # tr) = stream_ops i tr"
| "stream_ops i [] = []"

lemma noted_owed: "filter_stream.noted f (stream_ops i tr) = owed f tr"
  by (induction f tr rule: owed.induct) auto

definition stream_step :: "u256 \<Rightarrow> filter_action \<Rightarrow> filter_type \<Rightarrow> filter_type" where
  "stream_step i a f = (case a of
     Notify n \<Rightarrow> filter_push n f
   | Poll j \<Rightarrow> if i = j then snd (filter_drain f) else f
   | _ \<Rightarrow> f)"

lemma map_of_add_other:
  "add_filter g fs = Ok (j, fs1) \<Longrightarrow> filters_inv fs \<Longrightarrow> map_of (filters fs) i = Some f \<Longrightarrow>
   map_of (filters fs1) i = Some f"
  using filters_inv_add [of g fs j fs1] map_of_SomeD [of "filters fs" i f]
  by (auto simp: add_filter_Ok image_iff)

lemma map_of_get_new_changes:
  assumes "get_new_changes j fs = (r, fs1)" and "map_of (filters fs) i = Some f"
  shows "map_of (filters fs1) i = Some (if i = j then snd (filter_drain f) else f) \<and>
    (i = j \<longrightarrow> (\<exists>c. r = Ok c \<and> changes_updates c = fst (filter_drain f)))"
  using assms
  by (auto simp: get_new_changes_def filter_drain_def split: option.splits prod.splits)

lemma filter_step_stream:
  assumes "filter_step fs a r fs1" and "filters_inv fs" and "map_of (filters fs) i = Some f"
    and "a \<noteq> Remove i"
  shows "map_of (filters fs1) i = Some (stream_step i a f)"
  using assms
proof cases
  case (poll j r')
  then show ?thesis using map_of_get_new_changes assms(3) by (simp add: stream_step_def)
next
  case (log lg n)
  then show ?thesis
    using notify_new_log_Some [of lg n fs fs1] assms(3)
    by (simp add: stream_step_def map_of_map_val)
qed (use assms(2-4) in \<open>auto simp: stream_step_def add_defs map_of_add_other remove_filter_def
       notify_new_block_push notify_new_pending_push map_of_map_val\<close>)

lemma history_play:
  assumes "filter_history fs tr fs'" and "filters_inv fs" and "map_of (filters fs) i = Some f"
    and "Remove i \<notin> fst ` set tr"
  shows "\<exists>f'. map_of (filters fs') i = Some f' \<and>
    filter_stream.play f (stream_ops i tr) = (delivered i tr, f')"
  using assms
proof (induction arbitrary: f rule: filter_history.induct)
  case (cons fs a r fs1 tr fs2)
  have inv: "filters_inv fs1" and map1: "map_of (filters fs1) i = Some (stream_step i a f)"
    using filter_step_inv filter_step_stream cons.hyps(1) cons.prems by (blast, fastforce)
  obtain f' where f': "map_of (filters fs2) i = Some f'"
      "filter_stream.play (stream_step i a f) (stream_ops i tr) = (delivered i tr, f')"
    using cons.IH [OF inv map1] cons.prems(3) by auto
  show ?case using cons.hyps(1)
  proof cases
    case (poll j r')
    then show ?thesis
      using f' map_of_get_new_changes [of j fs r' fs1 i f] cons.prems(2)
      by (cases r') (auto simp: stream_step_def split_beta)
  qed (use f' in \<open>auto simp: stream_step_def\<close>)
qed simp

text \<open>What a log filter is meant to accept, position by position.\<close>

definition accepts :: "log_filter \<Rightarrow> log \<Rightarrow> u64 \<Rightarrow> u64 \<Rightarrow> bool" where
  "accepts l lg n latest \<longleftrightarrow>
     to_real_block_number (lf_from_block l) latest \<le> n \<and>
     n \<le> to_real_block_number (lf_to_block l) latest \<and>
     (lf_addresses l = [] \<or> l_address lg \<in> set (lf_addresses l)) \<and>
     (\<forall>k < min 4 (length (l_topics lg)). topic_ok (lf_topics l ! k) (l_topics lg ! k))"

section \<open>Properties\<close>

text \<open>Along any history that starts from an empty table, the ids that the filter
  operations issue are strictly increasing: no id is ever issued twice, even after its
  filter was removed.\<close>

theorem filter_ids_increasing:
  assumes "filter_history default_filters tr fs"
  shows "sorted_wrt (<) (issued_ids tr) \<and> distinct (issued_ids tr)"
  using issued_sorted [OF assms filters_inv_default] strict_sorted_iff by blast

text \<open>C25: an installed filter that no step of a history removes delivers exactly once, and in
  order, the updates pending at the start followed by every notification it accepts: what
  the polls returned, followed by what is still pending at the end, is exactly that.\<close>

theorem filter_delivers_exactly_once:
  assumes "filter_history default_filters tr0 fs0" and "filter_history fs0 tr fs"
    and "map_of (filters fs0) i = Some f" and "Remove i \<notin> fst ` set tr"
  shows "\<exists>f'. map_of (filters fs) i = Some f' \<and>
    delivered i tr @ filter_pending f' = filter_pending f @ owed f tr"
proof -
  have "filters_inv fs0" using filter_history_inv [OF assms(1) filters_inv_default] ..
  then obtain f' where "map_of (filters fs) i = Some f'"
      "filter_stream.play f (stream_ops i tr) = (delivered i tr, f')"
    using history_play assms(2-4) by blast
  then show ?thesis
    using filter_stream.exactly_once [of f "stream_ops i tr"] by (simp add: noted_owed)
qed

text \<open>The witnesses share one history: install a block filter, see two blocks, poll once between.\<close>

definition f1 :: eth_filters where
  "f1 = \<lparr>id_counter = 1, filters = [(1, BlockF \<lparr>bf_updates = []\<rparr>)]\<rparr>"

lemma f1_history: "filter_history default_filters [(AddBlock, Id (Ok 1))] f1"
  by (auto simp: filter_history_Cons filter_history_Nil default_filters_def f1_def add_block_filter_def
      add_filter_def checked_add_one intro!: filter_step.intros exI [of _ f1])

lemma f1_polls:
  "filter_history f1
     [(Notify (NewBlock 7), Notified), (Poll 1, Changes (Ok (Hashes [7]))), (Notify (NewBlock 8), Notified)]
     \<lparr>id_counter = 1, filters = [(1, BlockF \<lparr>bf_updates = [8]\<rparr>)]\<rparr>"
proof -
  have "filter_step f1 (Notify (NewBlock 7)) Notified
      \<lparr>id_counter = 1, filters = [(1, BlockF \<lparr>bf_updates = [7]\<rparr>)]\<rparr>"
    using filter_step.block [of f1 7] by (simp add: f1_def notify_new_block_def)
  moreover have "filter_step \<lparr>id_counter = 1, filters = [(1, BlockF \<lparr>bf_updates = [7]\<rparr>)]\<rparr>
      (Poll 1) (Changes (Ok (Hashes [7]))) f1"
    by (rule filter_step.poll) (simp add: get_new_changes_def f1_def)
  moreover have "filter_step f1 (Notify (NewBlock 8)) Notified
      \<lparr>id_counter = 1, filters = [(1, BlockF \<lparr>bf_updates = [8]\<rparr>)]\<rparr>"
    using filter_step.block [of f1 8] by (simp add: f1_def notify_new_block_def)
  ultimately show ?thesis by (blast intro: filter_history.intros)
qed

lemma filter_ids_increasing_witness: "sorted_wrt (<) [1 :: u256] \<and> distinct [1 :: u256]"
  using filter_ids_increasing [OF f1_history] by simp

lemma filter_delivers_exactly_once_witness:
  "\<exists>f'. map_of (filters \<lparr>id_counter = 1, filters = [(1 :: u256, BlockF \<lparr>bf_updates = [8]\<rparr>)]\<rparr>) 1 = Some f' \<and>
     [UHash 7] @ filter_pending f' = [UHash 7, UHash 8]"
  using filter_delivers_exactly_once [OF f1_history f1_polls, of 1 "BlockF \<lparr>bf_updates = []\<rparr>"]
  by (simp add: f1_def)

text \<open>C30: a new log with a block number reaches a log filter exactly when the block number lies in
  the filter's range (the tags resolved against the latest block), its address is one the
  filter lists (an empty list accepts all) and every topic the log has is accepted by the
  filter's set at that position; every other kind of filter is left as it was.\<close>

theorem notify_new_log_reaches:
  assumes "l_block_number lg = Some n"
  shows "\<exists>fs'. notify_new_log lg latest fs = Some fs' \<and> id_counter fs' = id_counter fs \<and>
    (\<forall>i. map_of (filters fs') i = map_option (\<lambda>f. case f of
        LogF l \<Rightarrow> LogF (l\<lparr>lf_updates := lf_updates l @ (if accepts l lg n latest then [lg] else [])\<rparr>)
      | _ \<Rightarrow> f) (map_of (filters fs) i))"
proof -
  obtain fs' where fs': "notify_new_log lg latest fs = Some fs'"
    using notify_new_log_push [of lg latest fs] assms by auto
  have "filter_push (NewLog lg latest) = (\<lambda>f. case f of
        LogF l \<Rightarrow> LogF (l\<lparr>lf_updates := lf_updates l @ (if accepts l lg n latest then [lg] else [])\<rparr>)
      | _ \<Rightarrow> f)" (is "_ = ?g")
  proof (rule ext)
    show "filter_push (NewLog lg latest) f = ?g f" for f
      using assms by (cases f) (simp_all add: log_matches_spec accepts_def)
  qed
  then have "map_of (filters fs') i = map_option ?g (map_of (filters fs) i)" for i
    using notify_new_log_Some [OF fs'] by (simp add: map_of_map_val)
  moreover have "id_counter fs' = id_counter fs" using notify_log_keys [OF fs'] ..
  ultimately show ?thesis using fs' by blast
qed

definition witness_log :: log where
  "witness_log = \<lparr>l_address = 9, l_topics = [4], l_data = [], l_block_hash = Some 1,
     l_block_number = Some 5, l_l1_batch_number = Some 1, l_transaction_hash = Some 2,
     l_transaction_index = Some 0, l_log_index = Some 0, l_transaction_log_index = Some 0,
     l_removed = Some False, l_block_timestamp = None\<rparr>"

lemma notify_new_log_reaches_witness:
  "\<exists>fs'. notify_new_log witness_log 5
      \<lparr>id_counter = 1, filters = [(1, LogF (log_filter_new Earliest Latest [9] [Some {4}, None, None, None]))]\<rparr>
      = Some fs' \<and> id_counter fs' = 1"
  using notify_new_log_reaches [of witness_log 5 5
      "\<lparr>id_counter = 1, filters = [(1, LogF (log_filter_new Earliest Latest [9] [Some {4}, None, None, None]))]\<rparr>"]
  by (auto simp: witness_log_def)

text \<open>A log with fewer topics than the filter asks for is accepted: the missing positions are not tested.\<close>

lemma log_matches_missing_topic:
  assumes "l_topics lg = []" and "l_block_number lg = Some 5" and "l_address lg = 9"
  shows "log_matches (log_filter_new Earliest Latest [9] [Some {4}, None, None, None]) lg 5 = Some True"
  using assms by (simp add: log_matches_spec log_filter_new_def to_real_block_number_def)

text \<open>When the counter is at the largest U256, every installation fails with the overflow
  error and leaves the table unchanged (the operations return no new table).\<close>

theorem filter_id_overflow:
  "(add_block_filter fs = Err ''overflow'' \<longleftrightarrow> id_counter fs = - 1) \<and>
   (add_log_filter f t as ts fs = Err ''overflow'' \<longleftrightarrow> id_counter fs = - 1) \<and>
   (add_pending_transaction_filter fs = Err ''overflow'' \<longleftrightarrow> id_counter fs = - 1)"
  by (simp add: add_defs add_filter_Err)

end
