(* ===== verification/Fee_Model.thy ===== *)
theory Fee_Model
  imports Utils Config
begin

text \<open>
  \<open>src/node/fee_model.rs\<close>, the fee input provider of the node, and the reading of gas
  details from the bootloader's debug memory: \<open>src/bootloader_debug.rs\<close> and
  \<open>display_detailed_gas_info\<close> of \<open>src/node/in_memory.rs\<close>.
\<close>

section \<open>Fee input provider\<close>

record fee_input_provider =
  fp_l1_gas_price' :: u64
  fp_l1_pubdata_price' :: u64
  fp_l2_gas_price :: u64
  fp_compute_overhead_part :: f64
  fp_pubdata_overhead_part :: f64
  fp_batch_overhead_l1_gas :: u64
  fp_max_gas_per_batch :: u64
  fp_max_pubdata_per_batch :: u64
  fp_price_scale_factor :: f64
  fp_gas_scale_factor :: f32

text \<open>The bit patterns of the \<open>f64\<close> values 0.0 and 1.0.\<close>

definition f64_zero :: f64 where "f64_zero = 0"
definition f64_one :: f64 where "f64_one = 0x3FF0000000000000"

definition default_fee_input_provider :: "ext \<Rightarrow> fee_input_provider" where
  "default_fee_input_provider E = \<lparr>fp_l1_gas_price' = DEFAULT_L1_GAS_PRICE,
     fp_l1_pubdata_price' = DEFAULT_L1_GAS_PRICE * ucast (x_l1_gas_per_pubdata_byte E),
     fp_l2_gas_price = DEFAULT_L2_GAS_PRICE,
     fp_compute_overhead_part = f64_zero, fp_pubdata_overhead_part = f64_one,
     fp_batch_overhead_l1_gas = 800000, fp_max_gas_per_batch = 200000000,
     fp_max_pubdata_per_batch = 100000,
     fp_price_scale_factor = DEFAULT_ESTIMATE_GAS_PRICE_SCALE_FACTOR,
     fp_gas_scale_factor = DEFAULT_ESTIMATE_GAS_SCALE_FACTOR\<rparr>"

text \<open>\<open>None\<close> is the \<open>todo!()\<close> on fee parameters of the first version.\<close>

definition from_fee_params_and_estimate_scale_factors ::
  "fee_params \<Rightarrow> f64 \<Rightarrow> f32 \<Rightarrow> fee_input_provider option" where
  "from_fee_params_and_estimate_scale_factors params price_scale gas_scale =
     (case params of
        FeeParamsV1 \<Rightarrow> None
      | FeeParamsV2 config l1_gas_price l1_pubdata_price \<Rightarrow>
          Some \<lparr>fp_l1_gas_price' = l1_gas_price,
                fp_l1_pubdata_price' = l1_pubdata_price,
                fp_l2_gas_price = fm_minimal_l2_gas_price config,
                fp_compute_overhead_part = fm_compute_overhead_part config,
                fp_pubdata_overhead_part = fm_pubdata_overhead_part config,
                fp_batch_overhead_l1_gas = fm_batch_overhead_l1_gas config,
                fp_max_gas_per_batch = fm_max_gas_per_batch config,
                fp_max_pubdata_per_batch = fm_max_pubdata_per_batch config,
                fp_price_scale_factor = price_scale,
                fp_gas_scale_factor = gas_scale\<rparr>)"

definition from_estimate_scale_factors :: "ext \<Rightarrow> f64 \<Rightarrow> f32 \<Rightarrow> fee_input_provider" where
  "from_estimate_scale_factors E price_scale gas_scale =
     (default_fee_input_provider E)\<lparr>fp_price_scale_factor := price_scale, fp_gas_scale_factor := gas_scale\<rparr>"

definition with_overrides :: "gas_config option \<Rightarrow> fee_input_provider \<Rightarrow> fee_input_provider" where
  "with_overrides gas_config p =
     (case gas_config of
        None \<Rightarrow> p
      | Some g \<Rightarrow>
          let p1 = set_opt (gc_l1_gas_price g) (\<lambda>v p. p\<lparr>fp_l1_gas_price' := v\<rparr>) p;
              p2 = set_opt (gc_l2_gas_price g) (\<lambda>v p. p\<lparr>fp_l2_gas_price := v\<rparr>) p1
          in (case gc_estimation g of
                None \<Rightarrow> p2
              | Some e \<Rightarrow>
                  set_opt (limit_scale_factor e) (\<lambda>v p. p\<lparr>fp_gas_scale_factor := v\<rparr>)
                    (set_opt (price_scale_factor e) (\<lambda>v p. p\<lparr>fp_price_scale_factor := v\<rparr>) p2)))"

definition get_fee_model_config :: "fee_input_provider \<Rightarrow> fee_model_config" where
  "get_fee_model_config p = \<lparr>fm_minimal_l2_gas_price = fp_l2_gas_price p,
     fm_compute_overhead_part = fp_compute_overhead_part p,
     fm_pubdata_overhead_part = fp_pubdata_overhead_part p,
     fm_batch_overhead_l1_gas = fp_batch_overhead_l1_gas p,
     fm_max_gas_per_batch = fp_max_gas_per_batch p,
     fm_max_pubdata_per_batch = fp_max_pubdata_per_batch p\<rparr>"

definition get_fee_model_params :: "fee_input_provider \<Rightarrow> fee_params" where
  "get_fee_model_params p =
     FeeParamsV2 (get_fee_model_config p) (fp_l1_gas_price' p) (fp_l1_pubdata_price' p)"

text \<open>What the node reports as its gas configuration, and takes over in a reset.\<close>

definition gas_values :: "fee_input_provider \<Rightarrow> gas_config" where
  "gas_values p = \<lparr>gc_l1_gas_price = Some (fp_l1_gas_price' p), gc_l2_gas_price = Some (fp_l2_gas_price p),
     gc_estimation = Some \<lparr>price_scale_factor = Some (fp_price_scale_factor p),
                           limit_scale_factor = Some (fp_gas_scale_factor p)\<rparr>\<rparr>"

section \<open>Bootloader debug memory\<close>

definition DEBUG_START_SENTINEL :: u64 where "DEBUG_START_SENTINEL = 1337"
definition MAX_MEMORY_BYTES :: nat where "MAX_MEMORY_BYTES = 63800000"
definition MAX_TRANSACTIONS :: nat where "MAX_TRANSACTIONS = 10000"
definition RESULTS_BYTES_OFFSET :: nat where
  "RESULTS_BYTES_OFFSET = MAX_MEMORY_BYTES - MAX_TRANSACTIONS * 32"
definition VM_HOOKS_PARAMS :: nat where "VM_HOOKS_PARAMS = 3"
definition VM_HOOKS_START :: nat where
  "VM_HOOKS_START = RESULTS_BYTES_OFFSET - (VM_HOOKS_PARAMS + 1) * 32"
definition DEBUG_SLOTS :: nat where "DEBUG_SLOTS = 32"
definition DEBUG_START_BYTE :: nat where "DEBUG_START_BYTE = VM_HOOKS_START - DEBUG_SLOTS * 32"
definition DEBUG_START_SLOT :: nat where "DEBUG_START_SLOT = DEBUG_START_BYTE div 32"

lemmas bootloader_consts = DEBUG_START_SLOT_def DEBUG_START_BYTE_def DEBUG_SLOTS_def VM_HOOKS_START_def
  VM_HOOKS_PARAMS_def RESULTS_BYTES_OFFSET_def MAX_TRANSACTIONS_def MAX_MEMORY_BYTES_def

record bootloader_debug =
  bg_total_gas_limit_from_user :: u256
  bg_reserved_gas :: u256
  bg_gas_per_pubdata :: u256
  bg_gas_limit_after_intrinsic :: u256
  bg_gas_after_validation :: u256
  bg_gas_spent_on_execution :: u256
  bg_gas_spent_on_bytecode_preparation :: u256
  bg_refund_computed :: u256
  bg_refund_by_operator :: u256
  bg_intrinsic_overhead :: u256
  bg_required_overhead :: u256
  bg_operator_overhead :: u256
  bg_overhead_for_length :: u256
  bg_overhead_for_slot :: u256

definition load_debug_slot :: "(nat \<Rightarrow> u256) \<Rightarrow> nat \<Rightarrow> u256" where
  "load_debug_slot memory slot = memory (DEBUG_START_SLOT + slot)"

definition load_from_memory :: "(nat \<Rightarrow> u256) \<Rightarrow> (string, bootloader_debug) res" where
  "load_from_memory memory =
     (if load_debug_slot memory 0 \<noteq> ucast DEBUG_START_SENTINEL
      then Err ''Debug slot has wrong value. Probably bootloader slot mapping has changed.''
      else Ok \<lparr>bg_total_gas_limit_from_user = load_debug_slot memory 1,
               bg_reserved_gas = load_debug_slot memory 2,
               bg_gas_per_pubdata = load_debug_slot memory 3,
               bg_gas_limit_after_intrinsic = load_debug_slot memory 4,
               bg_gas_after_validation = load_debug_slot memory 5,
               bg_gas_spent_on_execution = load_debug_slot memory 6,
               bg_gas_spent_on_bytecode_preparation = load_debug_slot memory 7,
               bg_refund_computed = load_debug_slot memory 8,
               bg_refund_by_operator = load_debug_slot memory 9,
               bg_intrinsic_overhead = load_debug_slot memory 10,
               bg_required_overhead = load_debug_slot memory 12,
               bg_operator_overhead = load_debug_slot memory 11,
               bg_overhead_for_length = load_debug_slot memory 13,
               bg_overhead_for_slot = load_debug_slot memory 14\<rparr>)"

section \<open>Gas details\<close>

text \<open>
  The numbers of the gas report. The arithmetic of U256 panics on overflow, underflow and
  division by zero (\<open>None\<close>).
\<close>

definition checked_div :: "u256 \<Rightarrow> u256 \<Rightarrow> u256 option" where
  "checked_div a b = (if b = 0 then None else Some (a div b))"

definition percent :: "u256 \<Rightarrow> u256 \<Rightarrow> u256 option" where
  "percent a b = Option.bind (checked_mul a 100) (\<lambda>x. checked_div x b)"

record gas_details =
  gd_total_gas_limit :: u256
  gd_gas_used :: u256
  gd_intrinsic_gas :: u256
  gd_gas_for_validation :: u256
  gd_gas_spent_on_compute :: u256
  gd_bytes_published :: u64
  gd_percentages :: "u256 list"
  gd_discount :: u256
  gd_block_cost :: u256

definition compute_gas_details ::
  "bootloader_debug \<Rightarrow> u64 \<Rightarrow> fee_model_config \<Rightarrow> gas_details option" where
  "compute_gas_details b spent_on_pubdata config =
     (let total_gas_limit = sat_sub (bg_total_gas_limit_from_user b) (bg_reserved_gas b) in
      Option.bind (checked_sub total_gas_limit (bg_gas_limit_after_intrinsic b)) (\<lambda>intrinsic_gas.
      Option.bind (checked_sub (bg_gas_limit_after_intrinsic b) (bg_gas_after_validation b)) (\<lambda>gas_for_validation.
      Option.bind (checked_sub (bg_gas_spent_on_execution b) (bg_gas_spent_on_bytecode_preparation b)) (\<lambda>gas_spent_on_compute.
      Option.bind (checked_add intrinsic_gas gas_for_validation) (\<lambda>u1.
      Option.bind (checked_add u1 (bg_gas_spent_on_bytecode_preparation b)) (\<lambda>u2.
      Option.bind (checked_add u2 gas_spent_on_compute) (\<lambda>gas_used.
      Option.bind (checked_add (bg_refund_computed b) gas_used) (\<lambda>_.
      Option.bind (as_u64 (bg_gas_per_pubdata b)) (\<lambda>per_pubdata.
      Option.bind (if per_pubdata = 0 then None else Some (spent_on_pubdata div per_pubdata)) (\<lambda>bytes_published.
      Option.bind (those [percent intrinsic_gas gas_used,
                          percent (bg_gas_spent_on_bytecode_preparation b) gas_used,
                          percent gas_for_validation gas_used,
                          percent gas_spent_on_compute gas_used,
                          percent (bg_intrinsic_overhead b) intrinsic_gas,
                          percent (bg_operator_overhead b) intrinsic_gas]) (\<lambda>percentages.
      Option.bind (checked_sub (bg_required_overhead b) (bg_operator_overhead b)) (\<lambda>spared.
      Option.bind (percent spared (bg_required_overhead b)) (\<lambda>discount.
      Option.bind (checked_mul (bg_gas_per_pubdata b) (ucast (fm_batch_overhead_l1_gas config))) (\<lambda>block_cost.
        Some \<lparr>gd_total_gas_limit = total_gas_limit, gd_gas_used = gas_used,
              gd_intrinsic_gas = intrinsic_gas, gd_gas_for_validation = gas_for_validation,
              gd_gas_spent_on_compute = gas_spent_on_compute, gd_bytes_published = bytes_published,
              gd_percentages = percentages, gd_discount = discount,
              gd_block_cost = block_cost\<rparr>))))))))))))))"

definition display_detailed_gas_info ::
  "(string, bootloader_debug) res option \<Rightarrow> u64 \<Rightarrow> fee_model_config \<Rightarrow> (string, gas_details) res" where
  "display_detailed_gas_info bootloader_debug_result spent_on_pubdata config =
     (case bootloader_debug_result of
        None \<Rightarrow> Err ''Booloader tracer didn't finish.''
      | Some r \<Rightarrow> rbind r (\<lambda>b. expect (compute_gas_details b spent_on_pubdata config)))"

section \<open>Properties\<close>

text \<open>The fee provider. Reporting the gas values of a provider and overriding any provider with
  them (what a reset does) carries both gas prices and both scale factors over, and overriding
  a provider with its own values changes nothing; an override never touches the pubdata price
  or the batch limits.\<close>

theorem fee_overrides_roundtrip:
  "with_overrides (Some (gas_values p)) p = p \<and>
   gas_values (with_overrides (Some (gas_values p)) q) = gas_values p \<and>
   with_overrides None q = q \<and>
   fp_l1_pubdata_price' (with_overrides g q) = fp_l1_pubdata_price' q \<and>
   fp_batch_overhead_l1_gas (with_overrides g q) = fp_batch_overhead_l1_gas q \<and>
   fp_max_gas_per_batch (with_overrides g q) = fp_max_gas_per_batch q"
proof -
  have "fp_l1_pubdata_price' (with_overrides g q) = fp_l1_pubdata_price' q \<and>
     fp_batch_overhead_l1_gas (with_overrides g q) = fp_batch_overhead_l1_gas q \<and>
     fp_max_gas_per_batch (with_overrides g q) = fp_max_gas_per_batch q"
    by (simp add: with_overrides_def set_opt_def Let_def split: option.splits)
  then show ?thesis by (simp add: with_overrides_def gas_values_def Let_def)
qed

lemma checked_sub_Some: "checked_sub a b = Some c \<Longrightarrow> b \<le> a \<and> unat c = unat a - unat (b :: 'a::len word)"
  by (auto simp: checked_sub_def unat_sub split: if_splits)

text \<open>The gas report. When the report is shown (no arithmetic panic), the debug values are in
  order, the gas used is exactly the limit minus what was left after validation plus the gas
  spent on execution, it is the sum of the four shown parts, and neither it nor the intrinsic
  gas is zero.\<close>

theorem gas_details_account:
  assumes "compute_gas_details b spent config = Some d"
  shows "unat (gd_gas_used d) = (unat (bg_total_gas_limit_from_user b) - unat (bg_reserved_gas b)
            - unat (bg_gas_after_validation b)) + unat (bg_gas_spent_on_execution b) \<and>
    unat (gd_gas_used d) = unat (gd_intrinsic_gas d) + unat (gd_gas_for_validation d) +
      unat (bg_gas_spent_on_bytecode_preparation b) + unat (gd_gas_spent_on_compute d) \<and>
    bg_gas_after_validation b \<le> bg_gas_limit_after_intrinsic b \<and>
    bg_gas_spent_on_bytecode_preparation b \<le> bg_gas_spent_on_execution b \<and>
    gd_gas_used d \<noteq> 0 \<and> gd_intrinsic_gas d \<noteq> 0"
proof -
  obtain i v c u1 u2 g where s:
      "checked_sub (sat_sub (bg_total_gas_limit_from_user b) (bg_reserved_gas b)) (bg_gas_limit_after_intrinsic b) = Some i"
      "checked_sub (bg_gas_limit_after_intrinsic b) (bg_gas_after_validation b) = Some v"
      "checked_sub (bg_gas_spent_on_execution b) (bg_gas_spent_on_bytecode_preparation b) = Some c"
      "checked_add i v = Some u1" "checked_add u1 (bg_gas_spent_on_bytecode_preparation b) = Some u2"
      "checked_add u2 c = Some g"
      "percent i g \<noteq> None" "percent (bg_intrinsic_overhead b) i \<noteq> None"
    and d: "gd_gas_used d = g" "gd_intrinsic_gas d = i" "gd_gas_for_validation d = v" "gd_gas_spent_on_compute d = c"
    using assms by (auto simp: compute_gas_details_def Let_def bind_eq_Some_conv split: option.splits)
  have nz: "g \<noteq> 0" "i \<noteq> 0" using s(7,8) by (auto simp: percent_def checked_div_def bind_eq_None_conv)
  have sub: "unat (bg_gas_limit_after_intrinsic b)
        \<le> unat (bg_total_gas_limit_from_user b) - unat (bg_reserved_gas b)"
      "unat i = unat (bg_total_gas_limit_from_user b) - unat (bg_reserved_gas b)
        - unat (bg_gas_limit_after_intrinsic b)"
      "unat (bg_gas_after_validation b) \<le> unat (bg_gas_limit_after_intrinsic b)"
      "unat v = unat (bg_gas_limit_after_intrinsic b) - unat (bg_gas_after_validation b)"
      "unat (bg_gas_spent_on_bytecode_preparation b) \<le> unat (bg_gas_spent_on_execution b)"
      "unat c = unat (bg_gas_spent_on_execution b) - unat (bg_gas_spent_on_bytecode_preparation b)"
    using checked_sub_Some [OF s(1)] checked_sub_Some [OF s(2)] checked_sub_Some [OF s(3)]
    unfolding word_le_nat_alt unat_sat_sub by blast+
  have sum: "unat u1 = unat i + unat v" "unat u2 = unat u1 + unat (bg_gas_spent_on_bytecode_preparation b)"
      "unat g = unat u2 + unat c"
    using checked_add_Some [OF s(4)] checked_add_Some [OF s(5)] checked_add_Some [OF s(6)] by blast+
  have "unat g = (unat (bg_total_gas_limit_from_user b) - unat (bg_reserved_gas b)
            - unat (bg_gas_after_validation b)) + unat (bg_gas_spent_on_execution b)"
    using sub sum by linarith
  then show ?thesis using sub(3,5) sum nz unfolding d word_le_nat_alt by linarith
qed

lemma gas_details_account_witness:
  "\<exists>d. compute_gas_details \<lparr>bg_total_gas_limit_from_user = 1000, bg_reserved_gas = 0, bg_gas_per_pubdata = 2,
      bg_gas_limit_after_intrinsic = 900, bg_gas_after_validation = 800, bg_gas_spent_on_execution = 300,
      bg_gas_spent_on_bytecode_preparation = 50, bg_refund_computed = 500, bg_refund_by_operator = 500,
      bg_intrinsic_overhead = 100, bg_required_overhead = 100, bg_operator_overhead = 0,
      bg_overhead_for_length = 0, bg_overhead_for_slot = 0\<rparr> 40
      (get_fee_model_config (default_fee_input_provider ext0)) = Some d \<and> gd_gas_used d = 500"
proof -
  let ?b = "\<lparr>bg_total_gas_limit_from_user = 1000, bg_reserved_gas = 0, bg_gas_per_pubdata = 2,
      bg_gas_limit_after_intrinsic = 900, bg_gas_after_validation = 800, bg_gas_spent_on_execution = 300,
      bg_gas_spent_on_bytecode_preparation = 50, bg_refund_computed = 500, bg_refund_by_operator = 500,
      bg_intrinsic_overhead = 100, bg_required_overhead = 100, bg_operator_overhead = 0,
      bg_overhead_for_length = 0, bg_overhead_for_slot = 0\<rparr>"
  obtain d where d: "compute_gas_details ?b 40 (get_fee_model_config (default_fee_input_provider ext0)) = Some d"
    by (simp add: compute_gas_details_def Let_def checked_sub_def checked_add_def checked_mul_def
        percent_def checked_div_def sat_sub_def as_u64_def get_fee_model_config_def
        default_fee_input_provider_def)
  have "unat (gd_gas_used d) = unat (500 :: u256)" using gas_details_account [OF d] by simp
  then have "gd_gas_used d = 500" by (rule word_unat_eq_iff [THEN iffD2])
  with d show ?thesis by blast
qed

end
