(* ===== verification/Node_State.thy ===== *)
theory Node_State
  imports Fork_Storage Filters Fee_Model
begin

text \<open>
  The state of the node (\<open>src/node/in_memory.rs\<close>): blocks and their hashes, block contexts,
  the inner state with its construction, the batch environment computed from storage,
  archiving, snapshots, and the node with its two locks.

  A panic while the write guard of the inner state is held poisons the lock, after which
  every handler fails to acquire it; the inner state is then no longer observable. A lock of
  the fork storage is never poisoned: what runs under it returns an error instead of
  panicking.
\<close>

section \<open>Blocks\<close>

definition MAX_TX_SIZE :: nat where "MAX_TX_SIZE = 1000000"
definition NON_FORK_FIRST_BLOCK_TIMESTAMP :: u64 where "NON_FORK_FIRST_BLOCK_TIMESTAMP = 1000"
definition ESTIMATE_GAS_ACCEPTABLE_OVERESTIMATION :: u64 where
  "ESTIMATE_GAS_ACCEPTABLE_OVERESTIMATION = 1000"
definition MAX_PREVIOUS_STATES :: u16 where "MAX_PREVIOUS_STATES = 128"
definition PROTOCOL_VERSION :: string where "PROTOCOL_VERSION = ''zks/1''"

definition u64_be_bytes :: "u64 \<Rightarrow> bytes" where
  "u64_be_bytes n = map (\<lambda>i. ucast (drop_bit (8 * (7 - i)) n)) [0..<8]"

definition h256_bytes :: "h256 \<Rightarrow> bytes" where
  "h256_bytes h = map (\<lambda>i. ucast (drop_bit (8 * (31 - i)) h)) [0..<32]"

definition compute_hash :: "ext \<Rightarrow> u64 \<Rightarrow> h256 \<Rightarrow> h256" where
  "compute_hash E block_number tx_hash = x_keccak256 E (u64_be_bytes block_number @ h256_bytes tx_hash)"

definition create_empty_block :: "ext \<Rightarrow> u64 \<Rightarrow> u64 \<Rightarrow> u32 \<Rightarrow> h256 option \<Rightarrow> block" where
  "create_empty_block E block_number timestamp batch parent_block_hash =
     \<lparr>b_hash = compute_hash E block_number 0,
      b_parent_hash = unwrap_or parent_block_hash
        (if block_number = 0 then 0 else compute_hash E (block_number - 1) 0),
      b_number = block_number, b_timestamp = ucast timestamp, b_l1_batch_number = Some (ucast batch),
      b_transactions = [], b_gas_used = 0, b_gas_limit = ucast (x_batch_gas_limit E)\<rparr>"

record block_context =
  bc_batch :: u32
  bc_miniblock :: u64
  bc_timestamp :: u64

definition from_current :: "u32 \<Rightarrow> u64 \<Rightarrow> u64 \<Rightarrow> block_context" where
  "from_current batch miniblock timestamp =
     \<lparr>bc_batch = batch, bc_miniblock = miniblock, bc_timestamp = timestamp\<rparr>"

definition new_batch :: "block_context \<Rightarrow> block_context" where
  "new_batch c = \<lparr>bc_batch = sat_add (bc_batch c) 1, bc_miniblock = sat_add (bc_miniblock c) 1,
     bc_timestamp = sat_add (bc_timestamp c) 1\<rparr>"

definition new_block :: "block_context \<Rightarrow> block_context" where
  "new_block c = \<lparr>bc_batch = bc_batch c, bc_miniblock = sat_add (bc_miniblock c) 1,
     bc_timestamp = sat_add (bc_timestamp c) 1\<rparr>"

section \<open>Inner state\<close>

record tx_execution_info =
  ti_tx :: l2_tx
  ti_batch_number :: u32
  ti_miniblock_number :: u64
  ti_result :: vm_result

record transaction_result =
  tr_info :: tx_execution_info
  tr_receipt :: receipt
  tr_debug :: debug_call

definition debug_info :: "transaction_result \<Rightarrow> bool \<Rightarrow> debug_call" where
  "debug_info tr only_top =
     (case tr_debug tr of
        DebugCallOut ty fr tt g gu v i ou er rv calls \<Rightarrow>
          DebugCallOut ty fr tt g gu v i ou er rv (if only_top then [] else calls))"

type_synonym state_map = "storage_key \<rightharpoonup> h256"

record inner =
  n_current_timestamp :: u64
  n_current_batch :: u32
  n_current_miniblock :: u64
  n_current_miniblock_hash :: h256
  n_fee_input_provider :: fee_input_provider
  n_tx_results :: "(h256 \<times> transaction_result) list"
  n_blocks :: "h256 \<rightharpoonup> block"
  n_block_hashes :: "u64 \<rightharpoonup> h256"
  n_filters :: eth_filters
  n_fork_storage :: fork_storage
  n_config :: node_config
  n_system_contracts :: system_contracts
  n_impersonated_accounts :: "address set"
  n_rich_accounts :: "address list"
  n_previous_states :: "(h256 \<times> state_map) list"
  n_observability :: "observability option"

definition fork_fee_input_provider ::
  "ext \<Rightarrow> fork_details \<Rightarrow> gas_config option \<Rightarrow> fee_input_provider option" where
  "fork_fee_input_provider E f gas_overrides =
     (case fd_fee_params f of
        Some params \<Rightarrow>
          map_option (with_overrides gas_overrides)
            (from_fee_params_and_estimate_scale_factors params (fd_price_scale_factor f) (fd_scale_factor f))
      | None \<Rightarrow>
          Some (with_overrides gas_overrides
            (from_estimate_scale_factors E (fd_price_scale_factor f) (fd_scale_factor f))))"

definition inner_new ::
  "ext \<Rightarrow> fork_details option \<Rightarrow> observability option \<Rightarrow> node_config \<Rightarrow> gas_config option \<Rightarrow> inner option" where
  "inner_new E fork observability config gas_overrides =
     (case fork of
        Some f \<Rightarrow>
          Option.bind (fork_fee_input_provider E f gas_overrides) (\<lambda>fee.
          Option.bind (fork_storage_new E fork (nc_system_contracts_options config)) (\<lambda>storage.
          Option.bind (from_options E (nc_system_contracts_options config)) (\<lambda>contracts.
            Some \<lparr>n_current_timestamp = fd_block_timestamp f,
                  n_current_batch = fd_l1_block f,
                  n_current_miniblock = fd_l2_miniblock f,
                  n_current_miniblock_hash = fd_l2_miniblock_hash f,
                  n_fee_input_provider = fee,
                  n_tx_results = [],
                  n_blocks = [b_hash (fd_l2_block f) \<mapsto> fd_l2_block f],
                  n_block_hashes = [b_number (fd_l2_block f) \<mapsto> b_hash (fd_l2_block f)],
                  n_filters = default_filters,
                  n_fork_storage = storage,
                  n_config = config,
                  n_system_contracts = contracts,
                  n_impersonated_accounts = {},
                  n_rich_accounts = [],
                  n_previous_states = [],
                  n_observability = observability\<rparr>)))
      | None \<Rightarrow>
          Option.bind (fork_storage_new E None (nc_system_contracts_options config)) (\<lambda>storage.
          Option.bind (from_options E (nc_system_contracts_options config)) (\<lambda>contracts.
            let block_hash = compute_hash E 0 0 in
            Some \<lparr>n_current_timestamp = NON_FORK_FIRST_BLOCK_TIMESTAMP,
                  n_current_batch = 0,
                  n_current_miniblock = 0,
                  n_current_miniblock_hash = block_hash,
                  n_fee_input_provider = with_overrides gas_overrides (default_fee_input_provider E),
                  n_tx_results = [],
                  n_blocks = [block_hash \<mapsto> create_empty_block E 0 NON_FORK_FIRST_BLOCK_TIMESTAMP 0 None],
                  n_block_hashes = [0 \<mapsto> block_hash],
                  n_filters = default_filters,
                  n_fork_storage = storage,
                  n_config = config,
                  n_system_contracts = contracts,
                  n_impersonated_accounts = {},
                  n_rich_accounts = [],
                  n_previous_states = [],
                  n_observability = observability\<rparr>)))"

section \<open>Batch and system environment\<close>

definition load_last_l1_batch :: "ext \<Rightarrow> (u64 \<times> u64) option sprog" where
  "load_last_l1_batch E =
     ReadValue (StorageKey (x_system_context_address E) (x_block_info_position E)) (\<lambda>info.
       let (batch_number, batch_timestamp) = x_unpack_block_info E info
       in if (ucast batch_number :: u32) = 0 then Return None
          else Return (Some (batch_number, batch_timestamp)))"

definition create_l1_batch_env ::
  "ext \<Rightarrow> inner \<Rightarrow> 's read_ops \<Rightarrow> 's storage_view
     \<Rightarrow> ((l1_batch_env \<times> block_context) \<times> 's storage_view) option" where
  "create_l1_batch_env E n ops sv =
     Option.bind (run ops (load_last_l1_batch E) sv) (\<lambda>(l1, sv1).
     Option.bind (run ops (x_load_last_l2_block E) sv1) (\<lambda>(l2, sv2).
     let (last_l1_block_num, last_l1_block_ts) =
           (case l1 of Some (num, ts) \<Rightarrow> (ucast num, ts)
            | None \<Rightarrow> (n_current_batch n, n_current_timestamp n));
         last_l2_block = (case l2 of Some b \<Rightarrow> b
            | None \<Rightarrow> \<lparr>lb_number = ucast (n_current_miniblock n),
                      lb_hash = x_legacy_block_hash E (ucast (n_current_miniblock n)),
                      lb_timestamp = n_current_timestamp n\<rparr>);
         latest_timestamp =
           max (max last_l1_block_ts (lb_timestamp last_l2_block)) (n_current_timestamp n);
         block_ctx = new_batch (from_current last_l1_block_num (ucast (lb_number last_l2_block)) latest_timestamp);
         fee_input = (case fo_fork (n_fork_storage n) of
             Some fork \<Rightarrow> PubdataIndependent (fd_l1_gas_price fork) (fd_l2_fair_gas_price fork)
                           (fd_fair_pubdata_price fork)
           | None \<Rightarrow> x_scale_fee_input E (get_fee_model_params (n_fee_input_provider n)) f64_one f64_one)
     in Some ((\<lparr>be_previous_batch_hash = None, be_number = bc_batch block_ctx,
                be_timestamp = bc_timestamp block_ctx, be_fee_input = fee_input, be_fee_account = 0,
                be_enforced_base_fee = None, be_first_number = ucast (bc_miniblock block_ctx),
                be_first_timestamp = bc_timestamp block_ctx,
                be_first_prev_block_hash = lb_hash last_l2_block,
                be_first_max_virtual_blocks = 1\<rparr>, block_ctx), sv2)))"

definition create_system_env :: "ext \<Rightarrow> inner \<Rightarrow> base_contracts \<Rightarrow> exec_mode \<Rightarrow> system_env" where
  "create_system_env E n base_system_contracts execution_mode =
     \<lparr>se_zk_porter_available = False, se_version = x_protocol_version_latest E,
      se_contracts = base_system_contracts,
      se_bootloader_gas_limit = x_batch_computational_gas_limit E,
      se_execution_mode = execution_mode,
      se_validation_gas_limit = x_batch_computational_gas_limit E,
      se_chain_id = fo_chain_id (n_fork_storage n)\<rparr>"

section \<open>Impersonation and archiving\<close>

definition set_impersonated_account :: "address \<Rightarrow> inner \<Rightarrow> bool \<times> inner" where
  "set_impersonated_account a n =
     (a \<notin> n_impersonated_accounts n,
      n\<lparr>n_impersonated_accounts := insert a (n_impersonated_accounts n)\<rparr>)"

definition stop_impersonating_account :: "address \<Rightarrow> inner \<Rightarrow> bool \<times> inner" where
  "stop_impersonating_account a n =
     (a \<in> n_impersonated_accounts n,
      n\<lparr>n_impersonated_accounts := n_impersonated_accounts n - {a}\<rparr>)"

definition archive_state :: "inner \<Rightarrow> inner" where
  "archive_state n =
     (let states = (if unat MAX_PREVIOUS_STATES < length (n_previous_states n)
                    then tl (n_previous_states n) else n_previous_states n)
      in n\<lparr>n_previous_states :=
             al_insert (n_current_miniblock_hash n) (im_state (fo_raw (n_fork_storage n))) states\<rparr>)"

section \<open>Snapshots\<close>

record snapshot =
  sn_current_timestamp :: u64
  sn_current_batch :: u32
  sn_current_miniblock :: u64
  sn_current_miniblock_hash :: h256
  sn_fee_input_provider :: fee_input_provider
  sn_tx_results :: "(h256 \<times> transaction_result) list"
  sn_blocks :: "h256 \<rightharpoonup> block"
  sn_block_hashes :: "u64 \<rightharpoonup> h256"
  sn_filters :: eth_filters
  sn_impersonated_accounts :: "address set"
  sn_rich_accounts :: "address list"
  sn_previous_states :: "(h256 \<times> state_map) list"
  sn_raw_storage :: in_memory_storage
  sn_value_read_cache :: "storage_key \<rightharpoonup> h256"
  sn_factory_dep_cache :: "h256 \<rightharpoonup> bytes option"

definition take_snapshot :: "inner \<Rightarrow> snapshot" where
  "take_snapshot n =
     \<lparr>sn_current_timestamp = n_current_timestamp n, sn_current_batch = n_current_batch n,
      sn_current_miniblock = n_current_miniblock n,
      sn_current_miniblock_hash = n_current_miniblock_hash n,
      sn_fee_input_provider = n_fee_input_provider n, sn_tx_results = n_tx_results n,
      sn_blocks = n_blocks n, sn_block_hashes = n_block_hashes n, sn_filters = n_filters n,
      sn_impersonated_accounts = n_impersonated_accounts n, sn_rich_accounts = n_rich_accounts n,
      sn_previous_states = n_previous_states n, sn_raw_storage = fo_raw (n_fork_storage n),
      sn_value_read_cache = fo_value_cache (n_fork_storage n),
      sn_factory_dep_cache = fo_dep_cache (n_fork_storage n)\<rparr>"

definition restore_snapshot :: "snapshot \<Rightarrow> inner \<Rightarrow> inner" where
  "restore_snapshot s n =
     n\<lparr>n_current_timestamp := sn_current_timestamp s, n_current_batch := sn_current_batch s,
       n_current_miniblock := sn_current_miniblock s,
       n_current_miniblock_hash := sn_current_miniblock_hash s,
       n_fee_input_provider := sn_fee_input_provider s, n_tx_results := sn_tx_results s,
       n_blocks := sn_blocks s, n_block_hashes := sn_block_hashes s, n_filters := sn_filters s,
       n_impersonated_accounts := sn_impersonated_accounts s, n_rich_accounts := sn_rich_accounts s,
       n_previous_states := sn_previous_states s,
       n_fork_storage := (n_fork_storage n)\<lparr>fo_raw := sn_raw_storage s,
          fo_value_cache := sn_value_read_cache s, fo_dep_cache := sn_factory_dep_cache s\<rparr>\<rparr>"

section \<open>The node\<close>

record node =
  nd_inner :: inner
  nd_inner_poisoned :: bool
  nd_snapshots :: "snapshot list"
  nd_snapshots_poisoned :: bool
  nd_system_contracts_options :: contracts_option

text \<open>
  The two ways of holding the lock of the inner state. \<open>e\<close> is what the operation answers
  when the lock is poisoned. What a panicking operation leaves behind is not observable.
\<close>

definition read_inner :: "('e, 'a) res \<Rightarrow> (inner \<Rightarrow> ('e, 'a) res) \<Rightarrow> node \<Rightarrow> ('e, 'a) res" where
  "read_inner e f nd = (if nd_inner_poisoned nd then e else f (nd_inner nd))"

definition write_inner ::
  "('e, 'a) res \<Rightarrow> (inner \<Rightarrow> ('e, 'a) res \<times> inner) \<Rightarrow> node \<Rightarrow> ('e, 'a) res \<times> node" where
  "write_inner e f nd =
     (if nd_inner_poisoned nd then (e, nd)
      else case f (nd_inner nd) of
             (Panic, n) \<Rightarrow> (Panic, nd\<lparr>nd_inner_poisoned := True\<rparr>)
           | (r, n) \<Rightarrow> (r, nd\<lparr>nd_inner := n\<rparr>))"

definition node_new ::
  "ext \<Rightarrow> fork_details option \<Rightarrow> observability option \<Rightarrow> node_config \<Rightarrow> gas_config option \<Rightarrow> node option" where
  "node_new E fork observability config gas_overrides =
     map_option (\<lambda>n. \<lparr>nd_inner = n, nd_inner_poisoned = False, nd_snapshots = [],
                      nd_snapshots_poisoned = False,
                      nd_system_contracts_options = nc_system_contracts_options config\<rparr>)
       (inner_new E fork observability config gas_overrides)"

definition read_lock_failed :: string where
  "read_lock_failed = ''Failed to acquire read lock: poisoned lock: another task failed inside''"

definition write_lock_failed :: string where
  "write_lock_failed = ''Failed to acquire write lock: poisoned lock: another task failed inside''"

definition nd_get_cache_config :: "node \<Rightarrow> (string, cache_config) res" where
  "nd_get_cache_config nd = read_inner (Err read_lock_failed) (\<lambda>n. Ok (fo_get_cache_config (n_fork_storage n))) nd"

definition nd_get_fork_url :: "node \<Rightarrow> (string, string) res" where
  "nd_get_fork_url nd = read_inner (Err read_lock_failed) (\<lambda>n. fo_get_fork_url (n_fork_storage n)) nd"

definition nd_get_config :: "node \<Rightarrow> (string, node_config) res" where
  "nd_get_config nd = read_inner (Err read_lock_failed) (\<lambda>n. Ok (n_config n)) nd"

definition nd_get_gas_values :: "node \<Rightarrow> (string, gas_config) res" where
  "nd_get_gas_values nd = read_inner (Err read_lock_failed) (\<lambda>n. Ok (gas_values (n_fee_input_provider n))) nd"

section \<open>Lemmas\<close>

lemma read_inner_simps [simp]:
  "nd_inner_poisoned nd \<Longrightarrow> read_inner e f nd = e"
  "\<not> nd_inner_poisoned nd \<Longrightarrow> read_inner e f nd = f (nd_inner nd)"
  by (simp_all add: read_inner_def)

lemma write_inner_poisoned [simp]: "nd_inner_poisoned nd \<Longrightarrow> write_inner e f nd = (e, nd)"
  by (simp add: write_inner_def)

lemma write_inner_result:
  "\<not> nd_inner_poisoned nd \<Longrightarrow> fst (write_inner e f nd) = fst (f (nd_inner nd))"
  by (auto simp: write_inner_def split: prod.split res.split)

lemma write_inner_state:
  "\<not> nd_inner_poisoned nd \<Longrightarrow> fst (f (nd_inner nd)) \<noteq> Panic \<Longrightarrow>
   snd (write_inner e f nd) = nd\<lparr>nd_inner := snd (f (nd_inner nd))\<rparr>"
  by (auto simp: write_inner_def split: prod.split res.split)

lemma write_inner_panic:
  "\<not> nd_inner_poisoned nd \<Longrightarrow> fst (f (nd_inner nd)) = Panic \<Longrightarrow>
   write_inner e f nd = (Panic, nd\<lparr>nd_inner_poisoned := True\<rparr>)"
  by (auto simp: write_inner_def split: prod.split res.split)

lemma archive_length:
  "length (n_previous_states n) \<le> 129 \<Longrightarrow> length (n_previous_states (archive_state n)) \<le> 129"
  by (auto simp: archive_state_def Let_def length_al_insert MAX_PREVIOUS_STATES_def)

lemma archive_distinct:
  "distinct (map fst (n_previous_states n)) \<Longrightarrow> distinct (map fst (n_previous_states (archive_state n)))"
  by (auto simp: archive_state_def Let_def distinct_update map_tl distinct_tl)

lemma archive_frame [frame]:
  "archive_state n = n\<lparr>n_previous_states := n_previous_states (archive_state n)\<rparr>"
  by (simp add: archive_state_def Let_def)

lemma run_ReadValue_fresh:
  "run ops (ReadValue k p) sv =
     (case get_value_no_log ops k sv of None \<Rightarrow> None | Some (v, sv') \<Rightarrow> run ops (p v) sv')"
  by simp

lemma create_l1_batch_env_shape:
  assumes "create_l1_batch_env E n ops sv = Some ((env, ctx), sv')"
  shows "\<exists>l1 l2 sv1. run ops (load_last_l1_batch E) sv = Some (l1, sv1) \<and>
    run ops (x_load_last_l2_block E) sv1 = Some (l2, sv') \<and>
    bc_timestamp ctx = sat_add (max (max (case l1 of Some (_, ts) \<Rightarrow> ts | None \<Rightarrow> n_current_timestamp n)
        (case l2 of Some b \<Rightarrow> lb_timestamp b | None \<Rightarrow> n_current_timestamp n)) (n_current_timestamp n)) 1 \<and>
    bc_batch ctx = sat_add (case l1 of Some (num, _) \<Rightarrow> ucast num | None \<Rightarrow> n_current_batch n) 1 \<and>
    bc_miniblock ctx = sat_add (case l2 of Some b \<Rightarrow> ucast (lb_number b)
        | None \<Rightarrow> ucast (ucast (n_current_miniblock n) :: u32)) 1 \<and>
    be_timestamp env = bc_timestamp ctx \<and> be_number env = bc_batch ctx \<and>
    be_first_number env = ucast (bc_miniblock ctx) \<and> be_first_timestamp env = bc_timestamp ctx"
proof -
  obtain l1 sv1 l2 sv2 where r: "run ops (load_last_l1_batch E) sv = Some (l1, sv1)"
      "run ops (x_load_last_l2_block E) sv1 = Some (l2, sv2)"
    using assms by (auto simp: create_l1_batch_env_def bind_eq_Some_conv)
  then have "sv2 = sv'"
    using assms by (cases l1; cases l2) (auto simp: create_l1_batch_env_def Let_def)
  then show ?thesis
    using assms r by (cases l1; cases l2)
      (auto simp: create_l1_batch_env_def Let_def new_batch_def from_current_def)
qed

section \<open>The chain invariant\<close>

text \<open>
  Every block is stored under its own hash, every numbered hash has its block, the current
  number has a hash, and the current hash is that one.
\<close>

definition chain_inv :: "inner \<Rightarrow> bool" where
  "chain_inv n \<longleftrightarrow>
     (\<forall>h b. n_blocks n h = Some b \<longrightarrow> b_hash b = h) \<and>
     (\<forall>k h. n_block_hashes n k = Some h \<longrightarrow> n_blocks n h \<noteq> None) \<and>
     n_block_hashes n (n_current_miniblock n) = Some (n_current_miniblock_hash n)"

lemma chain_inv_append [intro]:
  assumes "chain_inv n" and "n_blocks n' = (n_blocks n)(b_hash b \<mapsto> b)"
    and "n_block_hashes n' = (n_block_hashes n)(b_number b \<mapsto> b_hash b)"
    and "n_current_miniblock n' = b_number b" and "n_current_miniblock_hash n' = b_hash b"
  shows "chain_inv n'"
  using assms by (auto simp: chain_inv_def)

lemma create_empty_block_simps [simp]:
  "b_number (create_empty_block E k ts bt p) = k"
  "b_hash (create_empty_block E k ts bt p) = compute_hash E k 0"
  "b_timestamp (create_empty_block E k ts bt p) = ucast ts"
  "b_l1_batch_number (create_empty_block E k ts bt p) = Some (ucast bt)"
  "b_parent_hash (create_empty_block E k ts bt (Some h)) = h"
  "b_transactions (create_empty_block E k ts bt p) = []"
  by (simp_all add: create_empty_block_def)

lemma inner_new_chain:
  "inner_new E None obs config gas = Some n \<Longrightarrow> chain_inv n"
  by (auto simp: inner_new_def chain_inv_def bind_eq_Some_conv Let_def split: if_splits)

section \<open>A concrete node\<close>

text \<open>The node of the witnesses: no fork, an empty storage, one block.\<close>

definition contracts0 :: base_contracts where
  "contracts0 = \<lparr>bootloader = \<lparr>cc_code = [], cc_hash = 1\<rparr>, default_aa = \<lparr>cc_code = [], cc_hash = 2\<rparr>\<rparr>"

definition inner0 :: inner where
  "inner0 = \<lparr>n_current_timestamp = NON_FORK_FIRST_BLOCK_TIMESTAMP, n_current_batch = 0,
     n_current_miniblock = 0, n_current_miniblock_hash = 1040,
     n_fee_input_provider = default_fee_input_provider ext0, n_tx_results = [],
     n_blocks = [1040 \<mapsto> create_empty_block ext0 0 NON_FORK_FIRST_BLOCK_TIMESTAMP 0 None],
     n_block_hashes = [0 \<mapsto> 1040], n_filters = default_filters,
     n_fork_storage = \<lparr>fo_raw = \<lparr>im_state = Map.empty, im_factory_deps = Map.empty\<rparr>,
       fo_value_cache = Map.empty, fo_dep_cache = Map.empty, fo_fork = None, fo_chain_id = 260\<rparr>,
     n_config = default_node_config,
     n_system_contracts = \<lparr>sc_baseline = contracts0, sc_playground = contracts0,
       sc_fee_estimate = contracts0, sc_baseline_impersonating = contracts0,
       sc_fee_estimate_impersonating = contracts0\<rparr>,
     n_impersonated_accounts = {}, n_rich_accounts = [], n_previous_states = [],
     n_observability = None\<rparr>"

definition node0 :: node where
  "node0 = \<lparr>nd_inner = inner0, nd_inner_poisoned = False, nd_snapshots = [],
     nd_snapshots_poisoned = False, nd_system_contracts_options = BuiltIn\<rparr>"

lemma inner0_storage [simp]:
  "caches_coherent (n_fork_storage inner0)" "fo_fork (n_fork_storage inner0) = None"
  "im_state (fo_raw (n_fork_storage inner0)) = Map.empty"
  by (simp_all add: inner0_def caches_coherent_def)

lemma inner0_chain: "chain_inv inner0"
  by (simp add: chain_inv_def inner0_def create_empty_block_def compute_hash_def ext0_def
      u64_be_bytes_def h256_bytes_def)

lemma node0_simps [simp]:
  "nd_inner node0 = inner0" "\<not> nd_inner_poisoned node0" "\<not> nd_snapshots_poisoned node0"
  "nd_snapshots node0 = []"
  by (simp_all add: node0_def)

section \<open>Properties\<close>

text \<open>Snapshots. Restoring a snapshot into any later state that still runs over the same fork
  with the same configuration, contracts and observability gives back the state it was taken
  from, exactly; what a restored state keeps from the later one is only those four.\<close>

theorem snapshot_restore_roundtrip:
  assumes "n_config m = n_config n" and "n_system_contracts m = n_system_contracts n"
    and "n_observability m = n_observability n"
    and "fo_fork (n_fork_storage m) = fo_fork (n_fork_storage n)"
    and "fo_chain_id (n_fork_storage m) = fo_chain_id (n_fork_storage n)"
  shows "restore_snapshot (take_snapshot n) m = n"
  using assms by (simp add: restore_snapshot_def take_snapshot_def)

lemma snapshot_restore_roundtrip_witness:
  "restore_snapshot (take_snapshot inner0)
     (inner0\<lparr>n_current_batch := 7, n_previous_states := [(1, Map.empty)], n_rich_accounts := [9]\<rparr>) = inner0"
  by (rule snapshot_restore_roundtrip) simp_all

text \<open>Archiving once for every (block hash, storage) that the node goes through.\<close>

definition archive_at :: "inner \<Rightarrow> h256 \<times> fork_storage \<Rightarrow> inner" where
  "archive_at n x = archive_state (n\<lparr>n_current_miniblock_hash := fst x, n_fork_storage := snd x\<rparr>)"

lemma archive_at_bounds:
  assumes "length (n_previous_states n) \<le> 129 \<and> distinct (map fst (n_previous_states n))"
  shows "length (n_previous_states (archive_at n x)) \<le> 129 \<and> distinct (map fst (n_previous_states (archive_at n x)))"
  unfolding archive_at_def
  using assms archive_length [of "n\<lparr>n_current_miniblock_hash := fst x, n_fork_storage := snd x\<rparr>"]
    archive_distinct [of "n\<lparr>n_current_miniblock_hash := fst x, n_fork_storage := snd x\<rparr>"]
  by simp

lemma archive_run_bounds:
  assumes "length (n_previous_states n) \<le> 129 \<and> distinct (map fst (n_previous_states n))"
  shows "length (n_previous_states (foldl archive_at n xs)) \<le> 129 \<and>
    distinct (map fst (n_previous_states (foldl archive_at n xs)))"
  using assms
proof (induction xs arbitrary: n)
  case (Cons x xs)
  show ?case using Cons.IH [OF archive_at_bounds [OF Cons.prems]] by simp
qed simp

text \<open>The archive of states. Starting from an empty archive, no number of archivings holds more
  than 129 states (one above the documented maximum of 128), no block hash is archived twice,
  and the newest state is always found under the current block hash.\<close>

theorem archive_bound:
  "n_previous_states n = [] \<Longrightarrow>
   length (n_previous_states (foldl archive_at n xs)) \<le> 129 \<and>
   distinct (map fst (n_previous_states (foldl archive_at n xs))) \<and>
   map_of (n_previous_states (archive_at (foldl archive_at n xs) (h, fo))) h = Some (im_state (fo_raw fo))"
proof -
  assume "n_previous_states n = []"
  then have "length (n_previous_states n) \<le> 129 \<and> distinct (map fst (n_previous_states n))" by simp
  then show ?thesis
    using archive_run_bounds [of n xs] by (simp add: archive_at_def archive_state_def Let_def)
qed

lemma archive_bound_witness:
  "length (n_previous_states (foldl archive_at inner0
     (map (\<lambda>i. (of_nat i, n_fork_storage inner0)) [0..<500]))) \<le> 129"
  using archive_bound [of inner0 "map (\<lambda>i. (of_nat i, n_fork_storage inner0)) [0..<500]"]
  by (simp add: inner0_def)

text \<open>The node grows its archive beyond the documented limit.\<close>

lemma archive_grows_to_129:
  assumes "length (n_previous_states n) = 128" and "n_current_miniblock_hash n \<notin> fst ` set (n_previous_states n)"
  shows "length (n_previous_states (archive_state n)) = 129"
  using assms by (simp add: archive_state_def Let_def length_al_insert MAX_PREVIOUS_STATES_def)

text \<open>C32: time never runs backwards in a batch. Unless the timestamp saturates, the batch the
  environment describes is strictly later than the node's clock, the last batch recorded in
  storage and the last block recorded in storage; its number is one more than the last batch
  of the storage (of the node, when the storage has none).\<close>

theorem batch_env_monotone:
  assumes "create_l1_batch_env E n ops sv = Some ((env, ctx), sv')"
    and "run ops (load_last_l1_batch E) sv = Some (l1, sv1)"
    and "run ops (x_load_last_l2_block E) sv1 = Some (l2, sv2)"
    and "be_timestamp env \<noteq> - 1"
  shows "n_current_timestamp n < be_timestamp env \<and>
    (\<forall>num ts. l1 = Some (num, ts) \<longrightarrow> ts < be_timestamp env \<and> be_number env = sat_add (ucast num) 1) \<and>
    (\<forall>b. l2 = Some b \<longrightarrow> lb_timestamp b < be_timestamp env) \<and>
    (l1 = None \<longrightarrow> be_number env = sat_add (n_current_batch n) 1)"
proof -
  define latest where "latest = max (max (case l1 of Some (_, ts) \<Rightarrow> ts | None \<Rightarrow> n_current_timestamp n)
        (case l2 of Some b \<Rightarrow> lb_timestamp b | None \<Rightarrow> n_current_timestamp n)) (n_current_timestamp n)"
  have env: "be_timestamp env = sat_add latest 1"
      "be_number env = sat_add (case l1 of Some (num, _) \<Rightarrow> ucast num | None \<Rightarrow> n_current_batch n) 1"
    using create_l1_batch_env_shape [OF assms(1)] assms(2,3) by (auto simp: latest_def)
  have "latest \<noteq> - 1"
  proof
    assume "latest = - 1"
    then have "be_timestamp env = - 1" using env(1) sat_add_ge [of "- 1" 1] by (simp add: sat_add_def unat_minus_1)
    with assms(4) show False ..
  qed
  then have less: "latest < be_timestamp env" using env(1) word_less_plus_one [of latest latest] by (simp add: sat_add_one)
  have "n_current_timestamp n \<le> latest"
      "l1 = Some (num, ts) \<Longrightarrow> ts \<le> latest" "l2 = Some b \<Longrightarrow> lb_timestamp b \<le> latest" for num ts b
    by (auto simp: latest_def le_max_iff_disj)
  then show ?thesis using less env(2) by (auto intro: le_less_trans)
qed

lemma env0:
  "\<exists>env ctx sv. create_l1_batch_env ext0 inner0 fo_ops (storage_view_new (n_fork_storage inner0)) = Some ((env, ctx), sv) \<and>
     be_timestamp env = 1001 \<and> bc_miniblock ctx = 1 \<and> bc_batch ctx = 1 \<and> sv_modified sv = Map.empty"
proof -
  have "run fo_ops (load_last_l1_batch ext0) (storage_view_new (n_fork_storage inner0)) =
      Some (None, (storage_view_new (n_fork_storage inner0))\<lparr>sv_read := [StorageKey 11 0 \<mapsto> 0]\<rparr>)"
    by (simp add: load_last_l1_batch_def ext0_def get_value_no_log_def storage_view_new_def fo_ops_def
        unwrapped_def read_value_internal_def im_read_value_def inner0_def)
  then show ?thesis
    by (simp add: create_l1_batch_env_def Let_def)
       (simp add: ext0_def inner0_def NON_FORK_FIRST_BLOCK_TIMESTAMP_def new_batch_def from_current_def
         storage_view_new_def sat_add_def)
qed

lemma batch_env_monotone_witness:
  "\<exists>env ctx sv. create_l1_batch_env ext0 inner0 fo_ops (storage_view_new (n_fork_storage inner0)) = Some ((env, ctx), sv) \<and>
     n_current_timestamp inner0 < be_timestamp env"
proof -
  obtain env ctx sv where e: "create_l1_batch_env ext0 inner0 fo_ops (storage_view_new (n_fork_storage inner0)) = Some ((env, ctx), sv)"
      "be_timestamp env = 1001"
    using env0 by blast
  obtain l1 l2 sv1 where "run fo_ops (load_last_l1_batch ext0) (storage_view_new (n_fork_storage inner0)) = Some (l1, sv1)"
      "run fo_ops (x_load_last_l2_block ext0) sv1 = Some (l2, sv)"
    using create_l1_batch_env_shape [OF e(1)] by blast
  then show ?thesis using batch_env_monotone [OF e(1)] e by fastforce
qed

end
