(* ===== verification/Node_Tx.thy ===== *)
theory Node_Tx
  imports Node_State
begin

text \<open>
  The execution of transactions (\<open>src/node/in_memory.rs\<close>): validation, the run of a
  transaction against a storage view, its commit into a new batch with two blocks, read-only
  calls, the seeding of rich accounts, bytecode overrides and the reset of the node.
\<close>

section \<open>Wallets\<close>

definition RICH_WALLETS :: "address list" where
  "RICH_WALLETS =
     [0xbc989fde9e54cad2ab4392af6df60f04873a033a,
      0x55be1b079b53962746b2e86d12f158a41df294a6,
      0xce9e6063674dc585f6f3c7eabe82b9936143ba6c,
      0xd986b0cb0d1ad4cccf0c4947554003fc0be548e9,
      0x87d6ab9fe5adef46228fb490810f0f5cb16d6d04,
      0x78cad996530109838eb016619f5931a03250489a,
      0xc981b213603171963f81c687b9fc880d33caed16,
      0x42f3dc38da81e984b92a95cbdaaa5fa2bd5cb1ba,
      0x64f47eed3dc749d13e49291d46ea8378755fb6df,
      0xe2b8cb53a43a56d4d2ab6131c81bd76b86d3afe5]"

definition LEGACY_RICH_WALLETS :: "address list" where
  "LEGACY_RICH_WALLETS =
     [0x36615cf349d7f6344891b1e7ca7c72883f5dc049,
      0xa61464658afeaf65cccaafd3a512b69a83b77618,
      0x0d43eb5b8a47ba8900d84aa36656c92024e9772e,
      0xa13c10c0d5bd6f79041b9835c63f91de35a15883,
      0x8002cd98cfb563492a6fb3e7c8243b7b9ad4cc92,
      0x4f9133d1d3f50011a6859807c837bdcb31aaab13,
      0xbd29a1b981925b94eec5c4f1125af02a2ec4d1ca,
      0xedb6f5b4aab3dd95c7806af42881ff12be7e9daa,
      0xe706e60ab5dc512c36a4646d719b889f398cbbcb,
      0xe90e12261ccb0f3f7976ae611a29e84a6a85f424]"

section \<open>Validation\<close>

definition validate_inner :: "l2_tx \<Rightarrow> inner \<Rightarrow> (string, unit) res" where
  "validate_inner tx n =
     (if max_fee_per_gas (tx_fee tx) < ucast (fp_l2_gas_price (n_fee_input_provider n))
      then Err ''block base fee higher than max fee per gas''
      else if max_fee_per_gas (tx_fee tx) < max_priority_fee_per_gas (tx_fee tx)
      then Err ''max priority fee per gas higher than max fee per gas''
      else Ok ())"

definition validate_tx :: "l2_tx \<Rightarrow> node \<Rightarrow> (string, unit) res" where
  "validate_tx tx nd =
     (let max_gas = ucast (- 1 :: u64) in
      if max_gas < gas_limit (tx_fee tx) \<or> max_gas < gas_per_pubdata_limit (tx_fee tx)
      then Err ''exceeds block gas limit''
      else read_inner Panic (validate_inner tx) nd)"

section \<open>Running a transaction\<close>

record l2_tx_result =
  lt_keys :: state_map
  lt_result :: vm_result
  lt_traces :: "call list"
  lt_block :: block
  lt_bytecodes :: "(u256 \<times> u256 list) list"
  lt_ctx :: block_context

fun convert_bytecodes ::
  "ext \<Rightarrow> bytes list \<Rightarrow> (u256 \<times> u256 list) list \<Rightarrow> (string, (u256 \<times> u256 list) list) res" where
  "convert_bytecodes E [] acc = Ok acc"
| "convert_bytecodes E (b # bs) acc =
     rbind (bytecode_to_factory_dep E b) (\<lambda>(h, ws). convert_bytecodes E bs (al_insert h ws acc))"

definition gas_report_panics :: "inner \<Rightarrow> inspect_out \<Rightarrow> bool" where
  "gas_report_panics n out =
     (nc_show_gas_details (n_config n) = ShowGasDetailsAll \<and>
      display_detailed_gas_info (Some (load_from_memory (io_debug_slots out)))
        (vm_gas_used (io_result out) - ucast (vm_computational_gas_used (io_result out)))
        (get_fee_model_config (n_fee_input_provider n)) = Panic)"

definition tx_block :: "ext \<Rightarrow> inner \<Rightarrow> l2_tx \<Rightarrow> l1_batch_env \<Rightarrow> block_context \<Rightarrow> vm_result \<Rightarrow> block" where
  "tx_block E n tx env ctx result =
     (let transaction = (x_api_tx_of_l2_tx E tx)
            \<lparr>at_block_hash := Some (n_current_miniblock_hash n),
             at_block_number := Some (n_current_miniblock n)\<rparr>
      in \<lparr>b_hash = compute_hash E (bc_miniblock ctx) (x_tx_hash E tx),
          b_parent_hash = unwrap_or (n_block_hashes n (bc_miniblock ctx - 1)) 0,
          b_number = bc_miniblock ctx, b_timestamp = ucast (be_timestamp env),
          b_l1_batch_number = Some (ucast (be_number env)),
          b_transactions = [TxFull transaction], b_gas_used = ucast (vm_gas_used result),
          b_gas_limit = ucast (x_batch_gas_limit E)\<rparr>)"

text \<open>
  The result and the fork storage afterwards: the view works on the node's own fork storage,
  whose caches keep what the run has read (after a panic they are left out: they only repeat
  what the remote answers). Extra tracers observe the run and are left out; of the printed
  summary only what may panic is modelled, with the default log level, which prints it.
\<close>

definition run_l2_tx_raw ::
  "ext \<Rightarrow> l2_tx \<Rightarrow> exec_mode \<Rightarrow> bool \<Rightarrow> inner \<Rightarrow> (string, l2_tx_result) res \<times> fork_storage" where
  "run_l2_tx_raw E tx mode execute_bootloader n =
     (let fo = n_fork_storage n in
      case create_l1_batch_env E n fo_ops (storage_view_new fo) of
        None \<Rightarrow> (Panic, fo)
      | Some ((env, ctx), sv1) \<Rightarrow>
     (case contracts (n_system_contracts n) mode (initiator tx \<in> n_impersonated_accounts n) of
        None \<Rightarrow> (Panic, fo)
      | Some base \<Rightarrow>
     (case run fo_ops (x_vm_inspect_with_compression E env (create_system_env E n base mode) tx) sv1 of
        None \<Rightarrow> (Panic, fo)
      | Some (out, sv2) \<Rightarrow>
     (case io_compressed out of
        Panic \<Rightarrow> (Panic, fo)
      | Err e \<Rightarrow> (Err (''failed compressing bytecodes: '' @ e), sv_storage_handle sv2)
      | Ok compressed_bytecodes \<Rightarrow>
     (if checked_sub (gas_limit (tx_fee tx)) (ucast (vm_gas_refunded (io_result out))) = None \<or>
         gas_report_panics n out
      then (Panic, fo)
      else case convert_bytecodes E compressed_bytecodes [] of
        Panic \<Rightarrow> (Panic, fo)
      | Err e \<Rightarrow> (Err e, sv_storage_handle sv2)
      | Ok bytecodes \<Rightarrow>
     (case (if execute_bootloader then run fo_ops (io_bootloader out) sv2 else Some ((), sv2)) of
        None \<Rightarrow> (Panic, fo)
      | Some (_, sv3) \<Rightarrow>
          (Ok \<lparr>lt_keys = sv_modified sv3, lt_result = io_result out, lt_traces = io_traces out,
               lt_block = tx_block E n tx env ctx (io_result out), lt_bytecodes = bytecodes,
               lt_ctx = ctx\<rparr>, sv_storage_handle sv3)))))))"

section \<open>Committing a transaction\<close>

text \<open>
  The loop over the modified keys writes every entry of a map; whatever its order, the
  storage afterwards is the map laid over the storage before.
\<close>

definition store_keys :: "state_map \<Rightarrow> fork_storage \<Rightarrow> fork_storage" where
  "store_keys keys fo = fo\<lparr>fo_raw := (fo_raw fo)\<lparr>im_state := im_state (fo_raw fo) ++ keys\<rparr>\<rparr>"

definition store_bytecodes :: "ext \<Rightarrow> (u256 \<times> u256 list) list \<Rightarrow> fork_storage \<Rightarrow> fork_storage" where
  "store_bytecodes E bytecodes fo =
     foldl (\<lambda>fo (hash, code). fo_store_factory_dep hash (words_to_bytes E code) fo) fo bytecodes"

definition make_log :: "block \<Rightarrow> h256 \<Rightarrow> nat \<Rightarrow> vm_event \<Rightarrow> log option" where
  "make_log block tx_hash log_idx event =
     map_option (\<lambda>ts. \<lparr>l_address = ev_address event, l_topics = ev_topics event,
         l_data = ev_value event, l_block_hash = Some (b_hash block),
         l_block_number = Some (b_number block), l_l1_batch_number = b_l1_batch_number block,
         l_transaction_hash = Some tx_hash, l_transaction_index = Some 0,
         l_log_index = Some (of_nat log_idx), l_transaction_log_index = Some (of_nat log_idx),
         l_removed = Some False, l_block_timestamp = Some ts\<rparr>)
       (as_u64 (b_timestamp block))"

definition make_logs :: "block \<Rightarrow> h256 \<Rightarrow> vm_event list \<Rightarrow> log list option" where
  "make_logs block tx_hash events =
     those (map (\<lambda>(i, e). make_log block tx_hash i e) (enumerate 0 events))"

fun notify_logs :: "log list \<Rightarrow> u64 \<Rightarrow> eth_filters \<Rightarrow> eth_filters option" where
  "notify_logs [] number fs = Some fs"
| "notify_logs (lg # lgs) number fs = Option.bind (notify_new_log lg number fs) (notify_logs lgs number)"

definition contract_address_from_tx_result :: "ext \<Rightarrow> vm_result \<Rightarrow> address option" where
  "contract_address_from_tx_result E result =
     map_option (\<lambda>l. x_h256_to_account_address E (key_slot (sl_key l)))
       (find (\<lambda>l. is_write l \<and> key_address (sl_key l) = x_account_code_storage_address E)
         (rev (vm_storage_logs result)))"

definition make_receipt ::
  "ext \<Rightarrow> l2_tx \<Rightarrow> l2_tx_result \<Rightarrow> log list \<Rightarrow> u64 \<Rightarrow> receipt option" where
  "make_receipt E tx lt logs l2_gas_price =
     map_option (\<lambda>gas_used.
       \<lparr>r_transaction_hash = x_tx_hash E tx, r_transaction_index = 0,
        r_block_hash = b_hash (lt_block lt), r_block_number = b_number (lt_block lt),
        r_l1_batch_number = b_l1_batch_number (lt_block lt), r_from = initiator tx,
        r_to = recipient tx, r_gas_used = Some gas_used,
        r_contract_address = contract_address_from_tx_result E (lt_result lt), r_logs = logs,
        r_status = (if is_failed (vm_exec (lt_result lt)) then 0 else 1),
        r_effective_gas_price = Some (ucast l2_gas_price),
        r_transaction_type = Some (ucast (x_tx_type_code E (transaction_type tx)))\<rparr>)
       (checked_sub (gas_limit (tx_fee tx)) (ucast (vm_gas_refunded (lt_result lt))))"

text \<open>One round of the loop that produces the blocks; \<open>None\<close> is one of its panics.\<close>

definition produce_block :: "block \<Rightarrow> inner \<Rightarrow> inner option" where
  "produce_block block n0 =
     (let n1 = archive_state n0;
          n = n1\<lparr>n_current_miniblock := sat_add (n_current_miniblock n1) 1,
                 n_current_timestamp := sat_add (n_current_timestamp n1) 1\<rparr>
      in Option.bind (b_l1_batch_number block) (\<lambda>l1.
         Option.bind (as_u32 l1) (\<lambda>actual_batch.
         Option.bind (as_u64 (b_timestamp block)) (\<lambda>timestamp.
           if actual_batch \<noteq> n_current_batch n then None
           else if b_number block \<noteq> n_current_miniblock n then None
           else if timestamp \<noteq> n_current_timestamp n then None
           else Some (n\<lparr>n_current_miniblock_hash := b_hash block,
                        n_block_hashes := (n_block_hashes n)(b_number block \<mapsto> b_hash block),
                        n_blocks := (n_blocks n)(b_hash block \<mapsto> block),
                        n_filters := notify_new_block (b_hash block) (n_filters n)\<rparr>)))))"

definition record_tx :: "ext \<Rightarrow> l2_tx \<Rightarrow> l2_tx_result \<Rightarrow> inner \<Rightarrow> inner option" where
  "record_tx E tx lt n =
     Option.bind (make_logs (lt_block lt) (x_tx_hash E tx) (vm_events (lt_result lt))) (\<lambda>logs.
     Option.bind (notify_logs logs (b_number (lt_block lt)) (n_filters n)) (\<lambda>fs.
     Option.bind (make_receipt E tx lt logs (fp_l2_gas_price (n_fee_input_provider n))) (\<lambda>receipt.
     Option.bind (res_ok (create_debug_output E tx (lt_result lt) (lt_traces lt))) (\<lambda>debug.
     Option.bind (as_u32 (unwrap_or (b_l1_batch_number (lt_block lt)) 0)) (\<lambda>batch_number.
       Some (n\<lparr>n_filters := fs,
               n_tx_results := al_insert (x_tx_hash E tx)
                 \<lparr>tr_info = \<lparr>ti_tx = tx, ti_batch_number = batch_number,
                            ti_miniblock_number = b_number (lt_block lt), ti_result = lt_result lt\<rparr>,
                  tr_receipt = receipt, tr_debug = debug\<rparr> (n_tx_results n)\<rparr>))))))"

definition commit_tx :: "ext \<Rightarrow> l2_tx \<Rightarrow> l2_tx_result \<Rightarrow> inner \<Rightarrow> inner option" where
  "commit_tx E tx lt n0 =
     (let n1 = n0\<lparr>n_fork_storage :=
                store_bytecodes E (lt_bytecodes lt) (store_keys (lt_keys lt) (n_fork_storage n0))\<rparr>
      in Option.bind (record_tx E tx lt n1) (\<lambda>n2.
         let ctx = new_block (lt_ctx lt);
             empty_block_at_end_of_batch = create_empty_block E (bc_miniblock ctx) (bc_timestamp ctx)
               (bc_batch ctx) (Some (b_hash (lt_block lt)));
             n3 = n2\<lparr>n_current_batch := sat_add (n_current_batch n2) 1\<rparr>
         in Option.bind (produce_block (lt_block lt) n3) (produce_block empty_block_at_end_of_batch)))"

definition of_option :: "'a \<Rightarrow> 'a option \<Rightarrow> (string, unit) res \<times> 'a" where
  "of_option s m = (case m of None \<Rightarrow> (Panic, s) | Some s' \<Rightarrow> (Ok (), s'))"

text \<open>
  The three critical sections of \<open>run_l2_tx\<close>: the pending-transaction notification, the run
  under the read lock (a panic there does not poison it), and the commit.
\<close>

definition run_l2_tx :: "ext \<Rightarrow> l2_tx \<Rightarrow> exec_mode \<Rightarrow> node \<Rightarrow> (string, unit) res \<times> node" where
  "run_l2_tx E tx mode nd =
     (case validate_tx tx nd of
        Err e \<Rightarrow> (Err e, nd)
      | Panic \<Rightarrow> (Panic, nd)
      | Ok _ \<Rightarrow>
     (case write_inner (Err write_lock_failed) (\<lambda>n. (Ok (),
             n\<lparr>n_filters := notify_new_pending_transaction (x_tx_hash E tx) (n_filters n)\<rparr>)) nd of
        (Ok _, nd1) \<Rightarrow>
          (let (r, fo) = run_l2_tx_raw E tx mode True (nd_inner nd1);
               nd2 = nd1\<lparr>nd_inner := (nd_inner nd1)\<lparr>n_fork_storage := fo\<rparr>\<rparr>
           in case r of
                Err e \<Rightarrow> (Err e, nd2)
              | Panic \<Rightarrow> (Panic, nd2)
              | Ok lt \<Rightarrow>
                  (case vm_exec (lt_result lt) of
                     Halt reason \<Rightarrow> (Err (''Transaction HALT: '' @ reason), nd2)
                   | _ \<Rightarrow> write_inner (Err write_lock_failed) (\<lambda>n. of_option n (commit_tx E tx lt n)) nd2))
      | (r, nd1) \<Rightarrow> (r, nd1)))"

fun apply_txs :: "ext \<Rightarrow> l2_tx list \<Rightarrow> node \<Rightarrow> (string, unit) res \<times> node" where
  "apply_txs E [] nd = (Ok (), nd)"
| "apply_txs E (tx # txs) nd =
     (case run_l2_tx E tx VerifyExecute nd of
        (Ok _, nd') \<Rightarrow> apply_txs E txs nd'
      | (r, nd') \<Rightarrow> (r, nd'))"

section \<open>Calls\<close>

definition call_inner :: "ext \<Rightarrow> l2_tx \<Rightarrow> inner \<Rightarrow> (string, exec_result) res \<times> inner" where
  "call_inner E tx n =
     (let fo = n_fork_storage n in
      case contracts_for_l2_call (n_system_contracts n) of
        None \<Rightarrow> (Panic, n)
      | Some base \<Rightarrow>
     (case create_l1_batch_env E n fo_ops (storage_view_new fo) of
        None \<Rightarrow> (Panic, n)
      | Some ((env, _), sv1) \<Rightarrow>
          (let tx' = (if signature tx = [] then tx\<lparr>signature := x_default_signature E\<rparr> else tx)
           in case run fo_ops (x_vm_run_tx E env (create_system_env E n base EthCall) tx') sv1 of
                None \<Rightarrow> (Panic, n)
              | Some (out, sv2) \<Rightarrow>
                  (Ok (vm_exec (ro_result out)), n\<lparr>n_fork_storage := sv_storage_handle sv2\<rparr>))))"

definition run_l2_call :: "ext \<Rightarrow> l2_tx \<Rightarrow> node \<Rightarrow> (string, exec_result) res \<times> node" where
  "run_l2_call E tx nd = write_inner (Err write_lock_failed) (call_inner E tx) nd"

section \<open>Accounts and bytecodes\<close>

definition rich_balance :: h256 where
  "rich_balance = 10 ^ 30"

definition insert_rich :: "address \<Rightarrow> address list \<Rightarrow> address list" where
  "insert_rich a xs = (if a \<in> set xs then xs else xs @ [a])"

definition rich_inner :: "ext \<Rightarrow> address \<Rightarrow> inner \<Rightarrow> (string, unit) res \<times> inner" where
  "rich_inner E a n =
     (case sv_set_value fo_ops (x_eth_balance_key E a) rich_balance (storage_view_new (n_fork_storage n)) of
        None \<Rightarrow> (Panic, n)
      | Some (_, sv) \<Rightarrow>
          (Ok (), n\<lparr>n_fork_storage := store_keys (sv_modified sv) (sv_storage_handle sv),
                    n_rich_accounts := insert_rich a (n_rich_accounts n)\<rparr>))"

text \<open>A poisoned lock is only reported in the log.\<close>

definition set_rich_account :: "ext \<Rightarrow> address \<Rightarrow> node \<Rightarrow> (string, unit) res \<times> node" where
  "set_rich_account E a nd = write_inner (Ok ()) (rich_inner E a) nd"

fun set_rich_accounts :: "ext \<Rightarrow> address list \<Rightarrow> node \<Rightarrow> (string, unit) res \<times> node" where
  "set_rich_accounts E [] nd = (Ok (), nd)"
| "set_rich_accounts E (a # as) nd =
     (case set_rich_account E a nd of
        (Ok _, nd') \<Rightarrow> set_rich_accounts E as nd'
      | (r, nd') \<Rightarrow> (r, nd'))"

definition override_bytecode :: "ext \<Rightarrow> address \<Rightarrow> bytes \<Rightarrow> node \<Rightarrow> (string, unit) res \<times> node" where
  "override_bytecode E a bytecode nd =
     write_inner (Err write_lock_failed) (\<lambda>n.
       case x_hash_bytecode E bytecode of
         None \<Rightarrow> (Panic, n)
       | Some bytecode_hash \<Rightarrow>
           (Ok (), n\<lparr>n_fork_storage := fo_set_value (x_code_key E a) bytecode_hash
                       (fo_store_factory_dep bytecode_hash bytecode (n_fork_storage n))\<rparr>)) nd"

definition reset :: "ext \<Rightarrow> fork_details option \<Rightarrow> node \<Rightarrow> (string, unit) res \<times> node" where
  "reset E fork nd =
     (if nd_inner_poisoned nd then (Err read_lock_failed, nd)
      else let n = nd_inner nd in
        case inner_new E fork (n_observability n) (n_config n) (Some (gas_values (n_fee_input_provider n))) of
          None \<Rightarrow> (Panic, nd)
        | Some n' \<Rightarrow>
            if nd_snapshots_poisoned nd then (Err write_lock_failed, nd)
            else
              (case set_rich_accounts E (LEGACY_RICH_WALLETS @ RICH_WALLETS)
                      (nd\<lparr>nd_snapshots := [], nd_inner := n'\<rparr>) of
                 (Panic, nd') \<Rightarrow> (Panic, nd'\<lparr>nd_snapshots_poisoned := True\<rparr>)
               | (r, nd') \<Rightarrow> (r, nd')))"

section \<open>Lemmas on runs\<close>

lemma tx_block_simps [simp]:
  "b_number (tx_block E n tx env ctx r) = bc_miniblock ctx"
  "b_timestamp (tx_block E n tx env ctx r) = ucast (be_timestamp env)"
  "b_hash (tx_block E n tx env ctx r) = compute_hash E (bc_miniblock ctx) (x_tx_hash E tx)"
  "b_parent_hash (tx_block E n tx env ctx r) = unwrap_or (n_block_hashes n (bc_miniblock ctx - 1)) 0"
  "b_l1_batch_number (tx_block E n tx env ctx r) = Some (ucast (be_number env))"
  "length (b_transactions (tx_block E n tx env ctx r)) = 1"
  by (simp_all add: tx_block_def Let_def)

lemma run_good:
  assumes "fo.view_inv sv" and "run fo_ops p sv = Some (r, sv')"
  shows "fo.same_below sv sv' \<and> same_local (sv_storage_handle sv) (sv_storage_handle sv')"
proof -
  obtain r' m where "pure_run (\<lambda>k. unwrap (fork_value (sv_storage_handle sv) k))
      (\<lambda>k. unwrap (fork_initial (sv_storage_handle sv) k)) (\<lambda>h. unwrap (fork_dep (sv_storage_handle sv) h)) p
      (sv_modified sv) = Some (r', m)"
    using fo.run_refines [OF assms(1), of p] assms(2) by (cases "pure_run (\<lambda>k. unwrap (fork_value (sv_storage_handle sv) k))
      (\<lambda>k. unwrap (fork_initial (sv_storage_handle sv) k)) (\<lambda>h. unwrap (fork_dep (sv_storage_handle sv) h)) p
      (sv_modified sv)") auto
  then have "fo.same_below sv sv'" using fo.run_refines [OF assms(1), of p] assms(2) by auto
  then show ?thesis using run_local [OF assms(2)] by blast
qed

text \<open>What a run leaves: the view stays coherent over storage that is locally the same.\<close>

definition good_view :: "fork_storage \<Rightarrow> fork_storage storage_view \<Rightarrow> bool" where
  "good_view fo sv \<longleftrightarrow> fo.view_inv sv \<and> same_local fo (sv_storage_handle sv)"

lemma good_view_new: "caches_coherent fo \<Longrightarrow> good_view fo (storage_view_new fo)"
  by (simp add: good_view_def fo.view_new) (simp add: storage_view_new_def)

lemma good_view_run: "good_view fo sv \<Longrightarrow> run fo_ops p sv = Some (r, sv') \<Longrightarrow> good_view fo sv'"
  using run_good [of sv p r sv'] same_local_trans
  by (auto simp: good_view_def fo.same_below_def)

lemma good_view_env:
  assumes "good_view fo sv" and "create_l1_batch_env E n fo_ops sv = Some (x, sv')"
  shows "good_view fo sv'"
proof -
  obtain l1 sv1 l2 where 1: "run fo_ops (load_last_l1_batch E) sv = Some (l1, sv1)"
      and 2: "run fo_ops (x_load_last_l2_block E) sv1 = Some (l2, sv')"
    using create_l1_batch_env_shape [of E n fo_ops sv "fst x" "snd x" sv'] assms(2) by auto
  show ?thesis by (rule good_view_run [OF good_view_run [OF assms(1) 1] 2])
qed

lemma good_view_handle: "good_view fo sv \<Longrightarrow> caches_coherent (sv_storage_handle sv) \<and> same_local fo (sv_storage_handle sv)"
  by (simp add: good_view_def fo.view_inv_def)

lemma run_l2_tx_raw_storage:
  assumes "caches_coherent (n_fork_storage n)"
  shows "caches_coherent (snd (run_l2_tx_raw E tx mode b n)) \<and>
    same_local (n_fork_storage n) (snd (run_l2_tx_raw E tx mode b n))"
proof -
  let ?fo = "n_fork_storage n"
  have base: "caches_coherent ?fo \<and> same_local ?fo ?fo" using assms by simp
  have g: "good_view ?fo sv" if "create_l1_batch_env E n fo_ops (storage_view_new ?fo) = Some (x, sv)" for x sv
    using good_view_env [OF good_view_new [OF assms] that] .
  show ?thesis
    unfolding run_l2_tx_raw_def Let_def
    by (simp add: base split: option.split prod.split res.split)
       (blast intro: g good_view_run good_view_handle [THEN conjunct1] good_view_handle [THEN conjunct2])
qed

lemma run_l2_tx_raw_Ok:
  assumes "run_l2_tx_raw E tx mode b n = (Ok lt, fo)"
  shows "\<exists>env ctx sv1. create_l1_batch_env E n fo_ops (storage_view_new (n_fork_storage n)) = Some ((env, ctx), sv1) \<and>
    lt_ctx lt = ctx \<and> lt_block lt = tx_block E n tx env ctx (lt_result lt)"
  using assms
  by (auto simp: run_l2_tx_raw_def Let_def split: option.splits prod.splits res.splits if_splits)

text \<open>
  The run that a transaction stands for, without what \<open>run_l2_tx_raw\<close> makes of it: the virtual
  machine runs the transaction and then the end of the batch over one view of the storage. The
  result has the environment, what the machine gives and the view in the end.
\<close>

definition vm_run ::
  "ext \<Rightarrow> l2_tx \<Rightarrow> exec_mode \<Rightarrow> inner \<Rightarrow>
   (l1_batch_env \<times> block_context \<times> inspect_out \<times> fork_storage storage_view) option" where
  "vm_run E tx mode n =
     Option.bind (create_l1_batch_env E n fo_ops (storage_view_new (n_fork_storage n))) (\<lambda>((env, ctx), sv1).
     Option.bind (contracts (n_system_contracts n) mode (initiator tx \<in> n_impersonated_accounts n)) (\<lambda>base.
     Option.bind (run fo_ops (x_vm_inspect_with_compression E env (create_system_env E n base mode) tx) sv1) (\<lambda>(out, sv2).
       map_option (\<lambda>(_, sv3). (env, ctx, out, sv3)) (run fo_ops (io_bootloader out) sv2))))"

text \<open>What a result of \<open>run_l2_tx_raw\<close> takes from that run.\<close>

definition result_of_run ::
  "ext \<Rightarrow> l2_tx \<Rightarrow> inner \<Rightarrow> l1_batch_env \<times> block_context \<times> inspect_out \<times> fork_storage storage_view \<Rightarrow> l2_tx_result \<Rightarrow> bool" where
  "result_of_run E tx n v lt =
     (case v of (env, ctx, out, sv) \<Rightarrow>
        lt_keys lt = sv_modified sv \<and> lt_result lt = io_result out \<and> lt_traces lt = io_traces out \<and>
        lt_block lt = tx_block E n tx env ctx (io_result out) \<and> lt_ctx lt = ctx \<and>
        (\<exists>cs. io_compressed out = Ok cs \<and> convert_bytecodes E cs [] = Ok (lt_bytecodes lt)))"

lemma run_l2_tx_raw_vm_run:
  assumes "run_l2_tx_raw E tx mode True n = (Ok lt, fo)"
  shows "\<exists>env ctx out sv. vm_run E tx mode n = Some (env, ctx, out, sv) \<and> fo = sv_storage_handle sv \<and>
    result_of_run E tx n (env, ctx, out, sv) lt"
  using assms
  by (auto simp: run_l2_tx_raw_def vm_run_def result_of_run_def Let_def split: option.splits prod.splits res.splits if_splits)

section \<open>Lemmas on the commit\<close>

text \<open>What is recorded of a transaction: every field of the entry, over the block, the result of the
  machine and its traces.\<close>

definition log_of_event :: "block \<Rightarrow> h256 \<Rightarrow> u64 \<Rightarrow> nat \<times> vm_event \<Rightarrow> log" where
  "log_of_event b tx_hash timestamp x =
     \<lparr>l_address = ev_address (snd x), l_topics = ev_topics (snd x), l_data = ev_value (snd x), l_block_hash = Some (b_hash b),
      l_block_number = Some (b_number b), l_l1_batch_number = b_l1_batch_number b, l_transaction_hash = Some tx_hash,
      l_transaction_index = Some 0, l_log_index = Some (of_nat (fst x)), l_transaction_log_index = Some (of_nat (fst x)),
      l_removed = Some False, l_block_timestamp = Some timestamp\<rparr>"

definition records ::
  "ext \<Rightarrow> l2_tx \<Rightarrow> block \<Rightarrow> vm_result \<Rightarrow> call list \<Rightarrow> inner \<Rightarrow> transaction_result \<Rightarrow> bool" where
  "records E tx b result traces n tr \<longleftrightarrow>
     ti_tx (tr_info tr) = tx \<and> ti_miniblock_number (tr_info tr) = b_number b \<and> ti_result (tr_info tr) = result \<and>
     b_l1_batch_number b = Some (ucast (ti_batch_number (tr_info tr))) \<and>
     create_debug_output E tx result traces = Ok (tr_debug tr) \<and>
     ucast (vm_gas_refunded result) \<le> gas_limit (tx_fee tx) \<and>
     tr_receipt tr =
       \<lparr>r_transaction_hash = x_tx_hash E tx, r_transaction_index = 0, r_block_hash = b_hash b, r_block_number = b_number b,
        r_l1_batch_number = b_l1_batch_number b, r_from = initiator tx, r_to = recipient tx,
        r_gas_used = Some (gas_limit (tx_fee tx) - ucast (vm_gas_refunded result)),
        r_contract_address = contract_address_from_tx_result E result,
        r_logs = map (log_of_event b (x_tx_hash E tx) (ucast (b_timestamp b))) (enumerate 0 (vm_events result)),
        r_status = (case vm_exec result of Success _ \<Rightarrow> 1 | _ \<Rightarrow> 0),
        r_effective_gas_price = Some (ucast (fp_l2_gas_price (n_fee_input_provider n))),
        r_transaction_type = Some (ucast (x_tx_type_code E (transaction_type tx)))\<rparr>"

lemma those_map_total: "those (map (\<lambda>x. Some (f x)) xs) = Some (map f xs)"
  by (induction xs) simp_all

lemma make_logs_Some:
  assumes "make_logs b h es = Some logs"
  shows "logs = map (log_of_event b h (ucast (b_timestamp b))) (enumerate 0 es)"
proof (cases "as_u64 (b_timestamp b)")
  case None
  then have "es = []" using assms by (cases es) (simp_all add: make_logs_def make_log_def)
  then show ?thesis using assms by (simp add: make_logs_def)
next
  case (Some ts)
  then have "ts = ucast (b_timestamp b)" by (auto simp: as_u64_def split: if_splits)
  then have "(\<lambda>(i, e). make_log b h i e) = (\<lambda>x. Some (log_of_event b h (ucast (b_timestamp b)) x))"
    using Some by (simp add: make_log_def log_of_event_def fun_eq_iff)
  then show ?thesis using assms by (simp add: make_logs_def those_map_total)
qed

lemma record_tx_records:
  assumes "record_tx E tx lt n = Some n'" and "b_l1_batch_number (lt_block lt) = Some (ucast (bn :: u32))"
  shows "\<exists>fs tr. n' = n\<lparr>n_filters := fs, n_tx_results := al_insert (x_tx_hash E tx) tr (n_tx_results n)\<rparr> \<and>
    records E tx (lt_block lt) (lt_result lt) (lt_traces lt) n tr"
proof -
  obtain logs fs rc d where 1:
      "make_logs (lt_block lt) (x_tx_hash E tx) (vm_events (lt_result lt)) = Some logs"
      "make_receipt E tx lt logs (fp_l2_gas_price (n_fee_input_provider n)) = Some rc"
      "create_debug_output E tx (lt_result lt) (lt_traces lt) = Ok d"
      "n' = n\<lparr>n_filters := fs, n_tx_results := al_insert (x_tx_hash E tx)
                 \<lparr>tr_info = \<lparr>ti_tx = tx, ti_batch_number = bn,
                            ti_miniblock_number = b_number (lt_block lt), ti_result = lt_result lt\<rparr>,
                  tr_receipt = rc, tr_debug = d\<rparr> (n_tx_results n)\<rparr>"
    using assms by (auto simp: record_tx_def bind_eq_Some_conv elim: res_ok.elims)
  then show ?thesis
    using 1(2-4) assms(2) make_logs_Some [OF 1(1)]
    by (auto simp: records_def make_receipt_def checked_sub_def split: if_splits exec_result.split intro!: exI [of _ fs])
qed

lemma record_tx_Some:
  assumes "record_tx E tx lt n = Some n'"
  shows "\<exists>fs tr. n' = n\<lparr>n_filters := fs, n_tx_results := al_insert (x_tx_hash E tx) tr (n_tx_results n)\<rparr> \<and>
    ti_tx (tr_info tr) = tx \<and> r_transaction_hash (tr_receipt tr) = x_tx_hash E tx \<and>
    r_block_hash (tr_receipt tr) = b_hash (lt_block lt) \<and> r_block_number (tr_receipt tr) = b_number (lt_block lt) \<and>
    r_status (tr_receipt tr) = (if is_failed (vm_exec (lt_result lt)) then 0 else 1) \<and>
    length (r_logs (tr_receipt tr)) = length (vm_events (lt_result lt))"
proof -
  obtain logs fs rc d bn where 1:
      "make_logs (lt_block lt) (x_tx_hash E tx) (vm_events (lt_result lt)) = Some logs"
      "make_receipt E tx lt logs (fp_l2_gas_price (n_fee_input_provider n)) = Some rc"
      "n' = n\<lparr>n_filters := fs, n_tx_results := al_insert (x_tx_hash E tx)
                 \<lparr>tr_info = \<lparr>ti_tx = tx, ti_batch_number = bn,
                            ti_miniblock_number = b_number (lt_block lt), ti_result = lt_result lt\<rparr>,
                  tr_receipt = rc, tr_debug = d\<rparr> (n_tx_results n)\<rparr>"
    using assms by (auto simp: record_tx_def bind_eq_Some_conv)
  have "length logs = length (vm_events (lt_result lt))"
    using 1(1) those_sum [of _ _ "\<lambda>_. 1 :: nat" "\<lambda>_. 1 :: nat" logs]
    by (fastforce simp: make_logs_def sum_list_triv)
  then show ?thesis
    using 1(2,3) by (auto simp: make_receipt_def intro!: exI [of _ fs])
qed

lemma produce_block_Some:
  assumes "produce_block b n = Some n'"
  shows "b_number b = sat_add (n_current_miniblock n) 1 \<and>
    as_u64 (b_timestamp b) = Some (sat_add (n_current_timestamp n) 1) \<and>
    (\<exists>l1. b_l1_batch_number b = Some l1 \<and> as_u32 l1 = Some (n_current_batch n)) \<and>
    n' = n\<lparr>n_previous_states := n_previous_states (archive_state n),
           n_current_miniblock := b_number b, n_current_timestamp := sat_add (n_current_timestamp n) 1,
           n_current_miniblock_hash := b_hash b,
           n_block_hashes := (n_block_hashes n)(b_number b \<mapsto> b_hash b),
           n_blocks := (n_blocks n)(b_hash b \<mapsto> b),
           n_filters := notify_new_block (b_hash b) (n_filters n)\<rparr>"
  using assms
  by (auto simp: produce_block_def Let_def archive_state_def bind_eq_Some_conv split: if_splits)

lemma commit_tx_Some:
  assumes "commit_tx E tx lt n = Some n'"
  shows "\<exists>n2 n4. record_tx E tx lt (n\<lparr>n_fork_storage :=
        store_bytecodes E (lt_bytecodes lt) (store_keys (lt_keys lt) (n_fork_storage n))\<rparr>) = Some n2 \<and>
    produce_block (lt_block lt) (n2\<lparr>n_current_batch := sat_add (n_current_batch n2) 1\<rparr>) = Some n4 \<and>
    produce_block (create_empty_block E (bc_miniblock (new_block (lt_ctx lt)))
      (bc_timestamp (new_block (lt_ctx lt))) (bc_batch (new_block (lt_ctx lt))) (Some (b_hash (lt_block lt)))) n4 = Some n'"
  using assms by (auto simp: commit_tx_def Let_def bind_eq_Some_conv)

lemma store_bytecodes_state [simp]:
  "im_state (fo_raw (store_bytecodes E bs fo)) = im_state (fo_raw fo)"
  "fo_fork (store_bytecodes E bs fo) = fo_fork fo"
  "fo_chain_id (store_bytecodes E bs fo) = fo_chain_id fo"
  "caches_coherent (store_bytecodes E bs fo) = caches_coherent fo"
  unfolding store_bytecodes_def
  by (induction bs arbitrary: fo) (auto simp: fo_store_factory_dep_def im_store_factory_dep_def caches_coherent_def)

lemma store_keys_coherent [simp]: "caches_coherent (store_keys m fo) = caches_coherent fo"
  by (simp add: store_keys_def caches_coherent_def)

text \<open>The loop of single writes that \<open>store_keys\<close> stands for, in any order.\<close>

lemma store_keys_loop:
  assumes "distinct (map fst xs)"
  shows "foldl (\<lambda>fo x. fo_set_value (fst x) (snd x) fo) fo xs = store_keys (map_of xs) fo"
  using assms
proof (induction xs arbitrary: fo)
  case (Cons x xs)
  have "map_of xs (fst x) = None" using Cons.prems by (simp add: map_of_eq_None_iff)
  then have e: "(im_state (fo_raw fo))(fst x \<mapsto> snd x) ++ map_of xs = im_state (fo_raw fo) ++ map_of (x # xs)"
    by (auto simp: map_add_def fun_eq_iff split: option.splits)
  have "foldl (\<lambda>fo x. fo_set_value (fst x) (snd x) fo) fo (x # xs) = store_keys (map_of xs) (fo_set_value (fst x) (snd x) fo)"
    using Cons by simp
  also have "\<dots> = store_keys (map_of (x # xs)) fo"
    using e by (simp add: fo_set_value_def im_set_value_def store_keys_def del: map_of.simps)
  finally show ?case .
qed (simp add: store_keys_def)

section \<open>Transactions that succeed\<close>

definition notified :: "ext \<Rightarrow> l2_tx \<Rightarrow> inner \<Rightarrow> inner" where
  "notified E tx n = n\<lparr>n_filters := notify_new_pending_transaction (x_tx_hash E tx) (n_filters n)\<rparr>"

lemma run_l2_tx_unfold:
  assumes "validate_tx tx nd = Ok u" and "\<not> nd_inner_poisoned nd"
  shows "run_l2_tx E tx mode nd =
    (let (r, fo) = run_l2_tx_raw E tx mode True (notified E tx (nd_inner nd));
         nd2 = nd\<lparr>nd_inner := (notified E tx (nd_inner nd))\<lparr>n_fork_storage := fo\<rparr>\<rparr>
     in case r of
          Err e \<Rightarrow> (Err e, nd2)
        | Panic \<Rightarrow> (Panic, nd2)
        | Ok lt \<Rightarrow>
            (case vm_exec (lt_result lt) of
               Halt reason \<Rightarrow> (Err (''Transaction HALT: '' @ reason), nd2)
             | _ \<Rightarrow> write_inner (Err write_lock_failed) (\<lambda>n. of_option n (commit_tx E tx lt n)) nd2))"
  using assms by (simp add: run_l2_tx_def write_inner_def notified_def)

lemma validate_tx_Ok:
  "validate_tx tx nd = Ok u \<Longrightarrow> \<not> nd_inner_poisoned nd \<and> validate_inner tx (nd_inner nd) = Ok ()"
  by (cases "nd_inner_poisoned nd") (auto simp: validate_tx_def Let_def split: if_splits)

lemma of_option_simps [simp]:
  "fst (of_option s m) = Ok u \<longleftrightarrow> (\<exists>s'. m = Some s')" "fst (of_option s (Some t)) = Ok ()"
  "of_option s None = (Panic, s)" "snd (of_option s (Some t)) = t"
  by (cases m) (auto simp: of_option_def)

lemma run_l2_tx_Ok:
  assumes "run_l2_tx E tx mode nd = (Ok u, nd')"
  shows "\<exists>lt fo. \<not> nd_inner_poisoned nd \<and> validate_tx tx nd = Ok () \<and>
    run_l2_tx_raw E tx mode True (notified E tx (nd_inner nd)) = (Ok lt, fo) \<and>
    commit_tx E tx lt ((notified E tx (nd_inner nd))\<lparr>n_fork_storage := fo\<rparr>) = Some (nd_inner nd') \<and>
    nd' = nd\<lparr>nd_inner := nd_inner nd'\<rparr>"
proof -
  obtain u' where v: "validate_tx tx nd = Ok u'"
    using assms by (auto simp: run_l2_tx_def split: res.splits)
  note p = validate_tx_Ok [OF v]
  obtain r fo where r: "run_l2_tx_raw E tx mode True (notified E tx (nd_inner nd)) = (r, fo)" by (cases "run_l2_tx_raw E tx mode True (notified E tx (nd_inner nd))")
  define nd2 where "nd2 = nd\<lparr>nd_inner := (notified E tx (nd_inner nd))\<lparr>n_fork_storage := fo\<rparr>\<rparr>"
  obtain lt where lt: "r = Ok lt" and
      w: "write_inner (Err write_lock_failed) (\<lambda>n. of_option n (commit_tx E tx lt n)) nd2 = (Ok u, nd')"
    using assms run_l2_tx_unfold [OF v] p r
    by (auto simp: nd2_def Let_def split: res.splits exec_result.splits)
  have np: "\<not> nd_inner_poisoned nd2" using p by (simp add: nd2_def)
  have "fst (of_option (nd_inner nd2) (commit_tx E tx lt (nd_inner nd2))) = Ok u"
    using write_inner_result [OF np, of "Err write_lock_failed" "\<lambda>n. of_option n (commit_tx E tx lt n)"] w by simp
  then obtain n' where n': "commit_tx E tx lt (nd_inner nd2) = Some n'" by auto
  then have "nd' = nd2\<lparr>nd_inner := n'\<rparr>"
    using write_inner_state [OF np, of "\<lambda>n. of_option n (commit_tx E tx lt n)" "Err write_lock_failed"] w
    by (simp add: of_option_def)
  then show ?thesis using p v r lt n' by (simp add: nd2_def)
qed

lemma run_l2_tx_no_halt:
  assumes "run_l2_tx E tx mode nd = (Ok u, nd')"
    and "run_l2_tx_raw E tx mode True (notified E tx (nd_inner nd)) = (Ok lt, fo)"
  shows "vm_exec (lt_result lt) \<noteq> Halt h"
proof -
  have "\<not> nd_inner_poisoned nd" and v: "validate_tx tx nd = Ok ()" using run_l2_tx_Ok [OF assms(1)] by auto
  then show ?thesis using run_l2_tx_unfold [OF v, of E mode] assms by (auto simp: Let_def)
qed

lemma archive_twice:
  assumes "length (n_previous_states n) < 128"
    and "n_previous_states m = n_previous_states (archive_state n)" and "n_fork_storage m = n_fork_storage n"
  shows "map_of (n_previous_states (archive_state m)) (n_current_miniblock_hash n) =
    Some (im_state (fo_raw (n_fork_storage n)))"
  using assms by (simp add: archive_state_def Let_def MAX_PREVIOUS_STATES_def length_al_insert)

section \<open>Properties of transactions\<close>

lemma notified_simps [simp]:
  "n_current_timestamp (notified E tx n) = n_current_timestamp n"
  "n_current_batch (notified E tx n) = n_current_batch n"
  "n_current_miniblock (notified E tx n) = n_current_miniblock n"
  "n_current_miniblock_hash (notified E tx n) = n_current_miniblock_hash n"
  "n_fork_storage (notified E tx n) = n_fork_storage n"
  "n_tx_results (notified E tx n) = n_tx_results n"
  "n_blocks (notified E tx n) = n_blocks n" "n_block_hashes (notified E tx n) = n_block_hashes n"
  "n_previous_states (notified E tx n) = n_previous_states n"
  "n_fee_input_provider (notified E tx n) = n_fee_input_provider n"
  "n_config (notified E tx n) = n_config n" "n_system_contracts (notified E tx n) = n_system_contracts n"
  "n_impersonated_accounts (notified E tx n) = n_impersonated_accounts n"
  by (simp_all add: notified_def)

text \<open>What the two blocks of a transaction are, over the node before and after.\<close>

definition two_blocks :: "ext \<Rightarrow> l2_tx \<Rightarrow> block \<Rightarrow> block \<Rightarrow> inner \<Rightarrow> inner \<Rightarrow> bool" where
  "two_blocks E tx b1 b2 n n' \<longleftrightarrow>
     b_number b1 = sat_add (n_current_miniblock n) 1 \<and> b_number b2 = sat_add (b_number b1) 1 \<and>
     b_timestamp b1 = ucast (sat_add (n_current_timestamp n) 1) \<and>
     b_timestamp b2 = ucast (n_current_timestamp n') \<and>
     b_parent_hash b1 = unwrap_or (n_block_hashes n (b_number b1 - 1)) 0 \<and> b_parent_hash b2 = b_hash b1 \<and>
     b_hash b1 = compute_hash E (b_number b1) (x_tx_hash E tx) \<and> b_hash b2 = compute_hash E (b_number b2) 0 \<and>
     length (b_transactions b1) = 1 \<and> b_transactions b2 = [] \<and>
     b_l1_batch_number b1 = Some (ucast (n_current_batch n')) \<and>
     n_current_batch n' = sat_add (n_current_batch n) 1 \<and> n_current_miniblock n' = b_number b2 \<and>
     n_current_timestamp n' = sat_add (sat_add (n_current_timestamp n) 1) 1 \<and>
     n_current_miniblock_hash n' = b_hash b2 \<and>
     n_blocks n' = (n_blocks n)(b_hash b1 \<mapsto> b1, b_hash b2 \<mapsto> b2) \<and>
     n_block_hashes n' = (n_block_hashes n)(b_number b1 \<mapsto> b_hash b1, b_number b2 \<mapsto> b_hash b2)"

lemma two_blocks_chain: "chain_inv n \<Longrightarrow> two_blocks E tx b1 b2 n n' \<Longrightarrow> chain_inv n'"
  by (auto simp: two_blocks_def chain_inv_def)

lemma tx_block_notified [simp]: "tx_block E (notified E' tx' n) = tx_block E n"
  by (simp add: fun_eq_iff tx_block_def)

lemma create_l1_batch_env_notified [simp]:
  "create_l1_batch_env E (notified E' tx n) ops sv = create_l1_batch_env E n ops sv"
  unfolding create_l1_batch_env_def notified_simps ..

lemma vm_run_notified [simp]: "vm_run E tx mode (notified E' tx' n) = vm_run E tx mode n"
  by (simp add: vm_run_def create_system_env_def)

lemma run_l2_tx_effects:
  assumes "run_l2_tx E tx mode nd = (Ok u, nd')"
  shows "\<exists>lt fo b2 tr fs. run_l2_tx_raw E tx mode True (notified E tx (nd_inner nd)) = (Ok lt, fo) \<and>
    two_blocks E tx (lt_block lt) b2 (nd_inner nd) (nd_inner nd') \<and>
    n_tx_results (nd_inner nd') = al_insert (x_tx_hash E tx) tr (n_tx_results (nd_inner nd)) \<and>
    ti_tx (tr_info tr) = tx \<and> r_transaction_hash (tr_receipt tr) = x_tx_hash E tx \<and>
    r_block_hash (tr_receipt tr) = b_hash (lt_block lt) \<and> r_block_number (tr_receipt tr) = b_number (lt_block lt) \<and>
    r_status (tr_receipt tr) = (if is_failed (vm_exec (lt_result lt)) then 0 else 1) \<and>
    records E tx (lt_block lt) (lt_result lt) (lt_traces lt) (nd_inner nd) tr \<and>
    n_fork_storage (nd_inner nd') = store_bytecodes E (lt_bytecodes lt) (store_keys (lt_keys lt) fo) \<and>
    n_filters (nd_inner nd') = notify_new_block (b_hash b2) (notify_new_block (b_hash (lt_block lt)) fs) \<and>
    (length (n_previous_states (nd_inner nd)) < 128 \<longrightarrow>
       map_of (n_previous_states (nd_inner nd')) (n_current_miniblock_hash (nd_inner nd)) =
         Some (im_state (fo_raw (n_fork_storage (nd_inner nd'))))) \<and>
    nd' = nd\<lparr>nd_inner := nd_inner nd'\<rparr>"
proof -
  let ?n = "notified E tx (nd_inner nd)" and ?n' = "nd_inner nd'"
  obtain lt fo where raw: "run_l2_tx_raw E tx mode True ?n = (Ok lt, fo)"
      and c: "commit_tx E tx lt (?n\<lparr>n_fork_storage := fo\<rparr>) = Some ?n'"
      and nd': "nd' = nd\<lparr>nd_inner := ?n'\<rparr>"
    using run_l2_tx_Ok [OF assms] by blast
  obtain env ctx where ctx: "lt_ctx lt = ctx" and b1: "lt_block lt = tx_block E ?n tx env ctx (lt_result lt)"
    using run_l2_tx_raw_Ok [OF raw] by blast
  let ?b1 = "lt_block lt"
  let ?b2 = "create_empty_block E (bc_miniblock (new_block ctx)) (bc_timestamp (new_block ctx))
        (bc_batch (new_block ctx)) (Some (b_hash ?b1))"
  let ?fo = "store_bytecodes E (lt_bytecodes lt) (store_keys (lt_keys lt) fo)"
  obtain n2 n4 where r: "record_tx E tx lt (?n\<lparr>n_fork_storage := ?fo\<rparr>) = Some n2"
      and 1: "produce_block ?b1 (n2\<lparr>n_current_batch := sat_add (n_current_batch n2) 1\<rparr>) = Some n4"
      and 2: "produce_block ?b2 n4 = Some ?n'"
    using commit_tx_Some [OF c] by (auto simp: ctx)
  obtain fs tr where n2: "n2 = ?n\<lparr>n_fork_storage := ?fo, n_filters := fs,
        n_tx_results := al_insert (x_tx_hash E tx) tr (n_tx_results ?n)\<rparr>"
      and rec: "records E tx ?b1 (lt_result lt) (lt_traces lt) (nd_inner nd) tr"
    using record_tx_records [OF r, of "be_number env"] by (auto simp: b1 tx_block_def records_def)
  have tr: "ti_tx (tr_info tr) = tx" "r_transaction_hash (tr_receipt tr) = x_tx_hash E tx"
      "r_block_hash (tr_receipt tr) = b_hash ?b1" "r_block_number (tr_receipt tr) = b_number ?b1"
      "r_status (tr_receipt tr) = (if is_failed (vm_exec (lt_result lt)) then 0 else 1)"
    using rec by (auto simp: records_def split: exec_result.split)
  note p1 = produce_block_Some [OF 1] and p2 = produce_block_Some [OF 2]
  have two: "two_blocks E tx ?b1 ?b2 (nd_inner nd) ?n'"
    using p1 p2 by (auto simp: two_blocks_def n2 new_block_def b1)
  have "map_of (n_previous_states ?n') (n_current_miniblock_hash (nd_inner nd)) = Some (im_state (fo_raw (n_fork_storage ?n')))"
    if "length (n_previous_states (nd_inner nd)) < 128"
    using archive_twice [of "n2\<lparr>n_current_batch := sat_add (n_current_batch n2) 1\<rparr>" n4] that p1 p2
    by (auto simp: n2 archive_state_def)
  then show ?thesis
    using raw two tr rec nd' p1 p2
    by (intro exI [of _ lt] exI [of _ fo] exI [of _ ?b2] exI [of _ tr] exI [of _ fs]) (auto simp: n2)
qed

text \<open>C6: a transaction that succeeds. It stands for one run of the virtual machine on the state of the
  node, which did not halt. The node gets a batch with two blocks: the one that carries the
  transaction, made of the environment and the result of that run, whose parent is the block
  recorded under the number before it, and an empty one whose parent is the first; the counters
  move on by one batch, two blocks and two seconds, and the invariant of the chain is kept. The
  result is recorded under the transaction's hash: the result of that run, its debug output and
  the receipt that points at the first block, with the status and the gas of that result and the
  logs of its events. Local storage is the old one with the keys that the run has modified laid
  over it and the bytecodes that it has published added; the fork, the snapshots and the rest of
  the node are as before.\<close>

theorem tx_produces_two_blocks:
  assumes "run_l2_tx E tx mode nd = (Ok u, nd')" and "caches_coherent (n_fork_storage (nd_inner nd))"
    and "chain_inv (nd_inner nd)"
  shows "\<exists>env ctx out sv lt b2 tr. vm_run E tx mode (nd_inner nd) = Some (env, ctx, out, sv) \<and>
    (\<forall>h. vm_exec (io_result out) \<noteq> Halt h) \<and>
    run_l2_tx_raw E tx mode True (notified E tx (nd_inner nd)) = (Ok lt, sv_storage_handle sv) \<and>
    result_of_run E tx (nd_inner nd) (env, ctx, out, sv) lt \<and>
    two_blocks E tx (lt_block lt) b2 (nd_inner nd) (nd_inner nd') \<and>
    chain_inv (nd_inner nd') \<and> caches_coherent (n_fork_storage (nd_inner nd')) \<and>
    n_tx_results (nd_inner nd') = al_insert (x_tx_hash E tx) tr (n_tx_results (nd_inner nd)) \<and>
    map_of (n_tx_results (nd_inner nd')) (x_tx_hash E tx) = Some tr \<and> ti_tx (tr_info tr) = tx \<and>
    records E tx (lt_block lt) (io_result out) (io_traces out) (nd_inner nd) tr \<and>
    r_transaction_hash (tr_receipt tr) = x_tx_hash E tx \<and>
    r_block_hash (tr_receipt tr) = b_hash (lt_block lt) \<and>
    r_status (tr_receipt tr) = (if is_failed (vm_exec (io_result out)) then 0 else 1) \<and>
    n_fork_storage (nd_inner nd') =
      store_bytecodes E (lt_bytecodes lt) (store_keys (sv_modified sv) (sv_storage_handle sv)) \<and>
    im_state (fo_raw (n_fork_storage (nd_inner nd'))) =
      im_state (fo_raw (n_fork_storage (nd_inner nd))) ++ sv_modified sv \<and>
    fo_fork (n_fork_storage (nd_inner nd')) = fo_fork (n_fork_storage (nd_inner nd)) \<and>
    nd' = nd\<lparr>nd_inner := nd_inner nd'\<rparr>"
proof -
  obtain lt fo b2 tr fs where e: "run_l2_tx_raw E tx mode True (notified E tx (nd_inner nd)) = (Ok lt, fo)"
      "two_blocks E tx (lt_block lt) b2 (nd_inner nd) (nd_inner nd')"
      "n_tx_results (nd_inner nd') = al_insert (x_tx_hash E tx) tr (n_tx_results (nd_inner nd))"
      "records E tx (lt_block lt) (lt_result lt) (lt_traces lt) (nd_inner nd) tr"
      "n_fork_storage (nd_inner nd') = store_bytecodes E (lt_bytecodes lt) (store_keys (lt_keys lt) fo)"
      "nd' = nd\<lparr>nd_inner := nd_inner nd'\<rparr>"
    using run_l2_tx_effects [OF assms(1)] by blast
  obtain env ctx out sv where v: "vm_run E tx mode (nd_inner nd) = Some (env, ctx, out, sv)" "fo = sv_storage_handle sv"
      "result_of_run E tx (nd_inner nd) (env, ctx, out, sv) lt"
    using run_l2_tx_raw_vm_run [OF e(1)] by (auto simp: result_of_run_def)
  then have lt: "lt_keys lt = sv_modified sv" "lt_result lt = io_result out" "lt_traces lt = io_traces out"
    by (simp_all add: result_of_run_def)
  have "\<forall>h. vm_exec (io_result out) \<noteq> Halt h"
    using run_l2_tx_no_halt [OF assms(1) e(1)] lt(2) by simp
  have "caches_coherent fo \<and> same_local (n_fork_storage (nd_inner nd)) fo"
    using run_l2_tx_raw_storage [of "notified E tx (nd_inner nd)" E tx mode True] assms(2) e(1) by simp
  then have "caches_coherent (n_fork_storage (nd_inner nd'))"
      "im_state (fo_raw (n_fork_storage (nd_inner nd'))) = im_state (fo_raw (n_fork_storage (nd_inner nd))) ++ sv_modified sv"
      "fo_fork (n_fork_storage (nd_inner nd')) = fo_fork (n_fork_storage (nd_inner nd))"
    using e(5) lt(1) by (simp, simp_all add: same_local_def store_keys_def)
  moreover have "ti_tx (tr_info tr) = tx" "r_transaction_hash (tr_receipt tr) = x_tx_hash E tx"
      "r_block_hash (tr_receipt tr) = b_hash (lt_block lt)"
      "r_status (tr_receipt tr) = (if is_failed (vm_exec (io_result out)) then 0 else 1)"
    using e(4) lt(2) by (auto simp: records_def split: exec_result.split)
  ultimately show ?thesis
    using e v lt \<open>\<forall>h. _\<close> two_blocks_chain [OF assms(3) e(2)]
    by (intro exI [of _ env] exI [of _ ctx] exI [of _ out] exI [of _ sv] exI [of _ lt] exI [of _ b2] exI [of _ tr]) simp
qed

text \<open>The witnesses of this theory run a transaction on the concrete node.\<close>

definition tx0 :: l2_tx where
  "tx0 = (witness_l2_tx 0)\<lparr>tx_fee := \<lparr>gas_limit = 1000000, max_fee_per_gas = 25000000,
     max_priority_fee_per_gas = 1, gas_per_pubdata_limit = 50000\<rparr>\<rparr>"

lemma max_u64: "(ucast (- 1 :: u64) :: u256) = 18446744073709551615"
  by (simp add: unsigned_minus_1_eq_mask mask_eq_exp_minus_1)

lemma validate_tx0: "validate_tx tx0 node0 = Ok ()"
  by (simp add: validate_tx_def Let_def validate_inner_def inner0_def default_fee_input_provider_def
      DEFAULT_L2_GAS_PRICE_def max_u64 tx0_def)

lemma env0_notified:
  "\<exists>env sv. create_l1_batch_env ext0 inner0 fo_ops (storage_view_new (n_fork_storage inner0)) =
      Some ((env, \<lparr>bc_batch = 1, bc_miniblock = 1, bc_timestamp = 1001\<rparr>), sv) \<and>
     be_timestamp env = 1001 \<and> be_number env = 1 \<and> sv_modified sv = Map.empty"
proof -
  obtain env ctx sv where e: "create_l1_batch_env ext0 inner0 fo_ops (storage_view_new (n_fork_storage inner0)) = Some ((env, ctx), sv)"
      "be_timestamp env = 1001" "bc_miniblock ctx = 1" "bc_batch ctx = 1" "sv_modified sv = Map.empty"
    using env0 by blast
  moreover have "bc_timestamp ctx = 1001" "be_number env = 1"
    using create_l1_batch_env_shape [OF e(1)] e(2,4) by auto
  ultimately have "ctx = \<lparr>bc_batch = 1, bc_miniblock = 1, bc_timestamp = 1001\<rparr>" by simp
  then show ?thesis using e \<open>be_number env = 1\<close> by blast
qed

definition vm0 :: inspect_out where
  "vm0 = \<lparr>io_compressed = Ok [],
       io_result = \<lparr>vm_exec = Success [], vm_events = [], vm_storage_logs = [], vm_gas_used = 0,
         vm_computational_gas_used = 0, vm_pubdata_published = 0, vm_gas_refunded = 0\<rparr>,
       io_traces = [], io_debug_slots = \<lambda>_. 0, io_bootloader = Return ()\<rparr>"

lemma ext0_vm: "x_vm_inspect_with_compression ext0 env se tx = Return vm0"
  by (simp add: ext0_def vm0_def)

lemma inner0_contracts:
  "contracts (n_system_contracts inner0) VerifyExecute b = Some contracts0"
  "gas_report_panics (notified E tx inner0) out = False"
  by (cases b; simp add: inner0_def)
     (simp add: gas_report_panics_def, simp add: inner0_def default_node_config_def default_show_gas_details_def)

lemma raw0:
  "\<exists>lt fo. run_l2_tx_raw ext0 tx0 VerifyExecute True (notified ext0 tx0 inner0) = (Ok lt, fo) \<and>
     vm_exec (lt_result lt) = Success [] \<and> vm_events (lt_result lt) = [] \<and> vm_gas_refunded (lt_result lt) = 0 \<and>
     lt_traces lt = [] \<and> lt_bytecodes lt = [] \<and> lt_keys lt = Map.empty \<and>
     lt_ctx lt = \<lparr>bc_batch = 1, bc_miniblock = 1, bc_timestamp = 1001\<rparr> \<and>
     b_number (lt_block lt) = 1 \<and> b_timestamp (lt_block lt) = ucast (1001 :: u64) \<and>
     b_l1_batch_number (lt_block lt) = Some (ucast (1 :: u32))"
proof -
  obtain env sv where e: "create_l1_batch_env ext0 inner0 fo_ops (storage_view_new (n_fork_storage inner0)) =
      Some ((env, \<lparr>bc_batch = 1, bc_miniblock = 1, bc_timestamp = 1001\<rparr>), sv)"
      "be_timestamp env = 1001" "be_number env = 1" "sv_modified sv = Map.empty"
    using env0_notified by blast
  show ?thesis
    using e by (simp add: run_l2_tx_raw_def ext0_vm inner0_contracts vm0_def checked_sub_def)
qed

lemma commit0:
  assumes "run_l2_tx_raw ext0 tx0 VerifyExecute True (notified ext0 tx0 inner0) = (Ok lt, fo)"
    and "vm_exec (lt_result lt) = Success []" "vm_events (lt_result lt) = []" "vm_gas_refunded (lt_result lt) = 0"
    and "lt_traces lt = []" "lt_ctx lt = \<lparr>bc_batch = 1, bc_miniblock = 1, bc_timestamp = 1001\<rparr>"
    and "b_number (lt_block lt) = 1" "b_timestamp (lt_block lt) = ucast (1001 :: u64)"
    and "b_l1_batch_number (lt_block lt) = Some (ucast (1 :: u32))"
  shows "\<exists>n'. commit_tx ext0 tx0 lt ((notified ext0 tx0 inner0)\<lparr>n_fork_storage := fo\<rparr>) = Some n'"
proof -
  have counters: "n_current_timestamp inner0 = 1000" "n_current_batch inner0 = 0" "n_current_miniblock inner0 = 0"
    by (simp_all add: inner0_def NON_FORK_FIRST_BLOCK_TIMESTAMP_def)
  have some: "record_tx ext0 tx0 lt m \<noteq> None" for m
    using assms
    by (simp add: record_tx_def make_logs_def make_receipt_def create_debug_output_def tx0_def witness_l2_tx_def
        checked_sub_def Let_def as_u32_def split: if_split)
  have rec0: "\<exists>fs tr. record_tx ext0 tx0 lt m = Some (m\<lparr>n_filters := fs, n_tx_results := tr\<rparr>)" for m
    using some [of m] record_tx_Some [of ext0 tx0 lt m] by blast
  have produce: "\<exists>n2. produce_block b n1 = Some n2 \<and> n_current_timestamp n2 = sat_add (n_current_timestamp n1) 1 \<and>
      n_current_batch n2 = n_current_batch n1 \<and> n_current_miniblock n2 = sat_add (n_current_miniblock n1) 1"
    if "b_number b = sat_add (n_current_miniblock n1) 1" "b_timestamp b = ucast (sat_add (n_current_timestamp n1) 1)"
      "b_l1_batch_number b = Some (ucast (n_current_batch n1))" for b n1
    using that by (simp add: produce_block_def Let_def archive_state_def)
  obtain fs tr where r: "record_tx ext0 tx0 lt ((notified ext0 tx0 inner0)\<lparr>n_fork_storage :=
        store_bytecodes ext0 (lt_bytecodes lt) (store_keys (lt_keys lt) fo)\<rparr>) =
      Some (((notified ext0 tx0 inner0)\<lparr>n_fork_storage :=
        store_bytecodes ext0 (lt_bytecodes lt) (store_keys (lt_keys lt) fo)\<rparr>)\<lparr>n_filters := fs, n_tx_results := tr\<rparr>)"
    using rec0 by blast
  define n3 where "n3 = (((notified ext0 tx0 inner0)\<lparr>n_fork_storage :=
        store_bytecodes ext0 (lt_bytecodes lt) (store_keys (lt_keys lt) fo)\<rparr>)\<lparr>n_filters := fs, n_tx_results := tr\<rparr>)\<lparr>n_current_batch := 1\<rparr>"
  have n3: "n_current_timestamp n3 = 1000" "n_current_batch n3 = 1" "n_current_miniblock n3 = 0"
    by (simp_all add: n3_def counters)
  obtain n4 where n4: "produce_block (lt_block lt) n3 = Some n4" "n_current_timestamp n4 = 1001"
      "n_current_batch n4 = 1" "n_current_miniblock n4 = 1"
    using produce [of "lt_block lt" n3] assms(7-9) by (auto simp: n3 sat_add_def)
  obtain n5 where "produce_block (create_empty_block ext0 2 1002 1 (Some (b_hash (lt_block lt)))) n4 = Some n5"
    using produce [of "create_empty_block ext0 2 1002 1 (Some (b_hash (lt_block lt)))" n4] n4 by (auto simp: sat_add_def)
  moreover have "sat_add (n_current_batch inner0) 1 = 1" by (simp add: counters sat_add_def)
  ultimately show ?thesis
    using r n4(1) assms(6) by (simp add: commit_tx_def Let_def new_block_def n3_def sat_add_def counters)
qed

lemma run0: "\<exists>nd'. run_l2_tx ext0 tx0 VerifyExecute node0 = (Ok (), nd')"
proof -
  obtain lt fo where raw: "run_l2_tx_raw ext0 tx0 VerifyExecute True (notified ext0 tx0 inner0) = (Ok lt, fo)"
      "vm_exec (lt_result lt) = Success []" "vm_events (lt_result lt) = []" "vm_gas_refunded (lt_result lt) = 0"
      "lt_traces lt = []" "lt_ctx lt = \<lparr>bc_batch = 1, bc_miniblock = 1, bc_timestamp = 1001\<rparr>"
      "b_number (lt_block lt) = 1" "b_timestamp (lt_block lt) = ucast (1001 :: u64)"
      "b_l1_batch_number (lt_block lt) = Some (ucast (1 :: u32))"
    using raw0 by blast
  obtain n' where c: "commit_tx ext0 tx0 lt ((notified ext0 tx0 inner0)\<lparr>n_fork_storage := fo\<rparr>) = Some n'"
    using commit0 [OF raw] by blast
  show ?thesis
    using run_l2_tx_unfold [OF validate_tx0, of ext0 VerifyExecute] raw(1,2) c by (simp add: write_inner_def of_option_def)
qed

lemma tx_produces_two_blocks_witness:
  "\<exists>nd'. run_l2_tx ext0 tx0 VerifyExecute node0 = (Ok (), nd') \<and> chain_inv (nd_inner nd') \<and>
     map_of (n_tx_results (nd_inner nd')) 500 \<noteq> None"
proof -
  obtain nd' where r: "run_l2_tx ext0 tx0 VerifyExecute node0 = (Ok (), nd')" using run0 by blast
  have "x_tx_hash ext0 tx0 = 500" by (simp add: ext0_def tx0_def witness_l2_tx_def)
  then show ?thesis using tx_produces_two_blocks [OF r] inner0_chain r by auto
qed

text \<open>C33: what is archived for the block before a transaction. While the archive is not full, the
  state stored under the hash of the block that was current before the transaction already
  contains the values that the transaction wrote: it is the local storage after it.\<close>

theorem archived_state_is_the_new_one:
  assumes "run_l2_tx E tx mode nd = (Ok u, nd')" and "length (n_previous_states (nd_inner nd)) < 128"
  shows "map_of (n_previous_states (nd_inner nd')) (n_current_miniblock_hash (nd_inner nd)) =
    Some (im_state (fo_raw (n_fork_storage (nd_inner nd'))))"
  using run_l2_tx_effects [OF assms(1)] assms(2) by blast

lemma archived_state_is_the_new_one_witness:
  "\<exists>nd'. run_l2_tx ext0 tx0 VerifyExecute node0 = (Ok (), nd') \<and>
     map_of (n_previous_states (nd_inner nd')) 1040 = Some (im_state (fo_raw (n_fork_storage (nd_inner nd'))))"
proof -
  obtain nd' where r: "run_l2_tx ext0 tx0 VerifyExecute node0 = (Ok (), nd')" using run0 by blast
  have "n_previous_states inner0 = []" "n_current_miniblock_hash inner0 = 1040" by (simp_all add: inner0_def)
  then show ?thesis using archived_state_is_the_new_one [OF r] r by simp
qed








text \<open>C14: the clock of the node and the clock of its storage. When the batch environment computed
  from storage is not exactly one second after the node's clock (which is the case when the
  node's clock was set behind the last block in storage), no transaction succeeds; one that
  the virtual machine completes without a halt makes the commit panic, and with the poisoned
  lock no later transaction succeeds or changes anything.\<close>

theorem clock_behind_storage:
  assumes "create_l1_batch_env E (nd_inner nd) fo_ops (storage_view_new (n_fork_storage (nd_inner nd))) = Some ((env, ctx), sv)"
    and "be_timestamp env \<noteq> sat_add (n_current_timestamp (nd_inner nd)) 1"
    and "run_l2_tx E tx mode nd = (r, nd')"
  shows "(\<forall>u. r \<noteq> Ok u) \<and>
    (\<forall>lt fo. validate_tx tx nd = Ok () \<longrightarrow>
       run_l2_tx_raw E tx mode True (notified E tx (nd_inner nd)) = (Ok lt, fo) \<longrightarrow>
       (\<forall>h. vm_exec (lt_result lt) \<noteq> Halt h) \<longrightarrow> r = Panic \<and> nd_inner_poisoned nd') \<and>
    (nd_inner_poisoned nd' \<longrightarrow> (\<forall>tx2 mode2. \<exists>r2. run_l2_tx E tx2 mode2 nd' = (r2, nd') \<and> (\<forall>u. r2 \<noteq> Ok u)))"
proof -
  have no: "r \<noteq> Ok u" for u
  proof
    assume "r = Ok u"
    then obtain lt fo b2 where raw: "run_l2_tx_raw E tx mode True (notified E tx (nd_inner nd)) = (Ok lt, fo)"
        and two: "two_blocks E tx (lt_block lt) b2 (nd_inner nd) (nd_inner nd')"
      using run_l2_tx_effects assms(3) by blast
    have "b_timestamp (lt_block lt) = ucast (be_timestamp env)"
      using run_l2_tx_raw_Ok [OF raw] assms(1) by auto
    then have "(ucast (be_timestamp env) :: u256) = ucast (sat_add (n_current_timestamp (nd_inner nd)) 1)"
      using two by (simp add: two_blocks_def)
    then show False using assms(2) by (metis ucast_u64_u256)
  qed
  moreover have "r = Panic \<and> nd_inner_poisoned nd'"
    if v: "validate_tx tx nd = Ok ()"
      and raw: "run_l2_tx_raw E tx mode True (notified E tx (nd_inner nd)) = (Ok lt, fo)"
      and h: "\<forall>h. vm_exec (lt_result lt) \<noteq> Halt h" for lt fo
    using run_l2_tx_unfold [OF v, of E mode] validate_tx_Ok [OF v] raw h assms(3) no
    by (cases "vm_exec (lt_result lt)") (auto simp: Let_def write_inner_def of_option_def split: option.splits)
  moreover have "\<exists>r2. run_l2_tx E tx2 mode2 nd' = (r2, nd') \<and> (\<forall>u. r2 \<noteq> Ok u)" if "nd_inner_poisoned nd'" for tx2 mode2
    using validate_tx_Ok [of tx2 nd'] that by (cases "validate_tx tx2 nd'") (auto simp: run_l2_tx_def)
  ultimately show ?thesis by blast
qed

text \<open>The witness: the last block in storage is 4000 seconds ahead of the node.\<close>

definition ext_ahead :: ext where
  "ext_ahead = ext0\<lparr>x_load_last_l2_block := Return (Some \<lparr>lb_number = 0, lb_hash = 1, lb_timestamp = 5000\<rparr>)\<rparr>"

lemma env_ahead:
  "\<exists>env ctx sv. create_l1_batch_env ext_ahead inner0 fo_ops (storage_view_new (n_fork_storage inner0)) = Some ((env, ctx), sv) \<and>
     be_timestamp env = 5001"
proof -
  have "run fo_ops (load_last_l1_batch ext_ahead) (storage_view_new (n_fork_storage inner0)) =
      Some (None, (storage_view_new (n_fork_storage inner0))\<lparr>sv_read := [StorageKey 11 0 \<mapsto> 0]\<rparr>)"
    by (simp add: load_last_l1_batch_def ext_ahead_def ext0_def get_value_no_log_def storage_view_new_def fo_ops_def
        unwrapped_def read_value_internal_def im_read_value_def inner0_def)
  then show ?thesis
    by (simp add: create_l1_batch_env_def Let_def)
       (simp add: ext_ahead_def ext0_def inner0_def NON_FORK_FIRST_BLOCK_TIMESTAMP_def new_batch_def from_current_def
         storage_view_new_def sat_add_def)
qed

lemma clock_behind_storage_witness:
  "\<exists>r nd'. run_l2_tx ext_ahead tx0 VerifyExecute node0 = (r, nd') \<and> r \<noteq> Ok ()"
proof -
  obtain env ctx sv where e: "create_l1_batch_env ext_ahead (nd_inner node0) fo_ops (storage_view_new (n_fork_storage (nd_inner node0))) =
      Some ((env, ctx), sv)" "be_timestamp env = 5001"
    using env_ahead by auto
  have ne: "be_timestamp env \<noteq> sat_add (n_current_timestamp (nd_inner node0)) 1"
    by (simp add: e inner0_def NON_FORK_FIRST_BLOCK_TIMESTAMP_def sat_add_def)
  obtain r nd' where r: "run_l2_tx ext_ahead tx0 VerifyExecute node0 = (r, nd')"
    by (cases "run_l2_tx ext_ahead tx0 VerifyExecute node0")
  then show ?thesis using clock_behind_storage [OF e(1) ne r] by blast
qed

section \<open>Properties of sequences, calls and accounts\<close>

text \<open>C16: a list of transactions. When all of them are applied, the chain has grown by two blocks
  and one batch for each (up to the widths of the counters), every transaction has a
  recorded result, and the invariant of the chain holds.\<close>

theorem apply_txs_grows_chain:
  assumes "apply_txs E txs nd = (Ok u, nd')" and "caches_coherent (n_fork_storage (nd_inner nd))"
    and "chain_inv (nd_inner nd)"
  shows "unat (n_current_miniblock (nd_inner nd')) = min (unat (n_current_miniblock (nd_inner nd)) + 2 * length txs) (2 ^ 64 - 1) \<and>
    unat (n_current_batch (nd_inner nd')) = min (unat (n_current_batch (nd_inner nd)) + length txs) (2 ^ 32 - 1) \<and>
    fst ` set (n_tx_results (nd_inner nd')) = fst ` set (n_tx_results (nd_inner nd)) \<union> x_tx_hash E ` set txs \<and>
    chain_inv (nd_inner nd') \<and> caches_coherent (n_fork_storage (nd_inner nd'))"
  using assms
proof (induction txs arbitrary: nd)
  case Nil
  then show ?case using unat_bound64 [of "n_current_miniblock (nd_inner nd')"] unat_bound32 [of "n_current_batch (nd_inner nd')"]
    by auto
next
  case (Cons tx txs)
  obtain u1 nd1 where r: "run_l2_tx E tx VerifyExecute nd = (Ok u1, nd1)" and rest: "apply_txs E txs nd1 = (Ok u, nd')"
    using Cons.prems(1) by (auto split: prod.splits res.splits)
  obtain lt fo b2 tr where e: "run_l2_tx_raw E tx VerifyExecute True (notified E tx (nd_inner nd)) = (Ok lt, fo)"
      "two_blocks E tx (lt_block lt) b2 (nd_inner nd) (nd_inner nd1)"
      "n_tx_results (nd_inner nd1) = al_insert (x_tx_hash E tx) tr (n_tx_results (nd_inner nd))"
      "n_fork_storage (nd_inner nd1) = store_bytecodes E (lt_bytecodes lt) (store_keys (lt_keys lt) fo)"
    using run_l2_tx_effects [OF r] by blast
  have co: "caches_coherent (n_fork_storage (nd_inner nd1))"
    using run_l2_tx_raw_storage [of "notified E tx (nd_inner nd)" E tx VerifyExecute True] Cons.prems(2) e(1,4) by simp
  have "fst ` set (n_tx_results (nd_inner nd1)) = insert (x_tx_hash E tx) (fst ` set (n_tx_results (nd_inner nd)))"
    unfolding e(3) by (metis dom_fun_upd dom_map_of_conv_image_fst map_of_al_insert option.distinct(1))
  moreover have "unat (n_current_miniblock (nd_inner nd1)) = min (unat (n_current_miniblock (nd_inner nd)) + 2) (2 ^ 64 - 1)"
      "unat (n_current_batch (nd_inner nd1)) = min (unat (n_current_batch (nd_inner nd)) + 1) (2 ^ 32 - 1)"
    using e(2) by (auto simp: two_blocks_def unat_sat_add)
  moreover have "min (min a m + k) m = min (a + k) m" for a m k :: nat by (simp add: min_def)
  ultimately show ?case
    using Cons.IH [OF rest co two_blocks_chain [OF Cons.prems(3) e(2)]] by simp
qed

lemma apply_txs_grows_chain_witness:
  "\<exists>nd'. apply_txs ext0 [tx0] node0 = (Ok (), nd') \<and> unat (n_current_miniblock (nd_inner nd')) = 2"
proof -
  obtain nd' where "run_l2_tx ext0 tx0 VerifyExecute node0 = (Ok (), nd')" using run0 by blast
  then have a: "apply_txs ext0 [tx0] node0 = (Ok (), nd')" by simp
  have "n_current_miniblock inner0 = 0" by (simp add: inner0_def)
  then show ?thesis using apply_txs_grows_chain [OF a] inner0_chain a by simp
qed

text \<open>C19: a read-only call. With coherent caches it leaves the node as it was except for what the
  caches of the fork storage have learnt; the local storage and the contents are the same.
  Only a panic poisons the lock, and a poisoned lock is reported.\<close>

theorem call_is_read_only:
  assumes "caches_coherent (n_fork_storage (nd_inner nd))"
  shows "case run_l2_call E tx nd of
      (Ok r, nd') \<Rightarrow> \<exists>fo. nd' = nd\<lparr>nd_inner := (nd_inner nd)\<lparr>n_fork_storage := fo\<rparr>\<rparr> \<and>
        same_contents (n_fork_storage (nd_inner nd)) fo
    | (Err e, nd') \<Rightarrow> nd' = nd \<and> nd_inner_poisoned nd \<and> e = write_lock_failed
    | (Panic, nd') \<Rightarrow> nd' = nd\<lparr>nd_inner_poisoned := True\<rparr>"
proof (cases "nd_inner_poisoned nd")
  case False
  let ?fo = "n_fork_storage (nd_inner nd)"
  have "\<exists>fo. n' = (nd_inner nd)\<lparr>n_fork_storage := fo\<rparr> \<and> same_contents ?fo fo"
    if c: "call_inner E tx (nd_inner nd) = (Ok r, n')" for r n'
  proof -
    obtain x sv1 sv2 p and out :: run_out where e: "create_l1_batch_env E (nd_inner nd) fo_ops (storage_view_new ?fo) = Some (x, sv1)"
        and r: "run fo_ops p sv1 = Some (out, sv2)" and n': "n' = (nd_inner nd)\<lparr>n_fork_storage := sv_storage_handle sv2\<rparr>"
      using c by (auto simp: call_inner_def Let_def split: option.splits prod.splits if_splits)
    show ?thesis using good_view_run [OF good_view_env [OF good_view_new [OF assms] e] r] good_view_handle n' by (fastforce simp: same_contents_def same_local_def)
  qed
  note answers = this
  have no_err: "fst (call_inner E tx (nd_inner nd)) \<noteq> Err e" for e
    by (auto simp: call_inner_def Let_def split: option.split prod.split)
  obtain r n' where c: "call_inner E tx (nd_inner nd) = (r, n')" by (cases "call_inner E tx (nd_inner nd)")
  show ?thesis
    using False answers no_err c by (cases r) (auto simp: run_l2_call_def write_inner_def)
qed (simp add: run_l2_call_def)

lemma call_is_read_only_witness:
  "fst (run_l2_call ext0 tx0 node0) = Ok (Success []) \<and>
   nd_inner_poisoned (snd (run_l2_call ext0 tx0 node0)) = False"
proof -
  obtain env sv where e: "create_l1_batch_env ext0 inner0 fo_ops (storage_view_new (n_fork_storage inner0)) =
      Some ((env, \<lparr>bc_batch = 1, bc_miniblock = 1, bc_timestamp = 1001\<rparr>), sv)"
    using env0_notified by blast
  have "contracts_for_l2_call (n_system_contracts inner0) = Some contracts0"
    by (simp add: inner0_def contracts_for_l2_call_def)
  moreover obtain out where "\<And>env se tx. x_vm_run_tx ext0 env se tx = Return out" "vm_exec (ro_result out) = Success []"
    by (simp add: ext0_def)
  ultimately have "fst (call_inner ext0 tx0 inner0) = Ok (Success [])"
    using e by (simp add: call_inner_def Let_def)
  then have r: "fst (run_l2_call ext0 tx0 node0) = Ok (Success [])"
    using write_inner_result [of node0 "Err write_lock_failed" "call_inner ext0 tx0"] by (simp add: run_l2_call_def)
  then show ?thesis
    using call_is_read_only [of node0 ext0 tx0] by (auto split: prod.splits res.splits)
qed

lemma rich_inner_effect:
  assumes "caches_coherent (n_fork_storage n)" and "rich_inner E a n = (Ok u, n')"
  shows "\<exists>fo. n' = n\<lparr>n_fork_storage := fo, n_rich_accounts := insert_rich a (n_rich_accounts n)\<rparr> \<and>
    im_state (fo_raw fo) = (im_state (fo_raw (n_fork_storage n)))(x_eth_balance_key E a \<mapsto> rich_balance) \<and>
    im_factory_deps (fo_raw fo) = im_factory_deps (fo_raw (n_fork_storage n)) \<and>
    fo_fork fo = fo_fork (n_fork_storage n) \<and> fo_chain_id fo = fo_chain_id (n_fork_storage n) \<and> caches_coherent fo"
proof -
  obtain v sv where g: "get_value_no_log fo_ops (x_eth_balance_key E a) (storage_view_new (n_fork_storage n)) = Some (v, sv)"
      and n': "n' = n\<lparr>n_fork_storage := store_keys ((sv_modified sv)(x_eth_balance_key E a \<mapsto> rich_balance)) (sv_storage_handle sv),
        n_rich_accounts := insert_rich a (n_rich_accounts n)\<rparr>"
    using assms(2) by (auto simp: rich_inner_def sv_set_value_def split: option.splits)
  have "good_view (n_fork_storage n) sv"
    using good_view_run [OF good_view_new [OF assms(1)], of "ReadValue (x_eth_balance_key E a) Return"] g by simp
  then have h: "caches_coherent (sv_storage_handle sv)" "same_local (n_fork_storage n) (sv_storage_handle sv)"
    using good_view_handle by blast+
  moreover have "sv_modified sv = Map.empty"
    using g by (auto simp: get_value_no_log_def storage_view_new_def split: option.splits)
  ultimately show ?thesis
    unfolding n' by (intro exI [of _ "store_keys ((sv_modified sv)(x_eth_balance_key E a \<mapsto> rich_balance)) (sv_storage_handle sv)"])
      (simp add: same_local_def store_keys_def caches_coherent_def)
qed

text \<open>What seeding a list of accounts does to the inner state.\<close>

lemma set_rich_accounts_effect:
  assumes "caches_coherent (n_fork_storage (nd_inner nd))" and "set_rich_accounts E as nd = (Ok u, nd')"
    and "\<not> nd_inner_poisoned nd"
  shows "nd_inner_poisoned nd' = False \<and> nd_snapshots nd' = nd_snapshots nd \<and>
    (\<exists>fo rich. nd_inner nd' = (nd_inner nd)\<lparr>n_fork_storage := fo, n_rich_accounts := rich\<rparr> \<and>
       set rich = set (n_rich_accounts (nd_inner nd)) \<union> set as \<and>
       im_state (fo_raw fo) = im_state (fo_raw (n_fork_storage (nd_inner nd))) ++
         (\<lambda>k. if k \<in> x_eth_balance_key E ` set as then Some rich_balance else None) \<and>
       im_factory_deps (fo_raw fo) = im_factory_deps (fo_raw (n_fork_storage (nd_inner nd))) \<and>
       fo_fork fo = fo_fork (n_fork_storage (nd_inner nd)) \<and> caches_coherent fo)"
  using assms
proof (induction as arbitrary: nd)
  case Nil
  then show ?case
    by (intro conjI exI [of _ "n_fork_storage (nd_inner nd)"] exI [of _ "n_rich_accounts (nd_inner nd)"])
       (auto simp: map_add_def)
next
  case (Cons a as)
  obtain u1 nd1 where 1: "set_rich_account E a nd = (Ok u1, nd1)" and rest: "set_rich_accounts E as nd1 = (Ok u, nd')"
    using Cons.prems(2) by (auto split: prod.splits res.splits)
  obtain n1 where r: "rich_inner E a (nd_inner nd) = (Ok u1, n1)" and nd1: "nd1 = nd\<lparr>nd_inner := n1\<rparr>"
    using 1 Cons.prems(3) by (auto simp: set_rich_account_def write_inner_def split: prod.splits res.splits)
  obtain fo where fo: "n1 = (nd_inner nd)\<lparr>n_fork_storage := fo, n_rich_accounts := insert_rich a (n_rich_accounts (nd_inner nd))\<rparr>"
      "im_state (fo_raw fo) = (im_state (fo_raw (n_fork_storage (nd_inner nd))))(x_eth_balance_key E a \<mapsto> rich_balance)"
      "im_factory_deps (fo_raw fo) = im_factory_deps (fo_raw (n_fork_storage (nd_inner nd)))"
      "fo_fork fo = fo_fork (n_fork_storage (nd_inner nd))" "caches_coherent fo"
    using rich_inner_effect [OF Cons.prems(1) r] by blast
  have co: "caches_coherent (n_fork_storage n1)" using fo by simp
  obtain fo' rich where e: "nd_inner nd' = (nd_inner nd1)\<lparr>n_fork_storage := fo', n_rich_accounts := rich\<rparr>"
      "set rich = set (n_rich_accounts (nd_inner nd1)) \<union> set as" "nd_inner_poisoned nd' = False" "nd_snapshots nd' = nd_snapshots nd1"
      "im_state (fo_raw fo') = im_state (fo_raw (n_fork_storage (nd_inner nd1))) ++
         (\<lambda>k. if k \<in> x_eth_balance_key E ` set as then Some rich_balance else None)"
      "im_factory_deps (fo_raw fo') = im_factory_deps (fo_raw (n_fork_storage (nd_inner nd1)))"
      "fo_fork fo' = fo_fork (n_fork_storage (nd_inner nd1))" "caches_coherent fo'"
    using Cons.IH [OF _ rest] co Cons.prems(3) by (simp add: nd1) blast
  have "im_state (fo_raw fo') = im_state (fo_raw (n_fork_storage (nd_inner nd))) ++
         (\<lambda>k. if k \<in> x_eth_balance_key E ` set (a # as) then Some rich_balance else None)"
    using e(5) fo nd1 by (auto simp: map_add_def fun_eq_iff split: option.split)
  then show ?case
    using e fo nd1 by (intro conjI exI [of _ fo'] exI [of _ rich]) (auto simp: insert_rich_def split: if_splits)
qed

text \<open>Resetting a node. A reset that succeeds leaves the state of a freshly built node with the
  node's own configuration and gas values, over which the balance of every one of the twenty
  rich wallets is set; exactly they are recorded as rich, and no snapshot is left.\<close>

theorem reset_seeds_fresh_node:
  assumes "reset E fork nd = (Ok u, nd')"
  shows "\<exists>n fo rich. inner_new E fork (n_observability (nd_inner nd)) (n_config (nd_inner nd))
        (Some (gas_values (n_fee_input_provider (nd_inner nd)))) = Some n \<and>
    nd_inner nd' = n\<lparr>n_fork_storage := fo, n_rich_accounts := rich\<rparr> \<and>
    set rich = set LEGACY_RICH_WALLETS \<union> set RICH_WALLETS \<and>
    nd_snapshots nd' = [] \<and> \<not> nd_inner_poisoned nd' \<and> fo_fork fo = fork \<and>
    (\<forall>a \<in> set rich. fst (read_value_internal (x_eth_balance_key E a) fo) = Ok rich_balance) \<and>
    (\<forall>k. k \<notin> x_eth_balance_key E ` set rich \<longrightarrow> im_state (fo_raw fo) k = im_state (fo_raw (n_fork_storage n)) k)"
proof -
  obtain n where n: "inner_new E fork (n_observability (nd_inner nd)) (n_config (nd_inner nd))
        (Some (gas_values (n_fee_input_provider (nd_inner nd)))) = Some n"
      and p: "\<not> nd_inner_poisoned nd"
      and s: "set_rich_accounts E (LEGACY_RICH_WALLETS @ RICH_WALLETS) (nd\<lparr>nd_snapshots := [], nd_inner := n\<rparr>) = (Ok u, nd')"
    using assms by (auto simp: reset_def Let_def split: if_splits option.splits prod.splits res.splits)
  have new: "caches_coherent (n_fork_storage n)" "fo_fork (n_fork_storage n) = fork" "n_rich_accounts n = []"
    using n by (auto simp: inner_new_def Let_def bind_eq_Some_conv fork_storage_new_def caches_coherent_def split: option.splits)
  obtain fo rich where e: "nd_inner nd' = n\<lparr>n_fork_storage := fo, n_rich_accounts := rich\<rparr>" "nd_snapshots nd' = []"
      "nd_inner_poisoned nd' = False" "set rich = set (LEGACY_RICH_WALLETS @ RICH_WALLETS)"
      "im_state (fo_raw fo) = im_state (fo_raw (n_fork_storage n)) ++
         (\<lambda>k. if k \<in> x_eth_balance_key E ` set (LEGACY_RICH_WALLETS @ RICH_WALLETS) then Some rich_balance else None)"
      "fo_fork fo = fork" "caches_coherent fo"
    using set_rich_accounts_effect [OF _ s] new p by simp blast
  have "fst (read_value_internal (x_eth_balance_key E a) fo) = Ok rich_balance" if "a \<in> set rich" for a
  proof -
    have "im_read_value (fo_raw fo) (x_eth_balance_key E a) = rich_balance"
      using that e(4,5) by (simp add: im_read_value_def map_add_def)
    moreover have "rich_balance \<noteq> 0" by (simp add: rich_balance_def)
    ultimately show ?thesis by (simp add: read_value_internal_def Let_def split: option.split)
  qed
  then show ?thesis
    using n e by (intro exI [of _ n] exI [of _ fo] exI [of _ rich]) (auto simp: map_add_def)
qed

lemma set_rich_accounts_no_fork:
  assumes "fo_fork (n_fork_storage (nd_inner nd)) = None" and "caches_coherent (n_fork_storage (nd_inner nd))"
    and "\<not> nd_inner_poisoned nd"
  shows "\<exists>nd'. set_rich_accounts E as nd = (Ok (), nd')"
  using assms
proof (induction as arbitrary: nd)
  case (Cons a as)
  have "\<exists>v sv. get_value_no_log fo_ops (x_eth_balance_key E a) (storage_view_new (n_fork_storage (nd_inner nd))) = Some (v, sv)"
    using Cons.prems(1)
    by (simp add: get_value_no_log_def storage_view_new_def fo_ops_def unwrapped_def read_value_internal_def)
  then obtain n where r: "rich_inner E a (nd_inner nd) = (Ok (), n)"
    by (auto simp: rich_inner_def sv_set_value_def)
  have f: "fo_fork (n_fork_storage n) = None" "caches_coherent (n_fork_storage n)"
    using rich_inner_effect [OF Cons.prems(2) r] Cons.prems(1) by auto
  show ?case
    using Cons.IH [of "nd\<lparr>nd_inner := n\<rparr>"] f r Cons.prems(3) by (simp add: set_rich_account_def write_inner_def)
qed simp

lemma embedded0:
  "bytecode_from_slice ext0 name bs = Some []" "x_hash_bytecode ext0 bs = Some (of_nat (length bs))"
  by (simp_all add: bytecode_from_slice_def strip_prefix_def ext0_def)

lemma bsc0: "bsc_load_with_bootloader ext0 bs BuiltIn = Some \<lparr>bootloader =
    \<lparr>cc_code = x_bytes_to_be_words ext0 bs, cc_hash = of_nat (length bs)\<rparr>,
    default_aa = \<lparr>cc_code = x_bytes_to_be_words ext0 [], cc_hash = 0\<rparr>\<rparr>"
  by (simp add: bsc_load_with_bootloader_def embedded0)

lemma from_options0: "\<exists>sc. from_options ext0 BuiltIn = Some sc"
  by (simp add: from_options_def baseline_contracts_def playground_def fee_estimate_contracts_def
        baseline_impersonating_contracts_def fee_estimate_impersonating_contracts_def bsc0)

lemma fork_storage_new0: "\<exists>fo. fork_storage_new ext0 None BuiltIn = Some fo"
proof -
  have "\<exists>cs. get_deployed_contracts ext0 BuiltIn = Some cs"
    by (simp add: get_deployed_contracts_def compiled_in_system_contracts_def embedded0(1) json_contracts_def Let_def)
  moreover have "\<exists>ys. those (map (\<lambda>(a, code). map_option (\<lambda>h. (a, h, code)) (x_hash_bytecode ext0 code)) cs) = Some ys" for cs
    by (induction cs) (auto simp: embedded0(2))
  ultimately show ?thesis
    by (auto simp: fork_storage_new_def with_system_contracts_and_chain_id_def Let_def bind_eq_Some_conv)
qed

lemma inner_new0: "\<exists>n. inner_new ext0 None obs default_node_config gas = Some n"
  using from_options0 fork_storage_new0
  by (auto simp: inner_new_def default_node_config_def default_contracts_option_def Let_def)

lemma reset_seeds_fresh_node_witness:
  "\<exists>nd'. reset ext0 None node0 = (Ok (), nd') \<and>
     fst (read_value_internal (x_eth_balance_key ext0 0x36615cf349d7f6344891b1e7ca7c72883f5dc049)
       (n_fork_storage (nd_inner nd'))) = Ok rich_balance"
proof -
  have c: "n_config inner0 = default_node_config" "n_observability inner0 = None" by (simp_all add: inner0_def)
  obtain n where n: "inner_new ext0 None None default_node_config (Some (gas_values (n_fee_input_provider inner0))) = Some n"
    using inner_new0 by blast
  have "fo_fork (n_fork_storage n) = None" "caches_coherent (n_fork_storage n)"
    using n by (auto simp: inner_new_def Let_def bind_eq_Some_conv fork_storage_new_def caches_coherent_def)
  then obtain nd' where "set_rich_accounts ext0 (LEGACY_RICH_WALLETS @ RICH_WALLETS)
      (node0\<lparr>nd_snapshots := [], nd_inner := n\<rparr>) = (Ok (), nd')"
    using set_rich_accounts_no_fork [of "node0\<lparr>nd_snapshots := [], nd_inner := n\<rparr>" ext0] by auto
  then have r: "reset ext0 None node0 = (Ok (), nd')" using n c by (simp add: reset_def)
  have "0x36615cf349d7f6344891b1e7ca7c72883f5dc049 \<in> set LEGACY_RICH_WALLETS" by (simp add: LEGACY_RICH_WALLETS_def)
  then show ?thesis using reset_seeds_fresh_node [OF r] r by fastforce
qed

text \<open>A bytecode override. After it the code hash of the address reads as the hash of the
  bytecode (unless the hash is zero on a fork) and the hash loads the bytecode; nothing else in
  local storage changes.\<close>

theorem override_bytecode_effect:
  assumes "override_bytecode E a code nd = (Ok u, nd')"
  shows "\<exists>h. x_hash_bytecode E code = Some h \<and>
    (let fo = n_fork_storage (nd_inner nd); fo' = n_fork_storage (nd_inner nd') in
     nd' = nd\<lparr>nd_inner := (nd_inner nd)\<lparr>n_fork_storage := fo'\<rparr>\<rparr> \<and>
     (h \<noteq> 0 \<or> fo_fork fo = None \<longrightarrow> fst (read_value_internal (x_code_key E a) fo') = Ok h) \<and>
     fst (load_factory_dep_internal h fo') = Ok (Some code) \<and>
     (\<forall>k. k \<noteq> x_code_key E a \<longrightarrow> im_state (fo_raw fo') k = im_state (fo_raw fo) k) \<and>
     (\<forall>h'. h' \<noteq> h \<longrightarrow> im_factory_deps (fo_raw fo') h' = im_factory_deps (fo_raw fo) h'))"
proof -
  obtain h where h: "x_hash_bytecode E code = Some h"
      "nd' = nd\<lparr>nd_inner := (nd_inner nd)\<lparr>n_fork_storage := fo_set_value (x_code_key E a) h
                       (fo_store_factory_dep h code (n_fork_storage (nd_inner nd)))\<rparr>\<rparr>"
    using assms by (auto simp: override_bytecode_def write_inner_def split: if_splits option.splits prod.splits res.splits)
  then show ?thesis
    by (auto simp: Let_def fo_set_value_def fo_store_factory_dep_def im_set_value_def im_store_factory_dep_def
        read_value_internal_def load_factory_dep_internal_def im_read_value_def im_load_factory_dep_def
        split: option.split)
qed

lemma override_bytecode_effect_witness:
  "\<exists>nd'. override_bytecode ext0 7 [1, 2, 3] node0 = (Ok (), nd') \<and>
     fst (load_factory_dep_internal 3 (n_fork_storage (nd_inner nd'))) = Ok (Some [1, 2, 3])"
proof -
  have h: "x_hash_bytecode ext0 [1, 2, 3] = Some 3" by (simp add: ext0_def)
  then obtain nd' where o: "override_bytecode ext0 7 [1, 2, 3] node0 = (Ok (), nd')"
    by (simp add: override_bytecode_def write_inner_def)
  then show ?thesis using override_bytecode_effect [OF o] h by (simp add: Let_def)
qed

end
