(* ===== verification/Mining.thy ===== *)
theory Mining
  imports Node_Tx
begin

text \<open>
  Mining of empty blocks (\<open>mine_empty_blocks\<close> in \<open>src/utils.rs\<close>): one run of the
  bootloader for each block, whose modified keys are written back. The loop counts up from 0;
  its model counts the remaining blocks down and carries whether the block is the first.
\<close>

section \<open>The loop\<close>

text \<open>One round; \<open>None\<close> is a panic, which happens while the caller holds the write lock.\<close>

definition mine_block_ctx :: "bool \<Rightarrow> u64 \<Rightarrow> inner \<Rightarrow> block_context \<Rightarrow> block_context" where
  "mine_block_ctx first interval_sec n block_ctx =
     (if first then block_ctx
      else block_ctx\<lparr>bc_timestamp := sat_add (n_current_timestamp n) interval_sec\<rparr>)"

definition insert_mined :: "ext \<Rightarrow> block_context \<Rightarrow> state_map \<Rightarrow> inner \<Rightarrow> inner" where
  "insert_mined E block_ctx keys n =
     (let block = create_empty_block E (bc_miniblock block_ctx) (bc_timestamp block_ctx) (bc_batch block_ctx) None
      in n\<lparr>n_fork_storage := store_keys keys (n_fork_storage n),
           n_block_hashes := (n_block_hashes n)(b_number block \<mapsto> b_hash block),
           n_blocks := (n_blocks n)(b_hash block \<mapsto> block),
           n_current_batch := bc_batch block_ctx,
           n_current_miniblock := bc_miniblock block_ctx,
           n_current_timestamp := bc_timestamp block_ctx\<rparr>)"

definition mine_one :: "ext \<Rightarrow> bool \<Rightarrow> u64 \<Rightarrow> inner \<Rightarrow> inner option" where
  "mine_one E first interval_sec n =
     Option.bind (contracts_for_l2_call (n_system_contracts n)) (\<lambda>base.
     Option.bind (create_l1_batch_env E n fo_ops (storage_view_new (n_fork_storage n))) (\<lambda>((env, ctx), sv1).
     Option.bind (run fo_ops (x_vm_bootloader E env (create_system_env E n base VerifyExecute)) sv1) (\<lambda>(_, sv2).
       Some (insert_mined E (mine_block_ctx first interval_sec n ctx) (sv_modified sv2)
               (n\<lparr>n_fork_storage := sv_storage_handle sv2\<rparr>)))))"

primrec mine_rest :: "ext \<Rightarrow> u64 \<Rightarrow> nat \<Rightarrow> inner \<Rightarrow> inner option" where
  "mine_rest E interval_sec 0 n = Some n"
| "mine_rest E interval_sec (Suc k) n =
     Option.bind (mine_one E False interval_sec n) (mine_rest E interval_sec k)"

definition mine_empty_blocks :: "ext \<Rightarrow> u64 \<Rightarrow> u64 \<Rightarrow> inner \<Rightarrow> inner option" where
  "mine_empty_blocks E num_blocks interval_sec n =
     (case unat num_blocks of
        0 \<Rightarrow> Some n
      | Suc k \<Rightarrow> Option.bind (mine_one E True interval_sec n) (mine_rest E interval_sec k))"

section \<open>Lemmas\<close>

text \<open>What mining leaves alone: the tip hash, the archive, the filters, the results.\<close>

definition mined_frame :: "inner \<Rightarrow> inner \<Rightarrow> bool" where
  "mined_frame n n' \<longleftrightarrow>
     n_current_miniblock_hash n' = n_current_miniblock_hash n \<and> n_filters n' = n_filters n \<and>
     n_tx_results n' = n_tx_results n \<and> n_previous_states n' = n_previous_states n \<and>
     n_fee_input_provider n' = n_fee_input_provider n \<and> n_config n' = n_config n \<and>
     n_system_contracts n' = n_system_contracts n \<and> n_rich_accounts n' = n_rich_accounts n \<and>
     n_impersonated_accounts n' = n_impersonated_accounts n \<and> n_observability n' = n_observability n"

lemma mined_frame_refl [simp]: "mined_frame n n"
  by (simp add: mined_frame_def)

lemma mined_frame_trans: "mined_frame a b \<Longrightarrow> mined_frame b c \<Longrightarrow> mined_frame a c"
  by (simp add: mined_frame_def)

text \<open>The round seen from outside: a batch environment and an overlay of modified keys.\<close>

lemma mine_one_Some:
  assumes "mine_one E first iv n = Some n'"
  shows "\<exists>env ctx sv keys fo. create_l1_batch_env E n fo_ops (storage_view_new (n_fork_storage n)) = Some ((env, ctx), sv) \<and>
    n' = insert_mined E (mine_block_ctx first iv n ctx) keys (n\<lparr>n_fork_storage := fo\<rparr>) \<and>
    (caches_coherent (n_fork_storage n) \<longrightarrow> caches_coherent fo \<and> same_local (n_fork_storage n) fo)"
proof -
  obtain base env ctx sv1 u sv2 where 1:
      "create_l1_batch_env E n fo_ops (storage_view_new (n_fork_storage n)) = Some ((env, ctx), sv1)"
      "run fo_ops (x_vm_bootloader E env (create_system_env E n base VerifyExecute)) sv1 = Some (u, sv2)"
      "n' = insert_mined E (mine_block_ctx first iv n ctx) (sv_modified sv2) (n\<lparr>n_fork_storage := sv_storage_handle sv2\<rparr>)"
    using assms by (auto simp: mine_one_def bind_eq_Some_conv)
  have "caches_coherent (sv_storage_handle sv2) \<and> same_local (n_fork_storage n) (sv_storage_handle sv2)"
    if "caches_coherent (n_fork_storage n)"
    using good_view_handle [OF good_view_run [OF good_view_env [OF good_view_new [OF that] 1(1)] 1(2)]] .
  then show ?thesis using 1 by blast
qed

lemma insert_mined_frame: "mined_frame n (insert_mined E ctx keys (n\<lparr>n_fork_storage := fo\<rparr>))"
  by (auto simp: insert_mined_def mined_frame_def Let_def)

text \<open>One round of mining, in terms of the node only.\<close>

definition mined_block :: "ext \<Rightarrow> block \<Rightarrow> inner \<Rightarrow> inner \<Rightarrow> bool" where
  "mined_block E b n n' \<longleftrightarrow> mined_frame n n' \<and> b_transactions b = [] \<and>
     n_blocks n' = (n_blocks n)(b_hash b \<mapsto> b) \<and> n_block_hashes n' = (n_block_hashes n)(b_number b \<mapsto> b_hash b) \<and>
     b_hash b = compute_hash E (b_number b) 0 \<and>
     b_parent_hash b = (if b_number b = 0 then 0 else compute_hash E (b_number b - 1) 0) \<and>
     n_current_miniblock n' = b_number b \<and> b_timestamp b = ucast (n_current_timestamp n')"

lemma mine_one_block: "mine_one E first iv n = Some n' \<Longrightarrow> \<exists>b. mined_block E b n n'"
proof -
  assume "mine_one E first iv n = Some n'"
  then obtain ctx keys fo where n': "n' = insert_mined E (mine_block_ctx first iv n ctx) keys (n\<lparr>n_fork_storage := fo\<rparr>)"
    using mine_one_Some by blast
  let ?c = "mine_block_ctx first iv n ctx"
  have "mined_block E (create_empty_block E (bc_miniblock ?c) (bc_timestamp ?c) (bc_batch ?c) None) n n'"
    using insert_mined_frame by (simp add: mined_block_def n') (simp add: insert_mined_def create_empty_block_def Let_def)
  then show ?thesis ..
qed

lemma mine_one_coherent:
  assumes "mine_one E first iv n = Some n'" and "caches_coherent (n_fork_storage n)"
  shows "caches_coherent (n_fork_storage n') \<and> fo_fork (n_fork_storage n') = fo_fork (n_fork_storage n)"
  using mine_one_Some [OF assms(1)] assms(2) by (auto simp: insert_mined_def Let_def same_local_def store_keys_def caches_coherent_def)

lemma mine_one_timestamp:
  "mine_one E False iv n = Some n' \<Longrightarrow> n_current_timestamp n' = sat_add (n_current_timestamp n) iv"
  using mine_one_Some by (fastforce simp: insert_mined_def mine_block_ctx_def Let_def)

lemma mine_one_first_timestamp:
  assumes "mine_one E True iv n = Some n'"
  shows "n_current_timestamp n \<le> n_current_timestamp n' \<and>
    (n_current_timestamp n' \<noteq> - 1 \<longrightarrow> n_current_timestamp n < n_current_timestamp n')"
proof -
  obtain env ctx sv where c: "create_l1_batch_env E n fo_ops (storage_view_new (n_fork_storage n)) = Some ((env, ctx), sv)"
      and ts: "n_current_timestamp n' = bc_timestamp ctx"
    using mine_one_Some [OF assms] by (auto simp: insert_mined_def mine_block_ctx_def Let_def)
  obtain t where t: "bc_timestamp ctx = sat_add t 1" "n_current_timestamp n \<le> t"
    using create_l1_batch_env_shape [OF c] by (metis max.cobounded2)
  show ?thesis
  proof (cases "t = - 1")
    case True
    then have "sat_add t 1 = - 1" by (simp add: sat_add_def unat_minus_1)
    then show ?thesis using ts t by simp
  next
    case False
    then have "n_current_timestamp n < sat_add t 1"
      using t(2) by (simp add: sat_add_one word_less_plus_one)
    then show ?thesis using ts t by simp
  qed
qed

text \<open>An invariant of one round is an invariant of the loop.\<close>

lemma mine_empty_blocks_induct:
  assumes "mine_empty_blocks E k iv n = Some n'" and "P n"
    and "\<And>first m m'. P m \<Longrightarrow> mine_one E first iv m = Some m' \<Longrightarrow> P m'"
  shows "P n'"
proof -
  have rest: "mine_rest E iv j m = Some m' \<Longrightarrow> P m \<Longrightarrow> P m'" for j m m'
    by (induction j arbitrary: m) (auto simp: bind_eq_Some_conv assms(3))
  show ?thesis
  proof (cases "unat k")
    case 0
    then show ?thesis using assms(1,2) by (simp add: mine_empty_blocks_def)
  next
    case (Suc j)
    then obtain m where "mine_one E True iv n = Some m" "mine_rest E iv j m = Some n'"
      using assms(1) by (auto simp: mine_empty_blocks_def bind_eq_Some_conv)
    then show ?thesis using assms(2,3) rest by blast
  qed
qed

lemma mine_rest_timestamp:
  "mine_rest E iv k n = Some n' \<Longrightarrow>
   unat (n_current_timestamp n') = min (unat (n_current_timestamp n) + k * unat iv) (2 ^ 64 - 1)"
proof (induction k arbitrary: n)
  case 0
  then show ?case using unat_bound64 [of "n_current_timestamp n'"] by simp
next
  case (Suc k)
  then obtain m where m: "mine_one E False iv n = Some m" "mine_rest E iv k m = Some n'"
    by (auto simp: bind_eq_Some_conv)
  define M :: nat where "M = 2 ^ 64 - 1"
  have "unat (n_current_timestamp m) = min (unat (n_current_timestamp n) + unat iv) M"
    using mine_one_timestamp [OF m(1)] by (simp add: unat_sat_add M_def)
  moreover have "unat (n_current_timestamp n') = min (unat (n_current_timestamp m) + k * unat iv) M"
    using Suc.IH [OF m(2)] by (simp only: M_def)
  moreover have "min (min a M + c) M = min (a + c) M" for a c :: nat by (simp add: min_def)
  ultimately have "unat (n_current_timestamp n') = min (unat (n_current_timestamp n) + unat iv + k * unat iv) M" by simp
  then show ?case by (simp only: M_def mult_Suc add.assoc)
qed

text \<open>The blocks that a stretch of mining stores.\<close>

definition stores_blocks :: "block list \<Rightarrow> inner \<Rightarrow> inner \<Rightarrow> bool" where
  "stores_blocks bs n n' \<longleftrightarrow>
     n_blocks n' = foldl (\<lambda>m b. m(b_hash b \<mapsto> b)) (n_blocks n) bs \<and>
     n_block_hashes n' = foldl (\<lambda>m b. m(b_number b \<mapsto> b_hash b)) (n_block_hashes n) bs \<and>
     (bs \<noteq> [] \<longrightarrow> n_current_miniblock n' = b_number (last bs) \<and> ucast (n_current_timestamp n') = b_timestamp (last bs)) \<and>
     (bs = [] \<longrightarrow> n_current_miniblock n' = n_current_miniblock n \<and> n_current_timestamp n' = n_current_timestamp n)"

lemma stores_blocks_Cons:
  "mined_block E b n m \<Longrightarrow> stores_blocks bs m n' \<Longrightarrow> stores_blocks (b # bs) n n'"
  by (cases bs) (auto simp: stores_blocks_def mined_block_def)

lemma unat_ucast_u64_u256: "unat (ucast (x :: u64) :: u256) = unat x"
  using unat_bound64 [of x] by (simp add: unsigned_ucast_eq take_bit_nat_eq_self)

lemma mine_rest_blocks:
  "mine_rest E iv k n = Some n' \<Longrightarrow>
   \<exists>bs. stores_blocks bs n n' \<and> length bs = k \<and>
     (\<forall>j < k. b_transactions (bs ! j) = [] \<and>
        unat (b_timestamp (bs ! j)) = min (unat (n_current_timestamp n) + Suc j * unat iv) (2 ^ 64 - 1))"
proof (induction k arbitrary: n)
  case 0
  then show ?case by (intro exI [of _ "[]"]) (simp add: stores_blocks_def)
next
  case (Suc k)
  then obtain m where m: "mine_one E False iv n = Some m" "mine_rest E iv k m = Some n'"
    by (auto simp: bind_eq_Some_conv)
  obtain bs where bs: "stores_blocks bs m n'" "length bs = k"
      "\<forall>j < k. b_transactions (bs ! j) = [] \<and>
         unat (b_timestamp (bs ! j)) = min (unat (n_current_timestamp m) + Suc j * unat iv) (2 ^ 64 - 1)"
    using Suc.IH [OF m(2)] by blast
  obtain b where b: "mined_block E b n m" using mine_one_block [OF m(1)] by blast
  have t: "unat (n_current_timestamp m) = min (unat (n_current_timestamp n) + unat iv) (2 ^ 64 - 1)"
    using mine_one_timestamp [OF m(1)] by (simp add: unat_sat_add)
  have "b_transactions ((b # bs) ! j) = [] \<and>
      unat (b_timestamp ((b # bs) ! j)) = min (unat (n_current_timestamp n) + Suc j * unat iv) (2 ^ 64 - 1)" if "j < Suc k" for j
  proof (cases j)
    case 0
    then show ?thesis using b t by (simp add: mined_block_def unat_ucast_u64_u256)
  next
    case (Suc i)
    have "min (min a M + c) M = min (a + c) M" for a c M :: nat by (simp add: min_def)
    then show ?thesis using bs(3) that t Suc by (simp add: add.assoc)
  qed
  then show ?case using stores_blocks_Cons [OF b bs(1)] bs(2) by (intro exI [of _ "b # bs"]) simp
qed

lemma mine_empty_blocks_Suc:
  assumes "mine_empty_blocks E k iv n = Some n'" and "k \<noteq> 0"
  shows "\<exists>m. mine_one E True iv n = Some m \<and> mine_rest E iv (unat k - 1) m = Some n'"
proof -
  have "unat k \<noteq> 0" using assms(2) by (simp add: unat_eq_zero)
  then obtain j where "unat k = Suc j" using not0_implies_Suc by blast
  then show ?thesis using assms(1) by (auto simp: mine_empty_blocks_def bind_eq_Some_conv)
qed

lemma mine_empty_blocks_frame: "mine_empty_blocks E k iv n = Some n' \<Longrightarrow> mined_frame n n'"
proof (erule mine_empty_blocks_induct)
  fix first m m'
  assume "mined_frame n m" "mine_one E first iv m = Some m'"
  then show "mined_frame n m'" using mine_one_block mined_block_def mined_frame_trans by blast
qed simp

section \<open>Progress on the concrete instance\<close>

lemma env_total0:
  assumes "fo_fork (n_fork_storage n) = None"
  shows "\<exists>x. create_l1_batch_env ext0 n fo_ops (storage_view_new (n_fork_storage n)) = Some x"
proof -
  have "\<exists>x sv. run fo_ops (load_last_l1_batch ext0) (storage_view_new (n_fork_storage n)) = Some (x, sv)"
    using assms by (simp add: load_last_l1_batch_def get_value_no_log_def storage_view_new_def fo_ops_def
        unwrapped_def read_value_internal_def split: prod.split)
  then show ?thesis by (auto simp: create_l1_batch_env_def Let_def) (simp add: ext0_def split: prod.split option.split)
qed

lemma mine_one_total0:
  assumes "fo_fork (n_fork_storage n) = None" and "caches_coherent (n_fork_storage n)"
  shows "\<exists>m. mine_one ext0 first iv n = Some m \<and> fo_fork (n_fork_storage m) = None \<and> caches_coherent (n_fork_storage m)"
proof -
  obtain env ctx sv where "create_l1_batch_env ext0 n fo_ops (storage_view_new (n_fork_storage n)) = Some ((env, ctx), sv)"
    using env_total0 [OF assms(1)] by auto
  then obtain m where m: "mine_one ext0 first iv n = Some m"
    by (simp add: mine_one_def contracts_for_l2_call_def) (simp add: ext0_def)
  then show ?thesis using mine_one_coherent [OF m assms(2)] assms(1) by simp
qed

lemma mine_total0:
  assumes "fo_fork (n_fork_storage n) = None" and "caches_coherent (n_fork_storage n)"
  shows "\<exists>n'. mine_empty_blocks ext0 k iv n = Some n'"
proof -
  have "\<exists>n'. mine_rest ext0 iv j m = Some n'" if "fo_fork (n_fork_storage m) = None" "caches_coherent (n_fork_storage m)" for j m
    using that
  proof (induction j arbitrary: m)
    case (Suc j)
    then show ?case using mine_one_total0 [OF Suc.prems, of False iv] by fastforce
  qed simp
  then show ?thesis
    using mine_one_total0 [OF assms, of True iv] by (auto simp: mine_empty_blocks_def split: nat.split)
qed

section \<open>Properties\<close>

text \<open>C34: the blocks that are mined and the clock. Mining k blocks stores k empty blocks, one after the
  other. The first has the timestamp of the batch environment computed from the node before, which
  is later than the node's clock unless that is the largest 64-bit number; every further block is
  the interval later than the one before, so that the j-th is j intervals after the first, cut off
  at the largest 64-bit number. In the end the node's clock and current block are those of the
  last one.\<close>

theorem mined_blocks_spacing:
  assumes "mine_empty_blocks E k iv n = Some n'" and "k \<noteq> 0"
  shows "\<exists>env ctx sv bs. create_l1_batch_env E n fo_ops (storage_view_new (n_fork_storage n)) = Some ((env, ctx), sv) \<and>
    n_current_timestamp n \<le> bc_timestamp ctx \<and>
    (bc_timestamp ctx \<noteq> - 1 \<longrightarrow> n_current_timestamp n < bc_timestamp ctx) \<and>
    length bs = unat k \<and> b_number (hd bs) = bc_miniblock ctx \<and>
    (\<forall>j < unat k. b_transactions (bs ! j) = [] \<and>
       unat (b_timestamp (bs ! j)) = min (unat (bc_timestamp ctx) + j * unat iv) (2 ^ 64 - 1)) \<and>
    n_blocks n' = foldl (\<lambda>m b. m(b_hash b \<mapsto> b)) (n_blocks n) bs \<and>
    n_block_hashes n' = foldl (\<lambda>m b. m(b_number b \<mapsto> b_hash b)) (n_block_hashes n) bs \<and>
    n_current_miniblock n' = b_number (last bs) \<and> ucast (n_current_timestamp n') = b_timestamp (last bs) \<and>
    unat (n_current_timestamp n') = min (unat (bc_timestamp ctx) + (unat k - 1) * unat iv) (2 ^ 64 - 1)"
proof -
  obtain m where m: "mine_one E True iv n = Some m" "mine_rest E iv (unat k - 1) m = Some n'"
    using mine_empty_blocks_Suc [OF assms] by blast
  obtain env ctx sv where env: "create_l1_batch_env E n fo_ops (storage_view_new (n_fork_storage n)) = Some ((env, ctx), sv)"
      and ctx: "n_current_timestamp m = bc_timestamp ctx" "n_current_miniblock m = bc_miniblock ctx"
    using mine_one_Some [OF m(1)] by (auto simp: insert_mined_def mine_block_ctx_def Let_def)
  obtain b where b: "mined_block E b n m" using mine_one_block [OF m(1)] by blast
  obtain bs where bs: "stores_blocks bs m n'" "length bs = unat k - 1"
      "\<forall>j < unat k - 1. b_transactions (bs ! j) = [] \<and>
         unat (b_timestamp (bs ! j)) = min (unat (n_current_timestamp m) + Suc j * unat iv) (2 ^ 64 - 1)"
    using mine_rest_blocks [OF m(2)] by blast
  have k: "length (b # bs) = unat k" using bs(2) assms(2) by (simp add: unat_eq_zero Suc_diff_1 unat_gt_0)
  have "b_transactions ((b # bs) ! j) = [] \<and>
      unat (b_timestamp ((b # bs) ! j)) = min (unat (bc_timestamp ctx) + j * unat iv) (2 ^ 64 - 1)" if "j < unat k" for j
  proof (cases j)
    case 0
    then show ?thesis using b ctx unat_bound64 [of "bc_timestamp ctx"] by (simp add: mined_block_def unat_ucast_u64_u256)
  next
    case (Suc i)
    then show ?thesis using bs(3) that ctx by simp
  qed
  moreover have "stores_blocks (b # bs) n n'" by (rule stores_blocks_Cons [OF b bs(1)])
  moreover have "n_current_timestamp n \<le> bc_timestamp ctx"
      "bc_timestamp ctx \<noteq> - 1 \<longrightarrow> n_current_timestamp n < bc_timestamp ctx"
    using mine_one_first_timestamp [OF m(1)] ctx by simp_all
  ultimately show ?thesis
    using env k mine_rest_timestamp [OF m(2)] ctx b
    by (intro exI [of _ env] exI [of _ ctx] exI [of _ sv] exI [of _ "b # bs"]) (simp add: stores_blocks_def mined_block_def)
qed

text \<open>The witness: three blocks, ten seconds apart, on the fresh node.\<close>

lemma mined_blocks_spacing_witness:
  "\<exists>n' bs. mine_empty_blocks ext0 3 10 inner0 = Some n' \<and> map (unat \<circ> b_timestamp) bs = [1001, 1011, 1021] \<and>
     n_blocks n' = foldl (\<lambda>m b. m(b_hash b \<mapsto> b)) (n_blocks inner0) bs \<and> unat (n_current_timestamp n') = 1021"
proof -
  obtain n' where n': "mine_empty_blocks ext0 3 10 inner0 = Some n'" using mine_total0 [of inner0] by auto
  have "unat (3 :: u64) = 3" "unat (10 :: u64) = 10" "(3 :: u64) \<noteq> 0" by simp_all
  moreover obtain env sv where "create_l1_batch_env ext0 inner0 fo_ops (storage_view_new (n_fork_storage inner0)) =
      Some ((env, \<lparr>bc_batch = 1, bc_miniblock = 1, bc_timestamp = 1001\<rparr>), sv)"
    using env0_notified by blast
  ultimately obtain bs where bs: "length bs = 3" "unat (n_current_timestamp n') = 1021"
      "\<forall>j < 3. unat (b_timestamp (bs ! j)) = min (1001 + j * 10) (2 ^ 64 - 1)"
      "n_blocks n' = foldl (\<lambda>m b. m(b_hash b \<mapsto> b)) (n_blocks inner0) bs"
    using mined_blocks_spacing [OF n'] by auto
  have "map (unat \<circ> b_timestamp) bs = map (\<lambda>j. unat (b_timestamp (bs ! j))) [0..<3]"
    using bs(1) by (intro nth_equalityI) simp_all
  also have "\<dots> = [1001, 1011, 1021]" using bs(3) by (simp add: upt_rec)
  finally show ?thesis using n' bs(2,4) by (intro exI [of _ n'] exI [of _ bs] conjI)
qed

text \<open>C35: mined blocks are not part of the chain of hashes. Mining stores the last block under its
  number and hash, but whatever it mines, the current block hash, the filters and the archive
  of states stay as they were, and the parent of the block is the hash an empty block of the
  previous number would have, not the hash recorded for that number.\<close>

theorem mined_blocks_unlinked:
  assumes "mine_empty_blocks E k iv n = Some n'" and "k \<noteq> 0"
  shows "\<exists>b. n_blocks n' (b_hash b) = Some b \<and> n_block_hashes n' (n_current_miniblock n') = Some (b_hash b) \<and>
    b_number b = n_current_miniblock n' \<and> b_transactions b = [] \<and>
    b_hash b = compute_hash E (b_number b) 0 \<and>
    b_parent_hash b = (if b_number b = 0 then 0 else compute_hash E (b_number b - 1) 0) \<and>
    n_current_miniblock_hash n' = n_current_miniblock_hash n \<and> n_filters n' = n_filters n \<and>
    n_previous_states n' = n_previous_states n \<and> n_tx_results n' = n_tx_results n"
proof -
  obtain m where m: "mine_one E True iv n = Some m" "mine_rest E iv (unat k - 1) m = Some n'"
    using mine_empty_blocks_Suc [OF assms] by blast
  define P where "P = (\<lambda>n' :: inner. \<exists>b. n_blocks n' (b_hash b) = Some b \<and> n_block_hashes n' (n_current_miniblock n') = Some (b_hash b) \<and>
    b_number b = n_current_miniblock n' \<and> b_transactions b = [] \<and> b_hash b = compute_hash E (b_number b) 0 \<and>
    b_parent_hash b = (if b_number b = 0 then 0 else compute_hash E (b_number b - 1) 0))"
  have one: "P m'" if "mine_one E first iv m = Some m'" for first m m'
    using mine_one_block [OF that] by (force simp: P_def mined_block_def)
  have "mine_rest E iv j m = Some n' \<Longrightarrow> P m \<Longrightarrow> P n'" for j m
    by (induction j arbitrary: m) (auto simp: bind_eq_Some_conv one)
  then have "P n'" using m one by blast
  then show ?thesis using mine_empty_blocks_frame [OF assms(1)] by (force simp: P_def mined_frame_def)
qed

lemma mined_blocks_unlinked_witness:
  "\<exists>n'. mine_empty_blocks ext0 2 1 inner0 = Some n' \<and> n_current_miniblock_hash n' = 1040 \<and> n_filters n' = n_filters inner0"
proof -
  obtain n' where n': "mine_empty_blocks ext0 2 1 inner0 = Some n'" using mine_total0 [of inner0] by auto
  have "n_current_miniblock_hash inner0 = 1040" by (simp add: inner0_def)
  then show ?thesis using mined_blocks_unlinked [OF n'] n' by auto
qed

end
