(* ===== verification/Node_Ext.thy ===== *)
theory Node_Ext
  imports Mining
begin

text \<open>
  The operations behind the hardhat, anvil and evm namespaces (\<open>src/node/in_memory_ext.rs\<close>)
  and the namespaces themselves, which only turn errors into JSON-RPC errors
  (\<open>src/node/hardhat.rs\<close>, \<open>anvil.rs\<close>, \<open>evm.rs\<close>, \<open>net.rs\<close>, \<open>web3.rs\<close>).

  Every operation takes the write lock of the inner state first; a poisoned lock is the error
  \<open>lock_failed\<close>. The snapshots have a lock of their own.
\<close>

definition MAX_SNAPSHOTS :: u8 where "MAX_SNAPSHOTS = 100"

definition lock_failed :: string where
  "lock_failed = ''failed acquiring lock: PoisonError { .. }''"

section \<open>Time\<close>

definition increase_time :: "u64 \<Rightarrow> node \<Rightarrow> (string, u64) res \<times> node" where
  "increase_time time_delta_seconds nd =
     write_inner (Err lock_failed) (\<lambda>n.
       if time_delta_seconds = 0 then (Ok time_delta_seconds, n)
       else let time_delta = sat_mul time_delta_seconds 1000 in
         (Ok time_delta_seconds, n\<lparr>n_current_timestamp := sat_add (n_current_timestamp n) time_delta\<rparr>)) nd"

definition not_greater :: "u64 \<Rightarrow> u64 \<Rightarrow> string" where
  "not_greater ts current = ''timestamp ('' @ dec_string (unat ts) @
     '') must be greater than current timestamp ('' @ dec_string (unat current) @ '')''"

definition set_next_block_timestamp :: "u64 \<Rightarrow> node \<Rightarrow> (string, u64) res \<times> node" where
  "set_next_block_timestamp timestamp nd =
     write_inner (Err lock_failed) (\<lambda>n.
       if timestamp \<le> n_current_timestamp n then (Err (not_greater timestamp (n_current_timestamp n)), n)
       else (Ok timestamp, n\<lparr>n_current_timestamp := timestamp - 1\<rparr>)) nd"

text \<open>The difference of two 64-bit numbers fits in an \<open>i128\<close>, so nothing saturates.\<close>

definition set_time :: "u64 \<Rightarrow> node \<Rightarrow> (string, int) res \<times> node" where
  "set_time time nd =
     write_inner (Err lock_failed) (\<lambda>n.
       (Ok (uint time - uint (n_current_timestamp n)), n\<lparr>n_current_timestamp := time\<rparr>)) nd"

section \<open>Mining\<close>

definition mine_block :: "ext \<Rightarrow> node \<Rightarrow> (string, string) res \<times> node" where
  "mine_block E nd =
     write_inner (Err lock_failed) (\<lambda>n.
       case mine_empty_blocks E 1 1000 n of
         None \<Rightarrow> (Panic, n)
       | Some n' \<Rightarrow> (Ok ''0x0'', n')) nd"

definition mine_blocks :: "ext \<Rightarrow> u64 option \<Rightarrow> u64 option \<Rightarrow> node \<Rightarrow> (string, bool) res \<times> node" where
  "mine_blocks E opt_num_blocks interval nd =
     write_inner (Err lock_failed) (\<lambda>n.
       let num_blocks = unwrap_or opt_num_blocks 1; interval_sec = unwrap_or interval 1 in
       if num_blocks = 0 then (Err ''Number of blocks must be greater than 0'', n)
       else case mine_empty_blocks E num_blocks interval_sec n of
              None \<Rightarrow> (Panic, n)
            | Some n' \<Rightarrow> (Ok True, n')) nd"

section \<open>Snapshots\<close>

definition single_quoted :: "string \<Rightarrow> string" where
  "single_quoted s = CHR 0x27 # s @ [CHR 0x27]"

definition nd_snapshot :: "node \<Rightarrow> (string, u64) res \<times> node" where
  "nd_snapshot nd =
     (if nd_inner_poisoned nd then (Err lock_failed, nd)
      else if nd_snapshots_poisoned nd
      then (Err ''failed acquiring read lock for snapshot: PoisonError { .. }'', nd)
      else if unat MAX_SNAPSHOTS \<le> length (nd_snapshots nd)
      then (Err (''maximum number of '' @ single_quoted (dec_string (unat MAX_SNAPSHOTS)) @ '' snapshots exceeded''), nd)
      else
        let snapshots = nd_snapshots nd @ [take_snapshot (nd_inner nd)] in
        (Ok (of_nat (length snapshots)), nd\<lparr>nd_snapshots := snapshots\<rparr>))"

definition revert_snapshot :: "u64 \<Rightarrow> node \<Rightarrow> (string, bool) res \<times> node" where
  "revert_snapshot snapshot_id nd =
     (if nd_inner_poisoned nd then (Err lock_failed, nd)
      else if nd_snapshots_poisoned nd
      then (Err ''failed acquiring read lock for snapshots: PoisonError { .. }'', nd)
      else
        let snapshot_id_index = unat snapshot_id - 1 in
        if length (nd_snapshots nd) \<le> snapshot_id_index
        then (Err (''no snapshot exists for the id '' @ single_quoted (dec_string (unat snapshot_id))), nd)
        else (Ok True,
              nd\<lparr>nd_snapshots := take snapshot_id_index (nd_snapshots nd),
                 nd_inner := restore_snapshot (nd_snapshots nd ! snapshot_id_index) (nd_inner nd)\<rparr>))"

section \<open>Accounts\<close>

definition set_balance :: "ext \<Rightarrow> address \<Rightarrow> u256 \<Rightarrow> node \<Rightarrow> (string, bool) res \<times> node" where
  "set_balance E a balance nd =
     write_inner (Err lock_failed) (\<lambda>n.
       (Ok True, n\<lparr>n_fork_storage := fo_set_value (x_eth_balance_key E a) balance (n_fork_storage n)\<rparr>)) nd"

definition nonce_too_high :: "string \<Rightarrow> u256 \<Rightarrow> u256 \<Rightarrow> string" where
  "nonce_too_high kind current requested = kind @ '' Nonce is already set to a higher value ('' @
     dec_string (unat current) @ '', requested '' @ dec_string (unat requested) @ '')''"

definition nonce_inner :: "ext \<Rightarrow> address \<Rightarrow> u256 \<Rightarrow> inner \<Rightarrow> (string, bool) res \<times> inner" where
  "nonce_inner E a requested n =
     (let nonce_key = x_nonce_key E a in
      case read_value_internal nonce_key (n_fork_storage n) of
        (Panic, fo) \<Rightarrow> (Panic, n)
      | (Err error, fo) \<Rightarrow> (Err error, n\<lparr>n_fork_storage := fo\<rparr>)
      | (Ok full_nonce, fo) \<Rightarrow>
          (let (account_nonce, deployment_nonce) = x_decompose_full_nonce E full_nonce;
               n1 = n\<lparr>n_fork_storage := fo\<rparr>
           in if requested \<le> account_nonce
              then (Err (nonce_too_high ''Account'' account_nonce requested), n1)
              else if requested \<le> deployment_nonce
              then (Err (nonce_too_high ''Deployment'' deployment_nonce requested), n1)
              else (Ok True, n1\<lparr>n_fork_storage :=
                     fo_set_value nonce_key (x_nonces_to_full_nonce E requested requested) fo\<rparr>)))"

definition set_nonce :: "ext \<Rightarrow> address \<Rightarrow> u256 \<Rightarrow> node \<Rightarrow> (string, bool) res \<times> node" where
  "set_nonce E a requested nd = write_inner (Err lock_failed) (nonce_inner E a requested) nd"

definition impersonate_account :: "address \<Rightarrow> node \<Rightarrow> (string, bool) res \<times> node" where
  "impersonate_account a nd =
     write_inner (Err lock_failed) (\<lambda>n. let (b, n') = set_impersonated_account a n in (Ok b, n')) nd"

definition nd_stop_impersonating_account :: "address \<Rightarrow> node \<Rightarrow> (string, bool) res \<times> node" where
  "nd_stop_impersonating_account a nd =
     write_inner (Err lock_failed) (\<lambda>n. let (b, n') = stop_impersonating_account a n in (Ok b, n')) nd"

text \<open>Nothing is written unless the whole of the code string is a valid bytecode.\<close>

definition code_inner :: "ext \<Rightarrow> address \<Rightarrow> string \<Rightarrow> inner \<Rightarrow> (string, unit) res \<times> inner" where
  "code_inner E a code n =
     (let decoded =
            rbind (ok_or (strip_prefix ''0x'' code) ''code must be 0x-prefixed'') (\<lambda>code_slice.
            rbind (x_hex_decode E code_slice) (bytecode_to_factory_dep E))
      in case decoded of
           Panic \<Rightarrow> (Panic, n)
         | Err e \<Rightarrow> (Err e, n)
         | Ok (hash, ws) \<Rightarrow>
             (Ok (), n\<lparr>n_fork_storage := fo_set_value (x_code_key E a) hash
                         (fo_store_factory_dep hash (words_to_bytes E ws) (n_fork_storage n))\<rparr>))"

definition set_code :: "ext \<Rightarrow> address \<Rightarrow> string \<Rightarrow> node \<Rightarrow> (string, unit) res \<times> node" where
  "set_code E a code nd = write_inner (Err lock_failed) (code_inner E a code) nd"

definition set_storage_at :: "address \<Rightarrow> u256 \<Rightarrow> u256 \<Rightarrow> node \<Rightarrow> (string, bool) res \<times> node" where
  "set_storage_at a slot v nd =
     write_inner (Err lock_failed) (\<lambda>n.
       (Ok True, n\<lparr>n_fork_storage := fo_set_value (StorageKey a slot) v (n_fork_storage n)\<rparr>)) nd"

section \<open>Reset over the network\<close>

record reset_forking =
  rf_json_rpc_url :: string
  rf_block_number :: "u64 option"

record reset_request =
  rs_to :: "u64 option"
  rs_forking :: "reset_forking option"

definition reset_target :: "reset_request option \<Rightarrow> node \<Rightarrow> (string, string option \<times> u64 option) res" where
  "reset_target reset_spec nd =
     (case reset_spec of
        None \<Rightarrow> Ok (None, None)
      | Some spec \<Rightarrow>
          (case rs_to spec of
             Some t \<Rightarrow>
               if rs_forking spec \<noteq> None
               then Err ''Only one of 'to' and 'forking' attributes can be specified''
               else rbind (nd_get_fork_url nd) (\<lambda>url. Ok (Some url, Some t))
           | None \<Rightarrow>
               (case rs_forking spec of
                  Some forking \<Rightarrow> Ok (Some (rf_json_rpc_url forking), rf_block_number forking)
                | None \<Rightarrow> Ok (None, None))))"

text \<open>
  \<open>client\<close> maps a URL that parses to the remote node behind it, \<open>d\<close> is the cache directory.
\<close>

definition reset_fork ::
  "ext \<Rightarrow> io \<Rightarrow> disk \<Rightarrow> (string \<Rightarrow> remote option) \<Rightarrow> reset_request option \<Rightarrow> node
     \<Rightarrow> (string, fork_details option) res" where
  "reset_fork E io d client reset_spec nd =
     rbind (reset_target reset_spec nd) (\<lambda>(opt_url, block_number).
       case opt_url of
         None \<Rightarrow> Ok None
       | Some url \<Rightarrow>
           rbind (nd_get_cache_config nd) (\<lambda>cache_config.
           rbind (from_url E io d client url block_number cache_config) (\<lambda>fd. Ok (Some fd))))"

definition reset_network ::
  "ext \<Rightarrow> io \<Rightarrow> disk \<Rightarrow> (string \<Rightarrow> remote option) \<Rightarrow> reset_request option \<Rightarrow> node
     \<Rightarrow> (string, bool) res \<times> node" where
  "reset_network E io d client reset_spec nd =
     (case reset_fork E io d client reset_spec nd of
        Err e \<Rightarrow> (Err e, nd)
      | Panic \<Rightarrow> (Panic, nd)
      | Ok fork_details \<Rightarrow>
          (case reset E fork_details nd of
             (Ok _, nd') \<Rightarrow> (Ok True, nd')
           | (Err e, nd') \<Rightarrow> (Err e, nd')
           | (Panic, nd') \<Rightarrow> (Panic, nd')))"

section \<open>Namespaces\<close>

definition rpc_internal :: "ext \<Rightarrow> (string, 'a) res \<times> node \<Rightarrow> 'a rpc \<times> node" where
  "rpc_internal E r = (map_err (\<lambda>err. into_jsrpc_error E (InternalError err)) (fst r), snd r)"

definition rpc_message :: "(string, 'a) res \<times> node \<Rightarrow> 'a rpc \<times> node" where
  "rpc_message r = (map_err into_jsrpc_error_message (fst r), snd r)"

definition hardhat_set_balance :: "ext \<Rightarrow> address \<Rightarrow> u256 \<Rightarrow> node \<Rightarrow> bool rpc \<times> node" where
  "hardhat_set_balance E a balance nd = rpc_internal E (set_balance E a balance nd)"

definition hardhat_set_nonce :: "ext \<Rightarrow> address \<Rightarrow> u256 \<Rightarrow> node \<Rightarrow> bool rpc \<times> node" where
  "hardhat_set_nonce E a balance nd = rpc_internal E (set_nonce E a balance nd)"

definition hardhat_mine :: "ext \<Rightarrow> u64 option \<Rightarrow> u64 option \<Rightarrow> node \<Rightarrow> bool rpc \<times> node" where
  "hardhat_mine E num_blocks interval nd = rpc_internal E (mine_blocks E num_blocks interval nd)"

definition hardhat_reset ::
  "ext \<Rightarrow> io \<Rightarrow> disk \<Rightarrow> (string \<Rightarrow> remote option) \<Rightarrow> reset_request option \<Rightarrow> node \<Rightarrow> bool rpc \<times> node" where
  "hardhat_reset E io d client reset_spec nd = rpc_internal E (reset_network E io d client reset_spec nd)"

definition hardhat_impersonate_account :: "ext \<Rightarrow> address \<Rightarrow> node \<Rightarrow> bool rpc \<times> node" where
  "hardhat_impersonate_account E a nd = rpc_internal E (impersonate_account a nd)"

definition hardhat_stop_impersonating_account :: "ext \<Rightarrow> address \<Rightarrow> node \<Rightarrow> bool rpc \<times> node" where
  "hardhat_stop_impersonating_account E a nd = rpc_internal E (nd_stop_impersonating_account a nd)"

definition hardhat_set_code :: "ext \<Rightarrow> address \<Rightarrow> string \<Rightarrow> node \<Rightarrow> unit rpc \<times> node" where
  "hardhat_set_code E a code nd = rpc_message (set_code E a code nd)"

definition hardhat_set_storage_at :: "ext \<Rightarrow> address \<Rightarrow> u256 \<Rightarrow> u256 \<Rightarrow> node \<Rightarrow> bool rpc \<times> node" where
  "hardhat_set_storage_at E a slot v nd = rpc_internal E (set_storage_at a slot v nd)"

definition anvil_set_balance :: "ext \<Rightarrow> address \<Rightarrow> u256 \<Rightarrow> node \<Rightarrow> bool rpc \<times> node" where
  "anvil_set_balance E a balance nd = rpc_internal E (set_balance E a balance nd)"

definition anvil_set_nonce :: "ext \<Rightarrow> address \<Rightarrow> u256 \<Rightarrow> node \<Rightarrow> bool rpc \<times> node" where
  "anvil_set_nonce E a balance nd = rpc_internal E (set_nonce E a balance nd)"

definition anvil_mine :: "ext \<Rightarrow> u64 option \<Rightarrow> u64 option \<Rightarrow> node \<Rightarrow> bool rpc \<times> node" where
  "anvil_mine E num_blocks interval nd = rpc_internal E (mine_blocks E num_blocks interval nd)"

definition anvil_reset ::
  "ext \<Rightarrow> io \<Rightarrow> disk \<Rightarrow> (string \<Rightarrow> remote option) \<Rightarrow> reset_request option \<Rightarrow> node \<Rightarrow> bool rpc \<times> node" where
  "anvil_reset E io d client reset_spec nd = rpc_internal E (reset_network E io d client reset_spec nd)"

definition anvil_impersonate_account :: "ext \<Rightarrow> address \<Rightarrow> node \<Rightarrow> bool rpc \<times> node" where
  "anvil_impersonate_account E a nd = rpc_internal E (impersonate_account a nd)"

definition anvil_stop_impersonating_account :: "ext \<Rightarrow> address \<Rightarrow> node \<Rightarrow> bool rpc \<times> node" where
  "anvil_stop_impersonating_account E a nd = rpc_internal E (nd_stop_impersonating_account a nd)"

definition anvil_set_code :: "ext \<Rightarrow> address \<Rightarrow> string \<Rightarrow> node \<Rightarrow> unit rpc \<times> node" where
  "anvil_set_code E a code nd = rpc_message (set_code E a code nd)"

definition anvil_set_storage_at :: "ext \<Rightarrow> address \<Rightarrow> u256 \<Rightarrow> u256 \<Rightarrow> node \<Rightarrow> bool rpc \<times> node" where
  "anvil_set_storage_at E a slot v nd = rpc_internal E (set_storage_at a slot v nd)"

definition evm_set_nonce :: "ext \<Rightarrow> address \<Rightarrow> u256 \<Rightarrow> node \<Rightarrow> bool rpc \<times> node" where
  "evm_set_nonce E a balance nd = rpc_internal E (set_nonce E a balance nd)"

definition evm_increase_time :: "ext \<Rightarrow> u64 \<Rightarrow> node \<Rightarrow> u64 rpc \<times> node" where
  "evm_increase_time E delta nd = rpc_internal E (increase_time delta nd)"

definition evm_mine :: "ext \<Rightarrow> node \<Rightarrow> string rpc \<times> node" where
  "evm_mine E nd = rpc_internal E (mine_block E nd)"

definition evm_set_next_block_timestamp :: "ext \<Rightarrow> u64 \<Rightarrow> node \<Rightarrow> u64 rpc \<times> node" where
  "evm_set_next_block_timestamp E timestamp nd = rpc_internal E (set_next_block_timestamp timestamp nd)"

definition evm_set_time :: "ext \<Rightarrow> u64 \<Rightarrow> node \<Rightarrow> int rpc \<times> node" where
  "evm_set_time E time nd = rpc_internal E (set_time time nd)"

definition evm_snapshot :: "ext \<Rightarrow> node \<Rightarrow> u64 rpc \<times> node" where
  "evm_snapshot E nd = rpc_internal E (nd_snapshot nd)"

definition evm_revert :: "ext \<Rightarrow> u64 \<Rightarrow> node \<Rightarrow> bool rpc \<times> node" where
  "evm_revert E snapshot_id nd = rpc_internal E (revert_snapshot snapshot_id nd)"

definition net_version :: string where
  "net_version = dec_string (unat TEST_NODE_NETWORK_ID)"

definition net_peer_count :: u256 where "net_peer_count = 0"

definition net_listening :: bool where "net_listening = False"

definition web3_client_version :: string where "web3_client_version = ''zkSync/v2.0''"

section \<open>Lemmas\<close>

lemma write_inner_eqs [simp]:
  "\<not> nd_inner_poisoned nd \<Longrightarrow> f (nd_inner nd) = (Ok x, n) \<Longrightarrow> write_inner e f nd = (Ok x, nd\<lparr>nd_inner := n\<rparr>)"
  "\<not> nd_inner_poisoned nd \<Longrightarrow> f (nd_inner nd) = (Err er, n) \<Longrightarrow> write_inner e f nd = (Err er, nd\<lparr>nd_inner := n\<rparr>)"
  by (simp_all add: write_inner_def)

lemma write_inner_OkE:
  assumes "write_inner (Err e) f nd = (Ok x, nd')"
  obtains n where "\<not> nd_inner_poisoned nd" "f (nd_inner nd) = (Ok x, n)" "nd' = nd\<lparr>nd_inner := n\<rparr>"
  using assms by (auto simp: write_inner_def split: if_splits prod.splits res.splits)

section \<open>Properties\<close>

text \<open>C26: snapshot and revert. A snapshot gets the next number. Reverting to that number later, when
  the snapshots up to it are still there and the node still runs with the same configuration
  over the same fork, brings back the inner state exactly as it was and deletes that snapshot
  and every later one.\<close>

theorem snapshot_then_revert:
  assumes "nd_snapshot nd = (Ok i, nd1)"
    and "nd_snapshots nd2 = nd_snapshots nd1 @ later" and "\<not> nd_inner_poisoned nd2" and "\<not> nd_snapshots_poisoned nd2"
    and "n_config (nd_inner nd2) = n_config (nd_inner nd)"
    and "n_system_contracts (nd_inner nd2) = n_system_contracts (nd_inner nd)"
    and "n_observability (nd_inner nd2) = n_observability (nd_inner nd)"
    and "fo_fork (n_fork_storage (nd_inner nd2)) = fo_fork (n_fork_storage (nd_inner nd))"
    and "fo_chain_id (n_fork_storage (nd_inner nd2)) = fo_chain_id (n_fork_storage (nd_inner nd))"
  shows "unat i = length (nd_snapshots nd) + 1 \<and>
    revert_snapshot i nd2 = (Ok True, nd2\<lparr>nd_inner := nd_inner nd, nd_snapshots := nd_snapshots nd\<rparr>)"
proof -
  have s: "nd_snapshots nd1 = nd_snapshots nd @ [take_snapshot (nd_inner nd)]"
      "i = of_nat (length (nd_snapshots nd) + 1)" "length (nd_snapshots nd) < 100"
    using assms(1) by (auto simp: nd_snapshot_def Let_def MAX_SNAPSHOTS_def split: if_splits)
  have "unat i = (length (nd_snapshots nd) + 1) mod 2 ^ 64"
    unfolding s(2) by (simp only: unat_of_nat) simp
  then have i: "unat i = length (nd_snapshots nd) + 1" using s(3) by simp
  have "restore_snapshot (take_snapshot (nd_inner nd)) (nd_inner nd2) = nd_inner nd"
    using assms(5-9) by (simp add: restore_snapshot_def take_snapshot_def)
  then show ?thesis using i s(1) assms(2-4) by (simp add: revert_snapshot_def Let_def nth_append)
qed

lemma snapshot_then_revert_witness:
  "revert_snapshot 1 ((snd (nd_snapshot node0))\<lparr>nd_inner := inner0\<lparr>n_current_batch := 5, n_rich_accounts := [4]\<rparr>\<rparr>) = (Ok True, node0)"
proof -
  let ?nd2 = "(snd (nd_snapshot node0))\<lparr>nd_inner := inner0\<lparr>n_current_batch := 5, n_rich_accounts := [4]\<rparr>\<rparr>"
  have s: "nd_snapshot node0 = (Ok 1, node0\<lparr>nd_snapshots := [take_snapshot inner0]\<rparr>)"
    by (simp add: nd_snapshot_def MAX_SNAPSHOTS_def)
  show ?thesis using snapshot_then_revert [OF s, of ?nd2 "[]"] by (simp add: s)
qed

text \<open>\<open>increase_time\<close>: it answers the given number of seconds, but moves the clock, which
  counts seconds, by a thousand times that number (up to the largest 64-bit number).\<close>

theorem increase_time_thousandfold:
  assumes "increase_time delta nd = (Ok r, nd')"
  shows "r = delta \<and> nd' = nd\<lparr>nd_inner := (nd_inner nd)\<lparr>n_current_timestamp := n_current_timestamp (nd_inner nd')\<rparr>\<rparr> \<and>
    unat (n_current_timestamp (nd_inner nd')) =
      min (unat (n_current_timestamp (nd_inner nd)) + min (1000 * unat delta) (2 ^ 64 - 1)) (2 ^ 64 - 1)"
proof (cases "delta = 0")
  case True
  have "unat (n_current_timestamp (nd_inner nd)) \<le> 2 ^ 64 - 1"
    using unat_bound64 [of "n_current_timestamp (nd_inner nd)"] by simp
  then show ?thesis using assms True by (auto simp: increase_time_def elim!: write_inner_OkE)
next
  case False
  then show ?thesis
    using assms by (auto simp: increase_time_def Let_def unat_sat_add unat_sat_mul mult.commute elim!: write_inner_OkE)
qed

lemma increase_time_thousandfold_witness:
  "unat (n_current_timestamp (nd_inner (snd (increase_time 60 node0)))) = 61000"
proof -
  obtain nd' where "increase_time 60 node0 = (Ok 60, nd')" by (simp add: increase_time_def Let_def)
  moreover have "unat (n_current_timestamp inner0) = 1000" by (simp add: inner0_def NON_FORK_FIRST_BLOCK_TIMESTAMP_def)
  ultimately show ?thesis using increase_time_thousandfold [of 60 node0 60 nd'] by simp
qed

text \<open>C36: \<open>set_nonce\<close>. When the library packs and unpacks nonces without loss, both nonces of an
  account read as the requested one after a success, which happens exactly when the stored
  account and deployment nonces are both smaller; a rejected request writes nothing to local
  storage.\<close>

theorem set_nonce_effect:
  assumes "x_decompose_full_nonce E (x_nonces_to_full_nonce E v v) = (v, v)"
    and "x_nonces_to_full_nonce E v v \<noteq> 0"
    and "caches_coherent (n_fork_storage (nd_inner nd))" and "\<not> nd_inner_poisoned nd"
    and "fst (read_value_internal (x_nonce_key E a) (n_fork_storage (nd_inner nd))) = Ok full"
    and "x_decompose_full_nonce E full = (acc, dep)"
    and "set_nonce E a v nd = (r, nd')"
  shows "(is_Ok r \<longleftrightarrow> acc < v \<and> dep < v) \<and>
    (is_Ok r \<longrightarrow> (\<exists>full'. fst (read_value_internal (x_nonce_key E a) (n_fork_storage (nd_inner nd'))) = Ok full' \<and>
       x_decompose_full_nonce E full' = (v, v))) \<and>
    (\<not> is_Ok r \<longrightarrow> same_contents (n_fork_storage (nd_inner nd)) (n_fork_storage (nd_inner nd')))"
proof -
  obtain fo where rd: "read_value_internal (x_nonce_key E a) (n_fork_storage (nd_inner nd)) = (Ok full, fo)"
    using assms(5) by (cases "read_value_internal (x_nonce_key E a) (n_fork_storage (nd_inner nd))") auto
  have fo: "same_contents (n_fork_storage (nd_inner nd)) fo"
    using read_value_correct [OF assms(3), of "x_nonce_key E a"] rd by simp
  have stored: "fst (read_value_internal k (fo_set_value k w fo)) = Ok w" if "w \<noteq> 0" for k w
    using that by (simp add: read_value_internal_def fo_set_value_def im_set_value_def im_read_value_def Let_def
        split: option.split)
  consider "v \<le> acc" | "acc < v" "v \<le> dep" | "acc < v" "dep < v" by fastforce
  then show ?thesis
  proof cases
    case 1
    then show ?thesis using assms(4,6,7) rd fo by (auto simp: set_nonce_def nonce_inner_def write_inner_def Let_def)
  next
    case 2
    then have "(v \<le> acc) = False" by simp
    with 2 show ?thesis using assms(4,6,7) rd fo by (auto simp: set_nonce_def nonce_inner_def write_inner_def Let_def)
  next
    case 3
    then have "(v \<le> acc) = False" "(v \<le> dep) = False" by simp_all
    with 3 show ?thesis
      using assms rd stored by (auto simp: set_nonce_def nonce_inner_def write_inner_def Let_def)
  qed
qed

lemma set_nonce_effect_witness:
  "\<exists>nd' full'. set_nonce ext0 7 5 node0 = (Ok True, nd') \<and>
     fst (read_value_internal (x_nonce_key ext0 7) (n_fork_storage (nd_inner nd'))) = Ok full' \<and>
     x_decompose_full_nonce ext0 full' = (5, 5)"
proof -
  have d: "x_decompose_full_nonce ext0 (x_nonces_to_full_nonce ext0 5 5) = (5, 5)" "x_nonces_to_full_nonce ext0 5 5 \<noteq> 0"
      "x_decompose_full_nonce ext0 0 = (0, 0)"
    by (simp_all add: ext0_def word_div_def word_mod_def)
  have rd: "fst (read_value_internal (x_nonce_key ext0 7) (n_fork_storage (nd_inner node0))) = Ok 0"
    by (simp add: read_value_internal_def im_read_value_def Let_def)
  obtain r nd' where r: "set_nonce ext0 7 5 node0 = (r, nd')" by (cases "set_nonce ext0 7 5 node0")
  have "is_Ok r" and "\<exists>full'. fst (read_value_internal (x_nonce_key ext0 7) (n_fork_storage (nd_inner nd'))) = Ok full' \<and>
     x_decompose_full_nonce ext0 full' = (5, 5)"
    using set_nonce_effect [OF d(1,2) _ _ rd d(3) r] by simp_all
  moreover have "r = Ok True" if "is_Ok r"
    using that r by (auto simp: set_nonce_def write_inner_def nonce_inner_def Let_def split: prod.splits res.splits if_splits)
  ultimately show ?thesis using r by blast
qed

end
