(* ===== verification/Float32.thy ===== *)
theory Float32
  imports Prelude
begin

text \<open>
  The single-precision arithmetic of Rust on bit patterns: \<open>u64 as f32\<close>,
  multiplication and \<open>f32 as u64\<close>, with rounding to nearest (ties to even), subnormal
  numbers, infinities and NaN. Only the sign bit and the payload of a NaN are left open by
  the language; here a NaN is the canonical one.
\<close>

type_synonym single = "32 word"

section \<open>Rounding\<close>

text \<open>The number of binary digits.\<close>

fun nat_bits :: "nat \<Rightarrow> nat" where
  "nat_bits n = (if n = 0 then 0 else Suc (nat_bits (n div 2)))"

declare nat_bits.simps [simp del]

definition round_half_even :: "nat \<Rightarrow> nat \<Rightarrow> nat" where
  "round_half_even N s =
     (let q = N div 2 ^ s; r = N mod 2 ^ s in
      if 2 * r < 2 ^ s \<or> 2 * r = 2 ^ s \<and> even q then q else q + 1)"

text \<open>
  The bit pattern of the non-negative number \<open>N * 2 ^ x\<close>. With \<open>t\<close> the exponent of the
  last place and \<open>q\<close> the rounded significand, both the hidden bit and a carry of the
  rounding are accounted for by adding \<open>q\<close> to the shifted exponent.
\<close>

definition f32_round :: "nat \<Rightarrow> int \<Rightarrow> nat" where
  "f32_round N x =
     (if N = 0 then 0
      else let t = max (int (nat_bits N) + x - 24) (- 149);
               q = (if t \<le> x then N * 2 ^ nat (x - t) else round_half_even N (nat (t - x)))
           in min (255 * 2 ^ 23) (nat (t + 149) * 2 ^ 23 + q))"

section \<open>Bit patterns\<close>

definition f32_sign :: "single \<Rightarrow> bool" where "f32_sign w = (2 ^ 31 \<le> unat w)"
definition f32_exp :: "single \<Rightarrow> nat" where "f32_exp w = unat w div 2 ^ 23 mod 256"
definition f32_frac :: "single \<Rightarrow> nat" where "f32_frac w = unat w mod 2 ^ 23"
definition f32_nan :: "single \<Rightarrow> bool" where "f32_nan w = (f32_exp w = 255 \<and> f32_frac w \<noteq> 0)"
definition f32_inf :: "single \<Rightarrow> bool" where "f32_inf w = (f32_exp w = 255 \<and> f32_frac w = 0)"

text \<open>A finite number is \<open>f32_sig w * 2 ^ f32_lsb w\<close>, up to its sign.\<close>

definition f32_sig :: "single \<Rightarrow> nat" where
  "f32_sig w = f32_frac w + (if f32_exp w = 0 then 0 else 2 ^ 23)"
definition f32_lsb :: "single \<Rightarrow> int" where
  "f32_lsb w = int (max (f32_exp w) 1) - 150"

definition f32_zero :: "single \<Rightarrow> bool" where "f32_zero w = (\<not> f32_nan w \<and> \<not> f32_inf w \<and> f32_sig w = 0)"

definition f32_one :: single where "f32_one = 0x3F800000"

section \<open>Operations\<close>

definition f32_of_u64 :: "u64 \<Rightarrow> single" where
  "f32_of_u64 x = of_nat (f32_round (unat x) 0)"

definition f32_mul :: "single \<Rightarrow> single \<Rightarrow> single" where
  "f32_mul a b =
     (if f32_nan a \<or> f32_nan b \<or> f32_inf a \<and> f32_zero b \<or> f32_zero a \<and> f32_inf b then 0x7FC00000
      else of_nat ((if f32_sign a \<noteq> f32_sign b then 2 ^ 31 else 0) +
             (if f32_inf a \<or> f32_inf b then 255 * 2 ^ 23
              else f32_round (f32_sig a * f32_sig b) (f32_lsb a + f32_lsb b))))"

text \<open>The conversion to an integer truncates and saturates; NaN becomes 0.\<close>

definition u64_of_f32 :: "single \<Rightarrow> u64" where
  "u64_of_f32 w =
     (if f32_nan w \<or> f32_sign w then 0
      else if f32_inf w then - 1
      else let v = (if 0 \<le> f32_lsb w then f32_sig w * 2 ^ nat (f32_lsb w)
                    else f32_sig w div 2 ^ nat (- f32_lsb w))
           in if v < 2 ^ 64 then of_nat v else - 1)"

section \<open>Lemmas\<close>

lemma nat_bits_bounds: "0 < n \<Longrightarrow> 2 ^ (nat_bits n - 1) \<le> n \<and> n < 2 ^ nat_bits n \<and> 0 < nat_bits n"
proof (induction n rule: nat_bits.induct)
  case (1 n)
  show ?case
  proof (cases "n div 2 = 0")
    case True
    then have "n = 1" using 1 by linarith
    then show ?thesis by (simp add: nat_bits.simps)
  next
    case False
    then have IH: "2 ^ (nat_bits (n div 2) - 1) \<le> n div 2" "n div 2 < 2 ^ nat_bits (n div 2)" "0 < nat_bits (n div 2)"
      using 1 by auto
    have b: "nat_bits n = Suc (nat_bits (n div 2))" using 1(2) by (simp add: nat_bits.simps [of n])
    have "(2 :: nat) ^ nat_bits (n div 2) = 2 * 2 ^ (nat_bits (n div 2) - 1)"
      using IH(3) by (cases "nat_bits (n div 2)") simp_all
    then have "2 ^ nat_bits (n div 2) \<le> n" using IH(1) by linarith
    moreover have "n < 2 * 2 ^ nat_bits (n div 2)" using IH(2) by linarith
    ultimately show ?thesis by (simp add: b)
  qed
qed

text \<open>A number below 2 to the 24th is its own significand, shifted to 24 digits.\<close>

lemma f32_round_small:
  assumes "0 < n" "n < 2 ^ 24"
  shows "f32_round n 0 = (nat_bits n + 125) * 2 ^ 23 + n * 2 ^ (24 - nat_bits n) \<and>
    2 ^ 23 \<le> n * 2 ^ (24 - nat_bits n) \<and> n * 2 ^ (24 - nat_bits n) < 2 ^ 24 \<and> nat_bits n \<le> 24 \<and> 0 < nat_bits n"
proof -
  note b = nat_bits_bounds [OF assms(1)]
  have le: "nat_bits n \<le> 24"
  proof (rule ccontr)
    assume "\<not> nat_bits n \<le> 24"
    then have "(2 :: nat) ^ 24 \<le> 2 ^ (nat_bits n - 1)" by (intro power_increasing) auto
    with b assms(2) show False by linarith
  qed
  have p: "(2 :: nat) ^ 24 = 2 ^ nat_bits n * 2 ^ (24 - nat_bits n)"
    using le by (simp only: power_add [symmetric]) simp
  have p': "(2 :: nat) ^ 23 = 2 ^ (nat_bits n - 1) * 2 ^ (24 - nat_bits n)"
    using le b by (simp only: power_add [symmetric]) simp
  have upper: "n * 2 ^ (24 - nat_bits n) < 2 ^ 24" unfolding p using b by simp
  have lower: "2 ^ 23 \<le> n * 2 ^ (24 - nat_bits n)" unfolding p' using b by simp
  have t: "max (int (nat_bits n) + 0 - 24) (- 149) = int (nat_bits n) - 24" by simp
  have s: "nat (0 - (int (nat_bits n) - 24)) = 24 - nat_bits n" "int (nat_bits n) - 24 \<le> 0"
      "nat (int (nat_bits n) - 24 + 149) = nat_bits n + 125"
    using le by auto
  have "(nat_bits n + 125) * 2 ^ 23 + n * 2 ^ (24 - nat_bits n) \<le> 255 * 2 ^ 23"
    using le upper by simp
  then show ?thesis
    using assms(1) s lower upper le b unfolding f32_round_def t Let_def by simp
qed

lemma f32_fields_small:
  assumes "0 < n" "n < 2 ^ 24"
  defines "w \<equiv> of_nat (f32_round n 0) :: single"
  shows "f32_sig w = n * 2 ^ (24 - nat_bits n)" "f32_lsb w = - int (24 - nat_bits n)"
    "\<not> f32_sign w" "\<not> f32_nan w" "\<not> f32_inf w" "f32_exp w = nat_bits n + 126"
proof -
  define q where "q = n * 2 ^ (24 - nat_bits n)"
  have r: "f32_round n 0 = (nat_bits n + 126) * 2 ^ 23 + (q - 2 ^ 23)" and q: "2 ^ 23 \<le> q" "q < 2 ^ 24"
      and k: "nat_bits n \<le> 24" "0 < nat_bits n"
    using f32_round_small [OF assms(1,2)] by (auto simp: q_def)
  have l31: "f32_round n 0 < 2 ^ 31" using r q k by simp
  then have "unat w = f32_round n 0"
    unfolding w_def by (simp only: unsigned_of_nat) (simp add: take_bit_nat_eq_self)
  then have u: "unat w = (nat_bits n + 126) * 2 ^ 23 + (q - 2 ^ 23)" "unat w < 2 ^ 31"
    using r l31 by simp_all
  have l: "q - 2 ^ 23 < 2 ^ 23" using q by simp
  have frac: "f32_frac w = q - 2 ^ 23" unfolding f32_frac_def u(1) using l by (simp only: mod_mult_self3) simp
  have "unat w div 2 ^ 23 = nat_bits n + 126"
    unfolding u(1) using l by (simp only: div_mult_self3 div_less)
  then have exp: "f32_exp w = nat_bits n + 126" using k by (simp add: f32_exp_def)
  show "f32_exp w = nat_bits n + 126" by (rule exp)
  show "f32_sig w = n * 2 ^ (24 - nat_bits n)" using frac exp q by (simp add: f32_sig_def q_def)
  show "f32_lsb w = - int (24 - nat_bits n)" using exp k by (simp add: f32_lsb_def)
  show "\<not> f32_sign w" using u(2) by (simp add: f32_sign_def)
  show "\<not> f32_nan w" "\<not> f32_inf w" using exp k by (simp_all add: f32_nan_def f32_inf_def)
qed

text \<open>A number of at most 24 binary digits survives the conversion.\<close>

lemma u64_f32_roundtrip: "unat x < 2 ^ 24 \<Longrightarrow> u64_of_f32 (f32_of_u64 x) = x"
proof (cases "unat x = 0")
  case True
  then show ?thesis
    by (simp add: f32_of_u64_def f32_round_def u64_of_f32_def f32_nan_def f32_sign_def f32_inf_def f32_exp_def
        f32_sig_def f32_frac_def f32_lsb_def Let_def unsigned_eq_0_iff)
next
  case False
  assume s: "unat x < 2 ^ 24"
  have pos: "0 < unat x" using False by simp
  note f = f32_fields_small [OF pos s]
  have v: "(if 0 \<le> f32_lsb (f32_of_u64 x) then f32_sig (f32_of_u64 x) * 2 ^ nat (f32_lsb (f32_of_u64 x))
       else f32_sig (f32_of_u64 x) div 2 ^ nat (- f32_lsb (f32_of_u64 x))) = unat x"
    using f unfolding f32_of_u64_def by (cases "24 \<le> nat_bits (unat x)") (simp_all add: nat_diff_distrib)
  show ?thesis unfolding u64_of_f32_def v Let_def using f s unfolding f32_of_u64_def by simp
qed

end
