(* ===== verification/Gas_Estimation.thy ===== *)
theory Gas_Estimation
  imports Node_Tx Float32
begin

text \<open>
  The estimation of the gas of a transaction (\<open>InMemoryNodeInner::estimate_gas_impl\<close> and
  \<open>estimate_gas_step\<close> of \<open>src/node/in_memory.rs\<close>): the preparation of the
  transaction and its environment, one simulated run, the binary search over gas limits and
  the scaled answer.

  The search is a loop over machine integers: it is a partial function, and that it returns is
  proved. \<open>None\<close> as the result of the whole is a loop that never ends; inside it, a panic is
  \<open>Panic\<close> of the result type.
\<close>

section \<open>One simulated run\<close>

definition gas_limit_with_overhead :: "ext \<Rightarrow> l2_tx \<Rightarrow> u64 \<Rightarrow> u64 \<Rightarrow> u64" where
  "gas_limit_with_overhead E tx gas_per_pubdata_byte tx_gas_limit =
     tx_gas_limit + ucast (x_derive_overhead E tx_gas_limit (ucast gas_per_pubdata_byte)
       (x_tx_encoding_len E tx) (ucast (x_tx_type_code E (transaction_type tx))))"

text \<open>
  The run as a program against a fresh view: the nonce and the balance of the payer are set
  first. The result is \<open>None\<close> when the balance arithmetic overflows and panics.
\<close>

definition gas_step_prog ::
  "ext \<Rightarrow> l2_tx \<Rightarrow> u64 \<Rightarrow> u64 \<Rightarrow> l1_batch_env \<Rightarrow> system_env \<Rightarrow> vm_result option sprog" where
  "gas_step_prog E l2_tx gas_per_pubdata_byte tx_gas_limit batch_env system_env =
     (let tx = l2_tx\<lparr>tx_fee := (tx_fee l2_tx)\<lparr>gas_limit :=
            ucast (gas_limit_with_overhead E l2_tx gas_per_pubdata_byte tx_gas_limit)\<rparr>\<rparr>;
          nonce_key = x_nonce_key E (initiator tx);
          balance_key = x_eth_balance_key E (x_tx_payer E tx)
      in ReadValue nonce_key (\<lambda>full_nonce.
           let (_, deployment_nonce) = x_decompose_full_nonce E full_nonce in
         SetValue nonce_key (x_nonces_to_full_nonce E (ucast (nonce tx)) deployment_nonce) (\<lambda>_.
         ReadValue balance_key (\<lambda>current_balance.
           case Option.bind (checked_mul (gas_limit (tx_fee tx)) (max_fee_per_gas (tx_fee tx)))
                  (checked_add current_balance) of
             None \<Rightarrow> Return None
           | Some balance \<Rightarrow>
               SetValue balance_key balance (\<lambda>_.
                 map_sprog (\<lambda>out. Some (ro_result out)) (x_vm_run_tx E batch_env system_env tx))))))"

definition estimate_gas_step ::
  "ext \<Rightarrow> l2_tx \<Rightarrow> u64 \<Rightarrow> u64 \<Rightarrow> l1_batch_env \<Rightarrow> system_env \<Rightarrow> fork_storage
     \<Rightarrow> (vm_result \<times> fork_storage) option" where
  "estimate_gas_step E l2_tx gas_per_pubdata_byte tx_gas_limit batch_env system_env fo =
     (case run fo_ops (gas_step_prog E l2_tx gas_per_pubdata_byte tx_gas_limit batch_env system_env)
             (storage_view_new fo) of
        Some (Some r, sv) \<Rightarrow> Some (r, sv_storage_handle sv)
      | _ \<Rightarrow> None)"

section \<open>The binary search\<close>

text \<open>
  \<open>fails mid s\<close> is the run at the limit \<open>mid\<close>, which may panic and threads the state
  \<open>s\<close> through.
\<close>

partial_function (option) gas_search ::
  "(u64 \<Rightarrow> 's \<Rightarrow> (bool \<times> 's) option) \<Rightarrow> u64 \<Rightarrow> u64 \<Rightarrow> 's \<Rightarrow> (u64 \<times> 's) option option" where
  "gas_search fails lower_bound upper_bound s =
     (if lower_bound + ESTIMATE_GAS_ACCEPTABLE_OVERESTIMATION < upper_bound
      then let mid = (lower_bound + upper_bound) div 2 in
           case fails mid s of
             None \<Rightarrow> Some None
           | Some (failed, s') \<Rightarrow>
               if failed then gas_search fails (mid + 1) upper_bound s'
               else gas_search fails lower_bound mid s'
      else Some (Some (upper_bound, s)))"

section \<open>Preparation\<close>

record gas_setup =
  gs_tx :: l2_tx
  gs_l2_tx :: l2_tx
  gs_base_fee :: u64
  gs_gas_per_pubdata :: u64
  gs_batch_env :: l1_batch_env
  gs_system_env :: system_env

definition estimated_tx :: "ext \<Rightarrow> bool \<Rightarrow> u64 \<Rightarrow> l2_tx \<Rightarrow> l2_tx" where
  "estimated_tx E is_eip712 base_fee tx =
     (let tx1 = (if signature tx = [] then tx\<lparr>signature := (replicate 65 0)[64 := 27]\<rparr> else tx);
          tx2 = (if is_eip712 then tx1\<lparr>transaction_type := EIP712Transaction\<rparr> else tx1)
      in tx2\<lparr>tx_fee := (tx_fee tx2)\<lparr>gas_per_pubdata_limit := ucast (x_max_gas_per_pubdata_byte E),
               max_fee_per_gas := ucast base_fee, max_priority_fee_per_gas := ucast base_fee\<rparr>\<rparr>)"

definition estimated_request :: "ext \<Rightarrow> call_request \<Rightarrow> call_request" where
  "estimated_request E req = req\<lparr>cr_eip712_gas_per_pubdata := map_option
     (\<lambda>g. if g = 0 then ucast (x_max_gas_per_pubdata_byte E) else g) (cr_eip712_gas_per_pubdata req)\<rparr>"

definition prepare_estimation ::
  "ext \<Rightarrow> call_request \<Rightarrow> inner \<Rightarrow> gas_setup rpc \<times> fork_storage" where
  "prepare_estimation E req n =
     (let request = estimated_request E req;
          is_eip712 = (cr_eip712_gas_per_pubdata request \<noteq> None);
          fo = n_fork_storage n
      in case x_l2_tx_from_request E (x_request_of_call E request) MAX_TX_SIZE of
           Err e \<Rightarrow> (Err (into_jsrpc_error E (SerializationError e)), fo)
         | Panic \<Rightarrow> (Panic, fo)
         | Ok tx \<Rightarrow>
             (let scale_factor = fp_price_scale_factor (n_fee_input_provider n);
                  fee_input = x_adjust_pubdata_price E
                    (x_scale_fee_input E (get_fee_model_params (n_fee_input_provider n)) scale_factor scale_factor)
                    (gas_per_pubdata_limit (tx_fee tx));
                  (base_fee, gas_per_pubdata_byte) = x_derive_base_fee_and_gas_per_pubdata E fee_input;
                  l2_tx = estimated_tx E is_eip712 base_fee tx
              in case create_l1_batch_env E n fo_ops (storage_view_new fo) of
                   None \<Rightarrow> (Panic, fo)
                 | Some ((batch_env, _), sv) \<Rightarrow>
                     (case contracts_for_fee_estimate (n_system_contracts n)
                             (initiator l2_tx \<in> n_impersonated_accounts n) of
                        None \<Rightarrow> (Panic, fo)
                      | Some base \<Rightarrow>
                          (Ok \<lparr>gs_tx = tx, gs_l2_tx = l2_tx, gs_base_fee = base_fee,
                               gs_gas_per_pubdata = gas_per_pubdata_byte,
                               gs_batch_env = batch_env\<lparr>be_fee_input := fee_input\<rparr>,
                               gs_system_env = create_system_env E n base EstimateFee\<rparr>,
                           sv_storage_handle sv))))"

definition step_at :: "ext \<Rightarrow> gas_setup \<Rightarrow> u64 \<Rightarrow> fork_storage \<Rightarrow> (vm_result \<times> fork_storage) option" where
  "step_at E g lim fo =
     estimate_gas_step E (gs_l2_tx g) (gs_gas_per_pubdata g) lim (gs_batch_env g) (gs_system_env g) fo"

section \<open>The answer\<close>

definition suggested_gas :: "u64 \<Rightarrow> single \<Rightarrow> u64" where
  "suggested_gas needed scale_factor = u64_of_f32 (f32_mul (f32_of_u64 needed) scale_factor)"

definition reverted_message :: "string \<Rightarrow> string" where
  "reverted_message message = ''execution reverted'' @ (if message = [] then [] else '': '') @ message"

definition gas_answer ::
  "ext \<Rightarrow> gas_setup \<Rightarrow> single \<Rightarrow> u64 \<Rightarrow> u64 \<Rightarrow> fork_storage \<Rightarrow> fee rpc \<times> fork_storage" where
  "gas_answer E g scale_factor additional_gas_for_pubdata upper_bound fo =
     (let suggested_gas_limit = suggested_gas (upper_bound + additional_gas_for_pubdata) scale_factor
      in case step_at E g suggested_gas_limit fo of
           None \<Rightarrow> (Panic, fo)
         | Some (r, fo') \<Rightarrow>
             (let overhead = ucast (x_derive_overhead E suggested_gas_limit (ucast (gs_gas_per_pubdata g))
                    (x_tx_encoding_len E (gs_tx g))
                    (ucast (x_tx_type_code E (transaction_type (gs_l2_tx g))))) :: u64
              in (case vm_exec r of
                    Revert output \<Rightarrow> Err (into_jsrpc_error E
                      (SubmitTransactionError (reverted_message (rv_string output)) (rv_data output)))
                  | Halt reason \<Rightarrow> Err (into_jsrpc_error E
                      (SubmitTransactionError (reverted_message reason) []))
                  | Success _ \<Rightarrow>
                      (case checked_add suggested_gas_limit overhead of
                         None \<Rightarrow> Err (into_jsrpc_error E (SubmitTransactionError ''exceeds block gas limit'' []))
                       | Some full_gas_limit \<Rightarrow>
                           Ok \<lparr>gas_limit = ucast full_gas_limit, max_fee_per_gas = ucast (gs_base_fee g),
                               max_priority_fee_per_gas = 0,
                               gas_per_pubdata_limit = ucast (gs_gas_per_pubdata g)\<rparr>),
                  fo')))"

definition estimate_prepared ::
  "ext \<Rightarrow> gas_setup \<Rightarrow> single \<Rightarrow> fork_storage \<Rightarrow> (fee rpc \<times> fork_storage) option" where
  "estimate_prepared E g scale_factor fo =
     (case step_at E g (x_batch_gas_limit E) fo of
        None \<Rightarrow> Some (Panic, fo)
      | Some (result, fo1) \<Rightarrow>
          if x_max_vm_pubdata_per_batch E < vm_pubdata_published result
          then Some (Err (into_jsrpc_error E
                 (SubmitTransactionError ''exceeds limit for published pubdata'' [])), fo1)
          else let additional_gas_for_pubdata = ucast (vm_pubdata_published result) * gs_gas_per_pubdata g in
            Option.bind (gas_search (\<lambda>mid fo. map_option (\<lambda>(r, fo'). (is_failed (vm_exec r), fo'))
                (step_at E g (additional_gas_for_pubdata + mid) fo)) 0 (x_max_l2_tx_gas_limit E) fo1)
              (\<lambda>found. Some (case found of
                 None \<Rightarrow> (Panic, fo)
               | Some (upper_bound, fo2) \<Rightarrow>
                   gas_answer E g scale_factor additional_gas_for_pubdata upper_bound fo2)))"

definition estimate_gas_impl :: "ext \<Rightarrow> call_request \<Rightarrow> inner \<Rightarrow> (fee rpc \<times> inner) option" where
  "estimate_gas_impl E req n =
     (case prepare_estimation E req n of
        (Err e, fo) \<Rightarrow> Some (Err e, n\<lparr>n_fork_storage := fo\<rparr>)
      | (Panic, fo) \<Rightarrow> Some (Panic, n)
      | (Ok g, fo) \<Rightarrow>
          map_option (\<lambda>(r, fo'). (r, n\<lparr>n_fork_storage := fo'\<rparr>))
            (estimate_prepared E g (fp_gas_scale_factor (n_fee_input_provider n)) fo))"

section \<open>Lemmas on the search\<close>

lemma midpoint:
  assumes "l \<le> u" "unat u \<le> 2 ^ 63" "l + ESTIMATE_GAS_ACCEPTABLE_OVERESTIMATION < (u :: u64)"
  defines "mid \<equiv> (l + u) div 2"
  shows "unat mid = (unat l + unat u) div 2" "l \<le> mid" "mid < u" "mid + 1 \<le> u"
    "unat (mid + 1) = unat mid + 1" "unat l \<le> unat mid" "unat mid < unat u"
proof -
  have lu: "unat l \<le> unat u" using assms(1) by (simp add: word_le_nat_alt)
  have "l \<noteq> u"
  proof
    assume "l = u"
    moreover have "unat (l + 1000) = unat l + unat (1000 :: u64)"
      using lu assms(2) by (intro unat_add_lem [THEN iffD1]) simp
    ultimately show False using assms(3)
      by (simp add: ESTIMATE_GAS_ACCEPTABLE_OVERESTIMATION_def word_less_nat_alt)
  qed
  then have less: "unat l < unat u" using lu by (metis le_neq_implies_less unsigned_word_eqI)
  then have "unat (l + u) = unat l + unat u"
    using assms(2) by (intro unat_add_lem [THEN iffD1]) simp
  then show m: "unat mid = (unat l + unat u) div 2" by (simp add: mid_def unat_div)
  show lt: "unat l \<le> unat mid" "unat mid < unat u" unfolding m using less by linarith+
  then show "l \<le> mid" "mid < u" by (simp_all add: word_le_nat_alt word_less_nat_alt)
  show p: "unat (mid + 1) = unat mid + 1" using lt assms(2) by (intro unat_plus_one) (auto simp: unat_minus_1)
  show "mid + 1 \<le> u" using lt p by (simp add: word_le_nat_alt)
qed

text \<open>
  The bracket kept by the search, for runs that are observed to fail or succeed (\<open>obs\<close>): just
  below \<open>l\<close> a run has failed (or \<open>l\<close> is 0), and at \<open>u\<close> one has succeeded (or \<open>u\<close> is
  where the search started).
\<close>

definition bracket :: "(u64 \<Rightarrow> bool \<Rightarrow> bool) \<Rightarrow> u64 \<Rightarrow> u64 \<Rightarrow> u64 \<Rightarrow> bool" where
  "bracket obs start l u \<longleftrightarrow> (l = 0 \<or> obs (l - 1) True) \<and> (u = start \<or> obs u False) \<and> l \<le> u \<and> unat u \<le> 2 ^ 63"

lemma gas_search_spec:
  assumes "bracket obs start l u" and "good s"
    and "\<And>mid s b s'. good s \<Longrightarrow> fails mid s = Some (b, s') \<Longrightarrow> good s' \<and> obs mid b"
  shows "\<exists>r. gas_search fails l u s = Some r \<and>
    ((\<forall>mid s. good s \<longrightarrow> fails mid s \<noteq> None) \<longrightarrow> r \<noteq> None) \<and>
    (\<forall>b s'. r = Some (b, s') \<longrightarrow> good s' \<and> (\<exists>l'. bracket obs start l' b \<and> unat b \<le> unat l' + 1000))"
  using assms(1,2)
proof (induction "unat u - unat l" arbitrary: l u s rule: less_induct)
  case less
  note b = less.prems(1) [unfolded bracket_def]
  show ?case
  proof (cases "l + ESTIMATE_GAS_ACCEPTABLE_OVERESTIMATION < u")
    case False
    have "unat (l + 1000) \<le> unat l + 1000"
      unfolding unat_word_ariths(1) by (rule order_trans [OF mod_less_eq_dividend]) simp
    then have "unat u \<le> unat l + 1000"
      using False by (simp add: ESTIMATE_GAS_ACCEPTABLE_OVERESTIMATION_def word_less_nat_alt)
    then show ?thesis using False less.prems by (subst gas_search.simps) auto
  next
    case True
    define mid where "mid = (l + u) div 2"
    have lu: "l \<le> u" "unat u \<le> 2 ^ 63" using b by auto
    note m = midpoint [OF lu True, folded mid_def]
    show ?thesis
    proof (cases "fails mid s")
      case None
      then have "gas_search fails l u s = Some None" using True by (subst gas_search.simps) (simp add: mid_def)
      then show ?thesis using less.prems(2) None by blast
    next
      case (Some p)
      obtain f s' where p: "p = (f, s')" by (cases p)
      have g: "good s'" "obs mid f" using assms(3) [OF less.prems(2), of mid f s'] Some p by auto
      show ?thesis
      proof (cases f)
        case True
        have "bracket obs start (mid + 1) u" using b g(2) True m by (auto simp: bracket_def)
        moreover have "unat u - unat (mid + 1) < unat u - unat l" using m by simp
        ultimately show ?thesis
          using less.hyps [of u "mid + 1" s'] g(1) \<open>l + _ < u\<close> Some p True
          by (subst gas_search.simps) (simp add: mid_def)
      next
        case False
        have "bracket obs start l mid" using b g(2) False m by (auto simp: bracket_def)
        moreover have "unat mid - unat l < unat u - unat l" using m by simp
        ultimately show ?thesis
          using less.hyps [of mid l s'] g(1) \<open>l + _ < u\<close> Some p False
          by (subst gas_search.simps) (simp add: mid_def)
      qed
    qed
  qed
qed

section \<open>Lemmas on runs\<close>

text \<open>What a run at a limit gives, over the contents of a storage: the same for every state of its caches.\<close>

definition gas_run :: "ext \<Rightarrow> gas_setup \<Rightarrow> u64 \<Rightarrow> fork_storage \<Rightarrow> vm_result option" where
  "gas_run E g lim fo =
     (case pure_run (\<lambda>k. unwrap (fork_value fo k)) (\<lambda>k. unwrap (fork_initial fo k)) (\<lambda>h. unwrap (fork_dep fo h))
             (gas_step_prog E (gs_l2_tx g) (gs_gas_per_pubdata g) lim (gs_batch_env g) (gs_system_env g)) Map.empty of
        Some (Some r, _) \<Rightarrow> Some r
      | _ \<Rightarrow> None)"

lemma gas_run_same: "same_contents fo fo' \<Longrightarrow> gas_run E g lim fo' = gas_run E g lim fo"
  by (simp add: gas_run_def same_contents_fork)

lemma same_contents_local: "same_local fo fo' \<Longrightarrow> caches_coherent fo' \<Longrightarrow> same_contents fo fo'"
  by (simp add: same_contents_def same_local_def)

lemma step_at_run:
  assumes "caches_coherent fo"
  shows "step_at E g lim fo = None \<longleftrightarrow> gas_run E g lim fo = None"
    and "step_at E g lim fo = Some (r, fo') \<Longrightarrow> gas_run E g lim fo = Some r \<and> same_contents fo fo'"
proof -
  have i: "fo.view_inv (storage_view_new fo)" using assms by (rule fo.view_new)
  define p where "p = gas_step_prog E (gs_l2_tx g) (gs_gas_per_pubdata g) lim (gs_batch_env g) (gs_system_env g)"
  note d = step_at_def estimate_gas_step_def gas_run_def p_def [symmetric]
  have m: "sv_modified (storage_view_new fo) = Map.empty" "sv_storage_handle (storage_view_new fo) = fo"
    by (simp_all add: storage_view_new_def)
  show "step_at E g lim fo = None \<longleftrightarrow> gas_run E g lim fo = None"
    using fo.run_refines [OF i, of p] unfolding d m by (auto split: option.splits)
  assume "step_at E g lim fo = Some (r, fo')"
  then obtain sv where sv: "run fo_ops p (storage_view_new fo) = Some (Some r, sv)" "fo' = sv_storage_handle sv"
    unfolding d by (auto split: option.splits)
  have "same_contents fo fo'"
    using run_good [OF i sv(1)] sv(2) m by (simp add: fo.same_below_def fo.view_inv_def same_contents_local)
  then show "gas_run E g lim fo = Some r \<and> same_contents fo fo'"
    using fo.run_refines [OF i, of p] sv(1) unfolding d m by (auto split: option.splits)
qed

lemma prepare_same:
  assumes "caches_coherent (n_fork_storage n)" and "prepare_estimation E req n = (r, fo)"
  shows "same_contents (n_fork_storage n) fo"
proof -
  have "same_contents (n_fork_storage n) (n_fork_storage n)" using assms(1) by (simp add: same_contents_def)
  moreover have "same_contents (n_fork_storage n) (sv_storage_handle sv)"
    if "create_l1_batch_env E n fo_ops (storage_view_new (n_fork_storage n)) = Some (x, sv)" for x sv
    using good_view_handle [OF good_view_env [OF good_view_new [OF assms(1)] that]] same_contents_local by blast
  ultimately show ?thesis
    using assms(2) by (auto simp: prepare_estimation_def Let_def split: res.splits option.splits prod.splits)
qed

text \<open>
  Single precision has 24 digits: with the scale factor 1 a need above 2 to the 24th may be
  rounded down, so that less gas is suggested than was found to be needed.
\<close>

lemma suggestion_below_need: "suggested_gas 16777217 f32_one = 16777216"
proof -
  have b: "nat_bits 16777217 = 25" "nat_bits 70368744177664 = 47" by (simp_all add: nat_bits.simps)
  have w: "f32_of_u64 16777217 = 0x4B800000"
    by (simp add: f32_of_u64_def f32_round_def b round_half_even_def Let_def)
  have f: "f32_exp 0x4B800000 = 151" "f32_frac 0x4B800000 = 0" "f32_exp f32_one = 127" "f32_frac f32_one = 0"
      "\<not> f32_sign 0x4B800000" "\<not> f32_sign f32_one"
    by (simp_all add: f32_exp_def f32_frac_def f32_one_def f32_sign_def)
  have "f32_mul 0x4B800000 f32_one = 0x4B800000"
    by (simp add: f32_mul_def f32_nan_def f32_inf_def f32_zero_def f32_sig_def f32_lsb_def f f32_round_def b
        round_half_even_def Let_def)
  then show ?thesis
    by (simp add: suggested_gas_def w u64_of_f32_def f32_nan_def f32_inf_def f32_sig_def f32_lsb_def f)
qed

lemma estimation_returns:
  assumes "unat (x_max_l2_tx_gas_limit E) \<le> 2 ^ 63"
  shows "\<exists>r. estimate_gas_impl E req n = Some r"
proof -
  have search: "\<exists>r. gas_search fails 0 (x_max_l2_tx_gas_limit E) s = Some r" for fails and s :: fork_storage
    using gas_search_spec [of "\<lambda>_ _. True" 0 0 "x_max_l2_tx_gas_limit E" "\<lambda>_. True" s fails] assms
    by (auto simp: bracket_def)
  have "\<exists>r. estimate_prepared E g scale fo = Some r" for g scale fo
  proof (cases "step_at E g (x_batch_gas_limit E) fo")
    case (Some p)
    obtain r fo1 where p: "p = (r, fo1)" by (cases p)
    obtain x where "gas_search (\<lambda>mid fo. map_option (\<lambda>(r, fo'). (is_failed (vm_exec r), fo'))
        (step_at E g (ucast (vm_pubdata_published r) * gs_gas_per_pubdata g + mid) fo)) 0 (x_max_l2_tx_gas_limit E) fo1 = Some x"
      using search by blast
    then show ?thesis using Some p by (simp add: estimate_prepared_def Let_def)
  qed (simp add: estimate_prepared_def)
  then show ?thesis
    by (auto simp: estimate_gas_impl_def split: prod.split res.split)
qed

section \<open>Properties\<close>

text \<open>C21: the estimation always returns. Whatever the virtual machine answers, the binary search
  over gas limits ends, as long as the largest gas limit of a transaction is at most 2 to the
  63rd (the sum of the two bounds then fits in a machine word).\<close>

theorem estimate_gas_returns:
  assumes "unat (x_max_l2_tx_gas_limit E) \<le> 2 ^ 63"
  shows "\<exists>r. estimate_gas_impl E req n = Some r"
  using assms by (rule estimation_returns)

lemma estimate_gas_returns_witness:
  "\<exists>r. estimate_gas_impl ext0 \<lparr>cr_gas = None, cr_gas_price = None, cr_max_fee_per_gas = None,
     cr_max_priority_fee_per_gas = None, cr_eip712_gas_per_pubdata = Some 0, cr_rest = []\<rparr> inner0 = Some r"
  by (rule estimate_gas_returns) (simp add: ext0_def)

definition observed :: "ext \<Rightarrow> gas_setup \<Rightarrow> fork_storage \<Rightarrow> u64 \<Rightarrow> bool \<Rightarrow> bool" where
  "observed E g fo lim failed \<longleftrightarrow> (\<exists>r. gas_run E g lim fo = Some r \<and> is_failed (vm_exec r) = failed)"

lemma search_observes:
  assumes "caches_coherent fo" and "unat (x_max_l2_tx_gas_limit E) \<le> 2 ^ 63" and "same_contents fo fo1"
  shows "\<exists>x. gas_search (\<lambda>mid fo. map_option (\<lambda>(r, fo'). (is_failed (vm_exec r), fo')) (step_at E g (add + mid) fo))
      0 (x_max_l2_tx_gas_limit E) fo1 = Some x \<and>
    ((\<forall>mid s. same_contents fo s \<longrightarrow> map_option (\<lambda>(r, fo'). (is_failed (vm_exec r), fo'))
        (step_at E g (add + mid) s) \<noteq> None) \<longrightarrow> x \<noteq> None) \<and>
    (\<forall>u fo2. x = Some (u, fo2) \<longrightarrow> same_contents fo fo2 \<and>
      (\<exists>l. bracket (\<lambda>lim. observed E g fo (add + lim)) (x_max_l2_tx_gas_limit E) l u \<and> unat u \<le> unat l + 1000))"
proof -
  have b: "bracket (\<lambda>lim. observed E g fo (add + lim)) (x_max_l2_tx_gas_limit E) 0 (x_max_l2_tx_gas_limit E)"
    using assms(2) by (simp add: bracket_def)
  have step: "same_contents fo s' \<and> observed E g fo (add + mid) b" if s: "same_contents fo s"
    and r: "map_option (\<lambda>(r, fo'). (is_failed (vm_exec r), fo')) (step_at E g (add + mid) s) = Some (b, s')"
    for mid s b s'
  proof -
  obtain r where r: "step_at E g (add + mid) s = Some (r, s')" "b = is_failed (vm_exec r)" using r by auto
  have "gas_run E g (add + mid) s = Some r \<and> same_contents s s'"
    using step_at_run(2) [OF _ r(1)] s by (simp add: same_contents_def)
  then show ?thesis using s r(2) gas_run_same [OF s] same_contents_trans [OF s] by (auto simp: observed_def)
  qed
  show ?thesis by (rule gas_search_spec [where good = "same_contents fo", OF b assms(3) step])
qed

text \<open>C23: what an estimate is. After a successful estimation: the gas for pubdata comes from a run at
  the batch limit; the search found an upper bound that is the maximum or the limit of a
  successful run, at most 1000 above a bound that is 0 or just above the limit of a failed
  run; the suggested limit is the scaled sum, a run at it succeeded, and the answer is it plus
  the overhead, without overflow. The node is left unchanged but for the caches of its fork.\<close>

theorem estimate_gas_answer:
  assumes "caches_coherent (n_fork_storage n)" and "unat (x_max_l2_tx_gas_limit E) \<le> 2 ^ 63"
    and "prepare_estimation E req n = (Ok g, fo)"
    and "estimate_gas_impl E req n = Some (Ok fee, n')"
  shows "\<exists>r0 additional lower upper suggested.
    gas_run E g (x_batch_gas_limit E) fo = Some r0 \<and>
    additional = ucast (vm_pubdata_published r0) * gs_gas_per_pubdata g \<and>
    lower \<le> upper \<and> unat upper \<le> unat lower + 1000 \<and>
    (upper = x_max_l2_tx_gas_limit E \<or> observed E g fo (additional + upper) False) \<and>
    (lower = 0 \<or> observed E g fo (additional + (lower - 1)) True) \<and>
    suggested = suggested_gas (upper + additional) (fp_gas_scale_factor (n_fee_input_provider n)) \<and>
    observed E g fo suggested False \<and>
    unat (gas_limit fee) = unat suggested + unat (x_derive_overhead E suggested (ucast (gs_gas_per_pubdata g))
      (x_tx_encoding_len E (gs_tx g)) (ucast (x_tx_type_code E (transaction_type (gs_l2_tx g))))) \<and>
    max_fee_per_gas fee = ucast (gs_base_fee g) \<and> gas_per_pubdata_limit fee = ucast (gs_gas_per_pubdata g) \<and>
    n' = n\<lparr>n_fork_storage := n_fork_storage n'\<rparr> \<and> same_contents (n_fork_storage n) (n_fork_storage n')"
proof -
  let ?scale = "fp_gas_scale_factor (n_fee_input_provider n)"
  have fo: "same_contents (n_fork_storage n) fo" "caches_coherent fo"
    using prepare_same [OF assms(1,3)] by (simp_all add: same_contents_def)
  obtain fo' where e: "estimate_prepared E g ?scale fo = Some (Ok fee, fo')" "n' = n\<lparr>n_fork_storage := fo'\<rparr>"
    using assms(4) by (auto simp: estimate_gas_impl_def assms(3))
  obtain r0 fo1 where r0: "step_at E g (x_batch_gas_limit E) fo = Some (r0, fo1)"
    using e(1) by (auto simp: estimate_prepared_def split: option.splits)
  note run0 = step_at_run(2) [OF fo(2) r0]
  define add where "add = ucast (vm_pubdata_published r0) * gs_gas_per_pubdata g"
  obtain x where x: "gas_search (\<lambda>mid fo. map_option (\<lambda>(r, fo'). (is_failed (vm_exec r), fo')) (step_at E g (add + mid) fo))
        0 (x_max_l2_tx_gas_limit E) fo1 = Some x"
      and sp: "\<And>u fo2. x = Some (u, fo2) \<Longrightarrow> same_contents fo fo2 \<and>
        (\<exists>l. bracket (\<lambda>lim. observed E g fo (add + lim)) (x_max_l2_tx_gas_limit E) l u \<and> unat u \<le> unat l + 1000)"
    using search_observes [OF fo(2) assms(2), of fo1 g add] run0 by blast
  obtain u fo2 where u: "x = Some (u, fo2)" and a: "gas_answer E g ?scale add u fo2 = (Ok fee, fo')"
    using e(1) r0 x by (auto simp: estimate_prepared_def Let_def add_def split: if_splits option.splits)
  obtain l where l: "bracket (\<lambda>lim. observed E g fo (add + lim)) (x_max_l2_tx_gas_limit E) l u" "unat u \<le> unat l + 1000"
      and fo2: "same_contents fo fo2" "caches_coherent fo2"
    using sp [OF u] by (auto simp: same_contents_def)
  define sug where "sug = suggested_gas (u + add) ?scale"
  obtain r fo3 out where r: "step_at E g sug fo2 = Some (r, fo3)" "vm_exec r = Success out" "fo3 = fo'"
    using a by (auto simp: gas_answer_def Let_def sug_def split: option.splits exec_result.splits)
  note run1 = step_at_run(2) [OF fo2(2) r(1)]
  let ?ov = "x_derive_overhead E sug (ucast (gs_gas_per_pubdata g)) (x_tx_encoding_len E (gs_tx g))
    (ucast (x_tx_type_code E (transaction_type (gs_l2_tx g))))"
  obtain full where f: "checked_add sug (ucast ?ov) = Some full"
      "fee = \<lparr>gas_limit = ucast full, max_fee_per_gas = ucast (gs_base_fee g), max_priority_fee_per_gas = 0,
        gas_per_pubdata_limit = ucast (gs_gas_per_pubdata g)\<rparr>"
    using a r by (auto simp: gas_answer_def Let_def sug_def split: option.splits)
  have w: "unat (ucast full :: u256) = unat full" "unat (ucast ?ov :: u64) = unat ?ov"
    using unat_bound64 [of full] unat_bound32 [of ?ov] by (simp_all add: unsigned_ucast_eq take_bit_nat_eq_self)
  have g: "unat (gas_limit fee) = unat sug + unat ?ov"
    using conjunct2 [OF checked_add_Some [OF f(1)]] unfolding f(2) w(2) by (simp only: fee.simps w(1))
  have "observed E g fo sug False" using run1 r(2) gas_run_same [OF fo2(1)] by (simp add: observed_def)
  moreover have "same_contents (n_fork_storage n) fo'"
    using same_contents_trans [OF fo(1) same_contents_trans [OF fo2(1)]] run1 r(3) by blast
  ultimately show ?thesis
    using run0 l g e(2) f(2) add_def sug_def unfolding bracket_def
    by (intro exI [of _ r0] exI [of _ add] exI [of _ l] exI [of _ u] exI [of _ sug]) simp
qed

text \<open>The libraries of the witness: every request is the transaction \<open>tx0\<close>.\<close>

definition ext_tx :: ext where
  "ext_tx = ext0\<lparr>x_l2_tx_from_request := \<lambda>_ _. Ok tx0\<rparr>"

definition request0 :: call_request where
  "request0 = \<lparr>cr_gas = None, cr_gas_price = None, cr_max_fee_per_gas = None, cr_max_priority_fee_per_gas = None,
     cr_eip712_gas_per_pubdata = None, cr_rest = []\<rparr>"

lemma prepare0:
  "\<exists>g fo. prepare_estimation ext_tx request0 inner0 = (Ok g, fo) \<and> max_fee_per_gas (tx_fee (gs_l2_tx g)) = 1 \<and>
     fo_fork fo = None \<and> im_state (fo_raw fo) = Map.empty"
proof -
  have e: "create_l1_batch_env ext_tx = create_l1_batch_env ext0"
    unfolding create_l1_batch_env_def load_last_l1_batch_def by (simp add: ext_tx_def fun_eq_iff cong del: let_weak_cong option.case_cong_weak if_weak_cong)
  obtain env ctx sv where v: "create_l1_batch_env ext0 inner0 fo_ops (storage_view_new (n_fork_storage inner0)) = Some ((env, ctx), sv)"
    using env0 by blast
  have "fo_fork (sv_storage_handle sv) = None \<and> im_state (fo_raw (sv_storage_handle sv)) = Map.empty"
    using good_view_handle [OF good_view_env [OF good_view_new v]] by (simp add: same_local_def)
  moreover have "contracts_for_fee_estimate (n_system_contracts inner0) b = Some contracts0" for b
    by (cases b; simp add: contracts_for_fee_estimate_def inner0_def)
  moreover have "x_derive_base_fee_and_gas_per_pubdata ext_tx f = (1, 1)" for f by (simp add: ext_tx_def ext0_def)
  moreover have "x_l2_tx_from_request ext_tx r m = Ok tx0" for r m by (simp add: ext_tx_def)
  ultimately show ?thesis
    using v by (simp add: prepare_estimation_def Let_def e estimated_tx_def)
qed

lemma step0:
  assumes "max_fee_per_gas (tx_fee (gs_l2_tx g)) = 1" and "fo_fork fo = None" and "im_state (fo_raw fo) = Map.empty"
  shows "\<exists>r fo'. step_at ext_tx g lim fo = Some (r, fo') \<and> \<not> is_failed (vm_exec r) \<and> fo_fork fo' = None \<and>
    im_state (fo_raw fo') = Map.empty \<and> vm_pubdata_published r = 0"
proof -
  have rd: "read_value_internal k fo = (Ok 0, fo)" for k
    using assms(2,3) by (simp add: read_value_internal_def im_read_value_def)
  obtain r where vm: "\<And>env se tx. x_vm_run_tx ext_tx env se tx = Return r" "\<not> is_failed (vm_exec (ro_result r))"
      "vm_pubdata_published (ro_result r) = 0"
    by (simp add: ext_tx_def ext0_def)
  have k: "x_nonce_key ext_tx a \<noteq> x_eth_balance_key ext_tx b" for a b by (simp add: ext_tx_def ext0_def)
  have m: "checked_mul (ucast x :: u256) 1 = Some (ucast x)" "checked_add 0 y = Some y" for x :: u64 and y :: u256
    using unsigned_less [of "ucast x :: u256"] unsigned_less [of y] by (simp_all add: checked_mul_def checked_add_def)
  show ?thesis
    using assms rd vm k [symmetric]
    by (simp add: step_at_def estimate_gas_step_def gas_step_prog_def Let_def get_value_no_log_def sv_set_value_def
        storage_view_new_def fo_ops_def unwrapped_def m split: prod.split)
qed

lemma estimate_gas_answer_witness:
  "\<exists>g fo fee n' suggested. prepare_estimation ext_tx request0 inner0 = (Ok g, fo) \<and>
     estimate_gas_impl ext_tx request0 inner0 = Some (Ok fee, n') \<and> observed ext_tx g fo suggested False \<and>
     unat (gas_limit fee) = unat suggested"
proof -
  obtain g fo where p: "prepare_estimation ext_tx request0 inner0 = (Ok g, fo)"
      "max_fee_per_gas (tx_fee (gs_l2_tx g)) = 1" "fo_fork fo = None" "im_state (fo_raw fo) = Map.empty"
    using prepare0 by blast
  have lim: "unat (x_max_l2_tx_gas_limit ext_tx) \<le> 2 ^ 63" by (simp add: ext_tx_def ext0_def)
  have coh: "caches_coherent fo" using p(3) by (simp add: caches_coherent_def)
  have st: "\<exists>r s'. step_at ext_tx g l s = Some (r, s') \<and> \<not> is_failed (vm_exec r) \<and> vm_pubdata_published r = 0 \<and>
      same_contents fo s'" if "same_contents fo s" for l s
    using step0 [OF p(2), of s l] step_at_run(2) [of s ext_tx g l] that p(3,4) same_contents_trans [OF that]
    by (fastforce simp: same_contents_def)
  obtain r0 fo1 where r0: "step_at ext_tx g (x_batch_gas_limit ext_tx) fo = Some (r0, fo1)" "vm_pubdata_published r0 = 0"
      "same_contents fo fo1"
    using st [of fo "x_batch_gas_limit ext_tx"] coh by (auto simp: same_contents_def)
  obtain u fo2 where u: "gas_search (\<lambda>mid fo. map_option (\<lambda>(r, fo'). (is_failed (vm_exec r), fo'))
      (step_at ext_tx g (0 + mid) fo)) 0 (x_max_l2_tx_gas_limit ext_tx) fo1 = Some (Some (u, fo2))" "same_contents fo fo2"
    using search_observes [OF coh lim r0(3), of g 0] st by fastforce
  obtain r fo3 where "step_at ext_tx g (suggested_gas (u + 0) (fp_gas_scale_factor (n_fee_input_provider inner0))) fo2 = Some (r, fo3)"
      "\<not> is_failed (vm_exec r)"
    using st [OF u(2)] by blast
  moreover have ov: "x_derive_overhead ext_tx a b c d = 0" for a b c d by (simp add: ext_tx_def ext0_def)
  moreover have "checked_add x 0 = Some x" for x :: u64 using unsigned_less [of x] by (simp add: checked_add_def)
  ultimately obtain fee where "gas_answer ext_tx g (fp_gas_scale_factor (n_fee_input_provider inner0)) 0 u fo2 = (Ok fee, fo3)"
    by (cases "vm_exec r") (auto simp: gas_answer_def Let_def)
  then have e: "estimate_gas_impl ext_tx request0 inner0 = Some (Ok fee, inner0\<lparr>n_fork_storage := fo3\<rparr>)"
    using r0 u(1) by (simp add: estimate_gas_impl_def p(1) estimate_prepared_def Let_def)
  show ?thesis using estimate_gas_answer [OF _ lim p(1) e] p(1) e by (auto simp: ov)
qed

end
