(* ===== verification/Eth_Api.thy ===== *)
theory Eth_Api
  imports Node_Ext Gas_Estimation
begin

text \<open>
  The eth namespace (\<open>src/node/eth.rs\<close>): calls and transactions, blocks, receipts, storage,
  filters, gas and fee history, over the node and, where the node has no answer, over the fork
  source.

  A handler that takes the lock for reading gives its answer and leaves the node alone; a panic
  in it does not poison the lock. One that takes it for writing gives the node afterwards too,
  even where it only fills the caches of the fork storage.
\<close>

section \<open>Looking into the node and its fork\<close>

definition fork_lookup :: "inner \<Rightarrow> (fork_source \<Rightarrow> (string, 'a option) res) \<Rightarrow> ('e, 'a option) res" where
  "fork_lookup n f =
     (case fo_fork (n_fork_storage n) of
        None \<Rightarrow> Ok None
      | Some fork \<Rightarrow>
          (case f (fd_source fork) of
             Ok x \<Rightarrow> Ok x
           | Err _ \<Rightarrow> Ok None
           | Panic \<Rightarrow> Panic))"

definition or_fork ::
  "'a option \<Rightarrow> inner \<Rightarrow> (fork_source \<Rightarrow> (string, 'a option) res) \<Rightarrow> ('e, 'a option) res" where
  "or_fork found n f = (case found of Some x \<Rightarrow> Ok (Some x) | None \<Rightarrow> fork_lookup n f)"

definition block_at :: "u64 \<Rightarrow> inner \<Rightarrow> block option" where
  "block_at number n = Option.bind (n_block_hashes n number) (n_blocks n)"

definition read_key :: "ext \<Rightarrow> storage_key \<Rightarrow> inner \<Rightarrow> h256 rpc \<times> inner" where
  "read_key E key n =
     (let (r, fo) = read_value_internal key (n_fork_storage n)
      in (map_err (report_into_jsrpc_error E) r, n\<lparr>n_fork_storage := fo\<rparr>))"

section \<open>Chain, calls and accounts\<close>

definition eth_chain_id :: "ext \<Rightarrow> node \<Rightarrow> u64 rpc" where
  "eth_chain_id E nd =
     read_inner (Err (internal_rpc_error E ''Failed to acquire read lock for chain ID retrieval''))
       (\<lambda>n. Ok (fo_chain_id (n_fork_storage n))) nd"

definition call_answer :: "ext \<Rightarrow> (string, exec_result) res \<Rightarrow> bytes rpc" where
  "call_answer E result =
     (case result of
        Ok (Success output) \<Rightarrow> Ok output
      | Ok (Revert output) \<Rightarrow> Err (into_jsrpc_error E
          (SubmitTransactionError (reverted_message (rv_friendly output)) (rv_data output)))
      | Ok (Halt reason) \<Rightarrow> Err (into_jsrpc_error E
          (SubmitTransactionError (''execution halted '' @ (if reason = [] then [] else '': '') @ reason) []))
      | Err e \<Rightarrow> Err (internal_rpc_error E (''Invalid data due to invalid name: '' @ e))
      | Panic \<Rightarrow> Panic)"

definition eth_call :: "ext \<Rightarrow> call_request \<Rightarrow> node \<Rightarrow> bytes rpc \<times> node" where
  "eth_call E req nd =
     (case x_l2_tx_from_request E (x_request_of_call E req) MAX_TX_SIZE of
        Ok tx \<Rightarrow>
          (let (result, nd') = run_l2_call E
                 (tx\<lparr>tx_fee := (tx_fee tx)\<lparr>gas_limit := ucast (x_eth_call_gas_limit E)\<rparr>\<rparr>) nd
           in (call_answer E result, nd'))
      | Err e \<Rightarrow> (Err (into_jsrpc_error E (SerializationError e)), nd)
      | Panic \<Rightarrow> (Panic, nd))"

definition eth_get_balance :: "ext \<Rightarrow> address \<Rightarrow> node \<Rightarrow> u256 rpc \<times> node" where
  "eth_get_balance E a nd =
     write_inner (Err (internal_rpc_error E ''Error acquiring write lock for balance retrieval''))
       (read_key E (x_token_balance_key E (x_base_token_address E) a)) nd"

definition eth_get_code :: "ext \<Rightarrow> address \<Rightarrow> node \<Rightarrow> bytes rpc \<times> node" where
  "eth_get_code E a nd =
     write_inner (Err (internal_rpc_error E ''Failed to acquire write lock for code retrieval''))
       (\<lambda>n. case read_key E (x_code_key E a) n of
              (Ok code_hash, n1) \<Rightarrow>
                (let (r, fo) = load_factory_dep_internal code_hash (n_fork_storage n1)
                 in (rbind (map_err (report_into_jsrpc_error E) r) (\<lambda>raw_code. Ok (unwrap_or raw_code [])),
                     n1\<lparr>n_fork_storage := fo\<rparr>))
            | (Err e, n1) \<Rightarrow> (Err e, n1)
            | (Panic, n1) \<Rightarrow> (Panic, n1)) nd"

definition eth_get_transaction_count :: "ext \<Rightarrow> address \<Rightarrow> node \<Rightarrow> u256 rpc \<times> node" where
  "eth_get_transaction_count E a nd =
     write_inner (Err (internal_rpc_error E ''Failed to acquire write lock for nonce retrieval''))
       (\<lambda>n. let (r, n') = read_key E (x_nonce_key E a) n
            in (rbind r (\<lambda>v. Ok (ucast (h256_to_u64 v))), n')) nd"

definition eth_accounts :: "ext \<Rightarrow> node \<Rightarrow> address list rpc" where
  "eth_accounts E nd =
     read_inner (Err (internal_rpc_error E ''Failed to acquire read lock for account retrieval.''))
       (\<lambda>n. Ok (n_rich_accounts n)) nd"

section \<open>Blocks\<close>

text \<open>
  The transactions of a block as they are asked for. \<open>None\<close> is the panic on a block of which
  only the hash of a transaction is known.
\<close>

fun variant_hash :: "tx_variant \<Rightarrow> h256" where
  "variant_hash (TxFull t) = at_hash t"
| "variant_hash (TxHash h) = h"

fun shown_tx :: "bool \<Rightarrow> tx_variant \<Rightarrow> tx_variant option" where
  "shown_tx full (TxFull t) = Some (if full then TxFull t else TxHash (at_hash t))"
| "shown_tx full (TxHash h) = (if full then None else Some (TxHash h))"

definition shown_block :: "bool \<Rightarrow> block option \<Rightarrow> block option rpc" where
  "shown_block full_transactions maybe_block =
     (case maybe_block of
        None \<Rightarrow> Ok None
      | Some b \<Rightarrow>
          (case those (map (shown_tx full_transactions) (b_transactions b)) of
             None \<Rightarrow> Panic
           | Some txs \<Rightarrow> Ok (Some (b\<lparr>b_transactions := txs\<rparr>))))"

definition eth_get_block_by_number :: "ext \<Rightarrow> block_number \<Rightarrow> bool \<Rightarrow> node \<Rightarrow> block option rpc" where
  "eth_get_block_by_number E block_number full_transactions nd =
     rbind (read_inner (Err (internal_rpc_error E ''Failed to acquire read lock for block retrieval''))
         (\<lambda>n. or_fork (block_at (to_real_block_number block_number (n_current_miniblock n)) n) n
                (\<lambda>s. fs_block_by_number s block_number True)) nd)
       (shown_block full_transactions)"

definition eth_get_block_by_hash :: "ext \<Rightarrow> h256 \<Rightarrow> bool \<Rightarrow> node \<Rightarrow> block option rpc" where
  "eth_get_block_by_hash E hash full_transactions nd =
     rbind (read_inner (Err (internal_rpc_error E ''Failed to acquire read lock for block retrieval.''))
         (\<lambda>n. or_fork (n_blocks n hash) n (\<lambda>s. fs_block_by_hash s hash True)) nd)
       (shown_block full_transactions)"

definition eth_get_block_number :: "ext \<Rightarrow> node \<Rightarrow> u64 rpc" where
  "eth_get_block_number E nd =
     read_inner (Err (internal_rpc_error E ''Failed to acquire read lock for block retrieval''))
       (\<lambda>n. Ok (n_current_miniblock n)) nd"

definition count_answer :: "ext \<Rightarrow> u256 option \<Rightarrow> u256 option rpc" where
  "count_answer E found = (case found of Some v \<Rightarrow> Ok (Some v) | None \<Rightarrow> Err (into_jsrpc_error E NoBlock))"

definition tx_count :: "block \<Rightarrow> u256" where
  "tx_count b = of_nat (length (b_transactions b))"

definition eth_get_block_transaction_count_by_number ::
  "ext \<Rightarrow> block_number \<Rightarrow> node \<Rightarrow> u256 option rpc" where
  "eth_get_block_transaction_count_by_number E block_number nd =
     rbind (read_inner (Err (internal_rpc_error E ''Failed to acquire read lock for transaction count retrieval.''))
         (\<lambda>n. or_fork (map_option tx_count
                (block_at (to_real_block_number block_number (n_current_miniblock n)) n)) n
                (\<lambda>s. fs_transaction_count_by_number s block_number)) nd)
       (count_answer E)"

definition eth_get_block_transaction_count_by_hash :: "ext \<Rightarrow> h256 \<Rightarrow> node \<Rightarrow> u256 option rpc" where
  "eth_get_block_transaction_count_by_hash E block_hash nd =
     rbind (read_inner (Err (internal_rpc_error E ''Failed to acquire read lock for transaction count retrieval.''))
         (\<lambda>n. or_fork (map_option tx_count (n_blocks n block_hash)) n
                (\<lambda>s. fs_transaction_count_by_hash s block_hash)) nd)
       (count_answer E)"

section \<open>Transactions and receipts\<close>

definition eth_get_transaction_receipt :: "ext \<Rightarrow> h256 \<Rightarrow> node \<Rightarrow> receipt option rpc" where
  "eth_get_transaction_receipt E hash nd =
     read_inner (Err (internal_rpc_error E ''Failed to acquire read lock for transaction receipt retrieval''))
       (\<lambda>n. Ok (map_option tr_receipt (map_of (n_tx_results n) hash))) nd"

fun tx_type_number :: "tx_type \<Rightarrow> u64" where
  "tx_type_number LegacyTransaction = 0"
| "tx_type_number EIP2930Transaction = 1"
| "tx_type_number EIP1559Transaction = 2"
| "tx_type_number EIP712Transaction = 113"
| "tx_type_number PriorityOpTransaction = 255"
| "tx_type_number ProtocolUpgradeTransaction = 254"

definition recorded_tx :: "ext \<Rightarrow> h256 \<Rightarrow> tx_execution_info \<Rightarrow> api_tx option" where
  "recorded_tx E hash info =
     (let tx = ti_tx info in
      Option.bind (tx_input tx) (\<lambda>input.
      Option.bind (x_extract_chain_id E tx) (\<lambda>chain_id.
        Some \<lparr>at_hash = hash, at_nonce = ucast (nonce tx), at_block_hash = Some hash,
              at_block_number = Some (ti_miniblock_number info), at_transaction_index = Some 0,
              at_from = Some (initiator tx), at_to = recipient tx, at_value = tx_value tx,
              at_gas_price = Some 0, at_gas = 0, at_input = in_data input,
              at_v = Some chain_id, at_r = Some 0, at_s = Some 0, at_raw = None,
              at_transaction_type = Some (tx_type_number (transaction_type tx)),
              at_max_fee_per_gas = Some (max_fee_per_gas (tx_fee tx)),
              at_max_priority_fee_per_gas = Some (max_priority_fee_per_gas (tx_fee tx)),
              at_chain_id = ucast chain_id, at_l1_batch_number = Some (ucast (ti_batch_number info)),
              at_l1_batch_tx_index = None\<rparr>)))"

definition eth_get_transaction_by_hash :: "ext \<Rightarrow> h256 \<Rightarrow> node \<Rightarrow> api_tx option rpc" where
  "eth_get_transaction_by_hash E hash nd =
     read_inner (Err (internal_rpc_error E ''Failed to acquire read lock for transaction retrieval.''))
       (\<lambda>n. or_fork (Option.bind (map_of (n_tx_results n) hash) (\<lambda>tr. recorded_tx E hash (tr_info tr))) n
              (\<lambda>s. fs_transaction_by_hash s hash)) nd"

text \<open>
  A transaction of a local block; one that the block only has the hash of is asked for at the
  fork.
\<close>

definition nth_option :: "nat \<Rightarrow> 'a list \<Rightarrow> 'a option" where
  "nth_option i xs = (if i < length xs then Some (xs ! i) else None)"

definition indexed_tx :: "inner \<Rightarrow> block option \<Rightarrow> u64 \<Rightarrow> ('e, api_tx option) res" where
  "indexed_tx n maybe_block index =
     (case Option.bind maybe_block (\<lambda>b. nth_option (unat index) (b_transactions b)) of
        None \<Rightarrow> Ok None
      | Some (TxFull tx) \<Rightarrow> Ok (Some tx)
      | Some (TxHash tx_hash) \<Rightarrow> fork_lookup n (\<lambda>s. fs_transaction_by_hash s tx_hash))"

definition eth_get_transaction_by_block_hash_and_index ::
  "ext \<Rightarrow> h256 \<Rightarrow> u64 \<Rightarrow> node \<Rightarrow> api_tx option rpc" where
  "eth_get_transaction_by_block_hash_and_index E block_hash index nd =
     read_inner (Err (internal_rpc_error E ''Failed to get storage.''))
       (\<lambda>n. rbind (indexed_tx n (n_blocks n block_hash) index) (\<lambda>found.
              or_fork found n (\<lambda>s. fs_transaction_by_block_hash_and_index s block_hash index))) nd"

definition eth_get_transaction_by_block_number_and_index ::
  "ext \<Rightarrow> block_number \<Rightarrow> u64 \<Rightarrow> node \<Rightarrow> api_tx option rpc" where
  "eth_get_transaction_by_block_number_and_index E block_number index nd =
     read_inner (Err (internal_rpc_error E ''Failed to acquire read lock for transaction retrieval.''))
       (\<lambda>n. rbind (indexed_tx n (block_at (to_real_block_number block_number (n_current_miniblock n)) n) index)
              (\<lambda>found. or_fork found n (\<lambda>s. fs_transaction_by_block_number_and_index s block_number index))) nd"

section \<open>Sending transactions\<close>

definition eth_send_raw_transaction :: "ext \<Rightarrow> bytes \<Rightarrow> node \<Rightarrow> h256 rpc \<times> node" where
  "eth_send_raw_transaction E tx_bytes nd =
     (case read_inner (Err (internal_rpc_error E ''Failed to acquire read lock for chain ID retrieval''))
             (\<lambda>n. Ok (fo_chain_id (n_fork_storage n))) nd of
        Err e \<Rightarrow> (Err e, nd)
      | Panic \<Rightarrow> (Panic, nd)
      | Ok chain_id \<Rightarrow>
     (case rbind (x_request_from_bytes E tx_bytes chain_id) (\<lambda>(tx_req, hash).
             rbind (x_l2_tx_from_request E tx_req MAX_TX_SIZE) (\<lambda>tx. Ok (tx, hash))) of
        Err e \<Rightarrow> (Err (into_jsrpc_error E (SerializationError e)), nd)
      | Panic \<Rightarrow> (Panic, nd)
      | Ok (tx, hash) \<Rightarrow>
          (let l2_tx = x_set_input E tx tx_bytes hash in
           if hash \<noteq> x_tx_hash E l2_tx
           then (Err (internal_rpc_error E
                  ''Invalid transaction data: computed hash does not match the provided hash.''), nd)
           else case run_l2_tx E l2_tx VerifyExecute nd of
                  (Ok _, nd') \<Rightarrow> (Ok hash, nd')
                | (Err e, nd') \<Rightarrow> (Err (into_jsrpc_error E
                    (SubmitTransactionError (''Execution error: '' @ e) (h256_bytes (x_tx_hash E l2_tx)))), nd')
                | (Panic, nd') \<Rightarrow> (Panic, nd'))))"

definition unsupported_fields :: string where
  "unsupported_fields =
     ''Transaction contains unsupported fields: max_fee_per_gas or max_priority_fee_per_gas''"

definition sent_request :: "ext \<Rightarrow> call_request \<Rightarrow> u64 \<Rightarrow> u64 \<Rightarrow> (rpc_error, tx_request) res" where
  "sent_request E tx chain_id l1_gas_price =
     (let req0 = x_request_of_call E tx;
          req1 = (if cr_gas tx = None then req0\<lparr>rq_gas := ucast (x_max_l1_tx_gas_limit E)\<rparr> else req0);
          req2 = req1\<lparr>rq_chain_id := Some chain_id\<rparr>
      in rbind
          (if cr_gas_price tx \<noteq> None
           then if cr_max_fee_per_gas tx \<noteq> None \<or> cr_max_priority_fee_per_gas tx \<noteq> None
                then Err (into_jsrpc_error_message unsupported_fields)
                else Ok req2
           else let req3 = req2\<lparr>rq_gas_price := unwrap_or (cr_max_fee_per_gas tx) (ucast l1_gas_price),
                     rq_max_priority_fee_per_gas := cr_max_priority_fee_per_gas tx\<rparr>
                in Ok (if rq_transaction_type req3 = None
                       then req3\<lparr>rq_transaction_type := Some (x_eip_1559_tx_type E)\<rparr> else req3))
          (\<lambda>req. Ok (req\<lparr>rq_r := Some 0, rq_s := Some 0, rq_v := Some 27\<rparr>)))"

definition impersonated_tx :: "ext \<Rightarrow> tx_request \<Rightarrow> (string, l2_tx) res" where
  "impersonated_tx E tx_req =
     rbind (x_request_tx_hash E tx_req) (\<lambda>hash.
     rbind (x_request_signed_bytes E tx_req) (\<lambda>bs.
     rbind (x_l2_tx_from_request E tx_req MAX_TX_SIZE) (\<lambda>tx.
       Ok (x_set_input E (tx\<lparr>signature := (replicate 65 0)[64 := 27]\<rparr>) bs hash))))"

definition may_send :: "ext \<Rightarrow> l2_tx \<Rightarrow> node \<Rightarrow> unit rpc" where
  "may_send E l2_tx nd =
     read_inner (Err (into_jsrpc_error_message ''Failed to acquire read lock for accounts.''))
       (\<lambda>n. if initiator l2_tx \<in> n_impersonated_accounts n then Ok ()
            else Err (into_jsrpc_error_message (''Initiator address '' @ x_fmt_address E (initiator l2_tx) @
                   '' is not allowed to perform transactions''))) nd"

definition eth_send_transaction :: "ext \<Rightarrow> call_request \<Rightarrow> node \<Rightarrow> h256 rpc \<times> node" where
  "eth_send_transaction E tx nd =
     (case rbind (read_inner (Err (into_jsrpc_error_message ''Failed to acquire read lock for chain ID retrieval.''))
               (\<lambda>n. Ok (fo_chain_id (n_fork_storage n), fp_l1_gas_price' (n_fee_input_provider n))) nd)
             (\<lambda>(chain_id, l1_gas_price).
           rbind (sent_request E tx chain_id l1_gas_price) (\<lambda>tx_req.
           rbind (map_err (\<lambda>e. into_jsrpc_error E (SerializationError e)) (impersonated_tx E tx_req)) (\<lambda>l2_tx.
           rbind (may_send E l2_tx nd) (\<lambda>_. Ok l2_tx)))) of
        Err e \<Rightarrow> (Err e, nd)
      | Panic \<Rightarrow> (Panic, nd)
      | Ok l2_tx \<Rightarrow>
          (case run_l2_tx E l2_tx VerifyExecute nd of
             (Ok _, nd') \<Rightarrow> (Ok (x_tx_hash E l2_tx), nd')
           | (Err e, nd') \<Rightarrow> (Err (into_jsrpc_error_message (''Execution error: '' @ e)), nd')
           | (Panic, nd') \<Rightarrow> (Panic, nd')))"

section \<open>Gas and fees\<close>

text \<open>The estimation runs under the read lock; only the caches of the fork storage change.\<close>

definition eth_estimate_gas :: "ext \<Rightarrow> call_request \<Rightarrow> node \<Rightarrow> (u256 rpc \<times> node) option" where
  "eth_estimate_gas E req nd =
     (if nd_inner_poisoned nd
      then Some (Err (internal_rpc_error E ''Failed to acquire read lock for gas estimation.''), nd)
      else map_option (\<lambda>(r, n). (rbind r (\<lambda>fee. Ok (gas_limit fee)), nd\<lparr>nd_inner := n\<rparr>))
             (estimate_gas_impl E req (nd_inner nd)))"

definition eth_gas_price :: "node \<Rightarrow> u256 rpc" where
  "eth_gas_price nd = read_inner Panic (\<lambda>n. Ok (ucast (fp_l2_gas_price (n_fee_input_provider n)))) nd"

record fee_history_out =
  fh_oldest_block :: u64
  fh_base_fee_per_gas :: "u256 list"
  fh_gas_used_ratio :: "f64 list"
  fh_reward :: "u256 list list"

text \<open>\<open>clamp\<close> panics when the current block is the largest 64-bit number.\<close>

definition eth_fee_history :: "ext \<Rightarrow> u64 \<Rightarrow> single list \<Rightarrow> node \<Rightarrow> fee_history_out rpc" where
  "eth_fee_history E block_count reward_percentiles nd =
     read_inner (Err (internal_rpc_error E ''Failed to acquire read lock for fee history.''))
       (\<lambda>n. let blocks = n_current_miniblock n + 1 in
            if blocks < 1 then Panic
            else let count = max 1 (min (min block_count 1024) blocks);
                     len = unat count;
                     fee = ucast (fp_l2_gas_price (n_fee_input_provider n)) :: u256;
                     base_fee_per_gas = replicate len fee
                 in Ok \<lparr>fh_oldest_block = n_current_miniblock n + 1 - of_nat len,
                        fh_base_fee_per_gas = base_fee_per_gas @ [last base_fee_per_gas],
                        fh_gas_used_ratio = replicate len f64_zero,
                        fh_reward = replicate len (replicate (length reward_percentiles) 0)\<rparr>) nd"

section \<open>Filters\<close>

record filter_spec =
  fr_from_block :: "block_number option"
  fr_to_block :: "block_number option"
  fr_address :: "address list option"
  fr_topics :: "h256 list option list option"

definition filter_topics :: "filter_spec \<Rightarrow> h256 set option list" where
  "filter_topics f =
     (case fr_topics f of
        None \<Rightarrow> replicate 4 None
      | Some ts \<Rightarrow> foldl (\<lambda>topics (i, maybe_topic_set).
            case maybe_topic_set of
              Some topic_set \<Rightarrow> topics[i := Some (set topic_set)]
            | None \<Rightarrow> topics) (replicate 4 None) (enumerate 0 (take 4 ts)))"

definition with_filters ::
  "ext \<Rightarrow> string \<Rightarrow> string \<Rightarrow> (eth_filters \<Rightarrow> (string, 'a \<times> eth_filters) res) \<Rightarrow> node \<Rightarrow> 'a rpc \<times> node" where
  "with_filters E lock_error error f nd =
     write_inner (Err (internal_rpc_error E lock_error))
       (\<lambda>n. case f (n_filters n) of
              Ok (x, fs) \<Rightarrow> (Ok x, n\<lparr>n_filters := fs\<rparr>)
            | Err _ \<Rightarrow> (Err (internal_rpc_error E error), n)
            | Panic \<Rightarrow> (Panic, n)) nd"

definition eth_new_filter :: "ext \<Rightarrow> filter_spec \<Rightarrow> node \<Rightarrow> u256 rpc \<times> node" where
  "eth_new_filter E f nd =
     with_filters E ''Failed to acquire write lock for filter creation''
       ''Failed to acquire write lock for new filter.''
       (add_log_filter (unwrap_or (fr_from_block f) Latest) (unwrap_or (fr_to_block f) Latest)
          (unwrap_or (fr_address f) []) (filter_topics f)) nd"

definition eth_new_block_filter :: "ext \<Rightarrow> node \<Rightarrow> u256 rpc \<times> node" where
  "eth_new_block_filter E nd =
     with_filters E ''Failed to acquire write lock for new filter.''
       ''Failed to acquire write lock for new block filter.'' add_block_filter nd"

definition eth_new_pending_transaction_filter :: "ext \<Rightarrow> node \<Rightarrow> u256 rpc \<times> node" where
  "eth_new_pending_transaction_filter E nd =
     with_filters E ''Failed to acquire write lock for transaction filter.''
       ''Failed to acquire write lock for transaction filter.'' add_pending_transaction_filter nd"

definition eth_uninstall_filter :: "ext \<Rightarrow> u256 \<Rightarrow> node \<Rightarrow> bool rpc \<times> node" where
  "eth_uninstall_filter E i nd =
     write_inner (Err (internal_rpc_error E ''Failed to acquire write lock for uninstalling filter.''))
       (\<lambda>n. let (removed, fs) = remove_filter i (n_filters n) in (Ok removed, n\<lparr>n_filters := fs\<rparr>)) nd"

text \<open>The logs of all recorded transactions that a filter accepts; \<open>None\<close> is a panic.\<close>

definition matching_logs :: "log_filter \<Rightarrow> inner \<Rightarrow> log list option" where
  "matching_logs f n =
     map_option (\<lambda>ms. map fst (filter snd ms))
       (those (map (\<lambda>lg. map_option (Pair lg) (log_matches f lg (n_current_miniblock n)))
          (concat (map (\<lambda>(_, tr). r_logs (tr_receipt tr)) (n_tx_results n)))))"

definition eth_get_logs :: "ext \<Rightarrow> filter_spec \<Rightarrow> node \<Rightarrow> log list rpc" where
  "eth_get_logs E f nd =
     read_inner (Err (internal_rpc_error E ''Failed to acquire read lock for logs.''))
       (\<lambda>n. expect (matching_logs (log_filter_new (unwrap_or (fr_from_block f) Earliest)
              (unwrap_or (fr_to_block f) Latest) (unwrap_or (fr_address f) []) (filter_topics f)) n)) nd"

definition eth_get_filter_logs :: "ext \<Rightarrow> u256 \<Rightarrow> node \<Rightarrow> filter_changes rpc" where
  "eth_get_filter_logs E i nd =
     read_inner (Err (internal_rpc_error E ''Failed to acquire read lock for get filter logs.''))
       (\<lambda>n. case get_filter i (n_filters n) of
              Some (LogF f) \<Rightarrow> rbind (expect (matching_logs f n)) (\<lambda>logs. Ok (Logs logs))
            | _ \<Rightarrow> Err (internal_rpc_error E ''Failed to acquire read lock for filter logs.'')) nd"

definition eth_get_filter_changes :: "ext \<Rightarrow> u256 \<Rightarrow> node \<Rightarrow> filter_changes rpc \<times> node" where
  "eth_get_filter_changes E i nd =
     write_inner (Err (internal_rpc_error E ''Failed to acquire write lock for filtered changes''))
       (\<lambda>n. let (r, fs) = get_new_changes i (n_filters n)
            in (map_err (\<lambda>_. internal_rpc_error E ''Failed to acquire write lock for filtered changes.'') r,
                n\<lparr>n_filters := fs\<rparr>)) nd"

section \<open>Storage\<close>

definition storage_block :: "ext \<Rightarrow> block_id option \<Rightarrow> inner \<Rightarrow> u64 rpc" where
  "storage_block E block n =
     (case block of
        None \<Rightarrow> Ok (n_current_miniblock n)
      | Some (BlockNumberId bn) \<Rightarrow> Ok (to_real_block_number bn (n_current_miniblock n))
      | Some (BlockNumberObject bn) \<Rightarrow> Ok (to_real_block_number bn (n_current_miniblock n))
      | Some (BlockHashObject h) \<Rightarrow>
          (case n_blocks n h of
             Some b \<Rightarrow> Ok (b_number b)
           | None \<Rightarrow> Err (internal_rpc_error E ''Failed to map block number to hash.'')))"

definition archived_value :: "u64 \<Rightarrow> storage_key \<Rightarrow> inner \<Rightarrow> h256" where
  "archived_value number key n =
     unwrap_or (Option.bind (n_block_hashes n number) (\<lambda>block_hash.
       Option.bind (map_of (n_previous_states n) block_hash) (\<lambda>state. state key))) 0"

definition storage_inner :: "ext \<Rightarrow> address \<Rightarrow> u256 \<Rightarrow> block_id option \<Rightarrow> inner \<Rightarrow> h256 rpc \<times> inner" where
  "storage_inner E a idx block n =
     (let key = StorageKey a idx in
      case storage_block E block n of
        Err e \<Rightarrow> (Err e, n)
      | Panic \<Rightarrow> (Panic, n)
      | Ok number \<Rightarrow>
          if number = n_current_miniblock n then read_key E key n
          else if n_block_hashes n number \<noteq> None
          then (if archived_value number key n = 0 then read_key E key n
                else (Ok (archived_value number key n), n))
          else case fo_fork (n_fork_storage n) of
                 None \<Rightarrow> (Err (internal_rpc_error E ''Failed to get storage.''), n)
               | Some fork \<Rightarrow>
                   (case fs_storage_at (fd_source fork) a idx block of
                      Ok v \<Rightarrow> (Ok v, n)
                    | Err _ \<Rightarrow> (Err (internal_rpc_error E ''Failed to get storage.''), n)
                    | Panic \<Rightarrow> (Panic, n)))"

definition eth_get_storage :: "ext \<Rightarrow> address \<Rightarrow> u256 \<Rightarrow> block_id option \<Rightarrow> node \<Rightarrow> h256 rpc \<times> node" where
  "eth_get_storage E a idx block nd =
     write_inner (Err (internal_rpc_error E ''Failed to acquire write lock for storage retrieval.''))
       (storage_inner E a idx block) nd"

section \<open>Constant answers\<close>

datatype sync_state = NotSyncing

definition eth_protocol_version :: "string rpc" where "eth_protocol_version = Ok PROTOCOL_VERSION"
definition eth_syncing :: "sync_state rpc" where "eth_syncing = Ok NotSyncing"
definition eth_coinbase :: "address rpc" where "eth_coinbase = not_implemented ''eth_coinbase''"
definition eth_compilers :: "string list rpc" where "eth_compilers = not_implemented ''eth_getCompilers''"
definition eth_hashrate :: "u256 rpc" where "eth_hashrate = not_implemented ''eth_hashrate''"
definition eth_uncle_count_by_block_hash :: "u256 option rpc" where
  "eth_uncle_count_by_block_hash = not_implemented ''eth_getUncleCountByBlockHash''"
definition eth_uncle_count_by_block_number :: "u256 option rpc" where
  "eth_uncle_count_by_block_number = not_implemented ''eth_getUncleCountByBlockNumber''"
definition eth_mining :: "bool rpc" where "eth_mining = not_implemented ''eth_mining''"

section \<open>Lemmas\<close>

lemma may_send_iff: "may_send E tx nd = Ok u \<longleftrightarrow> \<not> nd_inner_poisoned nd \<and> initiator tx \<in> n_impersonated_accounts (nd_inner nd)"
  by (auto simp: may_send_def read_inner_def)

lemma or_fork_simps [simp]:
  "or_fork (Some x) n f = Ok (Some x)" "or_fork None n f = fork_lookup n f"
  "fo_fork (n_fork_storage n) = None \<Longrightarrow> fork_lookup n f = Ok None"
  by (simp_all add: or_fork_def fork_lookup_def)

lemma read_key_correct:
  assumes "caches_coherent (n_fork_storage n)" and "read_key E k n = (r, n')"
  shows "r = map_err (report_into_jsrpc_error E) (fork_value (n_fork_storage n) k) \<and>
    n' = n\<lparr>n_fork_storage := n_fork_storage n'\<rparr> \<and> same_contents (n_fork_storage n) (n_fork_storage n')"
  using read_value_correct [OF assms(1), of k] assms(2)
  by (auto simp: read_key_def Let_def split: prod.splits)

text \<open>What a transaction that was run leaves for the queries.\<close>

lemma run_l2_tx_queries:
  assumes "run_l2_tx E tx mode nd = (Ok u, nd')"
    and "n_current_miniblock (nd_inner nd) < 2 ^ 64 - 2"
    and "compute_hash E (n_current_miniblock (nd_inner nd) + 1) (x_tx_hash E tx) \<noteq>
      compute_hash E (n_current_miniblock (nd_inner nd) + 2) 0"
  shows "\<exists>env ctx out sv tr b t. vm_run E tx mode (nd_inner nd) = Some (env, ctx, out, sv) \<and>
    b = tx_block E (nd_inner nd) tx env ctx (io_result out) \<and>
    records E tx b (io_result out) (io_traces out) (nd_inner nd) tr \<and>
    \<not> nd_inner_poisoned nd' \<and> map_of (n_tx_results (nd_inner nd')) (x_tx_hash E tx) = Some tr \<and>
    b_timestamp b = ucast (sat_add (n_current_timestamp (nd_inner nd)) 1) \<and> b_number b = n_current_miniblock (nd_inner nd) + 1 \<and>
    n_blocks (nd_inner nd') (b_hash b) = Some b \<and> block_at (b_number b) (nd_inner nd') = Some b \<and>
    b_transactions b = [TxFull t] \<and> at_hash t = at_hash (x_api_tx_of_l2_tx E tx) \<and>
    n_current_miniblock (nd_inner nd') = n_current_miniblock (nd_inner nd) + 2"
proof -
  let ?k = "n_current_miniblock (nd_inner nd)"
  obtain lt fo b2 tr where e: "run_l2_tx_raw E tx mode True (notified E tx (nd_inner nd)) = (Ok lt, fo)"
      "two_blocks E tx (lt_block lt) b2 (nd_inner nd) (nd_inner nd')"
      "n_tx_results (nd_inner nd') = al_insert (x_tx_hash E tx) tr (n_tx_results (nd_inner nd))"
      "records E tx (lt_block lt) (lt_result lt) (lt_traces lt) (nd_inner nd) tr"
    and nd': "nd' = nd\<lparr>nd_inner := nd_inner nd'\<rparr>"
    using run_l2_tx_effects [OF assms(1)] by blast
  have np: "\<not> nd_inner_poisoned nd'" using run_l2_tx_Ok [OF assms(1)] nd' by (metis node.select_convs(2) node.surjective node.update_convs(1))
  have m: "(- 1 :: u64) = 2 ^ 64 - 1" "(- 1 - 1 :: u64) = 2 ^ 64 - 2" by simp_all
  have k: "?k \<noteq> - 1" "?k + 1 \<noteq> - 1"
    using assms(2) by (auto simp: m eq_diff_eq [symmetric])
  have s: "sat_add ?k 1 = ?k + 1" "sat_add (?k + 1) 1 = ?k + 2"
    using k by (simp_all add: sat_add_one add.assoc)
  obtain env ctx out sv where v: "vm_run E tx mode (nd_inner nd) = Some (env, ctx, out, sv)"
      "lt_result lt = io_result out" "lt_traces lt = io_traces out"
      and b1: "lt_block lt = tx_block E (nd_inner nd) tx env ctx (io_result out)"
    using run_l2_tx_raw_vm_run [OF e(1)] by (auto simp: result_of_run_def)
  obtain t where t: "b_transactions (lt_block lt) = [TxFull t]" "at_hash t = at_hash (x_api_tx_of_l2_tx E tx)"
    by (subst (asm) b1) (auto simp: b1 tx_block_def Let_def)
  show ?thesis
    using e np t s v b1 assms(3)
    by (intro exI [of _ env] exI [of _ ctx] exI [of _ out] exI [of _ sv] exI [of _ tr] exI [of _ "lt_block lt"] exI [of _ t])
      (auto simp: two_blocks_def block_at_def)
qed

text \<open>The transactions that the bytes and the request of the two ways of sending stand for; one that is
  sent is one that was run.\<close>

definition raw_stands_for :: "ext \<Rightarrow> bytes \<Rightarrow> inner \<Rightarrow> l2_tx \<Rightarrow> bool" where
  "raw_stands_for E tx_bytes n tx \<longleftrightarrow>
     (\<exists>req h tx0. x_request_from_bytes E tx_bytes (fo_chain_id (n_fork_storage n)) = Ok (req, h) \<and>
        x_l2_tx_from_request E req MAX_TX_SIZE = Ok tx0 \<and> tx = x_set_input E tx0 tx_bytes h)"

definition request_stands_for :: "ext \<Rightarrow> call_request \<Rightarrow> inner \<Rightarrow> l2_tx \<Rightarrow> bool" where
  "request_stands_for E req n tx \<longleftrightarrow>
     (\<exists>tx_req. sent_request E req (fo_chain_id (n_fork_storage n)) (fp_l1_gas_price' (n_fee_input_provider n)) = Ok tx_req \<and>
        impersonated_tx E tx_req = Ok tx)"

lemma sent_is_run:
  assumes "eth_send_raw_transaction E tx_bytes nd = (Ok h, nd') \<or> eth_send_transaction E req nd = (Ok h, nd')"
  shows "\<exists>tx. run_l2_tx E tx VerifyExecute nd = (Ok (), nd') \<and> x_tx_hash E tx = h \<and>
    (eth_send_raw_transaction E tx_bytes nd = (Ok h, nd') \<and> raw_stands_for E tx_bytes (nd_inner nd) tx \<or>
     eth_send_transaction E req nd = (Ok h, nd') \<and> request_stands_for E req (nd_inner nd) tx \<and>
       initiator tx \<in> n_impersonated_accounts (nd_inner nd))"
  using assms
proof
  assume a: "eth_send_raw_transaction E tx_bytes nd = (Ok h, nd')"
  then have "\<exists>tx. run_l2_tx E tx VerifyExecute nd = (Ok (), nd') \<and> x_tx_hash E tx = h \<and> raw_stands_for E tx_bytes (nd_inner nd) tx"
    by (auto simp: eth_send_raw_transaction_def raw_stands_for_def read_inner_def rbind_eq_Ok Let_def
        split: res.splits prod.splits if_splits)
  then show ?thesis using a by blast
next
  assume a: "eth_send_transaction E req nd = (Ok h, nd')"
  then have "\<exists>tx. run_l2_tx E tx VerifyExecute nd = (Ok (), nd') \<and> x_tx_hash E tx = h \<and>
      request_stands_for E req (nd_inner nd) tx \<and> initiator tx \<in> n_impersonated_accounts (nd_inner nd)"
    by (auto simp: eth_send_transaction_def request_stands_for_def read_inner_def rbind_eq_Ok map_err_eq_Ok may_send_iff
        split: res.splits prod.splits if_splits)
  then show ?thesis using a by blast
qed

section \<open>Properties\<close>

text \<open>C20: only impersonated accounts send unsigned transactions. When the transaction that a request
  stands for comes from an account that is not impersonated, \<open>eth_sendTransaction\<close> is refused and
  the node is exactly as it was.\<close>

theorem send_needs_impersonation:
  assumes "\<And>tx_req tx. sent_request E req (fo_chain_id (n_fork_storage (nd_inner nd)))
      (fp_l1_gas_price' (n_fee_input_provider (nd_inner nd))) = Ok tx_req \<Longrightarrow> impersonated_tx E tx_req = Ok tx \<Longrightarrow>
      initiator tx \<notin> n_impersonated_accounts (nd_inner nd)"
    and "eth_send_transaction E req nd = (r, nd')"
  shows "nd' = nd \<and> \<not> is_Ok r"
  using assms(2)
  by (auto simp: eth_send_transaction_def read_inner_def rbind_eq_Ok map_err_eq_Ok may_send_iff split: res.splits if_splits
      dest: assms(1))

text \<open>C27: two ways to the same block. Every block of a node whose chain is well-formed and which does
  not fork is answered alike by its number and by its hash: the block itself, with or without
  its transactions, the number of its transactions, and each of them.\<close>

theorem block_queries_agree:
  assumes "chain_inv (nd_inner nd)" and "\<not> nd_inner_poisoned nd"
    and "n_block_hashes (nd_inner nd) k = Some h"
  shows "\<exists>b. n_blocks (nd_inner nd) h = Some b \<and> b_hash b = h \<and>
    eth_get_block_by_number E (Number k) full nd = shown_block full (Some b) \<and>
    eth_get_block_by_hash E h full nd = shown_block full (Some b) \<and>
    eth_get_block_transaction_count_by_number E (Number k) nd = Ok (Some (of_nat (length (b_transactions b)))) \<and>
    eth_get_block_transaction_count_by_hash E h nd = Ok (Some (of_nat (length (b_transactions b)))) \<and>
    (\<forall>i t. unat i < length (b_transactions b) \<longrightarrow> b_transactions b ! unat i = TxFull t \<longrightarrow>
       eth_get_transaction_by_block_number_and_index E (Number k) i nd = Ok (Some t) \<and>
       eth_get_transaction_by_block_hash_and_index E h i nd = Ok (Some t))"
proof -
  obtain b where b: "n_blocks (nd_inner nd) h = Some b" "b_hash b = h"
    using assms(1,3) unfolding chain_inv_def by (metis option.exhaust)
  then have "block_at k (nd_inner nd) = Some b" using assms(3) by (simp add: block_at_def)
  then show ?thesis
    using b assms(2)
    by (intro exI [of _ b]) (simp add: eth_get_block_by_number_def eth_get_block_by_hash_def to_real_block_number_def
      eth_get_block_transaction_count_by_number_def eth_get_block_transaction_count_by_hash_def count_answer_def
      tx_count_def eth_get_transaction_by_block_number_and_index_def eth_get_transaction_by_block_hash_and_index_def
      indexed_tx_def nth_option_def)
qed

text \<open>C31: storage at an earlier block. For a local block with an archived state the answer is the
  archived value of the slot; but a slot that was zero (or absent) then is answered with the
  value it has now. Nothing but the caches changes.\<close>

theorem storage_at_earlier_block:
  assumes "caches_coherent (n_fork_storage (nd_inner nd))" and "\<not> nd_inner_poisoned nd"
    and "k \<noteq> n_current_miniblock (nd_inner nd)" and "n_block_hashes (nd_inner nd) k = Some h"
    and "map_of (n_previous_states (nd_inner nd)) h = Some state"
    and "eth_get_storage E a idx (Some (BlockNumberId (Number k))) nd = (r, nd')"
  shows "r = (case state (StorageKey a idx) of
        Some v \<Rightarrow> if v \<noteq> 0 then Ok v
          else map_err (report_into_jsrpc_error E) (fork_value (n_fork_storage (nd_inner nd)) (StorageKey a idx))
      | None \<Rightarrow> map_err (report_into_jsrpc_error E) (fork_value (n_fork_storage (nd_inner nd)) (StorageKey a idx))) \<and>
    (r \<noteq> Panic \<longrightarrow> same_contents (n_fork_storage (nd_inner nd)) (n_fork_storage (nd_inner nd')))"
proof -
  let ?n = "nd_inner nd" and ?key = "StorageKey a idx"
  have v: "archived_value k ?key ?n = unwrap_or (state ?key) 0"
    using assms(4,5) by (simp add: archived_value_def)
  obtain r1 n1 where rk: "read_key E ?key ?n = (r1, n1)" by (cases "read_key E ?key ?n")
  note c = read_key_correct [OF assms(1) rk]
  have own: "same_contents (n_fork_storage ?n) (n_fork_storage ?n)" using assms(1) by (simp add: same_contents_def)
  have i: "storage_inner E a idx (Some (BlockNumberId (Number k))) ?n =
      (if unwrap_or (state ?key) 0 = 0 then (r1, n1) else (Ok (unwrap_or (state ?key) 0), ?n))"
    using assms(3,4) rk by (simp add: storage_inner_def Let_def storage_block_def to_real_block_number_def v)
  have r: "r = fst (storage_inner E a idx (Some (BlockNumberId (Number k))) ?n)"
      "r \<noteq> Panic \<Longrightarrow> nd_inner nd' = snd (storage_inner E a idx (Some (BlockNumberId (Number k))) ?n)"
    using assms(2,6) by (auto simp: eth_get_storage_def write_inner_def split: prod.splits res.splits)
  show ?thesis
    using c own r unfolding i by (auto split: option.splits if_splits)
qed

text \<open>The fee history. Unless the chain is at the last 64-bit block number, it covers at least one
  and at most 1024 blocks, never more than were asked for (when at least one was) or exist,
  and ends at the current block; there is one fee more than there are blocks, all equal to
  the node's price, and one row of rewards per block.\<close>

theorem fee_history_covers:
  assumes "\<not> nd_inner_poisoned nd" and "n_current_miniblock (nd_inner nd) \<noteq> - 1"
  shows "\<exists>out len. eth_fee_history E block_count percentiles nd = Ok out \<and>
    1 \<le> len \<and> len \<le> 1024 \<and> len \<le> max 1 (unat block_count) \<and>
    unat (fh_oldest_block out) + len = unat (n_current_miniblock (nd_inner nd)) + 1 \<and>
    fh_base_fee_per_gas out = replicate (len + 1) (ucast (fp_l2_gas_price (n_fee_input_provider (nd_inner nd)))) \<and>
    length (fh_gas_used_ratio out) = len \<and> fh_reward out = replicate len (replicate (length percentiles) 0)"
proof -
  let ?k = "n_current_miniblock (nd_inner nd)"
  have k: "unat (?k + 1) = unat ?k + 1" using assms(2) by (rule unat_plus_one)
  define count where "count = max 1 (min (min block_count 1024) (?k + 1))"
  define len where "len = unat count"
  have one: "1 \<le> ?k + 1" using k by (simp add: word_le_nat_alt)
  have len: "len = max 1 (min (min (unat block_count) 1024) (unat ?k + 1))"
    using k by (simp add: len_def count_def max_def min_def word_le_nat_alt)
  have lens: "1 \<le> len" "len \<le> 1024" "len \<le> max 1 (unat block_count)" using len by auto
  have cnt: "(of_nat len :: u64) = count" by (simp add: len_def)
  have "count \<le> ?k + 1" using one by (simp add: count_def)
  then have old: "unat (?k + 1 - of_nat len) + len = unat ?k + 1"
    unfolding cnt using k by (simp add: unat_sub len_def word_le_nat_alt)
  have ne: "len \<noteq> 0" using len by simp
  have nz: "?k + 1 \<noteq> 0" using k by force
  have "eth_fee_history E block_count percentiles nd = Ok
      \<lparr>fh_oldest_block = ?k + 1 - of_nat len,
       fh_base_fee_per_gas = replicate (len + 1) (ucast (fp_l2_gas_price (n_fee_input_provider (nd_inner nd)))),
       fh_gas_used_ratio = replicate len f64_zero, fh_reward = replicate len (replicate (length percentiles) 0)\<rparr>"
    using assms(1) one ne nz by (simp add: eth_fee_history_def Let_def cnt count_def [symmetric] len_def [symmetric] not_less
        replicate_append_same)
  then show ?thesis using lens old by (intro exI [of _ "\<lparr>fh_oldest_block = ?k + 1 - of_nat len,
       fh_base_fee_per_gas = replicate (len + 1) (ucast (fp_l2_gas_price (n_fee_input_provider (nd_inner nd)))),
       fh_gas_used_ratio = replicate len f64_zero, fh_reward = replicate len (replicate (length percentiles) 0)\<rparr>"]
       exI [of _ len]) simp
qed

section \<open>Witnesses\<close>

text \<open>
  The libraries of the witnesses: every raw transaction and every request is \<open>tx0\<close>. What
  turns requests into transactions has no influence on how a transaction is run.
\<close>

definition with_requests :: "ext \<Rightarrow> ext" where
  "with_requests E = E\<lparr>x_l2_tx_from_request := \<lambda>_ _. Ok tx0, x_set_input := \<lambda>tx _ _. tx,
     x_request_from_bytes := \<lambda>_ _. Ok (x_request_of_call ext0 request0, 500),
     x_request_tx_hash := \<lambda>_. Ok 500, x_request_signed_bytes := \<lambda>_. Ok [], x_extract_chain_id := \<lambda>_. Some 260\<rparr>"

lemma with_requests_env: "create_l1_batch_env (with_requests E) = create_l1_batch_env E"
  unfolding create_l1_batch_env_def load_last_l1_batch_def
  by (simp add: with_requests_def fun_eq_iff cong del: let_weak_cong option.case_cong_weak if_weak_cong)

lemma with_requests_bytecodes: "convert_bytecodes (with_requests E) bs acc = convert_bytecodes E bs acc"
proof -
  have "bytecode_to_factory_dep (with_requests E) = bytecode_to_factory_dep E"
    unfolding bytecode_to_factory_dep_def hash_bytecode_def
    by (simp add: with_requests_def fun_eq_iff cong del: let_weak_cong option.case_cong_weak if_weak_cong)
  then show ?thesis by (induction bs arbitrary: acc) simp_all
qed

lemma with_requests_simps [simp]:
  "x_vm_inspect_with_compression (with_requests E) = x_vm_inspect_with_compression E"
  "x_api_tx_of_l2_tx (with_requests E) = x_api_tx_of_l2_tx E" "x_keccak256 (with_requests E) = x_keccak256 E"
  "x_tx_hash (with_requests E) = x_tx_hash E" "x_batch_gas_limit (with_requests E) = x_batch_gas_limit E"
  "x_protocol_version_latest (with_requests E) = x_protocol_version_latest E"
  "x_batch_computational_gas_limit (with_requests E) = x_batch_computational_gas_limit E"
  "x_l2_tx_from_request (with_requests E) req m = Ok tx0" "x_set_input (with_requests E) tx bs h = tx"
  "x_request_from_bytes (with_requests E) bs c = Ok (x_request_of_call ext0 request0, 500)"
  "x_request_tx_hash (with_requests E) req = Ok 500" "x_request_signed_bytes (with_requests E) req = Ok []"
  "x_extract_chain_id (with_requests E) tx = Some 260"
  by (simp_all add: with_requests_def)

lemma with_requests_raw: "run_l2_tx_raw (with_requests E) = run_l2_tx_raw E"
  unfolding fun_eq_iff run_l2_tx_raw_def with_requests_env with_requests_bytecodes create_system_env_def tx_block_def
    compute_hash_def with_requests_simps by simp

lemma with_requests_commit: "commit_tx (with_requests E) = commit_tx E"
  unfolding commit_tx_def record_tx_def make_receipt_def contract_address_from_tx_result_def store_bytecodes_def
    words_to_bytes_def create_empty_block_def compute_hash_def create_debug_output_def
  by (simp add: with_requests_def fun_eq_iff cong del: let_weak_cong option.case_cong_weak if_weak_cong exec_result.case_cong_weak)

lemma with_requests_run: "run_l2_tx (with_requests E) = run_l2_tx E"
  unfolding fun_eq_iff run_l2_tx_def with_requests_raw with_requests_commit with_requests_simps by simp

lemma send_raw0: "\<exists>nd'. eth_send_raw_transaction (with_requests ext0) [] node0 = (Ok 500, nd')"
proof -
  obtain nd' where "run_l2_tx ext0 tx0 VerifyExecute node0 = (Ok (), nd')" using run0 by blast
  moreover have "x_tx_hash ext0 tx0 = 500" by (simp add: ext0_def tx0_def witness_l2_tx_def)
  ultimately show ?thesis by (simp add: eth_send_raw_transaction_def with_requests_run Let_def)
qed

lemma compute_hash0: "compute_hash (with_requests ext0) 1 500 \<noteq> compute_hash (with_requests ext0) 2 0"
proof -
  have b: "u64_be_bytes 1 = [0, 0, 0, 0, 0, 0, 0, 1]" "u64_be_bytes 2 = [0, 0, 0, 0, 0, 0, 0, 2]"
    by (simp_all add: u64_be_bytes_def upt_rec)
  have h: "h256_bytes 0 = [0, 0, 0, 0, 0, 0, 0, 0, 0, 0, 0, 0, 0, 0, 0, 0, 0, 0, 0, 0, 0, 0, 0, 0, 0, 0, 0, 0, 0, 0, 0, 0]"
      "h256_bytes 500 = [0, 0, 0, 0, 0, 0, 0, 0, 0, 0, 0, 0, 0, 0, 0, 0, 0, 0, 0, 0, 0, 0, 0, 0, 0, 0, 0, 0, 0, 0, 1, 244]"
    by (simp_all add: h256_bytes_def upt_rec)
  show ?thesis by (simp add: compute_hash_def b h) (simp add: ext0_def)
qed

lemma send_needs_impersonation_witness:
  "\<exists>r. eth_send_transaction (with_requests ext0) request0 node0 = (r, node0) \<and> \<not> is_Ok r"
proof -
  obtain r nd' where r: "eth_send_transaction (with_requests ext0) request0 node0 = (r, nd')"
    by (cases "eth_send_transaction (with_requests ext0) request0 node0")
  have "n_impersonated_accounts (nd_inner node0) = {}" by (simp add: inner0_def)
  then show ?thesis using send_needs_impersonation [OF _ r] r by auto
qed

lemma block_queries_agree_witness:
  "\<exists>b. eth_get_block_by_number ext0 (Number 0) True node0 = Ok (Some b) \<and>
     eth_get_block_by_hash ext0 1040 True node0 = Ok (Some b)"
proof -
  have k: "n_block_hashes (nd_inner node0) 0 = Some 1040" by (simp add: inner0_def)
  obtain b where b: "n_blocks inner0 1040 = Some b" "eth_get_block_by_number ext0 (Number 0) True node0 = shown_block True (Some b)"
      "eth_get_block_by_hash ext0 1040 True node0 = shown_block True (Some b)"
    using block_queries_agree [OF _ _ k, of ext0 True] inner0_chain by auto
  have "b_transactions b = []" using b(1) by (auto simp: inner0_def)
  then show ?thesis using b(2,3) by (simp add: shown_block_def)
qed

definition archived_node :: node where
  "archived_node = node0\<lparr>nd_inner := inner0\<lparr>n_current_miniblock := 1,
     n_previous_states := [(1040, [StorageKey 7 1 \<mapsto> 5, StorageKey 7 2 \<mapsto> 0])],
     n_fork_storage := fo_set_value (StorageKey 7 2) 9 (fo_set_value (StorageKey 7 1) 8 (n_fork_storage inner0))\<rparr>\<rparr>"

lemma storage_at_earlier_block_witness:
  "fst (eth_get_storage ext0 7 1 (Some (BlockNumberId (Number 0))) archived_node) = Ok 5 \<and>
   fst (eth_get_storage ext0 7 2 (Some (BlockNumberId (Number 0))) archived_node) = Ok 9"
proof -
  have a: "caches_coherent (n_fork_storage (nd_inner archived_node))" "\<not> nd_inner_poisoned archived_node"
      "0 \<noteq> n_current_miniblock (nd_inner archived_node)" "n_block_hashes (nd_inner archived_node) 0 = Some 1040"
      "map_of (n_previous_states (nd_inner archived_node)) 1040 = Some [StorageKey 7 1 \<mapsto> 5, StorageKey 7 2 \<mapsto> 0]"
    by (simp_all add: archived_node_def) (simp add: inner0_def)
  have v: "fork_value (n_fork_storage (nd_inner archived_node)) (StorageKey 7 2) = Ok 9"
    by (simp add: archived_node_def fork_value_def fo_set_value_def im_set_value_def im_read_value_def)
  obtain r1 nd1 r2 nd2 where
    "eth_get_storage ext0 7 1 (Some (BlockNumberId (Number 0))) archived_node = (r1, nd1)"
    "eth_get_storage ext0 7 2 (Some (BlockNumberId (Number 0))) archived_node = (r2, nd2)"
    by (cases "eth_get_storage ext0 7 1 (Some (BlockNumberId (Number 0))) archived_node";
        cases "eth_get_storage ext0 7 2 (Some (BlockNumberId (Number 0))) archived_node")
  then show ?thesis
    using storage_at_earlier_block [OF a, of ext0 7 1] storage_at_earlier_block [OF a, of ext0 7 2] v by simp
qed

lemma fee_history_covers_witness:
  "\<exists>out. eth_fee_history ext0 5 [0] node0 = Ok out \<and> length (fh_base_fee_per_gas out) \<le> 1025"
  using fee_history_covers [of node0 ext0 5 "[0]"] by (auto simp: inner0_def)

end
