(* ===== verification/Zks_Api.thy ===== *)
theory Zks_Api
  imports Eth_Api
begin

text \<open>
  The zks namespace (\<open>src/node/zks.rs\<close>): fee estimation, raw transactions and details of
  blocks and transactions, bridges, tokens, balances and bytecodes. It uses the same two ways
  of holding the lock as the eth namespace.
\<close>

section \<open>Fees, bridges and tokens\<close>

definition inner_lock_failed :: string where
  "inner_lock_failed = ''Failed to acquire read lock for inner node state.''"

definition lock_held_elsewhere :: string where
  "lock_held_elsewhere = ''Failed to acquire lock. Please ensure the lock is not being held by another process or thread.''"

definition zks_estimate_fee :: "ext \<Rightarrow> call_request \<Rightarrow> node \<Rightarrow> (fee rpc \<times> node) option" where
  "zks_estimate_fee E req nd =
     (if nd_inner_poisoned nd then Some (Err (internal_rpc_error E inner_lock_failed), nd)
      else map_option (\<lambda>(r, n). (r, nd\<lparr>nd_inner := n\<rparr>)) (estimate_gas_impl E req (nd_inner nd)))"

definition fork_failed :: "string \<Rightarrow> string" where
  "fork_failed err = ''failed fetching bridge contracts from the fork: '' @ err"

definition zks_get_bridge_contracts :: "ext \<Rightarrow> node \<Rightarrow> bridge_addresses rpc" where
  "zks_get_bridge_contracts E nd =
     read_inner (Err (internal_rpc_error E inner_lock_failed))
       (\<lambda>n. case fo_fork (n_fork_storage n) of
              Some fork \<Rightarrow> map_err (\<lambda>err. internal_rpc_error E (fork_failed err)) (fs_bridge_contracts (fd_source fork))
            | None \<Rightarrow> Ok \<lparr>br_l1_shared_default_bridge = None, br_l2_shared_default_bridge = None,
                br_l1_erc20_default_bridge = None, br_l2_erc20_default_bridge = None,
                br_l1_weth_bridge = None, br_l2_weth_bridge = None\<rparr>) nd"

definition zks_l1_chain_id :: "ext \<Rightarrow> node \<Rightarrow> u64 rpc" where
  "zks_l1_chain_id E nd = eth_chain_id E nd"

definition zks_get_confirmed_tokens :: "ext \<Rightarrow> u32 \<Rightarrow> u8 \<Rightarrow> node \<Rightarrow> token list rpc" where
  "zks_get_confirmed_tokens E fr limit nd =
     read_inner (Err (internal_rpc_error E inner_lock_failed))
       (\<lambda>n. case fo_fork (n_fork_storage n) of
              Some fork \<Rightarrow> map_err (\<lambda>err. internal_rpc_error E (fork_failed err))
                             (fs_confirmed_tokens (fd_source fork) fr limit)
            | None \<Rightarrow> Ok [\<lparr>tk_l1_address = 0, tk_l2_address = x_base_token_address E,
                tk_name = ''Ether'', tk_symbol = ''ETH'', tk_decimals = 18\<rparr>]) nd"

definition zks_get_token_price :: "ext \<Rightarrow> address \<Rightarrow> nat rpc" where
  "zks_get_token_price E token_address =
     (let address = to_lowercase (x_fmt_address E token_address) in
      if address = ''0x0000000000000000000000000000000000000000'' then Ok 1500
      else if address = ''0x40609141db628beee3bfab8034fc2d8278d0cc78'' then Ok 1
      else if address = ''0x0bfce1d53451b4a8175dd94e6e029f7d8a701e9c'' then Ok 1
      else if address = ''0x0faf6df7054946141266420b43783387a78d82a9'' then Ok 1
      else if address = ''0x3e7676937a7e96cfb7616f255b9ad9ff47363d4b'' then Ok 1
      else Err (internal_rpc_error E (''Token price requested for unknown address '' @ quoted address)))"

section \<open>Balances\<close>

text \<open>
  The loop over the tokens, under the write lock. \<open>display\<close> prints an error of the JSON-RPC
  library. The answer is a HashMap.
\<close>

fun token_balances ::
  "ext \<Rightarrow> address \<Rightarrow> token list \<Rightarrow> (address \<times> u256) list \<Rightarrow> inner \<Rightarrow> (address \<times> u256) list rpc \<times> inner" where
  "token_balances E a [] balances n = (Ok balances, n)"
| "token_balances E a (t # tokens) balances n =
     (case read_key E (x_token_balance_key E (tk_l2_address t) a) n of
        (Ok balance, n') \<Rightarrow>
          token_balances E a tokens
            (if balance \<noteq> 0 then al_insert (tk_l2_address t) balance balances else balances) n'
      | (Err e, n') \<Rightarrow> (Err e, n')
      | (Panic, n') \<Rightarrow> (Panic, n'))"

definition zks_get_all_account_balances ::
  "ext \<Rightarrow> (rpc_error \<Rightarrow> string) \<Rightarrow> address \<Rightarrow> node \<Rightarrow> (address \<times> u256) list rpc \<times> node" where
  "zks_get_all_account_balances E display a nd =
     (case zks_get_confirmed_tokens E 0 100 nd of
        Err e \<Rightarrow> (Err (internal_rpc_error E (display e)), nd)
      | Panic \<Rightarrow> (Panic, nd)
      | Ok tokens \<Rightarrow>
          write_inner (Err (internal_rpc_error E lock_held_elsewhere)) (token_balances E a tokens []) nd)"

section \<open>Blocks and transactions\<close>

text \<open>Transactions of the block without a recorded result are left out.\<close>

definition recorded_transactions :: "inner \<Rightarrow> block \<Rightarrow> raw_transaction list" where
  "recorded_transactions n b =
     concat (map (\<lambda>tx. case map_of (n_tx_results n) (variant_hash tx) of
         Some tr \<Rightarrow> [RawL2 (ti_tx (tr_info tr))]
       | None \<Rightarrow> []) (b_transactions b))"

definition zks_get_raw_block_transactions :: "ext \<Rightarrow> u32 \<Rightarrow> node \<Rightarrow> raw_transaction list rpc" where
  "zks_get_raw_block_transactions E block_number nd =
     read_inner (Err (internal_rpc_error E inner_lock_failed))
       (\<lambda>n. case block_at (ucast block_number) n of
              Some b \<Rightarrow> Ok (recorded_transactions n b)
            | None \<Rightarrow>
                (case fo_fork (n_fork_storage n) of
                   Some fork \<Rightarrow> map_err (\<lambda>e. into_jsrpc_error E (internal_error ''get_raw_block_transactions'' e))
                                  (fs_raw_block_transactions (fd_source fork) block_number)
                 | None \<Rightarrow> Ok [])) nd"

text \<open>\<open>None\<close> is a panic of one of the conversions to a narrower integer.\<close>

definition local_block_details :: "ext \<Rightarrow> inner \<Rightarrow> block \<Rightarrow> block_details option" where
  "local_block_details E n b =
     Option.bind (as_u32 (b_number b)) (\<lambda>number.
     Option.bind (as_u32 (unwrap_or (b_l1_batch_number b) 0)) (\<lambda>l1_batch_number.
     Option.bind (as_u64 (b_timestamp b)) (\<lambda>timestamp.
       Some \<lparr>bd_number = number, bd_l1_batch_number = l1_batch_number, bd_timestamp = timestamp,
             bd_l1_tx_count = 1, bd_l2_tx_count = length (b_transactions b), bd_root_hash = Some (b_hash b),
             bd_status = BlockVerified, bd_commit_tx_hash = None, bd_committed_at = None,
             bd_prove_tx_hash = None, bd_proven_at = None, bd_execute_tx_hash = None, bd_executed_at = None,
             bd_l1_gas_price = 0, bd_l2_fair_gas_price = fp_l2_gas_price (n_fee_input_provider n),
             bd_fair_pubdata_price = Some (fp_l1_pubdata_price' (n_fee_input_provider n)),
             bd_base_system_contracts_hashes = base_hashes (sc_baseline (n_system_contracts n)),
             bd_operator_address = 0, bd_protocol_version = Some (x_protocol_version_latest E)\<rparr>)))"

definition zks_get_block_details :: "ext \<Rightarrow> u32 \<Rightarrow> node \<Rightarrow> block_details option rpc" where
  "zks_get_block_details E block_number nd =
     read_inner (Err (internal_rpc_error E lock_held_elsewhere))
       (\<lambda>n. case block_at (ucast block_number) n of
              Some b \<Rightarrow> rbind (expect (local_block_details E n b)) (\<lambda>d. Ok (Some d))
            | None \<Rightarrow> fork_lookup n (\<lambda>s. fs_block_details s block_number)) nd"

definition local_transaction_details :: "ext \<Rightarrow> transaction_result \<Rightarrow> transaction_details option" where
  "local_transaction_details E tr =
     (let tx = ti_tx (tr_info tr); receipt = tr_receipt tr in
      Option.bind (checked_mul (unwrap_or (r_effective_gas_price receipt) 0) (unwrap_or (r_gas_used receipt) 0)) (\<lambda>fee.
      Option.bind (utc_datetime_from_epoch_ms E (received_timestamp_ms tx)) (\<lambda>received_at.
        Some \<lparr>td_is_l1_originated = False, td_status = TxIncluded, td_fee = fee,
              td_gas_per_pubdata = gas_per_pubdata_limit (tx_fee tx), td_initiator_address = initiator tx,
              td_received_at = received_at, td_eth_commit_tx_hash = None, td_eth_prove_tx_hash = None,
              td_eth_execute_tx_hash = None\<rparr>)))"

definition zks_get_transaction_details :: "ext \<Rightarrow> h256 \<Rightarrow> node \<Rightarrow> transaction_details option rpc" where
  "zks_get_transaction_details E hash nd =
     read_inner (Err (internal_rpc_error E lock_held_elsewhere))
       (\<lambda>n. case map_of (n_tx_results n) hash of
              Some tr \<Rightarrow> rbind (expect (local_transaction_details E tr)) (\<lambda>d. Ok (Some d))
            | None \<Rightarrow> fork_lookup n (\<lambda>s. fs_transaction_details s hash)) nd"

section \<open>Bytecodes\<close>

definition bytecode_inner :: "ext \<Rightarrow> h256 \<Rightarrow> inner \<Rightarrow> bytes option rpc \<times> inner" where
  "bytecode_inner E hash n =
     (let (r, fo) = load_factory_dep_internal hash (n_fork_storage n);
          n' = n\<lparr>n_fork_storage := fo\<rparr>
      in case r of
           Err e \<Rightarrow> (Err (report_into_jsrpc_error E e), n')
         | Panic \<Rightarrow> (Panic, n')
         | Ok (Some bytecode) \<Rightarrow> (Ok (Some bytecode), n')
         | Ok None \<Rightarrow>
             (case fo_fork fo of
                Some fork \<Rightarrow> (map_err (report_into_jsrpc_error E) (fs_bytecode_by_hash (fd_source fork) hash), n')
              | None \<Rightarrow> (Ok None, n')))"

definition zks_get_bytecode_by_hash :: "ext \<Rightarrow> h256 \<Rightarrow> node \<Rightarrow> bytes option rpc \<times> node" where
  "zks_get_bytecode_by_hash E hash nd =
     write_inner (Err (internal_rpc_error E ''Failed to acquire write lock for bytecode retrieval.''))
       (bytecode_inner E hash) nd"

section \<open>Constant answers\<close>

definition zks_get_l1_batch_details :: "'a option rpc" where "zks_get_l1_batch_details = Ok None"
definition zks_get_base_token_l1_address :: "address rpc" where "zks_get_base_token_l1_address = Ok 1"
definition zks_get_proof :: "'a rpc" where "zks_get_proof = not_implemented ''zks_getProof''"
definition zks_estimate_gas_l1_to_l2 :: "u256 rpc" where
  "zks_estimate_gas_l1_to_l2 = not_implemented ''zks_estimateGasL1ToL2''"
definition zks_get_main_contract :: "address rpc" where
  "zks_get_main_contract = not_implemented ''zks_getMainContract''"
definition zks_get_testnet_paymaster :: "address option rpc" where
  "zks_get_testnet_paymaster = not_implemented ''zks_getTestnetPaymaster''"
definition zks_get_l2_to_l1_msg_proof :: "'a option rpc" where
  "zks_get_l2_to_l1_msg_proof = not_implemented ''zks_getL2ToL1MsgProof''"
definition zks_get_l2_to_l1_log_proof :: "'a option rpc" where
  "zks_get_l2_to_l1_log_proof = not_implemented ''zks_getL2ToL1LogProof''"
definition zks_get_l1_batch_number :: "u64 rpc" where
  "zks_get_l1_batch_number = not_implemented ''zks_L1BatchNumber''"
definition zks_get_miniblock_range :: "(u64 \<times> u64) option rpc" where
  "zks_get_miniblock_range = not_implemented ''zks_getL1BatchBlockRange''"
definition zks_get_l1_gas_price :: "u64 rpc" where
  "zks_get_l1_gas_price = not_implemented ''zks_getL1GasPrice''"
definition zks_get_protocol_version :: "'a option rpc" where
  "zks_get_protocol_version = not_implemented ''zks_getProtocolVersion''"

section \<open>Lemmas\<close>

lemma token_balances_spec:
  assumes "caches_coherent (n_fork_storage n)" and "token_balances E a tokens acc n = (Ok out, n')"
  shows "n' = n\<lparr>n_fork_storage := n_fork_storage n'\<rparr> \<and> same_contents (n_fork_storage n) (n_fork_storage n') \<and>
    map_of out = (\<lambda>token. if token \<in> tk_l2_address ` set tokens \<and>
        fork_value (n_fork_storage n) (x_token_balance_key E token a) \<noteq> Ok 0
      then res_ok (fork_value (n_fork_storage n) (x_token_balance_key E token a)) else map_of acc token) \<and>
    (\<forall>token \<in> tk_l2_address ` set tokens. is_Ok (fork_value (n_fork_storage n) (x_token_balance_key E token a)))"
  using assms
proof (induction tokens arbitrary: acc n)
  case Nil
  then show ?case by (auto simp: same_contents_def)
next
  case (Cons t tokens)
  let ?k = "\<lambda>token. x_token_balance_key E token a"
  obtain b n1 where r: "read_key E (?k (tk_l2_address t)) n = (Ok b, n1)"
      and rest: "token_balances E a tokens (if b \<noteq> 0 then al_insert (tk_l2_address t) b acc else acc) n1 = (Ok out, n')"
    using Cons.prems(2) by (auto split: prod.splits res.splits)
  note k = read_key_correct [OF Cons.prems(1) r]
  then have v: "fork_value (n_fork_storage n) (?k (tk_l2_address t)) = Ok b" "caches_coherent (n_fork_storage n1)"
      and same: "same_contents (n_fork_storage n) (n_fork_storage n1)" "fork_value (n_fork_storage n1) = fork_value (n_fork_storage n)"
    using same_contents_fork [of "n_fork_storage n" "n_fork_storage n1"]
    by (auto simp: map_err_eq_Ok eq_commute [of "Ok b"] same_contents_def)
  note IH = Cons.IH [OF v(2) rest, unfolded same(2)]
  obtain f1 f2 where "n1 = n\<lparr>n_fork_storage := f1\<rparr>" "n' = n1\<lparr>n_fork_storage := f2\<rparr>" using k IH by blast
  then have frame: "n' = n\<lparr>n_fork_storage := n_fork_storage n'\<rparr>" by simp
  have contents: "same_contents (n_fork_storage n) (n_fork_storage n')" using IH same_contents_trans [OF same(1)] by blast
  show ?case
    using IH v(1) frame contents by (auto simp: fun_eq_iff split: if_splits)
qed

section \<open>Properties\<close>

text \<open>C28: all balances of an account. When the answer is a list, it has an entry for exactly those
  confirmed tokens (the first hundred; without a fork, the base token) whose balance in
  storage is not zero, with that balance; the node is left as it was but for its caches.\<close>

theorem all_balances_are_those_of_storage:
  assumes "caches_coherent (n_fork_storage (nd_inner nd))"
    and "zks_get_all_account_balances E display a nd = (Ok balances, nd')"
  shows "\<exists>tokens. zks_get_confirmed_tokens E 0 100 nd = Ok tokens \<and>
    (\<forall>token balance. map_of balances token = Some balance \<longleftrightarrow>
       token \<in> tk_l2_address ` set tokens \<and> balance \<noteq> 0 \<and>
       fork_value (n_fork_storage (nd_inner nd)) (x_token_balance_key E token a) = Ok balance) \<and>
    nd' = nd\<lparr>nd_inner := (nd_inner nd)\<lparr>n_fork_storage := n_fork_storage (nd_inner nd')\<rparr>\<rparr> \<and>
    same_contents (n_fork_storage (nd_inner nd)) (n_fork_storage (nd_inner nd'))"
proof -
  obtain tokens where t: "zks_get_confirmed_tokens E 0 100 nd = Ok tokens"
    and w: "write_inner (Err (internal_rpc_error E lock_held_elsewhere)) (token_balances E a tokens []) nd = (Ok balances, nd')"
    using assms(2) by (auto simp: zks_get_all_account_balances_def split: res.splits)
  obtain n where n: "token_balances E a tokens [] (nd_inner nd) = (Ok balances, n)" "nd' = nd\<lparr>nd_inner := n\<rparr>"
    using w by (auto elim: write_inner_OkE)
  note s = token_balances_spec [OF assms(1) n(1)]
  have "map_of balances token = Some balance \<longleftrightarrow> token \<in> tk_l2_address ` set tokens \<and> balance \<noteq> 0 \<and>
       fork_value (n_fork_storage (nd_inner nd)) (x_token_balance_key E token a) = Ok balance" for token balance
  proof (cases "fork_value (n_fork_storage (nd_inner nd)) (x_token_balance_key E token a)")
    case (Ok v)
    then show ?thesis using s by auto
  qed (use s in \<open>auto\<close>)
  moreover have "nd' = nd\<lparr>nd_inner := (nd_inner nd)\<lparr>n_fork_storage := n_fork_storage (nd_inner nd')\<rparr>\<rparr>"
    using conjunct1 [OF s] unfolding n(2) by simp
  moreover have "same_contents (n_fork_storage (nd_inner nd)) (n_fork_storage (nd_inner nd'))" using s n(2) by simp
  ultimately show ?thesis using t by blast
qed

definition funded_node :: node where
  "funded_node = node0\<lparr>nd_inner := inner0\<lparr>n_fork_storage := fo_set_value (StorageKey 10 7) 5 (n_fork_storage inner0)\<rparr>\<rparr>"

lemma all_balances_are_those_of_storage_witness:
  "\<exists>balances nd'. zks_get_all_account_balances ext0 (\<lambda>_. []) 7 funded_node = (Ok balances, nd') \<and> map_of balances 10 = Some 5"
proof -
  have c: "caches_coherent (n_fork_storage (nd_inner funded_node))" "fo_fork (n_fork_storage (nd_inner funded_node)) = None"
      "\<not> nd_inner_poisoned funded_node"
    by (simp_all add: funded_node_def) (simp add: fo_set_value_def)
  have k: "x_token_balance_key ext0 10 7 = StorageKey 10 7" "x_base_token_address ext0 = 10" by (simp_all add: ext0_def)
  have v: "fork_value (n_fork_storage (nd_inner funded_node)) (StorageKey 10 7) = Ok 5"
    by (simp add: funded_node_def fork_value_def fo_set_value_def im_set_value_def im_read_value_def)
  have t: "zks_get_confirmed_tokens ext0 0 100 funded_node =
      Ok [\<lparr>tk_l1_address = 0, tk_l2_address = 10, tk_name = ''Ether'', tk_symbol = ''ETH'', tk_decimals = 18\<rparr>]"
    using c k by (simp add: zks_get_confirmed_tokens_def)
  obtain r n' where r: "read_key ext0 (StorageKey 10 7) (nd_inner funded_node) = (r, n')"
    by (cases "read_key ext0 (StorageKey 10 7) (nd_inner funded_node)")
  then have "r = Ok 5" using read_key_correct [OF c(1) r] v by simp
  then obtain balances nd' where a: "zks_get_all_account_balances ext0 (\<lambda>_. []) 7 funded_node = (Ok balances, nd')"
    using t c(3) r k by (simp add: zks_get_all_account_balances_def write_inner_def)
  then show ?thesis using all_balances_are_those_of_storage [OF c(1) a] t k v by auto
qed

end
