(* ===== verification/Debug_Api.thy ===== *)
theory Debug_Api
  imports Eth_Api
begin

text \<open>
  The debug namespace (\<open>src/node/debug.rs\<close>): traces of the transactions of a block, of one
  transaction, and of a call.
\<close>

datatype trace_block = TraceBlockHash h256 | TraceBlockNumber block_number

definition read_lock_failed_for_state :: string where
  "read_lock_failed_for_state = ''Failed to acquire read lock for inner node state.''"

definition not_found :: "ext \<Rightarrow> string \<Rightarrow> rpc_error" where
  "not_found E what = into_jsrpc_error E (SubmitTransactionError what [])"

text \<open>\<open>options\<close> is the tracer configuration's \<open>only_top_call\<close>, where one is given.\<close>

definition only_top :: "bool option \<Rightarrow> bool" where
  "only_top options = (options = Some True)"

fun collect_traces :: "ext \<Rightarrow> inner \<Rightarrow> bool \<Rightarrow> h256 list \<Rightarrow> debug_call list rpc" where
  "collect_traces E n flat [] = Ok []"
| "collect_traces E n flat (h # hs) =
     (case map_of (n_tx_results n) h of
        None \<Rightarrow> Err (not_found E ''Transaction not found'')
      | Some tx \<Rightarrow> rbind (collect_traces E n flat hs) (\<lambda>calls. Ok (debug_info tx flat # calls)))"

definition trace_block_inner :: "ext \<Rightarrow> bool \<Rightarrow> block option \<Rightarrow> inner \<Rightarrow> debug_call list rpc" where
  "trace_block_inner E flat found n =
     (case found of
        None \<Rightarrow> Err (not_found E ''Block not found'')
      | Some b \<Rightarrow> collect_traces E n flat (map variant_hash (b_transactions b)))"

definition debug_trace_block_by_number ::
  "ext \<Rightarrow> block_number \<Rightarrow> bool option \<Rightarrow> node \<Rightarrow> debug_call list rpc" where
  "debug_trace_block_by_number E block options nd =
     read_inner (Err (internal_rpc_error E read_lock_failed_for_state))
       (\<lambda>n. trace_block_inner E (only_top options)
              (block_at (to_real_block_number block (n_current_miniblock n)) n) n) nd"

definition debug_trace_block_by_hash :: "ext \<Rightarrow> h256 \<Rightarrow> bool option \<Rightarrow> node \<Rightarrow> debug_call list rpc" where
  "debug_trace_block_by_hash E hash options nd =
     read_inner (Err (internal_rpc_error E read_lock_failed_for_state))
       (\<lambda>n. trace_block_inner E (only_top options) (n_blocks n hash) n) nd"

definition debug_trace_transaction :: "ext \<Rightarrow> h256 \<Rightarrow> bool option \<Rightarrow> node \<Rightarrow> debug_call option rpc" where
  "debug_trace_transaction E tx_hash options nd =
     read_inner (Err (internal_rpc_error E read_lock_failed_for_state))
       (\<lambda>n. Ok (map_option (\<lambda>tx. debug_info tx (only_top options)) (map_of (n_tx_results n) tx_hash))) nd"

section \<open>Tracing a call\<close>

text \<open>
  The run of the call under the read lock: the result, and the fork storage with what its
  caches have learnt (after a panic they are left out). The gas limit in the answer is the
  one the call was given.
\<close>

definition traced_tx :: "ext \<Rightarrow> l2_tx \<Rightarrow> l2_tx" where
  "traced_tx E tx =
     (let tx1 = (if signature tx = [] then tx\<lparr>signature := x_default_signature E\<rparr> else tx)
      in tx1\<lparr>tx_fee := (tx_fee tx1)\<lparr>gas_limit := ucast (x_eth_call_gas_limit E)\<rparr>\<rparr>)"

definition trace_call_inner :: "ext \<Rightarrow> bool \<Rightarrow> l2_tx \<Rightarrow> inner \<Rightarrow> debug_call rpc \<times> fork_storage" where
  "trace_call_inner E flat tx n =
     (let fo = n_fork_storage n in
      case contracts_for_l2_call (n_system_contracts n) of
        None \<Rightarrow> (Panic, fo)
      | Some base \<Rightarrow>
     (case create_l1_batch_env E n fo_ops (storage_view_new fo) of
        None \<Rightarrow> (Panic, fo)
      | Some ((env, _), sv1) \<Rightarrow>
     (case as_u64 (max_fee_per_gas (tx_fee tx)) of
        None \<Rightarrow> (Panic, fo)
      | Some base_fee \<Rightarrow>
     (case run fo_ops (x_vm_run_tx E (env\<lparr>be_enforced_base_fee := Some base_fee\<rparr>)
             (create_system_env E n base EthCall) (traced_tx E tx)) sv1 of
        None \<Rightarrow> (Panic, fo)
      | Some (out, sv2) \<Rightarrow>
          (map_err (into_jsrpc_error E)
             (create_debug_output E (traced_tx E tx) (ro_result out) (if flat then [] else ro_traces out)),
           sv_storage_handle sv2)))))"

definition debug_trace_call ::
  "ext \<Rightarrow> call_request \<Rightarrow> trace_block option \<Rightarrow> bool option \<Rightarrow> node \<Rightarrow> debug_call rpc \<times> node" where
  "debug_trace_call E request block options nd =
     (if block \<noteq> None \<and> block \<noteq> Some (TraceBlockNumber Latest)
      then (Err \<lparr>e_code = CodeInvalidParams, e_message = ''tracing only supported at `latest` block'', e_data = None\<rparr>, nd)
      else if nd_inner_poisoned nd then (Err (internal_rpc_error E read_lock_failed_for_state), nd)
      else case x_l2_tx_from_request E (x_request_of_call E request) MAX_TX_SIZE of
             Err e \<Rightarrow> (Err (into_jsrpc_error E (SerializationError e)), nd)
           | Panic \<Rightarrow> (Panic, nd)
           | Ok tx \<Rightarrow>
               (case trace_call_inner E (only_top options) tx (nd_inner nd) of
                  (Panic, _) \<Rightarrow> (Panic, nd)
                | (r, fo) \<Rightarrow> (r, nd\<lparr>nd_inner := (nd_inner nd)\<lparr>n_fork_storage := fo\<rparr>\<rparr>)))"

section \<open>Lemmas\<close>

lemma collect_traces_Ok:
  "collect_traces E n flat hs = Ok calls \<longleftrightarrow>
     (\<forall>h \<in> set hs. map_of (n_tx_results n) h \<noteq> None) \<and>
     calls = map (\<lambda>h. debug_info (the (map_of (n_tx_results n) h)) flat) hs"
  by (induction hs arbitrary: calls) (auto simp: rbind_eq_Ok split: option.splits)

lemma collect_traces_never_panics: "collect_traces E n flat hs \<noteq> Panic"
proof (induction hs)
  case (Cons h hs)
  then show ?case by (cases "collect_traces E n flat hs") (auto split: option.split)
qed simp

section \<open>Properties\<close>

text \<open>C29: the trace of a block is the list of the traces of its transactions, in the order of the
  block; a block whose transactions are not all recorded, or which is not local, is an error,
  never a panic.\<close>

theorem block_trace_is_its_transactions_traces:
  assumes "\<not> nd_inner_poisoned nd"
  shows "(case debug_trace_block_by_hash E h options nd of
      Ok calls \<Rightarrow> \<exists>b. n_blocks (nd_inner nd) h = Some b \<and>
        map (\<lambda>c. Ok (Some c)) calls =
          map (\<lambda>tx. debug_trace_transaction E (variant_hash tx) options nd) (b_transactions b)
    | Err e \<Rightarrow> n_blocks (nd_inner nd) h = None \<and> e = not_found E ''Block not found'' \<or>
        (\<exists>b tx. n_blocks (nd_inner nd) h = Some b \<and> tx \<in> set (b_transactions b) \<and>
           debug_trace_transaction E (variant_hash tx) options nd = Ok None)
    | Panic \<Rightarrow> False)"
proof (cases "n_blocks (nd_inner nd) h")
  case None
  then show ?thesis using assms by (simp add: debug_trace_block_by_hash_def trace_block_inner_def)
next
  case (Some b)
  let ?hs = "map variant_hash (b_transactions b)"
  have d: "debug_trace_block_by_hash E h options nd = collect_traces E (nd_inner nd) (only_top options) ?hs"
    using assms Some by (simp add: debug_trace_block_by_hash_def trace_block_inner_def)
  have t: "debug_trace_transaction E x options nd =
      Ok (map_option (\<lambda>tx. debug_info tx (only_top options)) (map_of (n_tx_results (nd_inner nd)) x))" for x
    using assms by (simp add: debug_trace_transaction_def)
  show ?thesis
  proof (cases "collect_traces E (nd_inner nd) (only_top options) ?hs")
    case (Ok calls)
    note c = Ok [unfolded collect_traces_Ok]
    have "map (\<lambda>c. Ok (Some c)) calls = map (\<lambda>tx. debug_trace_transaction E (variant_hash tx) options nd) (b_transactions b)"
      using c by (auto simp: t)
    then show ?thesis using Ok Some by (simp add: d)
  next
    case (Err e)
    have "\<exists>x \<in> set ?hs. map_of (n_tx_results (nd_inner nd)) x = None"
      using Err collect_traces_Ok [of E "nd_inner nd" "only_top options" ?hs] by fastforce
    then show ?thesis using Err Some by (auto simp: d t)
  qed (simp add: collect_traces_never_panics)
qed

lemma block_trace_is_its_transactions_traces_witness:
  "\<exists>calls b. debug_trace_block_by_hash ext0 1040 (Some True) node0 = Ok calls \<and> n_blocks inner0 1040 = Some b \<and>
     length calls = length (b_transactions b)"
proof -
  obtain b where b: "n_blocks inner0 1040 = Some b" "b_transactions b = []" by (simp add: inner0_def)
  then have "debug_trace_block_by_hash ext0 1040 (Some True) node0 = Ok []"
    by (simp add: debug_trace_block_by_hash_def trace_block_inner_def)
  then show ?thesis
    using block_trace_is_its_transactions_traces [where nd = node0 and E = ext0 and h = 1040 and options = "Some True"] b by fastforce
qed

text \<open>Tracing a call changes nothing but the caches.\<close>

lemma trace_call_frame:
  assumes "caches_coherent (n_fork_storage (nd_inner nd))" and "debug_trace_call E request block options nd = (r, nd')"
  shows "\<exists>fo. nd' = nd\<lparr>nd_inner := (nd_inner nd)\<lparr>n_fork_storage := fo\<rparr>\<rparr> \<and> same_contents (n_fork_storage (nd_inner nd)) fo"
proof -
  have own: "same_contents (n_fork_storage (nd_inner nd)) (n_fork_storage (nd_inner nd))" using assms(1) by (simp add: same_contents_def)
  have keep: "\<exists>fo. nd = nd\<lparr>nd_inner := (nd_inner nd)\<lparr>n_fork_storage := fo\<rparr>\<rparr> \<and> same_contents (n_fork_storage (nd_inner nd)) fo"
    by (rule exI [of _ "n_fork_storage (nd_inner nd)"]) (simp add: own)
  have ran: "same_contents (n_fork_storage (nd_inner nd)) (sv_storage_handle sv2)"
    if "create_l1_batch_env E (nd_inner nd) fo_ops (storage_view_new (n_fork_storage (nd_inner nd))) = Some (y, sv1)"
      and "run fo_ops p sv1 = Some (z, sv2)" for y sv1 and p :: "run_out sprog" and z sv2
    using good_view_handle [OF good_view_run [OF good_view_env [OF good_view_new [OF assms(1)] that(1)] that(2)]]
    by (simp add: same_contents_local)
  have "same_contents (n_fork_storage (nd_inner nd)) fo"
    if "trace_call_inner E flat tx (nd_inner nd) = (x, fo)" for flat tx x fo
    using that own by (auto simp: trace_call_inner_def Let_def split: option.splits prod.splits intro: ran)
  then show ?thesis
    using assms(2) keep by (auto simp: debug_trace_call_def split: if_splits res.splits prod.splits)
qed

end
