(* ===== verification/Config_Api.thy ===== *)
theory Config_Api
  imports Node_State
begin

text \<open>
  The configuration namespace (\<open>src/node/config_api.rs\<close>): display options and log levels of a
  running node. A display option that cannot be parsed is not an error: the setter answers
  the option that is in force.
\<close>

section \<open>Holding the lock\<close>

definition config_read :: "ext \<Rightarrow> (inner \<Rightarrow> 'a) \<Rightarrow> node \<Rightarrow> 'a rpc" where
  "config_read E f nd =
     read_inner (Err (internal_rpc_error E ''Failed to acquire read lock for inner node state.''))
       (\<lambda>n. Ok (f n)) nd"

definition config_write :: "ext \<Rightarrow> (node_config \<Rightarrow> node_config) \<Rightarrow> (node_config \<Rightarrow> 'a) \<Rightarrow> node \<Rightarrow> 'a rpc \<times> node" where
  "config_write E f g nd =
     write_inner (Err (internal_rpc_error E ''Failed to acquire write lock for inner node state.''))
       (\<lambda>n. (Ok (g (f (n_config n))), n\<lparr>n_config := f (n_config n)\<rparr>)) nd"

section \<open>Getters\<close>

definition config_get_show_calls :: "ext \<Rightarrow> node \<Rightarrow> string rpc" where
  "config_get_show_calls E nd = config_read E (\<lambda>n. print_show_calls (nc_show_calls (n_config n))) nd"

definition config_get_show_outputs :: "ext \<Rightarrow> node \<Rightarrow> bool rpc" where
  "config_get_show_outputs E nd = config_read E (\<lambda>n. nc_show_outputs (n_config n)) nd"

definition config_get_current_timestamp :: "ext \<Rightarrow> node \<Rightarrow> u64 rpc" where
  "config_get_current_timestamp E nd = config_read E n_current_timestamp nd"

section \<open>Setters\<close>

definition config_set_show_calls :: "ext \<Rightarrow> string \<Rightarrow> node \<Rightarrow> string rpc \<times> node" where
  "config_set_show_calls E v nd =
     (case parse_show_calls v of
        Ok x \<Rightarrow> config_write E (\<lambda>c. c\<lparr>nc_show_calls := x\<rparr>) (\<lambda>c. print_show_calls (nc_show_calls c)) nd
      | _ \<Rightarrow> (config_get_show_calls E nd, nd))"

definition config_set_show_outputs :: "ext \<Rightarrow> bool \<Rightarrow> node \<Rightarrow> bool rpc \<times> node" where
  "config_set_show_outputs E v nd = config_write E (\<lambda>c. c\<lparr>nc_show_outputs := v\<rparr>) nc_show_outputs nd"

definition config_set_show_storage_logs :: "ext \<Rightarrow> string \<Rightarrow> node \<Rightarrow> string rpc \<times> node" where
  "config_set_show_storage_logs E v nd =
     (case parse_show_storage_logs v of
        Ok x \<Rightarrow> config_write E (\<lambda>c. c\<lparr>nc_show_storage_logs := x\<rparr>) (\<lambda>c. print_show_storage_logs (nc_show_storage_logs c)) nd
      | _ \<Rightarrow> (config_read E (\<lambda>n. print_show_storage_logs (nc_show_storage_logs (n_config n))) nd, nd))"

definition config_set_show_vm_details :: "ext \<Rightarrow> string \<Rightarrow> node \<Rightarrow> string rpc \<times> node" where
  "config_set_show_vm_details E v nd =
     (case parse_show_vm_details v of
        Ok x \<Rightarrow> config_write E (\<lambda>c. c\<lparr>nc_show_vm_details := x\<rparr>) (\<lambda>c. print_show_vm_details (nc_show_vm_details c)) nd
      | _ \<Rightarrow> (config_read E (\<lambda>n. print_show_vm_details (nc_show_vm_details (n_config n))) nd, nd))"

definition config_set_show_gas_details :: "ext \<Rightarrow> string \<Rightarrow> node \<Rightarrow> string rpc \<times> node" where
  "config_set_show_gas_details E v nd =
     (case parse_show_gas_details v of
        Ok x \<Rightarrow> config_write E (\<lambda>c. c\<lparr>nc_show_gas_details := x\<rparr>) (\<lambda>c. print_show_gas_details (nc_show_gas_details c)) nd
      | _ \<Rightarrow> (config_read E (\<lambda>n. print_show_gas_details (nc_show_gas_details (n_config n))) nd, nd))"

definition config_set_resolve_hashes :: "ext \<Rightarrow> bool \<Rightarrow> node \<Rightarrow> bool rpc \<times> node" where
  "config_set_resolve_hashes E v nd = config_write E (\<lambda>c. c\<lparr>nc_resolve_hashes := v\<rparr>) nc_resolve_hashes nd"

section \<open>Logging\<close>

text \<open>
  The filter of the log is behind a shared handle, so it changes under the read lock.
  \<open>valid\<close> says which directives the tracing library accepts.
\<close>

definition with_observability ::
  "ext \<Rightarrow> (observability \<Rightarrow> observability \<times> (string, unit) res) \<Rightarrow> node \<Rightarrow> bool rpc \<times> node" where
  "with_observability E f nd =
     (if nd_inner_poisoned nd
      then (Err (internal_rpc_error E ''Failed to acquire read lock for inner node state.''), nd)
      else case n_observability (nd_inner nd) of
             None \<Rightarrow> (Ok True, nd)
           | Some ob \<Rightarrow>
               (case f ob of
                  (ob', Ok _) \<Rightarrow> (Ok True, nd\<lparr>nd_inner := (nd_inner nd)\<lparr>n_observability := Some ob'\<rparr>\<rparr>)
                | (ob', Err _) \<Rightarrow> (Ok False, nd\<lparr>nd_inner := (nd_inner nd)\<lparr>n_observability := Some ob'\<rparr>\<rparr>)
                | (ob', Panic) \<Rightarrow> (Panic, nd)))"

definition config_set_log_level ::
  "ext \<Rightarrow> (string \<Rightarrow> bool) \<Rightarrow> log_level \<Rightarrow> node \<Rightarrow> bool rpc \<times> node" where
  "config_set_log_level E valid level nd = with_observability E (set_log_level valid level) nd"

definition config_set_logging ::
  "ext \<Rightarrow> (string \<Rightarrow> bool) \<Rightarrow> string \<Rightarrow> node \<Rightarrow> bool rpc \<times> node" where
  "config_set_logging E valid directive nd = with_observability E (set_logging valid directive) nd"

section \<open>Lemmas\<close>

text \<open>A display option that is set is the one that is read back; a wrong one changes nothing.\<close>

lemma config_set_show_calls_effect:
  assumes "\<not> nd_inner_poisoned nd" and "config_set_show_calls E v nd = (r, nd')"
  shows "r = config_get_show_calls E nd' \<and>
    (case parse_show_calls v of
       Ok x \<Rightarrow> nd' = nd\<lparr>nd_inner := (nd_inner nd)\<lparr>n_config := (n_config (nd_inner nd))\<lparr>nc_show_calls := x\<rparr>\<rparr>\<rparr>
     | _ \<Rightarrow> nd' = nd)"
  using assms
  by (auto simp: config_set_show_calls_def config_get_show_calls_def config_write_def config_read_def write_inner_def
      split: res.splits)

end
