(* ===== verification/Resolver.thy ===== *)
theory Resolver
  imports Cache System_Contracts
begin

text \<open>
  Resolving function selectors and event topics with the openchain database
  (\<open>src/resolver.rs\<close>). Every lookup builds its own client, whose cache is the on-disk cache
  with the default configuration, so that what is kept between lookups is the disk.

  The HTTP client and the JSON parser are parameters (\<open>web\<close>): \<open>wb_get\<close> is the answer to a GET
  request, the error being one of sending or of reading the body.
\<close>

section \<open>The client\<close>

definition SELECTOR_DATABASE_URL :: string where
  "SELECTOR_DATABASE_URL = ''https://api.openchain.xyz/signature-database/v1/lookup''"

definition MAX_TIMEDOUT_REQ :: nat where "MAX_TIMEDOUT_REQ = 4"

datatype selector_type = SelectorFunction | SelectorEvent

record decoded =
  dc_name :: string
  dc_filtered :: bool

record api_result =
  ap_event :: "string \<rightharpoonup> decoded list option"
  ap_function :: "string \<rightharpoonup> decoded list option"

record api_response =
  ar_ok :: bool
  ar_result :: api_result

record reqwest_error =
  re_timeout :: bool
  re_connect :: bool
  re_status :: "u16 option"
  re_text :: string

record web =
  wb_builds :: bool
  wb_get :: "string \<Rightarrow> (reqwest_error, string) res"
  wb_parse :: "string \<Rightarrow> (string, api_response) res"
  wb_known_signatures :: "string \<rightharpoonup> string"

record client =
  sc_spurious :: bool
  sc_timedout :: nat
  sc_max_timedout :: nat
  sc_cache :: cache_state

text \<open>\<open>Panic\<close> when the cache directory cannot be made.\<close>

definition client_new :: "ext \<Rightarrow> io \<Rightarrow> web \<Rightarrow> disk \<Rightarrow> (string, client) res" where
  "client_new E io w d =
     (if \<not> wb_builds w then Err ''failed to build the client''
      else rbind (expect (cache_new E io default d)) (\<lambda>cd.
        Ok \<lparr>sc_spurious = False, sc_timedout = 0, sc_max_timedout = MAX_TIMEDOUT_REQ, sc_cache = cd\<rparr>))"

definition is_connectivity_err :: "reqwest_error \<Rightarrow> bool" where
  "is_connectivity_err err =
     (if re_timeout err \<or> re_connect err then True
      else case re_status err of Some code \<Rightarrow> 500 \<le> code \<and> code < 600 | None \<Rightarrow> False)"

definition on_reqwest_err :: "reqwest_error \<Rightarrow> client \<Rightarrow> client" where
  "on_reqwest_err err c =
     (if is_connectivity_err err
      then let previous = sc_timedout c; c' = c\<lparr>sc_timedout := previous + 1\<rparr>
           in if sc_max_timedout c \<le> previous then c'\<lparr>sc_spurious := True\<rparr> else c'
      else c)"

definition get_text :: "web \<Rightarrow> string \<Rightarrow> client \<Rightarrow> (reqwest_error, string) res \<times> client" where
  "get_text w url c =
     (case wb_get w url of
        Err err \<Rightarrow> (Err err, on_reqwest_err err c)
      | r \<Rightarrow> (r, c))"

definition ensure_not_spurious :: "client \<Rightarrow> (string, unit) res" where
  "ensure_not_spurious c = (if sc_spurious c then Err ''Spurious connection detected'' else Ok ())"

definition lookup_url :: "selector_type \<Rightarrow> string \<Rightarrow> string" where
  "lookup_url t selector =
     (case t of
        SelectorFunction \<Rightarrow> SELECTOR_DATABASE_URL @ ''?function='' @ selector @ ''&filter=true''
      | SelectorEvent \<Rightarrow> SELECTOR_DATABASE_URL @ ''?event='' @ selector @ ''&filter=true'')"

definition newline :: string where "newline = [CHR 0x0A]"

definition find_name :: "selector_type \<Rightarrow> string \<Rightarrow> string \<Rightarrow> api_response \<Rightarrow> (string, string option) res" where
  "find_name t selector body response =
     (if \<not> ar_ok response then Err (''Failed to decode:'' @ newline @ '' '' @ body)
      else let decoded = (case t of SelectorFunction \<Rightarrow> ap_function (ar_result response)
                          | SelectorEvent \<Rightarrow> ap_event (ar_result response));
               default_decoded = [\<lparr>dc_name = selector, dc_filtered = False\<rparr>]
           in case decoded selector of
                None \<Rightarrow> Err ''No signature found''
              | Some names \<Rightarrow>
                  (case map dc_name (filter (\<lambda>d. \<not> dc_filtered d) (unwrap_or names default_decoded)) of
                     [] \<Rightarrow> Ok None
                   | name # _ \<Rightarrow> Ok (Some name)))"

definition decode_selector :: "web \<Rightarrow> string \<Rightarrow> selector_type \<Rightarrow> client \<Rightarrow> (string, string option) res \<times> client" where
  "decode_selector w selector t c =
     (case ensure_not_spurious c of
        Err e \<Rightarrow> (Err e, c)
      | Panic \<Rightarrow> (Panic, c)
      | Ok _ \<Rightarrow>
     (case get_text w (lookup_url t selector) c of
        (Err err, c') \<Rightarrow> (Err (re_text err), c')
      | (Panic, c') \<Rightarrow> (Panic, c')
      | (Ok body, c') \<Rightarrow>
     (case wb_parse w body of
        Err err \<Rightarrow> (Err (''Could not decode response:'' @ newline @ '' '' @ body @ ''.'' @ newline @ ''Error: '' @ err), c')
      | Panic \<Rightarrow> (Panic, c')
      | Ok response \<Rightarrow> (find_name t selector body response, c'))))"

definition client_decode_function_selector ::
  "web \<Rightarrow> string \<Rightarrow> client \<Rightarrow> (string, string option) res \<times> client" where
  "client_decode_function_selector w selector c =
     (let prefixed_selector = ''0x'' @ unwrap_or (strip_prefix ''0x'' selector) selector in
      if length prefixed_selector \<noteq> 10
      then (Err (''Invalid selector: expected 8 characters (excluding 0x prefix), got '' @
                 dec_string (length prefixed_selector) @ '' characters (including 0x prefix).''), c)
      else case wb_known_signatures w prefixed_selector of
             Some r \<Rightarrow> (Ok (Some r), c)
           | None \<Rightarrow> decode_selector w (take 10 prefixed_selector) SelectorFunction c)"

section \<open>Lookups\<close>

text \<open>
  The two lookups differ in what they ask a client. The result is kept on the disk, a missing
  name as the empty string.
\<close>

definition resolve ::
  "ext \<Rightarrow> io \<Rightarrow> web \<Rightarrow> (client \<Rightarrow> (string, string option) res \<times> client) \<Rightarrow> string \<Rightarrow> disk \<Rightarrow>
   (string, string option) res \<times> disk" where
  "resolve E io w ask selector d =
     (case client_new E io w d of
        Ok client \<Rightarrow>
          (case get_resolver_selector selector (fst (sc_cache client)) of
             Some resolved_selector \<Rightarrow> (Ok (Some resolved_selector), snd (sc_cache client))
           | None \<Rightarrow>
               (case ask client of
                  (Ok result, c) \<Rightarrow>
                    (Ok result, snd (insert_resolver_selector io selector (unwrap_or result '''') (sc_cache c)))
                | (r, c) \<Rightarrow> (r, snd (sc_cache c))))
      | _ \<Rightarrow> (Panic, d))"

definition decode_function_selector ::
  "ext \<Rightarrow> io \<Rightarrow> web \<Rightarrow> string \<Rightarrow> disk \<Rightarrow> (string, string option) res \<times> disk" where
  "decode_function_selector E io w selector = resolve E io w (client_decode_function_selector w selector) selector"

definition decode_event_selector ::
  "ext \<Rightarrow> io \<Rightarrow> web \<Rightarrow> string \<Rightarrow> disk \<Rightarrow> (string, string option) res \<times> disk" where
  "decode_event_selector E io w selector = resolve E io w (decode_selector w selector SelectorEvent) selector"

section \<open>Connectivity\<close>

lemma decode_selector_client:
  "snd (decode_selector w selector t c) =
     (case wb_get w (lookup_url t selector) of
        Err err \<Rightarrow> if sc_spurious c then c else on_reqwest_err err c
      | _ \<Rightarrow> c)"
  by (auto simp: decode_selector_def get_text_def ensure_not_spurious_def split: res.splits)

lemma client_keeps_cache [simp]:
  "sc_cache (on_reqwest_err err c) = sc_cache c"
  "sc_cache (snd (decode_selector w selector t c)) = sc_cache c"
  "sc_cache (snd (client_decode_function_selector w selector c)) = sc_cache c"
  by (auto simp: on_reqwest_err_def Let_def decode_selector_client client_decode_function_selector_def
      split: res.split option.split)

text \<open>
  A client that is kept gives up at the fifth connectivity failure; a new one never does at
  its first, and every lookup has a new one.
\<close>

lemma spurious_after_failures:
  assumes "\<And>err. err \<in> set errs \<Longrightarrow> is_connectivity_err err" and "\<not> sc_spurious c"
    and "sc_timedout c = 0" and "sc_max_timedout c = MAX_TIMEDOUT_REQ"
  shows "sc_spurious (foldl (\<lambda>c err. on_reqwest_err err c) c errs) \<longleftrightarrow> 5 \<le> length errs"
proof -
  have "sc_max_timedout (foldl (\<lambda>c err. on_reqwest_err err c) c errs) = 4 \<and>
      sc_timedout (foldl (\<lambda>c err. on_reqwest_err err c) c errs) = length errs \<and>
      (sc_spurious (foldl (\<lambda>c err. on_reqwest_err err c) c errs) \<longleftrightarrow> 5 \<le> length errs)"
    using assms(1)
  proof (induction errs rule: rev_induct)
    case Nil
    then show ?case using assms(2-4) by (simp add: MAX_TIMEDOUT_REQ_def)
  next
    case (snoc err errs)
    then show ?case by (auto simp: on_reqwest_err_def Let_def)
  qed
  then show ?thesis by simp
qed

lemma new_client_not_spurious:
  assumes "client_new E io w d = Ok c"
  shows "\<not> sc_spurious (snd (decode_selector w selector t c))"
  using assms
  by (auto simp: client_new_def decode_selector_client on_reqwest_err_def MAX_TIMEDOUT_REQ_def rbind_eq_Ok Let_def
      split: if_splits res.splits)

section \<open>What stays on the disk\<close>

text \<open>
  A directory of selectors on a working file system: files are written whole, can be listed
  and opened, and their JSON text is read back as the string it was made of.
\<close>

definition healthy :: "io \<Rightarrow> bool" where
  "healthy io \<longleftrightarrow> list_all (io_mkdir_ok io) cache_types \<and>
     (\<forall>k. io_create_ok io CACHE_TYPE_RESOLVER_SELECTORS k \<and> io_open_ok io CACHE_TYPE_RESOLVER_SELECTORS k \<and> io_name_ok io k) \<and>
     (\<forall>k x. io_written io CACHE_TYPE_RESOLVER_SELECTORS k x = x) \<and>
     (\<forall>x. io_parse_string io (io_string_json io x) = Some x)"

definition made_dirs :: "disk \<Rightarrow> disk" where
  "made_dirs d = foldl (\<lambda>d t. if map_of d t = None then al_insert t [] d else d) d cache_types"

definition selector_files :: "disk \<Rightarrow> (string \<times> string) list" where
  "selector_files d = unwrap_or (map_of d CACHE_TYPE_RESOLVER_SELECTORS) []"

definition readable :: "ext \<Rightarrow> io \<Rightarrow> disk \<Rightarrow> bool" where
  "readable E io d \<longleftrightarrow> snd (read_all_from_disk E io (made_dirs d) (empty_cache default)) = Ok () \<and>
     distinct (map fst (selector_files d))"

lemma load_selector_entry:
  "load_entry E io CACHE_TYPE_RESOLVER_SELECTORS key x c =
     rbind (parsed key (io_parse_string io x)) (\<lambda>v. Ok (c\<lparr>ca_resolver_selectors := (ca_resolver_selectors c)(key \<mapsto> v)\<rparr>))"
  by (simp add: load_entry_def cache_type_defs)

lemma load_files_selectors_Ok:
  assumes "healthy io"
  shows "snd (load_files E io CACHE_TYPE_RESOLVER_SELECTORS files c) = Ok () \<longleftrightarrow>
      (\<forall>(k, x) \<in> set files. io_parse_string io x \<noteq> None)"
  using assms by (induction files arbitrary: c) (auto simp: healthy_def load_selector_entry parsed_def split: option.splits)

lemma load_files_selectors:
  assumes "healthy io" and "distinct (map fst files)" and "\<forall>(k, x) \<in> set files. io_parse_string io x \<noteq> None"
  shows "ca_resolver_selectors (fst (load_files E io CACHE_TYPE_RESOLVER_SELECTORS files c)) =
    (\<lambda>k. case map_of files k of Some x \<Rightarrow> io_parse_string io x | None \<Rightarrow> ca_resolver_selectors c k)"
  using assms(2,3)
proof (induction files arbitrary: c)
  case (Cons f files)
  obtain k x v where f: "f = (k, x)" "io_parse_string io x = Some v" using Cons.prems(2) by (cases f) auto
  moreover have "map_of files k = None" using Cons.prems(1) f(1) by (simp add: map_of_eq_None_iff)
  ultimately show ?case
    using Cons assms(1) by (auto simp: healthy_def load_selector_entry parsed_def fun_eq_iff split: option.splits)
qed simp

lemma load_other_files:
  assumes "t \<noteq> CACHE_TYPE_RESOLVER_SELECTORS"
  shows "ca_resolver_selectors (fst (load_files E io t files c)) = ca_resolver_selectors c"
proof (induction files arbitrary: c)
  case (Cons f files)
  have "ca_resolver_selectors c' = ca_resolver_selectors c" if "load_entry E io t k x c = Ok c'" for k x c'
    using that assms by (auto simp: load_entry_def rbind_eq_Ok split: if_splits)
  then show ?case using Cons by (cases f) (auto split: res.split)
qed simp

lemma load_entry_config: "load_entry E io t k x c = Ok c' \<Longrightarrow> ca_config c' = ca_config c"
  by (auto simp: load_entry_def rbind_eq_Ok split: if_splits)

lemma is_Ok_rbind: "is_Ok (rbind r f) = (case r of Ok x \<Rightarrow> is_Ok (f x) | _ \<Rightarrow> False)"
  by (cases r) simp_all

lemma load_entry_is_Ok: "is_Ok (load_entry E io t k x c) = is_Ok (load_entry E io t k x c')"
  by (simp only: load_entry_def if_distrib [of is_Ok] is_Ok_rbind is_Ok.simps)

lemma load_entry_success: "load_entry E io t k x c = Ok c1 \<Longrightarrow> \<exists>c2. load_entry E io t k x c' = Ok c2"
  using load_entry_is_Ok [of E io t k x c c'] by (cases "load_entry E io t k x c'") simp_all

lemma load_files_success: "snd (load_files E io t files c) = Ok () \<Longrightarrow> snd (load_files E io t files c') = Ok ()"
proof (induction files arbitrary: c c')
  case (Cons f files)
  obtain k x where f: "f = (k, x)" by (cases f)
  then obtain c1 where c1: "io_name_ok io k" "io_open_ok io t k" "load_entry E io t k x c = Ok c1"
      "snd (load_files E io t files c1) = Ok ()"
    using Cons.prems by (auto split: if_splits res.splits)
  obtain c2 where "load_entry E io t k x c' = Ok c2" using load_entry_success [OF c1(3)] by blast
  then show ?case using Cons.IH [OF c1(4)] c1 f by simp
qed simp

lemma load_types_success:
  assumes "healthy io" and "snd (load_types E io d ts c) = Ok ()"
    and "\<forall>t. t \<noteq> CACHE_TYPE_RESOLVER_SELECTORS \<longrightarrow> map_of d' t = map_of d t"
    and "map_of d' CACHE_TYPE_RESOLVER_SELECTORS = Some files" "\<forall>(k, x) \<in> set files. io_parse_string io x \<noteq> None"
  shows "snd (load_types E io d' ts c') = Ok ()"
  using assms(2)
proof (induction ts arbitrary: c c')
  case (Cons t ts)
  obtain old c1 where o: "io_list_ok io t" "map_of d t = Some old" "load_files E io t old c = (c1, Ok ())"
      "snd (load_types E io d ts c1) = Ok ()"
    using Cons.prems by (auto split: option.splits if_splits prod.splits res.splits)
  obtain new where new: "map_of d' t = Some new" "snd (load_files E io t new c') = Ok ()"
    using assms(1,3-5) o load_files_success [of E io t old c c'] load_files_selectors_Ok [of io E files c']
    by (cases "t = CACHE_TYPE_RESOLVER_SELECTORS") auto
  show ?case using Cons.IH [OF o(4)] o(1) new by (cases "load_files E io t new c'") auto
qed simp

lemma load_types_selectors:
  assumes "healthy io" and "snd (load_types E io d ts c) = Ok ()" and "distinct ts" and "distinct (map fst (selector_files d))"
  shows "ca_resolver_selectors (fst (load_types E io d ts c)) = (\<lambda>k.
    if CACHE_TYPE_RESOLVER_SELECTORS \<in> set ts
    then (case map_of (selector_files d) k of Some x \<Rightarrow> io_parse_string io x | None \<Rightarrow> ca_resolver_selectors c k)
    else ca_resolver_selectors c k)"
  using assms(2,3)
proof (induction ts arbitrary: c)
  case (Cons t ts)
  obtain files c1 where o: "io_list_ok io t" "map_of d t = Some files" "load_files E io t files c = (c1, Ok ())"
      "snd (load_types E io d ts c1) = Ok ()"
    using Cons.prems by (auto split: option.splits if_splits prod.splits res.splits)
  have step: "fst (load_types E io d (t # ts) c) = fst (load_types E io d ts c1)" using o by simp
  show ?case
  proof (cases "t = CACHE_TYPE_RESOLVER_SELECTORS")
    case True
    have "selector_files d = files" using o True by (simp add: selector_files_def)
    moreover have "\<forall>(k, x) \<in> set files. io_parse_string io x \<noteq> None"
      using load_files_selectors_Ok [OF assms(1), of E files c] o(3) True by simp
    ultimately have "ca_resolver_selectors c1 =
        (\<lambda>k. case map_of files k of Some x \<Rightarrow> io_parse_string io x | None \<Rightarrow> ca_resolver_selectors c k)"
      using load_files_selectors [OF assms(1), of files E c] assms(4) o(3) True by simp
    then show ?thesis using Cons.IH [OF o(4)] Cons.prems(2) True \<open>selector_files d = files\<close> unfolding step by simp
  next
    case False
    have e: "ca_resolver_selectors c1 = ca_resolver_selectors c" using load_other_files [OF False, of E io files c] o by simp
    show ?thesis using Cons.IH [OF o(4), unfolded e] Cons.prems(2) False unfolding step by simp
  qed
qed simp

lemma set_al_insert: "set (al_insert k v xs) \<subseteq> insert (k, v) (set xs)"
  by (induction xs) auto

lemma loaded_each:
  assumes "snd (load_types E io d ts c) = Ok ()" and "t \<in> set ts" and "map_of d t = Some files"
  shows "\<exists>c0. snd (load_files E io t files c0) = Ok ()"
  using assms(1,2)
proof (induction ts arbitrary: c)
  case (Cons t' ts)
  obtain files' c1 where o: "map_of d t' = Some files'" "load_files E io t' files' c = (c1, Ok ())"
      "snd (load_types E io d ts c1) = Ok ()"
    using Cons.prems(1) by (auto split: option.splits if_splits prod.splits res.splits)
  then have "snd (load_files E io t' files' c) = Ok ()" by simp
  then show ?case using Cons.IH [OF o(3)] Cons.prems(2) assms(3) o(1) by auto
qed simp

lemma made_dirs_lookup:
  "map_of (foldl (\<lambda>d t. if map_of d t = None then al_insert t [] d else d) d ts) t =
     (case map_of d t of Some x \<Rightarrow> Some x | None \<Rightarrow> if t \<in> set ts then Some [] else None)"
  by (induction ts arbitrary: d) (auto split: option.splits)

lemma made_dirs_same:
  "\<forall>t \<in> set ts. map_of d t \<noteq> None \<Longrightarrow> foldl (\<lambda>d t. if map_of d t = None then al_insert t [] d else d) d ts = d"
  by (induction ts) auto

lemma made_dirs_idem [simp]: "made_dirs (made_dirs d) = made_dirs d"
  unfolding made_dirs_def by (rule made_dirs_same) (auto simp: made_dirs_lookup split: option.split)

lemma selector_files_made: "selector_files (made_dirs d) = selector_files d"
  by (auto simp: selector_files_def made_dirs_def made_dirs_lookup split: option.splits)

lemma load_files_config: "ca_config (fst (load_files E io t files c)) = ca_config c"
  by (induction E io t files c rule: load_files.induct) (auto dest: load_entry_config split: res.split)

lemma load_types_config: "ca_config (fst (load_types E io d ts c)) = ca_config c"
proof (induction E io d ts c rule: load_types.induct)
  case (2 E io d t ts c)
  have "ca_config c' = ca_config c" if "load_files E io t files c = (c', r)" for files c' r
    using load_files_config [of E io t files c] that by simp
  then show ?case using 2 by (auto split: option.split prod.split res.split)
qed simp

section \<open>Lookups on a working disk\<close>

definition on_disk :: "io \<Rightarrow> disk \<Rightarrow> string \<Rightarrow> string option" where
  "on_disk io d k = Option.bind (map_of (selector_files d) k) (io_parse_string io)"

lemma client_on_disk:
  assumes "healthy io" and "readable E io d" and "wb_builds w"
  shows "\<exists>c. client_new E io w d = Ok c \<and> snd (sc_cache c) = made_dirs d \<and>
    ca_config (fst (sc_cache c)) = default \<and> ca_resolver_selectors (fst (sc_cache c)) = on_disk io d"
proof -
  let ?c = "fst (read_all_from_disk E io (made_dirs d) (empty_cache default))"
  have d: "cache_new E io default d = Some (?c, made_dirs d)"
    using assms(1) by (simp add: cache_new_def default_cache_config_def healthy_def made_dirs_def Let_def)
  have "ca_resolver_selectors ?c = on_disk io d"
    using load_types_selectors [OF assms(1), of E "made_dirs d" cache_types "empty_cache default"] assms(2)
    by (auto simp: read_all_from_disk_def readable_def selector_files_made on_disk_def fun_eq_iff empty_cache_def
        cache_types_def cache_type_defs split: option.split)
  moreover have "ca_config ?c = default" by (simp add: read_all_from_disk_def load_types_config empty_cache_def)
  ultimately show ?thesis using assms(3) d by (simp add: client_new_def)
qed

text \<open>Writing a name keeps the disk readable and changes what it holds for that selector only.\<close>

lemma written_selector:
  assumes "healthy io" and "readable E io d" and "ca_config c = default"
    and "insert_resolver_selector io selector v (c, made_dirs d) = (c', d')"
  shows "readable E io d' \<and> made_dirs d' = d' \<and> on_disk io d' = (on_disk io d)(selector \<mapsto> v)"
proof -
  have dirs: "map_of (made_dirs d) t \<noteq> None" if "t \<in> set cache_types" for t
    using that by (auto simp: made_dirs_def made_dirs_lookup split: option.splits)
  have rs: "CACHE_TYPE_RESOLVER_SELECTORS \<in> set cache_types" by (simp add: cache_types_def)
  let ?files = "al_insert selector (io_string_json io v) (selector_files d)"
  have f: "map_of (made_dirs d) CACHE_TYPE_RESOLVER_SELECTORS = Some (selector_files d)"
    using dirs [OF rs] selector_files_made [of d] by (auto simp: selector_files_def)
  then have d': "d' = al_insert CACHE_TYPE_RESOLVER_SELECTORS ?files (made_dirs d)"
    using assms(1,3,4) by (simp add: insert_resolver_selector_def write_to_disk_def default_cache_config_def is_none_def healthy_def)
  have same: "made_dirs d' = d'" unfolding made_dirs_def using dirs d' by (intro made_dirs_same) auto
  have sel: "selector_files d' = ?files" by (simp add: selector_files_def d')
  have ok: "snd (load_types E io (made_dirs d) cache_types (empty_cache default)) = Ok ()"
    using assms(2) by (simp add: readable_def read_all_from_disk_def)
  have "\<forall>(k, x) \<in> set (selector_files d). io_parse_string io x \<noteq> None"
  proof -
    obtain c0 where "snd (load_files E io CACHE_TYPE_RESOLVER_SELECTORS (selector_files d) c0) = Ok ()"
      using loaded_each [OF ok rs] f by auto
    then show ?thesis by (simp add: load_files_selectors_Ok [OF assms(1)])
  qed
  then have "\<forall>(k, x) \<in> set ?files. io_parse_string io x \<noteq> None"
    using assms(1) set_al_insert by (fastforce simp: healthy_def)
  then have "snd (load_types E io d' cache_types (empty_cache default)) = Ok ()"
    by (intro load_types_success [OF assms(1) ok]) (auto simp: d')
  then have "readable E io d'"
    using assms(2) by (simp add: readable_def read_all_from_disk_def same sel distinct_al_insert)
  moreover have "on_disk io d' = (on_disk io d)(selector \<mapsto> v)"
    using assms(1) by (auto simp: on_disk_def sel fun_eq_iff healthy_def)
  ultimately show ?thesis using same by simp
qed

section \<open>Properties\<close>

text \<open>C39: a resolved selector is remembered. On a working disk, what one lookup has answered, every
  later one answers, whatever the network does by then; the other selectors are left alone. But
  a selector the database has no name for is remembered as the empty string: the first lookup
  answers that there is no name, the later ones answer a name that is empty.\<close>

theorem resolved_selector_is_remembered:
  assumes "healthy io" and "readable E io d" and "wb_builds w'"
    and "decode_function_selector E io w selector d = (Ok r, d')"
  shows "decode_function_selector E io w' selector d' = (Ok (Some (unwrap_or r '''')), d') \<and>
    readable E io d' \<and> on_disk io d' = (on_disk io d)(selector \<mapsto> unwrap_or r '''')"
proof -
  let ?v = "unwrap_or r ''''"
  have w: "wb_builds w" using assms(4) by (auto simp: decode_function_selector_def resolve_def client_new_def split: if_splits)
  obtain c where c: "client_new E io w d = Ok c" "snd (sc_cache c) = made_dirs d"
      "ca_config (fst (sc_cache c)) = default" "ca_resolver_selectors (fst (sc_cache c)) = on_disk io d"
    using client_on_disk [OF assms(1,2) w] by blast
  have lookup: "get_resolver_selector selector (fst (sc_cache c)) = on_disk io d selector"
    using c(3,4) by (simp add: get_resolver_selector_def default_cache_config_def is_none_def)
  have new: "readable E io d' \<and> made_dirs d' = d' \<and> on_disk io d' = (on_disk io d)(selector \<mapsto> ?v)"
  proof (cases "on_disk io d selector")
    case (Some v)
    then have "d' = made_dirs d" "r = Some v" using assms(4) c lookup by (auto simp: decode_function_selector_def resolve_def)
    then show ?thesis using assms(2) Some selector_files_made [of d]
      by (auto simp: readable_def on_disk_def fun_eq_iff)
  next
    case None
    obtain c2 where ask: "client_decode_function_selector w selector c = (Ok r, c2)"
        "d' = snd (insert_resolver_selector io selector ?v (sc_cache c2))"
      using assms(4) c(1) lookup None by (auto simp: decode_function_selector_def resolve_def split: prod.splits res.splits)
    have "sc_cache c2 = sc_cache c" using client_keeps_cache(3) [of w selector c] ask(1) by simp
    then show ?thesis
      using written_selector [OF assms(1,2) c(3), of selector ?v] ask(2) c(2)
      by (metis prod.collapse)
  qed
  obtain c' where c': "client_new E io w' d' = Ok c'" "snd (sc_cache c') = made_dirs d'"
      "ca_config (fst (sc_cache c')) = default" "ca_resolver_selectors (fst (sc_cache c')) = on_disk io d'"
    using client_on_disk [OF assms(1) conjunct1 [OF new] assms(3)] by blast
  then have "decode_function_selector E io w' selector d' = (Ok (Some ?v), d')"
    using new by (simp add: decode_function_selector_def resolve_def get_resolver_selector_def default_cache_config_def is_none_def)
  then show ?thesis using new by simp
qed

definition working_io :: io where
  "working_io = \<lparr>io_mkdir_ok = \<lambda>_. True, io_rmdir_ok = \<lambda>_. True, io_create_ok = \<lambda>_ _. True,
     io_written = \<lambda>_ _ x. x, io_list_ok = \<lambda>_. True, io_open_ok = \<lambda>_ _. True, io_name_ok = \<lambda>_. True,
     io_block_json = \<lambda>_. [], io_parse_block = \<lambda>_. None, io_raw_json = \<lambda>_. [], io_parse_raw = \<lambda>_. None,
     io_tx_json = \<lambda>_. [], io_parse_tx = \<lambda>_. None, io_string_json = \<lambda>s. s, io_parse_string = Some,
     io_bridge_json = \<lambda>_. [], io_parse_bridge = \<lambda>_. None\<rparr>"

definition unnamed_web :: web where
  "unnamed_web = \<lparr>wb_builds = True, wb_get = \<lambda>_. Ok [],
     wb_parse = \<lambda>_. Ok \<lparr>ar_ok = True, ar_result = \<lparr>ap_event = Map.empty, ap_function = [''0xa9059cbb'' \<mapsto> Some []]\<rparr>\<rparr>,
     wb_known_signatures = Map.empty\<rparr>"

definition failing_web :: web where
  "failing_web = unnamed_web\<lparr>wb_get := \<lambda>_. Err \<lparr>re_timeout = True, re_connect = False, re_status = None, re_text = ''timeout''\<rparr>\<rparr>"

lemma working_io_ok: "healthy working_io" "readable E working_io []"
  by (simp_all add: healthy_def readable_def read_all_from_disk_def made_dirs_def selector_files_def cache_types_def
      cache_type_defs working_io_def)

text \<open>Without a network, a selector that is not on the disk cannot be looked up.\<close>

lemma lookup_fails0: "\<not> is_Ok (fst (decode_function_selector E working_io failing_web ''a9059cbb'' []))"
proof -
  have w: "wb_builds failing_web" by (simp add: failing_web_def unnamed_web_def)
  obtain c where c: "client_new E working_io failing_web [] = Ok c" "ca_config (fst (sc_cache c)) = default"
      "ca_resolver_selectors (fst (sc_cache c)) = on_disk working_io []"
    using client_on_disk [OF working_io_ok(1) working_io_ok(2) w, of E] by blast
  have n: "get_resolver_selector ''a9059cbb'' (fst (sc_cache c)) = None"
    using c(2,3) by (simp add: get_resolver_selector_def default_cache_config_def is_none_def on_disk_def selector_files_def)
  have "\<not> is_Ok (fst (client_decode_function_selector failing_web ''a9059cbb'' c))"
    by (simp add: client_decode_function_selector_def strip_prefix_def decode_selector_def ensure_not_spurious_def
        get_text_def failing_web_def unnamed_web_def Let_def)
  then show ?thesis
    using c(1) n by (auto simp: decode_function_selector_def resolve_def split: prod.split res.splits)
qed

lemma resolved_selector_is_remembered_witness:
  "\<exists>d. decode_function_selector ext0 working_io unnamed_web ''a9059cbb'' [] = (Ok None, d) \<and>
     decode_function_selector ext0 working_io failing_web ''a9059cbb'' d = (Ok (Some ''''), d)"
proof -
  note h = working_io_ok(1) and r = working_io_ok(2) [of ext0]
  have w: "wb_builds unnamed_web" "wb_builds failing_web" by (simp_all add: unnamed_web_def failing_web_def)
  obtain c where c: "client_new ext0 working_io unnamed_web [] = Ok c" "ca_config (fst (sc_cache c)) = default"
      "ca_resolver_selectors (fst (sc_cache c)) = on_disk working_io []"
    using client_on_disk [OF h r w(1)] by blast
  have s: "\<not> sc_spurious c"
    using c(1) by (auto simp: client_new_def rbind_eq_Ok split: if_splits)
  have n: "get_resolver_selector ''a9059cbb'' (fst (sc_cache c)) = None"
    using c(2,3) by (simp add: get_resolver_selector_def default_cache_config_def is_none_def on_disk_def selector_files_def)
  have "client_decode_function_selector unnamed_web ''a9059cbb'' c = (Ok None, c)"
    using s by (simp add: client_decode_function_selector_def strip_prefix_def decode_selector_def ensure_not_spurious_def
        get_text_def find_name_def unnamed_web_def Let_def)
  then obtain d where d: "decode_function_selector ext0 working_io unnamed_web ''a9059cbb'' [] = (Ok None, d)"
    using c(1) n by (simp add: decode_function_selector_def resolve_def)
  show ?thesis using resolved_selector_is_remembered [OF h r w(2) d] d by auto
qed

end
