(* ===== verification/Requests.thy ===== *)
theory Requests
  imports Zks_Api Debug_Api Config_Api Resolver
begin

text \<open>
  The requests of all namespaces, what they are answered with, and the function that serves one:
  the answer and the node afterwards. Answers are values of one datatype, the shapes of the result
  types the methods declare.
\<close>

section \<open>Requests\<close>

datatype account_request =
  SetBalance address u256
| SetNonce address u256
| Mine "u64 option" "u64 option"
| Reset "reset_request option"
| ImpersonateAccount address
| StopImpersonatingAccount address
| SetCode address string
| SetStorageAt address u256 u256

datatype evm_request =
  EvmSetNonce address u256
| EvmIncreaseTime u64
| EvmMine
| EvmSetNextBlockTimestamp u64
| EvmSetTime u64
| EvmSnapshot
| EvmRevert u64

datatype eth_request =
  EthCall call_request
| EthGetBalance address
| EthGetCode address
| EthGetTransactionCount address
| EthGetStorage address u256 "block_id option"
| EthSendRawTransaction bytes
| EthSendTransaction call_request
| EthEstimateGas call_request
| EthNewFilter filter_spec
| EthNewBlockFilter
| EthNewPendingTransactionFilter
| EthUninstallFilter u256
| EthGetFilterChanges u256

datatype config_request =
  SetShowCalls string
| SetShowOutputs bool
| SetShowStorageLogs string
| SetShowVMDetails string
| SetShowGasDetails string
| SetResolveHashes bool
| SetLogLevel log_level
| SetLogging string

text \<open>The methods that only read, under the read lock, or do not look at the node at all.\<close>

datatype node_query =
  NetVersion
| NetPeerCount
| NetListening
| Web3ClientVersion
| ConfigGetShowCalls
| ConfigGetShowOutputs
| ConfigGetCurrentTimestamp
| DebugTraceBlockByNumber block_number "bool option"
| DebugTraceBlockByHash h256 "bool option"
| DebugTraceTransaction h256 "bool option"

datatype eth_query =
  EthBlockNumber
| EthChainId
| EthGasPrice
| EthGetLogs filter_spec
| EthGetFilterLogs u256
| EthGetBlockByNumber block_number bool
| EthGetBlockByHash h256 bool
| EthGetBlockTransactionCountByNumber block_number
| EthGetBlockTransactionCountByHash h256
| EthGetTransactionByHash h256
| EthGetTransactionByBlockHashAndIndex h256 u64
| EthGetTransactionByBlockNumberAndIndex block_number u64
| EthGetTransactionReceipt h256
| EthProtocolVersion
| EthSyncing
| EthAccounts
| EthCoinbase
| EthGetCompilers
| EthHashrate
| EthGetUncleCountByBlockHash
| EthGetUncleCountByBlockNumber
| EthMining
| EthFeeHistory u64 block_number "f32 list"

datatype zks_query =
  ZksEstimateGasL1ToL2
| ZksGetMainContract
| ZksGetTestnetPaymaster
| ZksGetBridgeContracts
| ZksL1ChainId
| ZksGetConfirmedTokens u32 u8
| ZksGetTokenPrice address
| ZksGetL2ToL1MsgProof
| ZksGetL2ToL1LogProof
| ZksL1BatchNumber
| ZksGetBlockDetails u32
| ZksGetL1BatchBlockRange
| ZksGetTransactionDetails h256
| ZksGetRawBlockTransactions u32
| ZksGetL1BatchDetails
| ZksGetL1GasPrice
| ZksGetProtocolVersion
| ZksGetProof
| ZksGetBaseTokenL1Address

datatype query_request = NodeQuery node_query | EthQuery eth_query | ZksQuery zks_query

datatype request =
  Hardhat account_request
| Anvil account_request
| Evm evm_request
| Eth eth_request
| Config config_request
| ZksEstimateFee call_request
| ZksGetAllAccountBalances address
| ZksGetBytecodeByHash h256
| DebugTraceCall call_request "trace_block option" "bool option"
| Ask query_request

text \<open>What surrounds the node: the libraries, the file system, the remote nodes, the log filter.\<close>

record world =
  wo_ext :: ext
  wo_io :: io
  wo_disk :: disk
  wo_client :: "string \<Rightarrow> remote option"
  wo_display :: "rpc_error \<Rightarrow> string"
  wo_valid :: "string \<Rightarrow> bool"

section \<open>Results\<close>

text \<open>
  The values methods answer, by the name of their type, and the result types they declare; an
  \<open>Option\<close> is a value or null.
\<close>

datatype jvalue =
  JNull
| JUnit
| JBool bool
| JU64 u64
| JNumber u64
| JU256 u256
| JI128 int
| JDecimal nat
| JString string
| JBytes bytes
| JByteVec bytes
| JH256 h256
| JAddress address
| JFee fee
| JDebugCall debug_call
| JResultDebugCall debug_call
| JFilterChanges filter_changes
| JLog log
| JBlock block
| JTransaction api_tx
| JReceipt receipt
| JSyncState sync_state
| JFeeHistory fee_history_out
| JBridges bridge_addresses
| JToken token
| JBalances "(address \<times> u256) list"
| JRawTransaction raw_transaction
| JBlockDetails block_details
| JTransactionDetails transaction_details
| JPair jvalue jvalue
| JList "jvalue list"

datatype rtype =
  RNamed string
| ROption rtype
| RVec rtype
| RPair rtype rtype

primrec type_name :: "jvalue \<Rightarrow> string option" where
  "type_name JNull = None"
| "type_name JUnit = Some ''()''"
| "type_name (JBool b) = Some ''bool''"
| "type_name (JU64 k) = Some ''U64''"
| "type_name (JNumber k) = Some ''u64''"
| "type_name (JU256 v) = Some ''U256''"
| "type_name (JI128 i) = Some ''i128''"
| "type_name (JDecimal k) = Some ''BigDecimal''"
| "type_name (JString s) = Some ''String''"
| "type_name (JBytes bs) = Some ''Bytes''"
| "type_name (JByteVec bs) = Some ''Vec<u8>''"
| "type_name (JH256 h) = Some ''H256''"
| "type_name (JAddress a) = Some ''Address''"
| "type_name (JFee f) = Some ''Fee''"
| "type_name (JDebugCall c) = Some ''DebugCall''"
| "type_name (JResultDebugCall c) = Some ''ResultDebugCall''"
| "type_name (JFilterChanges c) = Some ''FilterChanges''"
| "type_name (JLog l) = Some ''Log''"
| "type_name (JBlock b) = Some ''Block<TransactionVariant>''"
| "type_name (JTransaction t) = Some ''Transaction''"
| "type_name (JReceipt r) = Some ''TransactionReceipt''"
| "type_name (JSyncState s) = Some ''SyncState''"
| "type_name (JFeeHistory h) = Some ''FeeHistory''"
| "type_name (JBridges b) = Some ''BridgeAddresses''"
| "type_name (JToken t) = Some ''Token''"
| "type_name (JBalances bs) = Some ''HashMap<Address, U256>''"
| "type_name (JRawTransaction t) = Some ''zksync_types::Transaction''"
| "type_name (JBlockDetails d) = Some ''BlockDetails''"
| "type_name (JTransactionDetails d) = Some ''TransactionDetails''"
| "type_name (JPair x y) = None"
| "type_name (JList vs) = None"

primrec has_result :: "rtype \<Rightarrow> jvalue \<Rightarrow> bool" where
  "has_result (RNamed name) v = (type_name v = Some name)"
| "has_result (ROption t) v = (v = JNull \<or> has_result t v)"
| "has_result (RVec t) v = (\<exists>vs. v = JList vs \<and> list_all (has_result t) vs)"
| "has_result (RPair t u) v = (\<exists>x y. v = JPair x y \<and> has_result t x \<and> has_result u y)"

definition nullable :: "('a \<Rightarrow> jvalue) \<Rightarrow> 'a option \<Rightarrow> jvalue" where
  "nullable f x = (case x of None \<Rightarrow> JNull | Some y \<Rightarrow> f y)"

definition array :: "('a \<Rightarrow> jvalue) \<Rightarrow> 'a list \<Rightarrow> jvalue" where
  "array f xs = JList (map f xs)"

definition encoded :: "('a \<Rightarrow> jvalue) \<Rightarrow> 'a rpc \<Rightarrow> jvalue rpc" where
  "encoded f r = rbind r (\<lambda>x. Ok (f x))"

text \<open>An answer is missing only where a gas estimation does not return.\<close>

type_synonym answer = "jvalue rpc option"

definition answered :: "('a \<Rightarrow> jvalue) \<Rightarrow> 'a rpc \<times> node \<Rightarrow> answer \<times> node" where
  "answered f x = (Some (encoded f (fst x)), snd x)"

definition computed :: "('a \<Rightarrow> jvalue) \<Rightarrow> ('a rpc \<times> node) option \<Rightarrow> node \<Rightarrow> answer \<times> node" where
  "computed f x nd = (case x of None \<Rightarrow> (None, nd) | Some y \<Rightarrow> answered f y)"

section \<open>Serving\<close>

primrec answer_node_query :: "world \<Rightarrow> node_query \<Rightarrow> node \<Rightarrow> jvalue rpc" where
  "answer_node_query W NetVersion nd = Ok (JString net_version)"
| "answer_node_query W NetPeerCount nd = Ok (JU256 net_peer_count)"
| "answer_node_query W NetListening nd = Ok (JBool net_listening)"
| "answer_node_query W Web3ClientVersion nd = Ok (JString web3_client_version)"
| "answer_node_query W ConfigGetShowCalls nd = encoded JString (config_get_show_calls (wo_ext W) nd)"
| "answer_node_query W ConfigGetShowOutputs nd = encoded JBool (config_get_show_outputs (wo_ext W) nd)"
| "answer_node_query W ConfigGetCurrentTimestamp nd = encoded JNumber (config_get_current_timestamp (wo_ext W) nd)"
| "answer_node_query W (DebugTraceBlockByNumber b t) nd =
     encoded (array JResultDebugCall) (debug_trace_block_by_number (wo_ext W) b t nd)"
| "answer_node_query W (DebugTraceBlockByHash h t) nd =
     encoded (array JResultDebugCall) (debug_trace_block_by_hash (wo_ext W) h t nd)"
| "answer_node_query W (DebugTraceTransaction h t) nd =
     encoded (nullable JDebugCall) (debug_trace_transaction (wo_ext W) h t nd)"

primrec answer_eth_query :: "world \<Rightarrow> eth_query \<Rightarrow> node \<Rightarrow> jvalue rpc" where
  "answer_eth_query W EthBlockNumber nd = encoded JU64 (eth_get_block_number (wo_ext W) nd)"
| "answer_eth_query W EthChainId nd = encoded JU64 (eth_chain_id (wo_ext W) nd)"
| "answer_eth_query W EthGasPrice nd = encoded JU256 (eth_gas_price nd)"
| "answer_eth_query W (EthGetLogs f) nd = encoded (array JLog) (eth_get_logs (wo_ext W) f nd)"
| "answer_eth_query W (EthGetFilterLogs i) nd = encoded JFilterChanges (eth_get_filter_logs (wo_ext W) i nd)"
| "answer_eth_query W (EthGetBlockByNumber b full) nd =
     encoded (nullable JBlock) (eth_get_block_by_number (wo_ext W) b full nd)"
| "answer_eth_query W (EthGetBlockByHash h full) nd =
     encoded (nullable JBlock) (eth_get_block_by_hash (wo_ext W) h full nd)"
| "answer_eth_query W (EthGetBlockTransactionCountByNumber b) nd =
     encoded (nullable JU256) (eth_get_block_transaction_count_by_number (wo_ext W) b nd)"
| "answer_eth_query W (EthGetBlockTransactionCountByHash h) nd =
     encoded (nullable JU256) (eth_get_block_transaction_count_by_hash (wo_ext W) h nd)"
| "answer_eth_query W (EthGetTransactionByHash h) nd =
     encoded (nullable JTransaction) (eth_get_transaction_by_hash (wo_ext W) h nd)"
| "answer_eth_query W (EthGetTransactionByBlockHashAndIndex h i) nd =
     encoded (nullable JTransaction) (eth_get_transaction_by_block_hash_and_index (wo_ext W) h i nd)"
| "answer_eth_query W (EthGetTransactionByBlockNumberAndIndex b i) nd =
     encoded (nullable JTransaction) (eth_get_transaction_by_block_number_and_index (wo_ext W) b i nd)"
| "answer_eth_query W (EthGetTransactionReceipt h) nd =
     encoded (nullable JReceipt) (eth_get_transaction_receipt (wo_ext W) h nd)"
| "answer_eth_query W EthProtocolVersion nd = encoded JString eth_protocol_version"
| "answer_eth_query W EthSyncing nd = encoded JSyncState eth_syncing"
| "answer_eth_query W EthAccounts nd = encoded (array JAddress) (eth_accounts (wo_ext W) nd)"
| "answer_eth_query W EthCoinbase nd = encoded JAddress eth_coinbase"
| "answer_eth_query W EthGetCompilers nd = encoded (array JString) eth_compilers"
| "answer_eth_query W EthHashrate nd = encoded JU256 eth_hashrate"
| "answer_eth_query W EthGetUncleCountByBlockHash nd = encoded (nullable JU256) eth_uncle_count_by_block_hash"
| "answer_eth_query W EthGetUncleCountByBlockNumber nd = encoded (nullable JU256) eth_uncle_count_by_block_number"
| "answer_eth_query W EthMining nd = encoded JBool eth_mining"
| "answer_eth_query W (EthFeeHistory k newest ps) nd = encoded JFeeHistory (eth_fee_history (wo_ext W) k ps nd)"

primrec answer_zks_query :: "world \<Rightarrow> zks_query \<Rightarrow> node \<Rightarrow> jvalue rpc" where
  "answer_zks_query W ZksEstimateGasL1ToL2 nd = encoded JU256 zks_estimate_gas_l1_to_l2"
| "answer_zks_query W ZksGetMainContract nd = encoded JAddress zks_get_main_contract"
| "answer_zks_query W ZksGetTestnetPaymaster nd = encoded (nullable JAddress) zks_get_testnet_paymaster"
| "answer_zks_query W ZksGetBridgeContracts nd = encoded JBridges (zks_get_bridge_contracts (wo_ext W) nd)"
| "answer_zks_query W ZksL1ChainId nd = encoded JU64 (zks_l1_chain_id (wo_ext W) nd)"
| "answer_zks_query W (ZksGetConfirmedTokens i k) nd =
     encoded (array JToken) (zks_get_confirmed_tokens (wo_ext W) i k nd)"
| "answer_zks_query W (ZksGetTokenPrice a) nd = encoded JDecimal (zks_get_token_price (wo_ext W) a)"
| "answer_zks_query W ZksGetL2ToL1MsgProof nd = encoded (nullable (\<lambda>_ :: unit. JUnit)) zks_get_l2_to_l1_msg_proof"
| "answer_zks_query W ZksGetL2ToL1LogProof nd = encoded (nullable (\<lambda>_ :: unit. JUnit)) zks_get_l2_to_l1_log_proof"
| "answer_zks_query W ZksL1BatchNumber nd = encoded JU64 zks_get_l1_batch_number"
| "answer_zks_query W (ZksGetBlockDetails k) nd =
     encoded (nullable JBlockDetails) (zks_get_block_details (wo_ext W) k nd)"
| "answer_zks_query W ZksGetL1BatchBlockRange nd =
     encoded (nullable (\<lambda>(x, y). JPair (JU64 x) (JU64 y))) zks_get_miniblock_range"
| "answer_zks_query W (ZksGetTransactionDetails h) nd =
     encoded (nullable JTransactionDetails) (zks_get_transaction_details (wo_ext W) h nd)"
| "answer_zks_query W (ZksGetRawBlockTransactions k) nd =
     encoded (array JRawTransaction) (zks_get_raw_block_transactions (wo_ext W) k nd)"
| "answer_zks_query W ZksGetL1BatchDetails nd = encoded (nullable (\<lambda>_ :: unit. JUnit)) zks_get_l1_batch_details"
| "answer_zks_query W ZksGetL1GasPrice nd = encoded JU64 zks_get_l1_gas_price"
| "answer_zks_query W ZksGetProtocolVersion nd = encoded (nullable (\<lambda>_ :: unit. JUnit)) zks_get_protocol_version"
| "answer_zks_query W ZksGetProof nd = encoded (\<lambda>_ :: unit. JUnit) zks_get_proof"
| "answer_zks_query W ZksGetBaseTokenL1Address nd = encoded JAddress zks_get_base_token_l1_address"

primrec answer_query :: "world \<Rightarrow> query_request \<Rightarrow> node \<Rightarrow> jvalue rpc" where
  "answer_query W (NodeQuery q) nd = answer_node_query W q nd"
| "answer_query W (EthQuery q) nd = answer_eth_query W q nd"
| "answer_query W (ZksQuery q) nd = answer_zks_query W q nd"

primrec answer_hardhat :: "world \<Rightarrow> account_request \<Rightarrow> node \<Rightarrow> answer \<times> node" where
  "answer_hardhat W (SetBalance a v) nd = answered JBool (hardhat_set_balance (wo_ext W) a v nd)"
| "answer_hardhat W (SetNonce a v) nd = answered JBool (hardhat_set_nonce (wo_ext W) a v nd)"
| "answer_hardhat W (Mine k i) nd = answered JBool (hardhat_mine (wo_ext W) k i nd)"
| "answer_hardhat W (Reset r) nd =
     answered JBool (hardhat_reset (wo_ext W) (wo_io W) (wo_disk W) (wo_client W) r nd)"
| "answer_hardhat W (ImpersonateAccount a) nd = answered JBool (hardhat_impersonate_account (wo_ext W) a nd)"
| "answer_hardhat W (StopImpersonatingAccount a) nd =
     answered JBool (hardhat_stop_impersonating_account (wo_ext W) a nd)"
| "answer_hardhat W (SetCode a c) nd = answered (\<lambda>_. JUnit) (hardhat_set_code (wo_ext W) a c nd)"
| "answer_hardhat W (SetStorageAt a k v) nd = answered JBool (hardhat_set_storage_at (wo_ext W) a k v nd)"

primrec answer_anvil :: "world \<Rightarrow> account_request \<Rightarrow> node \<Rightarrow> answer \<times> node" where
  "answer_anvil W (SetBalance a v) nd = answered JBool (anvil_set_balance (wo_ext W) a v nd)"
| "answer_anvil W (SetNonce a v) nd = answered JBool (anvil_set_nonce (wo_ext W) a v nd)"
| "answer_anvil W (Mine k i) nd = answered JBool (anvil_mine (wo_ext W) k i nd)"
| "answer_anvil W (Reset r) nd =
     answered JBool (anvil_reset (wo_ext W) (wo_io W) (wo_disk W) (wo_client W) r nd)"
| "answer_anvil W (ImpersonateAccount a) nd = answered JBool (anvil_impersonate_account (wo_ext W) a nd)"
| "answer_anvil W (StopImpersonatingAccount a) nd =
     answered JBool (anvil_stop_impersonating_account (wo_ext W) a nd)"
| "answer_anvil W (SetCode a c) nd = answered (\<lambda>_. JUnit) (anvil_set_code (wo_ext W) a c nd)"
| "answer_anvil W (SetStorageAt a k v) nd = answered JBool (anvil_set_storage_at (wo_ext W) a k v nd)"

primrec answer_evm :: "world \<Rightarrow> evm_request \<Rightarrow> node \<Rightarrow> answer \<times> node" where
  "answer_evm W (EvmSetNonce a v) nd = answered JBool (evm_set_nonce (wo_ext W) a v nd)"
| "answer_evm W (EvmIncreaseTime t) nd = answered JNumber (evm_increase_time (wo_ext W) t nd)"
| "answer_evm W EvmMine nd = answered JString (evm_mine (wo_ext W) nd)"
| "answer_evm W (EvmSetNextBlockTimestamp t) nd =
     answered JU64 (evm_set_next_block_timestamp (wo_ext W) t nd)"
| "answer_evm W (EvmSetTime t) nd = answered JI128 (evm_set_time (wo_ext W) t nd)"
| "answer_evm W EvmSnapshot nd = answered JU64 (evm_snapshot (wo_ext W) nd)"
| "answer_evm W (EvmRevert i) nd = answered JBool (evm_revert (wo_ext W) i nd)"

primrec answer_eth :: "world \<Rightarrow> eth_request \<Rightarrow> node \<Rightarrow> answer \<times> node" where
  "answer_eth W (EthCall r) nd = answered JBytes (eth_call (wo_ext W) r nd)"
| "answer_eth W (EthGetBalance a) nd = answered JU256 (eth_get_balance (wo_ext W) a nd)"
| "answer_eth W (EthGetCode a) nd = answered JBytes (eth_get_code (wo_ext W) a nd)"
| "answer_eth W (EthGetTransactionCount a) nd = answered JU256 (eth_get_transaction_count (wo_ext W) a nd)"
| "answer_eth W (EthGetStorage a k b) nd = answered JH256 (eth_get_storage (wo_ext W) a k b nd)"
| "answer_eth W (EthSendRawTransaction bs) nd = answered JH256 (eth_send_raw_transaction (wo_ext W) bs nd)"
| "answer_eth W (EthSendTransaction r) nd = answered JH256 (eth_send_transaction (wo_ext W) r nd)"
| "answer_eth W (EthEstimateGas r) nd = computed JU256 (eth_estimate_gas (wo_ext W) r nd) nd"
| "answer_eth W (EthNewFilter f) nd = answered JU256 (eth_new_filter (wo_ext W) f nd)"
| "answer_eth W EthNewBlockFilter nd = answered JU256 (eth_new_block_filter (wo_ext W) nd)"
| "answer_eth W EthNewPendingTransactionFilter nd =
     answered JU256 (eth_new_pending_transaction_filter (wo_ext W) nd)"
| "answer_eth W (EthUninstallFilter i) nd = answered JBool (eth_uninstall_filter (wo_ext W) i nd)"
| "answer_eth W (EthGetFilterChanges i) nd = answered JFilterChanges (eth_get_filter_changes (wo_ext W) i nd)"

primrec answer_config :: "world \<Rightarrow> config_request \<Rightarrow> node \<Rightarrow> answer \<times> node" where
  "answer_config W (SetShowCalls v) nd = answered JString (config_set_show_calls (wo_ext W) v nd)"
| "answer_config W (SetShowOutputs v) nd = answered JBool (config_set_show_outputs (wo_ext W) v nd)"
| "answer_config W (SetShowStorageLogs v) nd = answered JString (config_set_show_storage_logs (wo_ext W) v nd)"
| "answer_config W (SetShowVMDetails v) nd = answered JString (config_set_show_vm_details (wo_ext W) v nd)"
| "answer_config W (SetShowGasDetails v) nd = answered JString (config_set_show_gas_details (wo_ext W) v nd)"
| "answer_config W (SetResolveHashes v) nd = answered JBool (config_set_resolve_hashes (wo_ext W) v nd)"
| "answer_config W (SetLogLevel l) nd = answered JBool (config_set_log_level (wo_ext W) (wo_valid W) l nd)"
| "answer_config W (SetLogging v) nd = answered JBool (config_set_logging (wo_ext W) (wo_valid W) v nd)"

primrec answer_request :: "world \<Rightarrow> request \<Rightarrow> node \<Rightarrow> answer \<times> node" where
  "answer_request W (Hardhat r) nd = answer_hardhat W r nd"
| "answer_request W (Anvil r) nd = answer_anvil W r nd"
| "answer_request W (Evm r) nd = answer_evm W r nd"
| "answer_request W (Eth r) nd = answer_eth W r nd"
| "answer_request W (Config r) nd = answer_config W r nd"
| "answer_request W (ZksEstimateFee r) nd = computed JFee (zks_estimate_fee (wo_ext W) r nd) nd"
| "answer_request W (ZksGetAllAccountBalances a) nd =
     answered JBalances (zks_get_all_account_balances (wo_ext W) (wo_display W) a nd)"
| "answer_request W (ZksGetBytecodeByHash h) nd =
     answered (nullable JByteVec) (zks_get_bytecode_by_hash (wo_ext W) h nd)"
| "answer_request W (DebugTraceCall r b t) nd = answered JDebugCall (debug_trace_call (wo_ext W) r b t nd)"
| "answer_request W (Ask q) nd = (Some (answer_query W q nd), nd)"

text \<open>The node that a request leaves behind.\<close>

definition serve_request :: "world \<Rightarrow> request \<Rightarrow> node \<Rightarrow> node" where
  "serve_request W r nd = snd (answer_request W r nd)"

abbreviation serve_hardhat :: "world \<Rightarrow> account_request \<Rightarrow> node \<Rightarrow> node" where
  "serve_hardhat W r nd \<equiv> snd (answer_hardhat W r nd)"

abbreviation serve_anvil :: "world \<Rightarrow> account_request \<Rightarrow> node \<Rightarrow> node" where
  "serve_anvil W r nd \<equiv> snd (answer_anvil W r nd)"

abbreviation serve_evm :: "world \<Rightarrow> evm_request \<Rightarrow> node \<Rightarrow> node" where
  "serve_evm W r nd \<equiv> snd (answer_evm W r nd)"

abbreviation serve_eth :: "world \<Rightarrow> eth_request \<Rightarrow> node \<Rightarrow> node" where
  "serve_eth W r nd \<equiv> snd (answer_eth W r nd)"

abbreviation serve_config :: "world \<Rightarrow> config_request \<Rightarrow> node \<Rightarrow> node" where
  "serve_config W r nd \<equiv> snd (answer_config W r nd)"

lemma snd_answered [simp]: "snd (answered f x) = snd x"
  by (simp add: answered_def)

lemma snd_computed [simp]: "snd (computed f x nd) = unwrap_or (map_option snd x) nd"
  by (simp add: computed_def split: option.split)

lemma serve_request_simps [simp]:
  "serve_request W (Hardhat a) nd = serve_hardhat W a nd"
  "serve_request W (Anvil a) nd = serve_anvil W a nd"
  "serve_request W (Evm e) nd = serve_evm W e nd"
  "serve_request W (Eth q) nd = serve_eth W q nd"
  "serve_request W (Config c) nd = serve_config W c nd"
  "serve_request W (ZksEstimateFee r) nd = unwrap_or (map_option snd (zks_estimate_fee (wo_ext W) r nd)) nd"
  "serve_request W (ZksGetAllAccountBalances d) nd =
     snd (zks_get_all_account_balances (wo_ext W) (wo_display W) d nd)"
  "serve_request W (ZksGetBytecodeByHash h) nd = snd (zks_get_bytecode_by_hash (wo_ext W) h nd)"
  "serve_request W (DebugTraceCall r b t) nd = snd (debug_trace_call (wo_ext W) r b t nd)"
  "serve_request W (Ask ask) nd = nd"
  by (simp_all add: serve_request_def)

section \<open>Results have their types\<close>

primrec node_query_type :: "node_query \<Rightarrow> rtype" where
  "node_query_type NetVersion = RNamed ''String''"
| "node_query_type NetPeerCount = RNamed ''U256''"
| "node_query_type NetListening = RNamed ''bool''"
| "node_query_type Web3ClientVersion = RNamed ''String''"
| "node_query_type ConfigGetShowCalls = RNamed ''String''"
| "node_query_type ConfigGetShowOutputs = RNamed ''bool''"
| "node_query_type ConfigGetCurrentTimestamp = RNamed ''u64''"
| "node_query_type (DebugTraceBlockByNumber b t) = RVec (RNamed ''ResultDebugCall'')"
| "node_query_type (DebugTraceBlockByHash h t) = RVec (RNamed ''ResultDebugCall'')"
| "node_query_type (DebugTraceTransaction h t) = ROption (RNamed ''DebugCall'')"

primrec eth_query_type :: "eth_query \<Rightarrow> rtype" where
  "eth_query_type EthBlockNumber = RNamed ''U64''"
| "eth_query_type EthChainId = RNamed ''U64''"
| "eth_query_type EthGasPrice = RNamed ''U256''"
| "eth_query_type (EthGetLogs f) = RVec (RNamed ''Log'')"
| "eth_query_type (EthGetFilterLogs i) = RNamed ''FilterChanges''"
| "eth_query_type (EthGetBlockByNumber b full) = ROption (RNamed ''Block<TransactionVariant>'')"
| "eth_query_type (EthGetBlockByHash h full) = ROption (RNamed ''Block<TransactionVariant>'')"
| "eth_query_type (EthGetBlockTransactionCountByNumber b) = ROption (RNamed ''U256'')"
| "eth_query_type (EthGetBlockTransactionCountByHash h) = ROption (RNamed ''U256'')"
| "eth_query_type (EthGetTransactionByHash h) = ROption (RNamed ''Transaction'')"
| "eth_query_type (EthGetTransactionByBlockHashAndIndex h i) = ROption (RNamed ''Transaction'')"
| "eth_query_type (EthGetTransactionByBlockNumberAndIndex b i) = ROption (RNamed ''Transaction'')"
| "eth_query_type (EthGetTransactionReceipt h) = ROption (RNamed ''TransactionReceipt'')"
| "eth_query_type EthProtocolVersion = RNamed ''String''"
| "eth_query_type EthSyncing = RNamed ''SyncState''"
| "eth_query_type EthAccounts = RVec (RNamed ''Address'')"
| "eth_query_type EthCoinbase = RNamed ''Address''"
| "eth_query_type EthGetCompilers = RVec (RNamed ''String'')"
| "eth_query_type EthHashrate = RNamed ''U256''"
| "eth_query_type EthGetUncleCountByBlockHash = ROption (RNamed ''U256'')"
| "eth_query_type EthGetUncleCountByBlockNumber = ROption (RNamed ''U256'')"
| "eth_query_type EthMining = RNamed ''bool''"
| "eth_query_type (EthFeeHistory k newest ps) = RNamed ''FeeHistory''"

primrec zks_query_type :: "zks_query \<Rightarrow> rtype" where
  "zks_query_type ZksEstimateGasL1ToL2 = RNamed ''U256''"
| "zks_query_type ZksGetMainContract = RNamed ''Address''"
| "zks_query_type ZksGetTestnetPaymaster = ROption (RNamed ''Address'')"
| "zks_query_type ZksGetBridgeContracts = RNamed ''BridgeAddresses''"
| "zks_query_type ZksL1ChainId = RNamed ''U64''"
| "zks_query_type (ZksGetConfirmedTokens i k) = RVec (RNamed ''Token'')"
| "zks_query_type (ZksGetTokenPrice a) = RNamed ''BigDecimal''"
| "zks_query_type ZksGetL2ToL1MsgProof = ROption (RNamed ''L2ToL1LogProof'')"
| "zks_query_type ZksGetL2ToL1LogProof = ROption (RNamed ''L2ToL1LogProof'')"
| "zks_query_type ZksL1BatchNumber = RNamed ''U64''"
| "zks_query_type (ZksGetBlockDetails k) = ROption (RNamed ''BlockDetails'')"
| "zks_query_type ZksGetL1BatchBlockRange = ROption (RPair (RNamed ''U64'') (RNamed ''U64''))"
| "zks_query_type (ZksGetTransactionDetails h) = ROption (RNamed ''TransactionDetails'')"
| "zks_query_type (ZksGetRawBlockTransactions k) = RVec (RNamed ''zksync_types::Transaction'')"
| "zks_query_type ZksGetL1BatchDetails = ROption (RNamed ''L1BatchDetails'')"
| "zks_query_type ZksGetL1GasPrice = RNamed ''U64''"
| "zks_query_type ZksGetProtocolVersion = ROption (RNamed ''ProtocolVersion'')"
| "zks_query_type ZksGetProof = RNamed ''Proof''"
| "zks_query_type ZksGetBaseTokenL1Address = RNamed ''Address''"

primrec query_type :: "query_request \<Rightarrow> rtype" where
  "query_type (NodeQuery q) = node_query_type q"
| "query_type (EthQuery q) = eth_query_type q"
| "query_type (ZksQuery q) = zks_query_type q"

primrec request_type :: "request \<Rightarrow> rtype" where
  "request_type (Hardhat r) = (case r of SetCode a c \<Rightarrow> RNamed ''()'' | _ \<Rightarrow> RNamed ''bool'')"
| "request_type (Anvil r) = (case r of SetCode a c \<Rightarrow> RNamed ''()'' | _ \<Rightarrow> RNamed ''bool'')"
| "request_type (Evm r) =
     (case r of EvmSetNonce a v \<Rightarrow> RNamed ''bool'' | EvmIncreaseTime t \<Rightarrow> RNamed ''u64'' | EvmMine \<Rightarrow> RNamed ''String''
      | EvmSetNextBlockTimestamp t \<Rightarrow> RNamed ''U64'' | EvmSetTime t \<Rightarrow> RNamed ''i128'' | EvmSnapshot \<Rightarrow> RNamed ''U64'' | EvmRevert i \<Rightarrow> RNamed ''bool'')"
| "request_type (Eth r) =
     (case r of EthCall q \<Rightarrow> RNamed ''Bytes'' | EthGetCode a \<Rightarrow> RNamed ''Bytes'' | EthGetStorage a k b \<Rightarrow> RNamed ''H256''
      | EthSendRawTransaction bs \<Rightarrow> RNamed ''H256'' | EthSendTransaction q \<Rightarrow> RNamed ''H256'' | EthUninstallFilter i \<Rightarrow> RNamed ''bool''
      | EthGetFilterChanges i \<Rightarrow> RNamed ''FilterChanges'' | _ \<Rightarrow> RNamed ''U256'')"
| "request_type (Config r) =
     (case r of SetShowOutputs b \<Rightarrow> RNamed ''bool'' | SetResolveHashes b \<Rightarrow> RNamed ''bool'' | SetLogLevel l \<Rightarrow> RNamed ''bool''
      | SetLogging s \<Rightarrow> RNamed ''bool'' | _ \<Rightarrow> RNamed ''String'')"
| "request_type (ZksEstimateFee r) = RNamed ''Fee''"
| "request_type (ZksGetAllAccountBalances a) = RNamed ''HashMap<Address, U256>''"
| "request_type (ZksGetBytecodeByHash h) = ROption (RNamed ''Vec<u8>'')"
| "request_type (DebugTraceCall r b t) = RNamed ''DebugCall''"
| "request_type (Ask q) = query_type q"

lemma encoded_Ok: "encoded f r = Ok v \<longleftrightarrow> (\<exists>x. r = Ok x \<and> v = f x)"
  by (auto simp: encoded_def rbind_eq_Ok)

lemma answered_Ok: "fst (answered f x) = Some (Ok v) \<longleftrightarrow> (\<exists>y. fst x = Ok y \<and> v = f y)"
  by (simp add: answered_def encoded_Ok)

lemma computed_Ok: "fst (computed f x nd) = Some (Ok v) \<longleftrightarrow> (\<exists>y nd'. x = Some (Ok y, nd') \<and> v = f y)"
  by (auto simp: computed_def answered_Ok split: option.split)

lemma nullable_type: "(\<And>y. has_result t (f y)) \<Longrightarrow> has_result (ROption t) (nullable f x)"
  by (simp add: nullable_def split: option.split)

lemma array_type: "(\<And>y. has_result t (f y)) \<Longrightarrow> has_result (RVec t) (array f xs)"
  by (simp add: array_def list_all_iff)

lemma null_typed: "has_result (ROption t) (nullable f None)"
  by (simp add: nullable_def)

lemmas typed_results = nullable_type array_type

lemma node_query_result: "answer_node_query W q nd = Ok v \<Longrightarrow> has_result (node_query_type q) v"
  by (cases q) (auto simp: encoded_Ok typed_results simp del: has_result.simps(2,3))

lemma eth_query_result: "answer_eth_query W q nd = Ok v \<Longrightarrow> has_result (eth_query_type q) v"
  by (cases q) (auto simp: encoded_Ok typed_results simp del: has_result.simps(2,3))

lemma zks_query_result: "answer_zks_query W q nd = Ok v \<Longrightarrow> has_result (zks_query_type q) v"
  by (cases q) (auto simp: encoded_Ok typed_results null_typed not_implemented_def zks_get_l2_to_l1_msg_proof_def
      zks_get_l2_to_l1_log_proof_def zks_get_protocol_version_def zks_get_proof_def zks_get_l1_batch_details_def
      zks_get_miniblock_range_def simp del: has_result.simps(2,3))

lemma query_result: "answer_query W q nd = Ok v \<Longrightarrow> has_result (query_type q) v"
  by (cases q) (simp_all add: node_query_result eth_query_result zks_query_result)

lemma request_result: "fst (answer_request W r nd) = Some (Ok v) \<Longrightarrow> has_result (request_type r) v"
proof (cases r)
  case (Hardhat q)
  then show "fst (answer_request W r nd) = Some (Ok v) \<Longrightarrow> ?thesis" by (cases q) (auto simp: answered_Ok)
next
  case (Anvil q)
  then show "fst (answer_request W r nd) = Some (Ok v) \<Longrightarrow> ?thesis" by (cases q) (auto simp: answered_Ok)
next
  case (Evm q)
  then show "fst (answer_request W r nd) = Some (Ok v) \<Longrightarrow> ?thesis" by (cases q) (auto simp: answered_Ok)
next
  case (Eth q)
  then show "fst (answer_request W r nd) = Some (Ok v) \<Longrightarrow> ?thesis" by (cases q) (auto simp: answered_Ok computed_Ok)
next
  case (Config q)
  then show "fst (answer_request W r nd) = Some (Ok v) \<Longrightarrow> ?thesis" by (cases q) (auto simp: answered_Ok)
qed (auto simp: answered_Ok computed_Ok query_result nullable_def split: option.splits)

text \<open>Every request is answered: the only computation that might not end is the gas estimation.\<close>

lemma estimates_answered:
  assumes "unat (x_max_l2_tx_gas_limit E) \<le> 2 ^ 63"
  shows "\<exists>x. eth_estimate_gas E r nd = Some x" "\<exists>x. zks_estimate_fee E r nd = Some x"
  using estimation_returns [OF assms, of r "nd_inner nd"] by (auto simp: eth_estimate_gas_def zks_estimate_fee_def)

lemma fst_answered: "\<exists>a. fst (answered f x) = Some a"
  by (simp add: answered_def)

lemma fst_computed: "x \<noteq> None \<Longrightarrow> \<exists>a. fst (computed f x nd) = Some a"
  by (auto simp: computed_def answered_def)

lemma request_answered:
  assumes "unat (x_max_l2_tx_gas_limit (wo_ext W)) \<le> 2 ^ 63"
  shows "\<exists>a. fst (answer_request W r nd) = Some a"
proof (cases r)
  case (Hardhat q)
  then show ?thesis by (cases q) (simp_all add: fst_answered)
next
  case (Anvil q)
  then show ?thesis by (cases q) (simp_all add: fst_answered)
next
  case (Evm q)
  then show ?thesis by (cases q) (simp_all add: fst_answered)
next
  case (Eth q)
  then show ?thesis using estimates_answered [OF assms] by (cases q) (auto simp: fst_answered intro!: fst_computed)
next
  case (Config q)
  then show ?thesis by (cases q) (simp_all add: fst_answered)
qed (use estimates_answered [OF assms] in \<open>auto simp: fst_answered intro!: fst_computed\<close>)

end
