(* ===== verification/Node_Steps.thy ===== *)
theory Node_Steps
  imports Requests
begin

text \<open>
  The node as a state machine: the invariant that every request keeps, and the nodes that can be
  reached from a new one by serving requests.
\<close>

section \<open>The invariant\<close>

text \<open>
  Blocks are stored under their own hash, every numbered hash has its block, and the current
  number has one. (That the current hash is the hash of the current number is not kept: mining
  leaves the hash behind.)
\<close>

definition blocks_ok :: "inner \<Rightarrow> bool" where
  "blocks_ok n \<longleftrightarrow>
     (\<forall>h b. n_blocks n h = Some b \<longrightarrow> b_hash b = h) \<and>
     (\<forall>k h. n_block_hashes n k = Some h \<longrightarrow> n_blocks n h \<noteq> None) \<and>
     n_block_hashes n (n_current_miniblock n) \<noteq> None"

definition archive_ok :: "inner \<Rightarrow> bool" where
  "archive_ok n \<longleftrightarrow> length (n_previous_states n) \<le> 129 \<and> distinct (map fst (n_previous_states n))"

definition inner_ok :: "inner \<Rightarrow> bool" where
  "inner_ok n \<longleftrightarrow> blocks_ok n \<and> archive_ok n \<and> filters_inv (n_filters n) \<and> caches_coherent (n_fork_storage n)"

text \<open>A step keeps the invariant and stays on the same fork, over which the snapshots make sense.\<close>

definition step_ok :: "inner \<Rightarrow> inner \<Rightarrow> bool" where
  "step_ok n n' \<longleftrightarrow> inner_ok n' \<and> fo_fork (n_fork_storage n') = fo_fork (n_fork_storage n)"

definition node_ok :: "node \<Rightarrow> bool" where
  "node_ok nd \<longleftrightarrow> inner_ok (nd_inner nd) \<and> length (nd_snapshots nd) \<le> 100 \<and>
     (\<forall>s \<in> set (nd_snapshots nd). inner_ok (restore_snapshot s (nd_inner nd)))"

lemma step_ok_refl: "inner_ok n \<Longrightarrow> step_ok n n"
  by (simp add: step_ok_def)

lemma step_ok_trans: "step_ok a b \<Longrightarrow> step_ok b c \<Longrightarrow> step_ok a c"
  by (simp add: step_ok_def)

lemma step_ok_inner: "step_ok n n' \<Longrightarrow> inner_ok n'"
  by (simp add: step_ok_def)

lemma step_storage:
  assumes "inner_ok n" and "caches_coherent fo" and "fo_fork fo = fo_fork (n_fork_storage n)"
  shows "step_ok n (n\<lparr>n_fork_storage := fo\<rparr>)"
  using assms by (simp add: step_ok_def inner_ok_def blocks_ok_def archive_ok_def)

lemma step_same_contents: "inner_ok n \<Longrightarrow> same_contents (n_fork_storage n) fo \<Longrightarrow> step_ok n (n\<lparr>n_fork_storage := fo\<rparr>)"
  by (rule step_storage) (simp_all add: same_contents_def)

lemma step_filters: "inner_ok n \<Longrightarrow> filters_inv fs \<Longrightarrow> step_ok n (n\<lparr>n_filters := fs\<rparr>)"
  by (simp add: step_ok_def inner_ok_def blocks_ok_def archive_ok_def)

lemma step_plain:
  assumes "inner_ok n"
  shows "step_ok n (n\<lparr>n_current_timestamp := t\<rparr>)" "step_ok n (n\<lparr>n_config := c\<rparr>)"
    "step_ok n (n\<lparr>n_impersonated_accounts := s\<rparr>)" "step_ok n (n\<lparr>n_rich_accounts := r\<rparr>)"
    "step_ok n (n\<lparr>n_observability := obs\<rparr>)" "step_ok n (n\<lparr>n_tx_results := rs\<rparr>)" "step_ok n (n\<lparr>n_current_batch := bt\<rparr>)"
  using assms by (simp_all add: step_ok_def inner_ok_def blocks_ok_def archive_ok_def)

lemma restored_ok:
  "fo_fork (n_fork_storage n') = fo_fork (n_fork_storage n) \<Longrightarrow>
   inner_ok (restore_snapshot s n) \<Longrightarrow> inner_ok (restore_snapshot s n')"
  by (simp add: inner_ok_def blocks_ok_def archive_ok_def restore_snapshot_def caches_coherent_def)

lemma node_ok_step:
  assumes "node_ok nd" and "step_ok (nd_inner nd) n'"
  shows "node_ok (nd\<lparr>nd_inner := n'\<rparr>)"
  using assms restored_ok [of n' "nd_inner nd"] by (simp add: node_ok_def step_ok_def)

lemma node_ok_poisoned: "node_ok nd \<Longrightarrow> node_ok (nd\<lparr>nd_inner_poisoned := p\<rparr>)"
  by (simp add: node_ok_def)

text \<open>Under the write lock, it is enough to look at the results other than panics.\<close>

lemma node_ok_inner: "node_ok nd \<Longrightarrow> inner_ok (nd_inner nd)"
  by (simp add: node_ok_def)

definition node_step :: "node \<Rightarrow> ('e, 'a) res \<times> node \<Rightarrow> bool" where
  "node_step nd x \<longleftrightarrow> node_ok (snd x) \<and> nd_snapshots (snd x) = nd_snapshots nd \<and>
     fo_fork (n_fork_storage (nd_inner (snd x))) = fo_fork (n_fork_storage (nd_inner nd)) \<and>
     (fst x = Panic \<or> nd_inner_poisoned (snd x) = nd_inner_poisoned nd)"

lemma node_step_here: "node_ok nd \<Longrightarrow> node_step nd (r, nd)"
  by (simp add: node_step_def)

lemma node_step_inner: "node_ok nd \<Longrightarrow> step_ok (nd_inner nd) n' \<Longrightarrow> node_step nd (r, nd\<lparr>nd_inner := n'\<rparr>)"
  using node_ok_step [of nd n'] by (simp add: node_step_def step_ok_def)

lemma node_step_trans: "node_step nd (Ok u, nd1) \<Longrightarrow> node_step nd1 x \<Longrightarrow> node_step nd x"
  by (auto simp: node_step_def)

lemma write_inner_step:
  assumes "node_ok nd" and "\<And>r n'. f (nd_inner nd) = (r, n') \<Longrightarrow> r \<noteq> Panic \<Longrightarrow> step_ok (nd_inner nd) n'"
  shows "node_step nd (write_inner e f nd)"
proof (cases "f (nd_inner nd)")
  case (Pair r n')
  then show ?thesis
    using assms(2) node_step_inner [OF assms(1), of n'] node_ok_poisoned [OF assms(1)] node_step_here [OF assms(1)]
    by (cases r) (auto simp: write_inner_def node_step_def)
qed

lemma write_inner_ok:
  assumes "node_ok nd" and "\<And>r n'. f (nd_inner nd) = (r, n') \<Longrightarrow> r \<noteq> Panic \<Longrightarrow> step_ok (nd_inner nd) n'"
  shows "node_ok (snd (write_inner e f nd))"
proof -
  have "node_step nd (write_inner e f nd)" using assms(2) by (rule write_inner_step [OF assms(1)])
  then show ?thesis by (simp add: node_step_def)
qed

lemma inner_ok_coherent: "inner_ok n \<Longrightarrow> caches_coherent (n_fork_storage n)"
  by (simp add: inner_ok_def)

lemma snd_rpc [simp]: "snd (rpc_internal E r) = snd r" "snd (rpc_message r) = snd r"
  by (simp_all add: rpc_internal_def rpc_message_def)

section \<open>Gas estimation\<close>

lemma step_at_same:
  "caches_coherent fo \<Longrightarrow> step_at E g lim fo = Some (r, fo') \<Longrightarrow> same_contents fo fo'"
  using step_at_run(2) by blast

lemma gas_answer_same:
  "caches_coherent fo \<Longrightarrow> gas_answer E g f a u fo = (r, fo') \<Longrightarrow> same_contents fo fo'"
  by (auto simp: gas_answer_def Let_def same_contents_def split: option.splits prod.splits
      dest: step_at_same [unfolded same_contents_def])

lemma gas_search_invariant:
  fixes fails :: "u64 \<Rightarrow> 'a \<Rightarrow> (bool \<times> 'a) option"
  assumes "gas_search fails l u s = Some r" and "r = Some (b, s')" and "P s"
    and "\<And>mid s b s'. P s \<Longrightarrow> fails mid s = Some (b, s') \<Longrightarrow> P s'"
  shows "P s'"
proof -
  define Q where "Q = (\<lambda>(fails :: u64 \<Rightarrow> 'a \<Rightarrow> (bool \<times> 'a) option) (l :: u64) (u :: u64) s r. (\<forall>mid s b s'. P s \<longrightarrow> fails mid s = Some (b, s') \<longrightarrow> P s') \<longrightarrow> P s \<longrightarrow>
    (\<forall>(b :: u64) s'. r = Some (b, s') \<longrightarrow> P s'))"
  have "Q fails l u s r"
  proof (rule gas_search.raw_induct [OF _ assms(1)])
    fix search fails l u s r
    assume IH: "\<And>fails l u s r. search fails l u s = Some r \<Longrightarrow> Q fails l u s r"
    assume eq: "(if l + ESTIMATE_GAS_ACCEPTABLE_OVERESTIMATION < u
      then let mid = (l + u) div 2 in
           case fails mid s of None \<Rightarrow> Some None
           | Some (failed, s') \<Rightarrow> if failed then search fails (mid + 1) u s' else search fails l mid s'
      else Some (Some (u, s))) = Some r"
    show "Q fails l u s r"
    proof (cases "l + ESTIMATE_GAS_ACCEPTABLE_OVERESTIMATION < u \<and> fails ((l + u) div 2) s \<noteq> None")
      case False
      then show ?thesis using eq by (cases "fails ((l + u) div 2) s") (auto simp: Q_def Let_def split: if_splits)
    next
      case True
      then obtain failed s1 where f: "fails ((l + u) div 2) s = Some (failed, s1)" by auto
      then have "(if failed then search fails ((l + u) div 2 + 1) u s1 else search fails l ((l + u) div 2) s1) = Some r"
        using eq True by (simp add: Let_def)
      then have "\<exists>l' u'. Q fails l' u' s1 r"
        using IH [of fails "(l + u) div 2 + 1" u s1 r] IH [of fails l "(l + u) div 2" s1 r] by (cases failed) auto
      then show ?thesis using f unfolding Q_def by blast
    qed
  qed
  then show ?thesis using assms(2-4) unfolding Q_def by blast
qed

lemma same_contents_coherent: "same_contents a b \<Longrightarrow> caches_coherent b"
  by (simp add: same_contents_def)

lemma estimate_prepared_same:
  assumes "caches_coherent fo" and "estimate_prepared E g f fo = Some (r, fo')"
  shows "same_contents fo fo'"
proof (cases "step_at E g (x_batch_gas_limit E) fo")
  case None
  then show ?thesis using assms by (simp add: estimate_prepared_def same_contents_def)
next
  case (Some p)
  obtain x fo1 where p: "p = (x, fo1)" by (cases p)
  note 1 = step_at_same [OF assms(1) Some [unfolded p]]
  have search: "same_contents fo fo2"
    if "gas_search (\<lambda>mid fo. map_option (\<lambda>(r, fo'). (is_failed (vm_exec r), fo')) (step_at E g (a + mid) fo)) 0 u fo1 = Some (Some (b, fo2))"
    for a b u fo2
    by (rule gas_search_invariant [OF that refl, of "same_contents fo"], rule 1)
       (auto intro: same_contents_trans step_at_same [OF same_contents_coherent])
  show ?thesis
  proof (cases "x_max_vm_pubdata_per_batch E < vm_pubdata_published x")
    case True
    then show ?thesis using assms(2) Some p 1 by (simp add: estimate_prepared_def)
  next
    case False
    let ?a = "ucast (vm_pubdata_published x) * gs_gas_per_pubdata g"
    obtain found where f: "gas_search (\<lambda>mid fo. map_option (\<lambda>(r, fo'). (is_failed (vm_exec r), fo')) (step_at E g (?a + mid) fo))
          0 (x_max_l2_tx_gas_limit E) fo1 = Some found"
        "(r, fo') = (case found of None \<Rightarrow> (Panic, fo) | Some (upper_bound, fo2) \<Rightarrow> gas_answer E g f ?a upper_bound fo2)"
      using assms(2) Some p False by (auto simp: estimate_prepared_def Let_def bind_eq_Some_conv)
    show ?thesis
    proof (cases found)
      case None
      then show ?thesis using f(2) assms(1) by (simp add: same_contents_def)
    next
      case (Some q)
      obtain b fo2 where q: "q = (b, fo2)" by (cases q)
      have 2: "same_contents fo fo2" using search f(1) Some q by simp
      have "gas_answer E g f ?a b fo2 = (r, fo')" using f(2) Some q by simp
      then show ?thesis using same_contents_trans [OF 2 gas_answer_same [OF same_contents_coherent [OF 2]]] by blast
    qed
  qed
qed

lemma added_filter_ok:
  "filters_inv fs \<Longrightarrow> add_block_filter fs = Ok (i, fs') \<Longrightarrow> filters_inv fs'"
  "filters_inv fs \<Longrightarrow> add_pending_transaction_filter fs = Ok (i, fs') \<Longrightarrow> filters_inv fs'"
  "filters_inv fs \<Longrightarrow> add_log_filter f t as ts fs = Ok (i, fs') \<Longrightarrow> filters_inv fs'"
  using filters_inv_add by (auto simp: add_defs)

section \<open>Requests that leave the chain alone\<close>

text \<open>
  Most requests only read, filling caches on the way, or change what is not the chain: filters,
  the clock, the configuration, the log filter, the impersonated accounts. What they do is proved
  once, for every relation on inner states that allows those changes.
\<close>

definition node_rel :: "(inner \<Rightarrow> inner \<Rightarrow> bool) \<Rightarrow> node \<Rightarrow> node \<Rightarrow> bool" where
  "node_rel R nd nd' \<longleftrightarrow> R (nd_inner nd) (nd_inner nd') \<and> nd_snapshots nd' = nd_snapshots nd"

fun quiet_account :: "account_request \<Rightarrow> bool" where
  "quiet_account (ImpersonateAccount a) = True"
| "quiet_account (StopImpersonatingAccount a) = True"
| "quiet_account _ = False"

fun quiet :: "request \<Rightarrow> bool" where
  "quiet (Hardhat r) = quiet_account r"
| "quiet (Anvil r) = quiet_account r"
| "quiet (Evm r) = (case r of EvmIncreaseTime t \<Rightarrow> True | EvmSetNextBlockTimestamp t \<Rightarrow> True | EvmSetTime t \<Rightarrow> True | _ \<Rightarrow> False)"
| "quiet (Eth r) = (case r of EthSendRawTransaction bs \<Rightarrow> False | EthSendTransaction req \<Rightarrow> False | _ \<Rightarrow> True)"
| "quiet _ = True"

locale quiet_relation =
  fixes R :: "inner \<Rightarrow> inner \<Rightarrow> bool"
  assumes unchanged: "\<And>n. inner_ok n \<Longrightarrow> R n n"
    and compose: "\<And>a b c. R a b \<Longrightarrow> R b c \<Longrightarrow> R a c"
    and is_step: "\<And>a b. R a b \<Longrightarrow> step_ok a b"
    and contents: "\<And>n fo. inner_ok n \<Longrightarrow> same_contents (n_fork_storage n) fo \<Longrightarrow> R n (n\<lparr>n_fork_storage := fo\<rparr>)"
    and filters: "\<And>n fs. inner_ok n \<Longrightarrow> filters_inv fs \<Longrightarrow> R n (n\<lparr>n_filters := fs\<rparr>)"
    and clock: "\<And>n t. inner_ok n \<Longrightarrow> R n (n\<lparr>n_current_timestamp := t\<rparr>)"
    and configured: "\<And>n c. inner_ok n \<Longrightarrow> R n (n\<lparr>n_config := c\<rparr>)"
    and impersonated: "\<And>n s. inner_ok n \<Longrightarrow> R n (n\<lparr>n_impersonated_accounts := s\<rparr>)"
    and observed_by: "\<And>n obs. inner_ok n \<Longrightarrow> R n (n\<lparr>n_observability := obs\<rparr>)"
begin

lemma keeps_ok: "R a b \<Longrightarrow> inner_ok b"
  using is_step step_ok_inner by blast

lemma keeps_read_key: "inner_ok n \<Longrightarrow> read_key E k n = (r, n') \<Longrightarrow> R n n'"
  using read_key_correct [OF inner_ok_coherent, of n E k r n'] contents [of n "n_fork_storage n'"] by simp

lemma keeps_run_view:
  assumes "inner_ok n" and "create_l1_batch_env E n fo_ops (storage_view_new (n_fork_storage n)) = Some (x, sv1)"
    and "run fo_ops p sv1 = Some (y, sv2)"
  shows "R n (n\<lparr>n_fork_storage := sv_storage_handle sv2\<rparr>)"
  using good_view_handle [OF good_view_run [OF good_view_env [OF good_view_new [OF inner_ok_coherent [OF assms(1)]] assms(2)] assms(3)]]
  by (intro contents assms(1)) (simp add: same_contents_def same_local_def)

lemma keeps_call_inner: "inner_ok n \<Longrightarrow> call_inner E tx n = (r, n') \<Longrightarrow> R n n'"
  by (auto simp: call_inner_def Let_def unchanged split: option.splits prod.splits intro: keeps_run_view)

lemma keeps_load_dep:
  assumes "inner_ok n" and "load_factory_dep_internal h (n_fork_storage n) = (r, fo)"
  shows "R n (n\<lparr>n_fork_storage := fo\<rparr>)"
  using load_factory_dep_correct [OF inner_ok_coherent [OF assms(1)], of h] assms by (simp add: contents)

lemma keeps_token_balances: "token_balances E a tokens acc n = (r, n') \<Longrightarrow> inner_ok n \<Longrightarrow> R n n'"
proof (induction tokens arbitrary: acc n)
  case (Cons t tokens)
  obtain b n1 where r: "read_key E (x_token_balance_key E (tk_l2_address t) a) n = (b, n1)" by force
  note 1 = keeps_read_key [OF Cons.prems(2) r]
  have "R n n'" if "token_balances E a tokens acc' n1 = (r, n')" for acc'
    using compose [OF 1 Cons.IH [OF that keeps_ok [OF 1]]] .
  then show ?case using Cons.prems(1) 1 r by (cases b) auto
qed (simp add: unchanged)

lemma keeps_bytecode_inner:
  assumes "inner_ok n" and "bytecode_inner E h n = (r, n')"
  shows "R n n'"
proof -
  obtain x fo where l: "load_factory_dep_internal h (n_fork_storage n) = (x, fo)" by force
  then have "n' = n\<lparr>n_fork_storage := fo\<rparr>"
    using assms(2) by (auto simp: bytecode_inner_def Let_def split: res.splits option.splits)
  then show ?thesis using keeps_load_dep [OF assms(1) l] by simp
qed

lemma keeps_storage_inner: "inner_ok n \<Longrightarrow> storage_inner E a k b n = (r, n') \<Longrightarrow> R n n'"
  by (auto simp: storage_inner_def Let_def unchanged split: res.splits option.splits if_splits intro: keeps_read_key)

lemma keeps_code_at:
  assumes "inner_ok n" and "(case read_key E k n of
              (Ok code_hash, n1) \<Rightarrow>
                (let (r, fo) = load_factory_dep_internal code_hash (n_fork_storage n1)
                 in (g r, n1\<lparr>n_fork_storage := fo\<rparr>))
            | (Err e, n1) \<Rightarrow> (Err e, n1)
            | (Panic, n1) \<Rightarrow> (Panic, n1)) = (r, n')"
  shows "R n n'"
proof -
  obtain x n1 where x: "read_key E k n = (x, n1)" by force
  note 1 = keeps_read_key [OF assms(1) x]
  show ?thesis
    using assms(2) x 1 compose [OF 1 keeps_load_dep [OF keeps_ok [OF 1]]]
    by (cases x) (auto simp: Let_def split: prod.splits)
qed

lemma keeps_estimate_gas:
  assumes "inner_ok n" and "estimate_gas_impl E req n = Some (r, n')"
  shows "R n n'"
proof -
  obtain x fo where x: "prepare_estimation E req n = (x, fo)" by force
  note 1 = prepare_same [OF inner_ok_coherent [OF assms(1)] x]
  have "R n (n\<lparr>n_fork_storage := fo'\<rparr>)" if "estimate_prepared E g f fo = Some (y, fo')" for g f y fo'
    using contents [OF assms(1) same_contents_trans [OF 1 estimate_prepared_same [OF same_contents_coherent [OF 1] that]]] .
  then show ?thesis
    using assms x contents [OF assms(1) 1] unchanged [OF assms(1)]
    by (cases x) (auto simp: estimate_gas_impl_def)
qed

lemma rel_here: "node_ok nd \<Longrightarrow> node_rel R nd nd"
  by (simp add: node_rel_def unchanged node_ok_inner)

lemma rel_inner: "R (nd_inner nd) n' \<Longrightarrow> node_rel R nd (nd\<lparr>nd_inner := n'\<rparr>)"
  by (simp add: node_rel_def)

lemma rel_write:
  assumes "node_ok nd" and "\<And>r n'. f (nd_inner nd) = (r, n') \<Longrightarrow> r \<noteq> Panic \<Longrightarrow> R (nd_inner nd) n'"
  shows "node_rel R nd (snd (write_inner e f nd))"
proof (cases "f (nd_inner nd)")
  case (Pair r n')
  then show ?thesis
    using assms(2) unchanged [OF node_ok_inner [OF assms(1)]]
    by (cases r) (auto simp: write_inner_def node_rel_def)
qed

lemma rel_with_filters:
  assumes "node_ok nd" and "\<And>x fs'. f (n_filters (nd_inner nd)) = Ok (x, fs') \<Longrightarrow> filters_inv fs'"
  shows "node_rel R nd (snd (with_filters E a b f nd))"
  unfolding with_filters_def
  using node_ok_inner [OF assms(1)] assms(2)
  by (intro rel_write [OF assms(1)]) (auto split: res.splits intro: filters unchanged)

lemma rel_config_write: "node_ok nd \<Longrightarrow> node_rel R nd (snd (config_write E f g nd))"
  unfolding config_write_def by (rule rel_write) (auto intro: configured node_ok_inner)

lemma rel_with_observability:
  assumes "node_ok nd"
  shows "node_rel R nd (snd (with_observability E f nd))"
  using rel_here [OF assms] rel_inner [of nd, OF observed_by [OF node_ok_inner [OF assms]]]
  by (auto simp: with_observability_def split: option.split prod.split res.split)

lemma rel_config: "node_ok nd \<Longrightarrow> node_rel R nd (serve_config W r nd)"
  using rel_here [of nd]
  by (cases r) (auto simp: config_set_show_calls_def config_set_show_outputs_def config_set_show_storage_logs_def
      config_set_show_vm_details_def config_set_show_gas_details_def config_set_resolve_hashes_def
      config_set_log_level_def config_set_logging_def split: res.split intro: rel_config_write rel_with_observability)

lemma rel_estimated:
  assumes "node_ok nd"
  shows "node_rel R nd (unwrap_or (map_option snd (eth_estimate_gas E req nd)) nd)"
    "node_rel R nd (unwrap_or (map_option snd (zks_estimate_fee E req nd)) nd)"
proof -
  have e: "node_rel R nd (nd\<lparr>nd_inner := n'\<rparr>)" if "estimate_gas_impl E req (nd_inner nd) = Some (r, n')" for r n'
    using rel_inner [of nd, OF keeps_estimate_gas [OF node_ok_inner [OF assms] that]] .
  have p: "node_rel R nd (nd\<lparr>nd_inner_poisoned := True\<rparr>)"
    using unchanged [OF node_ok_inner [OF assms]] by (simp add: node_rel_def)
  show "node_rel R nd (unwrap_or (map_option snd (eth_estimate_gas E req nd)) nd)"
    "node_rel R nd (unwrap_or (map_option snd (zks_estimate_fee E req nd)) nd)"
    using rel_here [OF assms] e p
    by (cases "estimate_gas_impl E req (nd_inner nd)"; auto simp: eth_estimate_gas_def zks_estimate_fee_def)+
qed

lemma rel_eth:
  assumes "node_ok nd" and "quiet (Eth r)"
  shows "node_rel R nd (serve_eth W r nd)"
proof -
  let ?E = "wo_ext W"
  note i = node_ok_inner [OF assms(1)]
  note w = rel_write [OF assms(1)]
  have f: "filters_inv (n_filters (nd_inner nd))" using i by (simp add: inner_ok_def)
  have call: "node_rel R nd (snd (run_l2_call ?E tx nd))" for tx
    unfolding run_l2_call_def by (rule w) (rule keeps_call_inner [OF i])
  show ?thesis
  proof (cases r)
    case (EthCall req)
    then show ?thesis using rel_here [OF assms(1)] call by (auto simp: eth_call_def case_prod_beta split: res.split)
  next
    case (EthGetBalance a)
    then show ?thesis by (auto simp: eth_get_balance_def intro!: w intro: keeps_read_key [OF i])
  next
    case (EthGetCode a)
    then show ?thesis unfolding EthGetCode answer_eth.simps snd_answered eth_get_code_def by (intro w) (rule keeps_code_at [OF i])
  next
    case (EthGetTransactionCount a)
    then show ?thesis
      by (auto simp: eth_get_transaction_count_def Let_def split: prod.splits intro!: w intro: keeps_read_key [OF i])
  next
    case (EthGetStorage a k b)
    then show ?thesis by (auto simp: eth_get_storage_def intro!: w intro: keeps_storage_inner [OF i])
  next
    case (EthUninstallFilter j)
    then show ?thesis
      using filters_inv_remove [OF f, of j]
      by (auto simp: eth_uninstall_filter_def split: prod.splits intro!: w filters i)
  next
    case (EthGetFilterChanges j)
    have "filters_inv (snd (get_new_changes j (n_filters (nd_inner nd))))"
      using get_new_changes_keys [of j] filters_inv_cong f by blast
    then show ?thesis using EthGetFilterChanges
      by (auto simp: eth_get_filter_changes_def split: prod.splits intro!: w filters i)
  qed (use assms rel_estimated in \<open>auto simp: eth_new_filter_def eth_new_block_filter_def
      eth_new_pending_transaction_filter_def intro!: rel_with_filters dest: added_filter_ok [OF f]\<close>)
qed

lemma rel_clock:
  assumes "node_ok nd"
  shows "node_rel R nd (snd (increase_time t nd))" "node_rel R nd (snd (set_next_block_timestamp t nd))"
    "node_rel R nd (snd (set_time t nd))" "node_rel R nd (snd (impersonate_account a nd))"
    "node_rel R nd (snd (nd_stop_impersonating_account a nd))"
proof -
  note i = node_ok_inner [OF assms]
  note w = rel_write [OF assms]
  show "node_rel R nd (snd (increase_time t nd))" "node_rel R nd (snd (set_next_block_timestamp t nd))"
    "node_rel R nd (snd (set_time t nd))"
    unfolding increase_time_def set_next_block_timestamp_def set_time_def
    by (rule w; auto simp: Let_def clock unchanged i split: if_splits)+
  show "node_rel R nd (snd (impersonate_account a nd))" "node_rel R nd (snd (nd_stop_impersonating_account a nd))"
    unfolding impersonate_account_def nd_stop_impersonating_account_def set_impersonated_account_def stop_impersonating_account_def
    by (rule w; auto simp: impersonated i)+
qed

lemma rel_account:
  assumes "node_ok nd" and "quiet_account r"
  shows "node_rel R nd (serve_hardhat W r nd)" "node_rel R nd (serve_anvil W r nd)"
  using assms(2) rel_clock [OF assms(1)]
  by (cases r; simp add: hardhat_impersonate_account_def hardhat_stop_impersonating_account_def
      anvil_impersonate_account_def anvil_stop_impersonating_account_def)+

lemma rel_quiet_request:
  assumes "node_ok nd" and "quiet r"
  shows "node_rel R nd (serve_request W r nd)"
proof -
  let ?E = "wo_ext W"
  note i = node_ok_inner [OF assms(1)]
  note w = rel_write [OF assms(1)]
  show ?thesis
  proof (cases r)
    case (Evm q)
    then show ?thesis using assms(2) rel_clock [OF assms(1)]
      by (cases q) (simp_all add: evm_increase_time_def evm_set_next_block_timestamp_def evm_set_time_def)
  next
    case (ZksGetAllAccountBalances a)
    have "node_rel R nd (snd (write_inner e (token_balances ?E a tokens []) nd))" for e :: "(address \<times> u256) list rpc" and tokens
      by (rule w) (rule keeps_token_balances [OF _ i])
    then show ?thesis using ZksGetAllAccountBalances rel_here [OF assms(1)]
      by (auto simp: zks_get_all_account_balances_def split: res.split)
  next
    case (ZksGetBytecodeByHash h)
    then show ?thesis by (auto simp: zks_get_bytecode_by_hash_def intro!: w intro: keeps_bytecode_inner [OF i])
  next
    case (DebugTraceCall req b t)
    obtain x nd' where x: "debug_trace_call ?E req b t nd = (x, nd')" by force
    then obtain fo where "nd' = nd\<lparr>nd_inner := (nd_inner nd)\<lparr>n_fork_storage := fo\<rparr>\<rparr>" "same_contents (n_fork_storage (nd_inner nd)) fo"
      using trace_call_frame [OF inner_ok_coherent [OF i]] by blast
    then show ?thesis using DebugTraceCall x rel_inner [of nd, OF contents [OF i]] by simp
  qed (use assms rel_here rel_account rel_eth rel_config rel_estimated in simp_all)
qed

end

interpretation st: quiet_relation step_ok
  by unfold_locales (auto intro: step_ok_refl step_ok_trans step_same_contents step_filters step_plain)

lemma node_rel_ok: "node_ok nd \<Longrightarrow> node_rel step_ok nd nd' \<Longrightarrow> node_ok nd'"
  using node_ok_step [of nd "nd_inner nd'"] by (simp add: node_rel_def node_ok_def)

section \<open>Transactions\<close>

lemma produce_block_ok:
  assumes "produce_block b n = Some n'" and "inner_ok n"
  shows "step_ok n n'"
proof -
  have "archive_ok (archive_state n)"
    using assms(2) by (simp add: inner_ok_def archive_ok_def archive_length archive_distinct)
  moreover have "filters_inv (notify_new_block (b_hash b) (n_filters n))"
    using filters_inv_cong [OF notify_keys(1,3)] assms(2) by (simp add: inner_ok_def)
  ultimately show ?thesis
    using produce_block_Some [OF assms(1)] assms(2) by (auto simp: step_ok_def inner_ok_def blocks_ok_def archive_ok_def)
qed

lemma notify_logs_ok: "notify_logs lgs k fs = Some fs' \<Longrightarrow> filters_inv fs \<Longrightarrow> filters_inv fs'"
proof (induction lgs arbitrary: fs)
  case (Cons lg lgs)
  obtain fs1 where "notify_new_log lg k fs = Some fs1" "notify_logs lgs k fs1 = Some fs'"
    using Cons.prems(1) by (auto simp: bind_eq_Some_conv)
  then show ?case using Cons.IH Cons.prems(2) notify_log_keys [of lg k fs fs1] filters_inv_cong [of fs1 fs] by simp
qed simp

lemma record_tx_ok:
  assumes "record_tx E tx lt n = Some n'" and "inner_ok n"
  shows "step_ok n n'"
proof -
  obtain logs fs trs where "notify_logs logs (b_number (lt_block lt)) (n_filters n) = Some fs"
      "n' = n\<lparr>n_filters := fs, n_tx_results := trs\<rparr>"
    using assms(1) by (auto simp: record_tx_def bind_eq_Some_conv)
  moreover have "filters_inv fs" using notify_logs_ok [OF calculation(1)] assms(2) by (simp add: inner_ok_def)
  ultimately show ?thesis
    using step_ok_trans [OF step_filters [OF assms(2)] step_plain(6) [OF step_ok_inner [OF step_filters [OF assms(2)]]]] by simp
qed

lemma commit_tx_ok:
  assumes "commit_tx E tx lt n = Some n'" and "inner_ok n"
  shows "step_ok n n'"
proof -
  define n1 where "n1 = n\<lparr>n_fork_storage := store_bytecodes E (lt_bytecodes lt) (store_keys (lt_keys lt) (n_fork_storage n))\<rparr>"
  obtain n2 n4 b where c: "record_tx E tx lt n1 = Some n2"
      "produce_block (lt_block lt) (n2\<lparr>n_current_batch := sat_add (n_current_batch n2) 1\<rparr>) = Some n4"
      "produce_block b n4 = Some n'"
    using commit_tx_Some [OF assms(1)] n1_def by blast
  have 1: "step_ok n n1"
    unfolding n1_def using inner_ok_coherent [OF assms(2)] by (intro step_storage assms(2)) (simp, simp add: store_keys_def)
  note 2 = record_tx_ok [OF c(1) step_ok_inner [OF 1]]
  note 3 = step_plain(7) [OF step_ok_inner [OF 2]]
  note 4 = produce_block_ok [OF c(2) step_ok_inner [OF 3]]
  note 5 = produce_block_ok [OF c(3) step_ok_inner [OF 4]]
  show ?thesis by (rule step_ok_trans [OF 1 step_ok_trans [OF 2 step_ok_trans [OF 3 step_ok_trans [OF 4 5]]]])
qed

lemma run_l2_tx_step:
  assumes "node_ok nd"
  shows "node_step nd (run_l2_tx E tx mode nd)"
proof (cases "\<exists>u. validate_tx tx nd = Ok u")
  case False
  then show ?thesis using node_step_here [OF assms] by (auto simp: run_l2_tx_def split: res.split)
next
  case True
  then obtain u where v: "validate_tx tx nd = Ok u" by blast
  note p = validate_tx_Ok [OF v]
  let ?n = "notified E tx (nd_inner nd)"
  have 1: "step_ok (nd_inner nd) ?n"
    unfolding notified_def using assms filters_inv_cong [OF notify_keys(2,4)]
    by (intro step_filters node_ok_inner) (simp_all add: node_ok_def inner_ok_def)
  obtain r fo where r: "run_l2_tx_raw E tx mode True ?n = (r, fo)" by force
  have "step_ok ?n (?n\<lparr>n_fork_storage := fo\<rparr>)"
    using run_l2_tx_raw_storage [OF inner_ok_coherent [OF step_ok_inner [OF 1]], of E tx mode True] r
    by (intro step_storage step_ok_inner [OF 1]) (simp_all add: same_local_def)
  then have 2: "node_step nd (x, nd\<lparr>nd_inner := ?n\<lparr>n_fork_storage := fo\<rparr>\<rparr>)" (is "node_step nd (x, ?nd2)")
    for x :: "(string, unit) res"
    using node_step_inner [OF assms] step_ok_trans [OF 1] by blast
  have ok: "node_ok ?nd2" using 2 [of Panic] by (simp add: node_step_def)
  have "node_step nd (write_inner (Err write_lock_failed) (\<lambda>n. of_option n (commit_tx E tx lt n)) ?nd2)" for lt
  proof (rule node_step_trans [OF 2], rule write_inner_step [OF ok])
    fix r n' assume "of_option (nd_inner ?nd2) (commit_tx E tx lt (nd_inner ?nd2)) = (r, n')" "r \<noteq> Panic"
    then have "commit_tx E tx lt (nd_inner ?nd2) = Some n'" by (auto simp: of_option_def split: option.splits)
    then show "step_ok (nd_inner ?nd2) n'" by (rule commit_tx_ok) (rule node_ok_inner [OF ok])
  qed
  then show ?thesis
    using run_l2_tx_unfold [OF v, of E mode] p r 2
    by (cases r) (auto simp: Let_def split: exec_result.split)
qed

lemma run_l2_tx_ok: "node_ok nd \<Longrightarrow> node_ok (snd (run_l2_tx E tx mode nd))"
  using run_l2_tx_step [of nd E tx mode] by (simp add: node_step_def)

lemma apply_txs_step: "node_ok nd \<Longrightarrow> node_step nd (apply_txs E txs nd)"
proof (induction txs arbitrary: nd)
  case (Cons tx txs)
  obtain r nd1 where r: "run_l2_tx E tx VerifyExecute nd = (r, nd1)" by force
  then have 1: "node_step nd (r, nd1)" using run_l2_tx_step [OF Cons.prems, of E tx VerifyExecute] by simp
  then have "node_ok nd1" by (simp add: node_step_def)
  then show ?case using 1 r node_step_trans [OF _ Cons.IH] by (cases r) auto
qed (simp add: node_step_here)

section \<open>Mining, seeding and resetting\<close>

lemma mine_one_ok:
  assumes "mine_one E first iv n = Some n'" and "inner_ok n"
  shows "step_ok n n'"
proof -
  obtain b where b: "mined_block E b n n'" using mine_one_block [OF assms(1)] ..
  then show ?thesis
    using mine_one_coherent [OF assms(1) inner_ok_coherent [OF assms(2)]] assms(2)
    by (auto simp: mined_block_def mined_frame_def step_ok_def inner_ok_def blocks_ok_def archive_ok_def)
qed

lemma mine_empty_blocks_ok:
  assumes "mine_empty_blocks E k iv n = Some n'" and "inner_ok n"
  shows "step_ok n n'"
  using assms(1) step_ok_refl [OF assms(2)]
  by (rule mine_empty_blocks_induct) (blast intro: step_ok_trans mine_one_ok step_ok_inner)

lemma rich_inner_ok:
  assumes "rich_inner E a n = (Ok u, n')" and "inner_ok n"
  shows "step_ok n n'"
proof -
  obtain fo where fo: "n' = n\<lparr>n_fork_storage := fo, n_rich_accounts := insert_rich a (n_rich_accounts n)\<rparr>"
      "fo_fork fo = fo_fork (n_fork_storage n)" "caches_coherent fo"
    using rich_inner_effect [OF inner_ok_coherent [OF assms(2)] assms(1)] by blast
  note 1 = step_storage [OF assms(2) fo(3,2)]
  show ?thesis using step_ok_trans [OF 1 step_plain(4) [OF step_ok_inner [OF 1]]] fo(1) by simp
qed

lemma rich_inner_not_Err: "rich_inner E a n \<noteq> (Err e, n')"
  by (auto simp: rich_inner_def split: option.split)

lemma set_rich_accounts_step: "node_ok nd \<Longrightarrow> node_step nd (set_rich_accounts E as nd)"
proof (induction as arbitrary: nd)
  case (Cons a as)
  have "step_ok (nd_inner nd) n'" if "rich_inner E a (nd_inner nd) = (r, n')" "r \<noteq> Panic" for r n'
    using that rich_inner_ok [OF _ node_ok_inner [OF Cons.prems]] rich_inner_not_Err by (cases r) auto
  then have 1: "node_step nd (set_rich_account E a nd)"
    unfolding set_rich_account_def by (rule write_inner_step [OF Cons.prems])
  obtain r nd1 where r: "set_rich_account E a nd = (r, nd1)" by force
  then have "node_ok nd1" using 1 by (simp add: node_step_def)
  then show ?case using 1 r node_step_trans [OF _ Cons.IH] by (cases r) auto
qed (simp add: node_step_here)

lemma set_rich_accounts_ok: "node_ok nd \<Longrightarrow> node_ok (snd (set_rich_accounts E as nd))"
  using set_rich_accounts_step [of nd E as] by (simp add: node_step_def)

text \<open>A fork whose block is the one it is named after.\<close>

definition fork_ok :: "fork_details \<Rightarrow> bool" where
  "fork_ok f \<longleftrightarrow> b_number (fd_l2_block f) = fd_l2_miniblock f"

lemma inner_new_ok:
  assumes "inner_new E fork obs config gas = Some n" and "\<And>f. fork = Some f \<Longrightarrow> fork_ok f"
  shows "inner_ok n"
  using assms fork_storage_new_coherent
  by (auto simp: inner_new_def inner_ok_def blocks_ok_def archive_ok_def filters_inv_default fork_ok_def
      bind_eq_Some_conv Let_def split: option.splits if_splits)

lemma reset_ok:
  assumes "node_ok nd" and "\<And>f. fork = Some f \<Longrightarrow> fork_ok f"
  shows "node_ok (snd (reset E fork nd))"
proof (cases "inner_new E fork (n_observability (nd_inner nd)) (n_config (nd_inner nd))
    (Some (gas_values (n_fee_input_provider (nd_inner nd))))")
  case None
  then show ?thesis using assms(1) by (simp add: reset_def Let_def)
next
  case (Some n)
  let ?seeded = "set_rich_accounts E (LEGACY_RICH_WALLETS @ RICH_WALLETS) (nd\<lparr>nd_snapshots := [], nd_inner := n\<rparr>)"
  have "node_ok (snd ?seeded)"
    using inner_new_ok [OF Some assms(2)] by (intro set_rich_accounts_ok) (simp add: node_ok_def)
  then have "node_ok (snd ?seeded)" "node_ok ((snd ?seeded)\<lparr>nd_snapshots_poisoned := True\<rparr>)" by (simp_all add: node_ok_def)
  then show ?thesis
    using assms(1) Some by (cases ?seeded; cases "fst ?seeded") (simp_all add: reset_def Let_def)
qed

section \<open>Requests keep the invariant\<close>

lemma snapshot_ok:
  assumes "node_ok nd"
  shows "node_ok (snd (nd_snapshot nd))"
proof -
  have "restore_snapshot (take_snapshot (nd_inner nd)) (nd_inner nd) = nd_inner nd"
    by (simp add: restore_snapshot_def take_snapshot_def)
  then show ?thesis using assms by (auto simp: nd_snapshot_def Let_def node_ok_def MAX_SNAPSHOTS_def)
qed

lemma revert_ok:
  assumes "node_ok nd"
  shows "node_ok (snd (revert_snapshot i nd))"
proof (cases "unat i - 1 < length (nd_snapshots nd)")
  case True
  let ?s = "nd_snapshots nd ! (unat i - 1)"
  have "?s \<in> set (nd_snapshots nd)" using True by simp
  then have "inner_ok (restore_snapshot ?s (nd_inner nd))" using assms by (simp add: node_ok_def)
  moreover have "fo_fork (n_fork_storage (restore_snapshot ?s (nd_inner nd))) = fo_fork (n_fork_storage (nd_inner nd))"
    by (simp add: restore_snapshot_def)
  ultimately have "node_ok (nd\<lparr>nd_inner := restore_snapshot ?s (nd_inner nd)\<rparr>)"
    by (intro node_ok_step [OF assms]) (simp add: step_ok_def)
  then show ?thesis using assms True by (auto simp: revert_snapshot_def Let_def node_ok_def dest: in_set_takeD)
next
  case False
  then show ?thesis using assms by (simp add: revert_snapshot_def Let_def)
qed

text \<open>
  What a reset over the network relies on: a remote node answers the block it was asked for,
  and block numbers fit in 32 bits (the code cuts them to that width).
\<close>

definition honest_remote :: "remote \<Rightarrow> bool" where
  "honest_remote R \<longleftrightarrow>
     (\<forall>k det root b. rm_block_details R k = Ok (Some det) \<longrightarrow> bd_root_hash det = Some root \<longrightarrow>
        rm_block_by_hash R root True = Ok (Some b) \<longrightarrow> b_number b = ucast k) \<and>
     (\<forall>k. rm_block_number R = Ok k \<longrightarrow> unat k < 2 ^ 32)"

definition honest_world :: "world \<Rightarrow> bool" where
  "honest_world W \<longleftrightarrow> (\<forall>url R. wo_client W url = Some R \<longrightarrow> honest_remote R)"

definition small_reset :: "reset_request option \<Rightarrow> bool" where
  "small_reset spec \<longleftrightarrow> (case spec of None \<Rightarrow> True | Some s \<Rightarrow>
     (case rs_to s of Some k \<Rightarrow> unat k < 2 ^ 32 | None \<Rightarrow>
       (case rs_forking s of Some f \<Rightarrow> (case rf_block_number f of Some k \<Rightarrow> unat k < 2 ^ 32 | None \<Rightarrow> True) | None \<Rightarrow> True)))"

fun small_request :: "request \<Rightarrow> bool" where
  "small_request (Hardhat (Reset spec)) = small_reset spec"
| "small_request (Anvil (Reset spec)) = small_reset spec"
| "small_request _ = True"

lemma ucast_small: "unat (k :: u64) < 2 ^ 32 \<Longrightarrow> ucast (ucast k :: u32) = k"
  by (rule word_unat_eq_iff [THEN iffD2]) (simp add: unsigned_ucast_eq unsigned_take_bit_eq take_bit_nat_eq_self)

lemma fork_of_block_ok:
  assumes "honest_remote R" and "unat k < 2 ^ 32"
    and "from_network_and_miniblock_and_chain E io d network R k chain cc = Ok fd"
  shows "fork_ok fd"
proof -
  obtain det root b where "rm_block_details R (ucast k) = Ok (Some det)" "bd_root_hash det = Some root"
      "rm_block_by_hash R root True = Ok (Some b)" "fd_l2_block fd = b" "fd_l2_miniblock fd = k"
    using assms(3)
    by (auto simp: from_network_and_miniblock_and_chain_def Let_def rbind_eq_Ok ok_or_Ok split: if_splits prod.splits option.splits)
  then show ?thesis using assms(1) ucast_small [OF assms(2)] unfolding honest_remote_def fork_ok_def by metis
qed

lemma from_url_ok:
  assumes "honest_world W" and "from_url E io d (wo_client W) url fork_at cc = Ok fd"
    and "case fork_at of Some k \<Rightarrow> unat k < 2 ^ 32 | None \<Rightarrow> True"
  shows "fork_ok fd"
proof -
  obtain R k where R: "wo_client W url = Some R" "(case fork_at of Some n \<Rightarrow> Ok n | None \<Rightarrow> rm_block_number R) = Ok k"
      "from_network_and_miniblock_and_chain E io d (OtherNetwork url) R k None cc = Ok fd"
    using assms(2) by (auto simp: from_url_def rbind_eq_Ok split: option.splits)
  have "honest_remote R" using assms(1) R(1) by (simp add: honest_world_def)
  moreover have "unat k < 2 ^ 32" using R(2) assms(3) calculation by (auto simp: honest_remote_def split: option.splits)
  ultimately show ?thesis using fork_of_block_ok R(3) by blast
qed

lemma reset_fork_ok:
  assumes "honest_world W" and "small_reset spec" and "reset_fork E io d (wo_client W) spec nd = Ok (Some f)"
  shows "fork_ok f"
proof -
  obtain url at cc where t: "reset_target spec nd = Ok (Some url, at)" "from_url E io d (wo_client W) url at cc = Ok f"
    using assms(3) by (auto simp: reset_fork_def rbind_eq_Ok split: option.splits)
  have "case at of Some k \<Rightarrow> unat k < 2 ^ 32 | None \<Rightarrow> True"
    using t(1) assms(2) by (auto simp: reset_target_def small_reset_def rbind_eq_Ok split: option.splits if_splits)
  then show ?thesis using from_url_ok [OF assms(1) t(2)] by blast
qed

lemma reset_network_ok:
  assumes "node_ok nd" and "honest_world W" and "small_reset spec"
  shows "node_ok (snd (reset_network E io d (wo_client W) spec nd))"
proof -
  have "node_ok (snd (reset E fork nd))" if "reset_fork E io d (wo_client W) spec nd = Ok fork" for fork
    using reset_ok [OF assms(1), of fork E] reset_fork_ok [OF assms(2,3)] that by blast
  then show ?thesis using assms(1) by (fastforce simp: reset_network_def split: res.split prod.split)
qed

lemma set_key_ok: "inner_ok n \<Longrightarrow> step_ok n (n\<lparr>n_fork_storage := fo_set_value k v (n_fork_storage n)\<rparr>)"
  by (rule step_storage) (simp_all add: inner_ok_def, simp add: fo_set_value_def)

lemma nonce_inner_ok:
  assumes "inner_ok n" and "nonce_inner E a v n = (r, n')"
  shows "step_ok n n'"
proof -
  obtain x fo where x: "read_value_internal (x_nonce_key E a) (n_fork_storage n) = (x, fo)" by force
  have "same_contents (n_fork_storage n) fo" using read_value_correct [OF inner_ok_coherent [OF assms(1)]] x by (metis snd_conv)
  then have 1: "step_ok n (n\<lparr>n_fork_storage := fo\<rparr>)" by (rule step_same_contents [OF assms(1)])
  then have "step_ok n (n\<lparr>n_fork_storage := fo_set_value k w fo\<rparr>)" for k w
    using step_ok_trans [OF 1 set_key_ok [OF step_ok_inner [OF 1]]] by simp
  then show ?thesis
    using assms x 1 step_ok_refl [OF assms(1)]
    by (cases x) (auto simp: nonce_inner_def Let_def split: prod.splits if_splits)
qed

lemma code_inner_ok: "inner_ok n \<Longrightarrow> code_inner E a c n = (r, n') \<Longrightarrow> step_ok n n'"
  by (auto simp: code_inner_def Let_def step_ok_refl fo_set_value_def fo_store_factory_dep_def caches_coherent_def
      split: res.splits prod.splits intro!: step_storage dest: inner_ok_coherent)

lemma operations_ok:
  assumes "node_ok nd"
  shows "node_ok (snd (set_balance E a v nd))" "node_ok (snd (set_nonce E a v nd))" "node_ok (snd (mine_blocks E k i nd))"
    "node_ok (snd (set_code E a c nd))" "node_ok (snd (set_storage_at a k' v nd))" "node_ok (snd (mine_block E nd))"
proof -
  note i = node_ok_inner [OF assms]
  note w = write_inner_ok [OF assms]
  show "node_ok (snd (set_balance E a v nd))" "node_ok (snd (set_storage_at a k' v nd))"
    unfolding set_balance_def set_storage_at_def by (rule w; auto intro: set_key_ok i)+
  show "node_ok (snd (set_nonce E a v nd))" "node_ok (snd (set_code E a c nd))"
    unfolding set_nonce_def set_code_def by (rule w; auto intro: nonce_inner_ok code_inner_ok i)+
  show "node_ok (snd (mine_blocks E k i nd))" "node_ok (snd (mine_block E nd))"
    unfolding mine_blocks_def mine_block_def
    by (rule w; auto simp: Let_def step_ok_refl i split: option.splits if_splits intro: mine_empty_blocks_ok i)+
qed

lemma serve_account_ok:
  assumes "node_ok nd" and "honest_world W" and "\<And>spec. r = Reset spec \<Longrightarrow> small_reset spec" and "\<not> quiet_account r"
  shows "node_ok (serve_hardhat W r nd)" "node_ok (serve_anvil W r nd)"
  using assms operations_ok [OF assms(1)] reset_network_ok [OF assms(1,2)]
  by (cases r; simp add: hardhat_set_balance_def hardhat_set_nonce_def hardhat_mine_def hardhat_reset_def
      hardhat_set_code_def hardhat_set_storage_at_def
      anvil_set_balance_def anvil_set_nonce_def anvil_mine_def anvil_reset_def anvil_set_code_def anvil_set_storage_at_def)+

lemma serve_evm_ok: "node_ok nd \<Longrightarrow> \<not> quiet (Evm r) \<Longrightarrow> node_ok (serve_evm W r nd)"
  using operations_ok [of nd] snapshot_ok [of nd] revert_ok [of nd]
  by (cases r) (simp_all add: evm_set_nonce_def evm_mine_def evm_snapshot_def evm_revert_def)

lemma sent_ok:
  assumes "node_ok nd"
  shows "node_ok (snd (eth_send_raw_transaction E bs nd))" "node_ok (snd (eth_send_transaction E req nd))"
proof -
  have run: "node_ok nd'" if "run_l2_tx E tx mode nd = (r, nd')" for tx mode r nd'
    using run_l2_tx_ok [OF assms, of E tx mode] that by simp
  show "node_ok (snd (eth_send_raw_transaction E bs nd))"
    using assms by (auto simp: eth_send_raw_transaction_def Let_def split: res.split prod.split intro: run)
  show "node_ok (snd (eth_send_transaction E req nd))"
    using assms by (auto simp: eth_send_transaction_def split: res.split prod.split intro: run)
qed

lemma serve_request_ok:
  assumes "node_ok nd" and "honest_world W" and "small_request r"
  shows "node_ok (serve_request W r nd)"
proof (cases "quiet r")
  case True
  show ?thesis by (rule node_rel_ok [OF assms(1) st.rel_quiet_request [OF assms(1) True]])
next
  case False
  show ?thesis
  proof (cases r)
    case (Hardhat q)
    have "small_reset spec" if "q = Reset spec" for spec using assms(3) Hardhat that by simp
    then show ?thesis using serve_account_ok(1) [OF assms(1,2)] Hardhat False by simp
  next
    case (Anvil q)
    have "small_reset spec" if "q = Reset spec" for spec using assms(3) Anvil that by simp
    then show ?thesis using serve_account_ok(2) [OF assms(1,2)] Anvil False by simp
  next
    case (Eth q)
    then show ?thesis using False sent_ok [OF assms(1)] by (cases q) simp_all
  qed (use assms(1) False serve_evm_ok in simp_all)
qed

section \<open>Reachable nodes\<close>

inductive reachable :: "world \<Rightarrow> node \<Rightarrow> bool" for W :: world where
  started: "node_new (wo_ext W) fork obs config gas = Some nd \<Longrightarrow> (\<forall>f. fork = Some f \<longrightarrow> fork_ok f) \<Longrightarrow> reachable W nd"
| served: "reachable W nd \<Longrightarrow> small_request r \<Longrightarrow> reachable W (serve_request W r nd)"

inductive_cases reachable_cases: "reachable W nd"

lemma reachable_node_ok: "reachable W nd \<Longrightarrow> honest_world W \<Longrightarrow> node_ok nd"
proof (induction rule: reachable.induct)
  case (started fork obs config gas nd)
  obtain n where n: "inner_new (wo_ext W) fork obs config gas = Some n" "nd_inner nd = n" "nd_snapshots nd = []"
    using started(1) by (auto simp: node_new_def)
  have "inner_ok n" using inner_new_ok [OF n(1)] started(2) by blast
  then show ?case using n(2,3) by (simp add: node_ok_def)
next
  case (served nd r)
  then show ?case using serve_request_ok by blast
qed

text \<open>Serving a list of requests, one after the other.\<close>

definition serve_all :: "world \<Rightarrow> request list \<Rightarrow> node \<Rightarrow> node" where
  "serve_all W rs nd = foldl (\<lambda>nd r. serve_request W r nd) nd rs"

lemma serve_all_reachable:
  "reachable W nd \<Longrightarrow> list_all small_request rs \<Longrightarrow> reachable W (serve_all W rs nd)"
  unfolding serve_all_def by (induction rs arbitrary: nd) (auto intro: served)

section \<open>Properties\<close>

text \<open>C1: the invariant of the node. Whatever requests of whatever namespace a new node serves, in
  whatever order, and whether they succeed, fail or panic: its blocks stay stored under their
  own hash, every block number has its block and the current number has one; the archive of
  states never exceeds 129 distinct blocks; the filter ids stay below the counter and distinct;
  the caches repeat the remote node; there are never more than 100 snapshots, and reverting to
  any of them gives a state in which all of this holds again. A fork is assumed to be of the
  block it names, and a remote node to answer the block it is asked for.\<close>

theorem requests_keep_node_invariant:
  assumes "node_new (wo_ext W) fork obs config gas = Some nd" and "\<forall>f. fork = Some f \<longrightarrow> fork_ok f"
    and "honest_world W" and "list_all small_request rs"
  shows "node_ok (serve_all W rs nd)"
  using serve_all_reachable [OF started [OF assms(1,2)] assms(4)] reachable_node_ok assms(3) by blast

definition lone_world :: world where
  "lone_world = \<lparr>wo_ext = ext0, wo_io = working_io, wo_disk = [], wo_client = \<lambda>_. None, wo_display = \<lambda>_. [], wo_valid = \<lambda>_. True\<rparr>"

lemma requests_keep_node_invariant_witness:
  "\<exists>nd. node_new ext0 None None default_node_config None = Some nd \<and>
     node_ok (serve_all lone_world [Evm EvmSnapshot, Hardhat (Mine (Some 2) None), Eth EthNewBlockFilter,
       Hardhat (Reset None), Evm (EvmRevert 1)] nd)"
proof -
  obtain nd where nd: "node_new ext0 None None default_node_config None = Some nd"
    using inner_new0 [of None None] by (auto simp: node_new_def)
  have h: "honest_world lone_world" "wo_ext lone_world = ext0" by (simp_all add: honest_world_def lone_world_def)
  have "node_ok (serve_all lone_world [Evm EvmSnapshot, Hardhat (Mine (Some 2) None), Eth EthNewBlockFilter,
       Hardhat (Reset None), Evm (EvmRevert 1)] nd)"
    by (rule requests_keep_node_invariant [where fork = None]) (use nd h in \<open>auto simp: small_reset_def\<close>)
  then show ?thesis using nd by blast
qed

end
