(* ===== verification/Startup.thy ===== *)
theory Startup
  imports Node_Steps
begin

text \<open>
  The start of the program (\<open>src/main.rs\<close>) and the bytecode overrides read from a directory
  (\<open>src/bytecode_override.rs\<close>): the configuration, the fork, the node, the overrides, the
  replayed transactions and the rich wallets, in this order. Serving requests over HTTP and
  the printed banner are left out.
\<close>

section \<open>Overriding bytecodes\<close>

text \<open>
  An entry of the directory: whether it is a file, its name when it is valid Unicode, and what
  reading it gives. The address parser and the JSON reader (the \<open>bytecode.object\<close> of a
  contract file) are parameters.
\<close>

record dir_entry =
  de_is_file :: bool
  de_name :: "string option"
  de_path :: string
  de_content :: "(string, string) res"

record startup_env =
  su_home_dir :: "string option"
  su_read_to_string :: "string \<Rightarrow> (string, string) res"
  su_parse_toml :: "string \<Rightarrow> (string, test_node_config) res"
  su_create_file :: "string \<Rightarrow> (string, unit) res"
  su_read_dir :: "string \<Rightarrow> (string, (string, dir_entry) res list) res"
  su_parse_address :: "string \<Rightarrow> (string, address) res"
  su_contract_object :: "string \<Rightarrow> (string, string) res"

definition strip_suffix :: "string \<Rightarrow> string \<Rightarrow> string option" where
  "strip_suffix p s = map_option rev (strip_prefix (rev p) (rev s))"

definition override_entry :: "ext \<Rightarrow> startup_env \<Rightarrow> dir_entry \<Rightarrow> node \<Rightarrow> (string, unit) res \<times> node" where
  "override_entry E su entry nd =
     (if \<not> de_is_file entry then (Ok (), nd)
      else case de_name entry of
        None \<Rightarrow> (Err (''Invalid filename '' @ de_path entry), nd)
      | Some filename \<Rightarrow>
          (case strip_suffix ''.json'' filename of
             None \<Rightarrow> (Ok (), nd)
           | Some stem \<Rightarrow>
               (case rbind (map_err (\<lambda>_. ''Cannot parse '' @ stem @ '' as address'') (su_parse_address su stem)) (\<lambda>a.
                     rbind (de_content entry) (\<lambda>file_content.
                     rbind (map_err (\<lambda>_. ''Failed to  parse json file '' @ quoted (de_path entry))
                        (su_contract_object su file_content)) (\<lambda>object.
                     rbind (map_err (\<lambda>_. ''Failed to parse hex from '' @ quoted (de_path entry)) (x_hex_decode E object))
                        (\<lambda>bytecode. Ok (a, bytecode))))) of
                  Err e \<Rightarrow> (Err e, nd)
                | Panic \<Rightarrow> (Panic, nd)
                | Ok (a, bytecode) \<Rightarrow>
                    (case override_bytecode E a bytecode nd of
                       (Ok _, nd') \<Rightarrow> (Ok (), nd')
                     | (_, nd') \<Rightarrow> (Panic, nd')))))"

fun override_entries :: "ext \<Rightarrow> startup_env \<Rightarrow> (string, dir_entry) res list \<Rightarrow> node \<Rightarrow> (string, unit) res \<times> node" where
  "override_entries E su [] nd = (Ok (), nd)"
| "override_entries E su (Ok entry # entries) nd =
     (case override_entry E su entry nd of
        (Ok _, nd') \<Rightarrow> override_entries E su entries nd'
      | (r, nd') \<Rightarrow> (r, nd'))"
| "override_entries E su (Err e # entries) nd = (Err e, nd)"
| "override_entries E su (Panic # entries) nd = (Panic, nd)"

definition override_bytecodes :: "ext \<Rightarrow> startup_env \<Rightarrow> string \<Rightarrow> node \<Rightarrow> (string, unit) res \<times> node" where
  "override_bytecodes E su bytecodes_dir nd =
     (case su_read_dir su bytecodes_dir of
        Err e \<Rightarrow> (Err e, nd)
      | Panic \<Rightarrow> (Panic, nd)
      | Ok entries \<Rightarrow> override_entries E su entries nd)"

section \<open>Starting\<close>

definition CONFIG_DIR :: string where "CONFIG_DIR = ''.era_test_node''"
definition CONFIG_FILE_NAME :: string where "CONFIG_FILE_NAME = ''config.toml''"

definition try_load :: "startup_env \<Rightarrow> string option \<Rightarrow> (string, test_node_config) res" where
  "try_load su file_path =
     rbind (case file_path of
              Some path \<Rightarrow> Ok path
            | None \<Rightarrow> rbind (expect (su_home_dir su)) (\<lambda>home. Ok (home @ ''/'' @ CONFIG_DIR @ ''/'' @ CONFIG_FILE_NAME)))
       (\<lambda>path. rbind (su_read_to_string su path) (su_parse_toml su))"

definition loaded_config :: "startup_env \<Rightarrow> cli \<Rightarrow> (string, test_node_config) res" where
  "loaded_config su opt =
     rbind (case try_load su (cli_config opt) of
              Ok config \<Rightarrow> Ok config
            | Err _ \<Rightarrow> Ok default_test_node_config
            | Panic \<Rightarrow> Panic)
       (\<lambda>config. expect (override_with_opts opt config))"

definition forked :: "world \<Rightarrow> command \<Rightarrow> cache_config \<Rightarrow> (string, fork_details option) res" where
  "forked W cmd cache =
     (case cmd of
        Run \<Rightarrow> Ok None
      | Fork network fork_at \<Rightarrow>
          rbind (from_network (wo_ext W) (wo_io W) (wo_disk W) (wo_client W) network fork_at cache) (\<lambda>fd. Ok (Some fd))
      | ReplayTx network tx \<Rightarrow>
          rbind (from_network_tx (wo_ext W) (wo_io W) (wo_disk W) (wo_client W) network tx cache) (\<lambda>fd. Ok (Some fd)))"

definition transactions_to_replay :: "ext \<Rightarrow> command \<Rightarrow> fork_details option \<Rightarrow> (string, l2_tx list) res" where
  "transactions_to_replay E cmd fork =
     (case cmd of
        ReplayTx network tx \<Rightarrow> rbind (expect fork) (\<lambda>fd. get_earlier_transactions_in_same_block E fd tx)
      | _ \<Rightarrow> Ok [])"

text \<open>The steps after the node was made; a failed replay is ignored, a failed override is not.\<close>

definition prepare_node :: "ext \<Rightarrow> startup_env \<Rightarrow> string option \<Rightarrow> l2_tx list \<Rightarrow> node \<Rightarrow> (string, unit) res \<times> node" where
  "prepare_node E su bytecodes_dir txs nd =
     (case (case bytecodes_dir of
              None \<Rightarrow> (Ok (), nd)
            | Some dir \<Rightarrow>
                (case override_bytecodes E su dir nd of
                   (Ok _, nd1) \<Rightarrow> (Ok (), nd1)
                 | (_, nd1) \<Rightarrow> (Panic, nd1))) of
        (Ok _, nd1) \<Rightarrow>
          (case (if txs = [] then (Ok (), nd1) else apply_txs E txs nd1) of
             (Panic, nd2) \<Rightarrow> (Panic, nd2)
           | (_, nd2) \<Rightarrow> set_rich_accounts E (LEGACY_RICH_WALLETS @ RICH_WALLETS) nd2)
      | (r, nd1) \<Rightarrow> (r, nd1))"

definition start :: "world \<Rightarrow> startup_env \<Rightarrow> cli \<Rightarrow> (string, node) res" where
  "start W su opt =
     rbind (loaded_config su opt) (\<lambda>config.
     rbind (su_create_file su (lc_file_path (tc_log config))) (\<lambda>_.
     rbind (init_observability (wo_valid W) [''era_test_node''] (lc_level (tc_log config))) (\<lambda>observability.
     let cmd = unwrap_or (cli_command opt) Run in
     rbind (forked W cmd (tc_cache config)) (\<lambda>fork_details.
     rbind (transactions_to_replay (wo_ext W) cmd fork_details) (\<lambda>txs.
     rbind (expect (node_new (wo_ext W) fork_details (Some observability) (tc_node config) (tc_gas config))) (\<lambda>nd.
       case prepare_node (wo_ext W) su (cli_override_bytecodes_dir opt) txs nd of
         (Ok _, nd') \<Rightarrow> Ok nd'
       | (Err e, _) \<Rightarrow> Err e
       | (Panic, _) \<Rightarrow> Panic))))))"

section \<open>Lemmas\<close>

lemma override_bytecode_step:
  assumes "node_ok nd"
  shows "node_step nd (override_bytecode E a code nd)"
  unfolding override_bytecode_def
proof (rule write_inner_step [OF assms])
  fix r n'
  assume "(case x_hash_bytecode E code of
         None \<Rightarrow> (Panic, nd_inner nd)
       | Some bytecode_hash \<Rightarrow>
           (Ok (), (nd_inner nd)\<lparr>n_fork_storage := fo_set_value (x_code_key E a) bytecode_hash
                       (fo_store_factory_dep bytecode_hash code (n_fork_storage (nd_inner nd)))\<rparr>)) = (r, n')" "r \<noteq> Panic"
  then obtain h where "n' = (nd_inner nd)\<lparr>n_fork_storage := fo_set_value (x_code_key E a) h
      (fo_store_factory_dep h code (n_fork_storage (nd_inner nd)))\<rparr>"
    by (auto split: option.splits)
  then show "step_ok (nd_inner nd) n'"
    using inner_ok_coherent [OF node_ok_inner [OF assms]]
    by (auto intro!: step_storage node_ok_inner [OF assms] simp: fo_set_value_def fo_store_factory_dep_def caches_coherent_def)
qed

lemma override_entry_step:
  assumes "node_ok nd"
  shows "node_step nd (override_entry E su entry nd)"
proof -
  have "node_step nd (case override_bytecode E a code nd of (Ok _, nd') \<Rightarrow> (Ok (), nd') | (_, nd') \<Rightarrow> (Panic, nd'))" for a code
    using override_bytecode_step [OF assms, of E a code] by (auto simp: node_step_def split: prod.split res.split)
  then show ?thesis
    using node_step_here [OF assms] by (auto simp: override_entry_def split: option.split res.split)
qed

lemma override_entries_step: "node_ok nd \<Longrightarrow> node_step nd (override_entries E su entries nd)"
proof (induction entries arbitrary: nd)
  case (Cons x entries)
  show ?case
  proof (cases x)
    case (Ok entry)
    obtain r nd1 where r: "override_entry E su entry nd = (r, nd1)" by force
    then have 1: "node_step nd (r, nd1)" using override_entry_step [OF Cons.prems, of E su entry] by simp
    then have "node_ok nd1" by (simp add: node_step_def)
    then show ?thesis using 1 r Ok node_step_trans [OF _ Cons.IH] by (cases r) auto
  qed (simp_all add: node_step_here Cons.prems)
qed (simp add: node_step_here)

lemma set_rich_accounts_coherent:
  assumes "node_ok nd" and "\<not> nd_inner_poisoned nd" and "set_rich_accounts E as nd = (Ok u, nd')"
  shows "set as \<subseteq> set (n_rich_accounts (nd_inner nd'))"
    and "a \<in> set as \<Longrightarrow> fst (read_value_internal (x_eth_balance_key E a) (n_fork_storage (nd_inner nd'))) = Ok rich_balance"
proof -
  obtain fo rich where e: "nd_inner nd' = (nd_inner nd)\<lparr>n_fork_storage := fo, n_rich_accounts := rich\<rparr>"
      "set rich = set (n_rich_accounts (nd_inner nd)) \<union> set as"
      "im_state (fo_raw fo) = im_state (fo_raw (n_fork_storage (nd_inner nd))) ++
         (\<lambda>k. if k \<in> x_eth_balance_key E ` set as then Some rich_balance else None)"
    using set_rich_accounts_effect [OF inner_ok_coherent [OF node_ok_inner [OF assms(1)]] assms(3,2)] by blast
  then show "set as \<subseteq> set (n_rich_accounts (nd_inner nd'))" by simp
  assume a: "a \<in> set as"
  have "im_read_value (fo_raw fo) (x_eth_balance_key E a) = rich_balance"
    using a e(3) by (simp add: im_read_value_def map_add_def)
  moreover have "rich_balance \<noteq> 0" by (simp add: rich_balance_def)
  ultimately show "fst (read_value_internal (x_eth_balance_key E a) (n_fork_storage (nd_inner nd'))) = Ok rich_balance"
    using e(1) by (simp add: read_value_internal_def Let_def split: option.split)
qed

lemma prepare_node_step:
  assumes "node_ok nd" and "\<not> nd_inner_poisoned nd" and "prepare_node E su dir txs nd = (Ok u, nd')"
  shows "node_step nd (Ok u :: (string, unit) res, nd') \<and> set (LEGACY_RICH_WALLETS @ RICH_WALLETS) \<subseteq> set (n_rich_accounts (nd_inner nd')) \<and>
    (\<forall>a \<in> set (LEGACY_RICH_WALLETS @ RICH_WALLETS).
       fst (read_value_internal (x_eth_balance_key E a) (n_fork_storage (nd_inner nd'))) = Ok rich_balance)"
proof -
  let ?first = "case dir of None \<Rightarrow> (Ok () :: (string, unit) res, nd)
      | Some dir \<Rightarrow> (case override_bytecodes E su dir nd of (Ok _, nd1) \<Rightarrow> (Ok (), nd1) | (_, nd1) \<Rightarrow> (Panic, nd1))"
  obtain nd1 where 1: "?first = (Ok (), nd1)"
    using assms(3) by (auto simp: prepare_node_def split: prod.splits res.splits)
  have s1: "node_step nd (Ok () :: (string, unit) res, nd1)"
  proof (cases dir)
    case None
    then show ?thesis using 1 node_step_here [OF assms(1)] by auto
  next
    case (Some d)
    have "node_step nd (override_bytecodes E su d nd)"
      using override_entries_step [OF assms(1)] node_step_here [OF assms(1)]
      by (auto simp: override_bytecodes_def split: res.split)
    then show ?thesis using 1 Some by (auto simp: node_step_def split: prod.splits res.splits)
  qed
  then have ok1: "node_ok nd1" by (simp add: node_step_def)
  obtain r nd2 where 2: "(if txs = [] then (Ok (), nd1) else apply_txs E txs nd1) = (r, nd2)" "r \<noteq> Panic"
      "set_rich_accounts E (LEGACY_RICH_WALLETS @ RICH_WALLETS) nd2 = (Ok u, nd')"
    using assms(3) 1 by (auto simp: prepare_node_def split: prod.splits res.splits)
  have "node_step nd1 (r, nd2)" using 2(1) apply_txs_step [OF ok1, of E txs] node_step_here [OF ok1] by (auto split: if_splits)
  then have s2: "node_step nd1 (Ok (), nd2)" using 2(2) by (simp add: node_step_def)
  then have ok2: "node_ok nd2" by (simp add: node_step_def)
  have p2: "\<not> nd_inner_poisoned nd2" using s1 s2 assms(2) by (simp add: node_step_def)
  have "node_step nd2 (Ok u :: (string, unit) res, nd')" using set_rich_accounts_step [OF ok2, of E "LEGACY_RICH_WALLETS @ RICH_WALLETS"] unfolding 2(3) .
  then show ?thesis
    using node_step_trans [OF s1 node_step_trans [OF s2]] set_rich_accounts_coherent [OF ok2 p2 2(3)] by blast
qed

fun small_command :: "command \<Rightarrow> bool" where
  "small_command (Fork network (Some k)) = (unat k < 2 ^ 32)"
| "small_command _ = True"

lemma unat_small_ucast: "unat (ucast (k :: u32) :: u64) < 2 ^ 32"
  using unat_bound32 [of k] by (simp add: unsigned_ucast_eq take_bit_nat_eq_self)

lemma client_of:
  "honest_world W \<Longrightarrow> fork_network_and_client (wo_client W) network = Ok (nw, R) \<Longrightarrow> honest_remote R"
  by (auto simp: fork_network_and_client_def honest_world_def Let_def split: option.splits)

lemma forked_ok:
  assumes "honest_world W" and "small_command cmd" and "forked W cmd cache = Ok (Some fd)"
  shows "fork_ok fd"
proof (cases cmd)
  case (Fork network at)
  then obtain nw R k where "fork_network_and_client (wo_client W) network = Ok (nw, R)"
      "(case at of Some n \<Rightarrow> Ok n | None \<Rightarrow> rm_block_number R) = Ok k"
      "from_network_and_miniblock_and_chain (wo_ext W) (wo_io W) (wo_disk W) nw R k None cache = Ok fd"
    using assms(3) by (auto simp: forked_def from_network_def rbind_eq_Ok)
  moreover have "honest_remote R" using client_of [OF assms(1) calculation(1)] .
  moreover have "unat k < 2 ^ 32" using calculation(2,4) assms(2) Fork by (cases at) (auto simp: honest_remote_def)
  ultimately show ?thesis using fork_of_block_ok by blast
next
  case (ReplayTx network tx)
  then obtain nw R m where "fork_network_and_client (wo_client W) network = Ok (nw, R)"
      "\<exists>chain. from_network_and_miniblock_and_chain (wo_ext W) (wo_io W) (wo_disk W) nw R (ucast (m :: u32)) chain cache = Ok fd"
    using assms(3) by (auto simp: forked_def from_network_tx_def rbind_eq_Ok)
  then show ?thesis using fork_of_block_ok [OF client_of [OF assms(1)] unat_small_ucast] by blast
qed (use assms(3) in \<open>simp add: forked_def\<close>)

section \<open>Properties\<close>

text \<open>C10: the start. A start that succeeds gives a node that satisfies the invariant of the node, whose
  lock is not poisoned and which has no snapshots, on the fork that the command asks for (none
  for a plain run), even where a bytecode directory was loaded or replayed transactions
  failed; and each of the twenty rich wallets is recorded and reads the rich balance.\<close>

theorem started_node_is_ready:
  assumes "honest_world W" and "small_command (unwrap_or (cli_command opt) Run)" and "start W su opt = Ok nd"
  shows "node_ok nd \<and> \<not> nd_inner_poisoned nd \<and> nd_snapshots nd = [] \<and>
    (\<exists>config. loaded_config su opt = Ok config \<and>
       forked W (unwrap_or (cli_command opt) Run) (tc_cache config) = Ok (fo_fork (n_fork_storage (nd_inner nd)))) \<and>
    set LEGACY_RICH_WALLETS \<union> set RICH_WALLETS \<subseteq> set (n_rich_accounts (nd_inner nd)) \<and>
    (\<forall>a \<in> set LEGACY_RICH_WALLETS \<union> set RICH_WALLETS.
       fst (read_value_internal (x_eth_balance_key (wo_ext W) a) (n_fork_storage (nd_inner nd))) = Ok rich_balance)"
proof -
  let ?cmd = "unwrap_or (cli_command opt) Run"
  obtain config obs fork txs nd0 where c: "loaded_config su opt = Ok config" "forked W ?cmd (tc_cache config) = Ok fork"
      "node_new (wo_ext W) fork (Some obs) (tc_node config) (tc_gas config) = Some nd0"
      "(case prepare_node (wo_ext W) su (cli_override_bytecodes_dir opt) txs nd0 of
         (Ok _, nd') \<Rightarrow> Ok nd' | (Err e, _) \<Rightarrow> Err e | (Panic, _) \<Rightarrow> Panic) = Ok nd"
    using assms(3) unfolding start_def Let_def rbind_eq_Ok expect_Ok by blast
  obtain u where p: "prepare_node (wo_ext W) su (cli_override_bytecodes_dir opt) txs nd0 = (Ok u, nd)"
    using c(4) by (auto split: prod.splits res.splits)
  obtain n where n: "inner_new (wo_ext W) fork (Some obs) (tc_node config) (tc_gas config) = Some n" "nd_inner nd0 = n"
      "nd_snapshots nd0 = []" "\<not> nd_inner_poisoned nd0"
    using c(3) by (auto simp: node_new_def)
  have "inner_ok n" using inner_new_ok [OF n(1)] forked_ok [OF assms(1,2)] c(2) by blast
  then have ok: "node_ok nd0" using n by (simp add: node_ok_def)
  have "fo_fork (n_fork_storage n) = fork"
    using n(1) by (auto simp: inner_new_def Let_def bind_eq_Some_conv fork_storage_new_def split: option.splits)
  then show ?thesis
    using prepare_node_step [OF ok n(4) p] c(1,2) n by (auto simp: node_step_def)
qed

definition quiet_env :: startup_env where
  "quiet_env = \<lparr>su_home_dir = Some ''/home'', su_read_to_string = \<lambda>_. Err ''missing'', su_parse_toml = \<lambda>_. Err ''empty'',
     su_create_file = \<lambda>_. Ok (), su_read_dir = \<lambda>_. Ok [], su_parse_address = \<lambda>_. Err ''none'',
     su_contract_object = \<lambda>_. Err ''none''\<rparr>"

lemma started_node_is_ready_witness:
  "\<exists>nd. start lone_world quiet_env witness_cli = Ok nd \<and> node_ok nd \<and>
     fst (read_value_internal (x_eth_balance_key ext0 0x36615cf349d7f6344891b1e7ca7c72883f5dc049)
       (n_fork_storage (nd_inner nd))) = Ok rich_balance"
proof -
  have w: "honest_world lone_world" "wo_ext lone_world = ext0" by (simp_all add: honest_world_def lone_world_def)
  have cmd: "unwrap_or (cli_command witness_cli) Run = Run" "cli_override_bytecodes_dir witness_cli = None"
    by (simp_all add: witness_cli_def)
  obtain config where config: "loaded_config quiet_env witness_cli = Ok config" "nc_system_contracts_options (tc_node config) = BuiltIn"
    by (simp add: loaded_config_def try_load_def quiet_env_def witness_cli_def override_with_opts_def override_cache_def
        override_node_def set_opt_def default_test_node_config_def default_node_config_def default_contracts_option_def)
  obtain obs where obs: "init_observability (wo_valid lone_world) [''era_test_node''] (lc_level (tc_log config)) = Ok obs"
    by (auto simp: init_observability_def parse_filter_def lone_world_def list_all_iff)
  obtain n where n: "inner_new ext0 None (Some obs) (tc_node config) (tc_gas config) = Some n"
    using from_options0 fork_storage_new0 config(2) by (auto simp: inner_new_def Let_def)
  let ?nd = "\<lparr>nd_inner = n, nd_inner_poisoned = False, nd_snapshots = [], nd_snapshots_poisoned = False,
    nd_system_contracts_options = nc_system_contracts_options (tc_node config)\<rparr>"
  have new: "node_new ext0 None (Some obs) (tc_node config) (tc_gas config) = Some ?nd" using n by (simp add: node_new_def)
  have "fo_fork (n_fork_storage n) = None" "caches_coherent (n_fork_storage n)"
    using n by (auto simp: inner_new_def Let_def bind_eq_Some_conv fork_storage_new_def caches_coherent_def)
  then obtain nd where "set_rich_accounts ext0 (LEGACY_RICH_WALLETS @ RICH_WALLETS) ?nd = (Ok (), nd)"
    using set_rich_accounts_no_fork [of ?nd ext0] by auto
  then have "prepare_node ext0 quiet_env None [] ?nd = (Ok (), nd)" by (simp add: prepare_node_def)
  then have s: "start lone_world quiet_env witness_cli = Ok nd"
    using config(1) obs new w(2) cmd
    by (simp add: start_def forked_def transactions_to_replay_def) (simp add: quiet_env_def)
  have "0x36615cf349d7f6344891b1e7ca7c72883f5dc049 \<in> set LEGACY_RICH_WALLETS" by (simp add: LEGACY_RICH_WALLETS_def)
  then show ?thesis using started_node_is_ready [OF w(1) _ s] s cmd w(2) by auto
qed

end
