(* ===== verification/Ledger.thy ===== *)
theory Ledger
  imports Node_Steps
begin

text \<open>
  What the node promises, apart from how it keeps it: a ledger with a chain of hashed blocks, the
  transactions it has executed, the contents of the storage, and the chains that can be brought
  back. A request performs one action on the ledger or none; the proof is a simulation over
  \<open>ledger_of\<close>, with the requests that leave the chain alone taken from \<open>quiet_relation\<close>.
\<close>

section \<open>The ledger\<close>

record chain =
  ch_height :: u64
  ch_hashes :: "u64 \<rightharpoonup> h256"
  ch_txs :: "h256 set"
  ch_storage :: "storage_key \<Rightarrow> (string, h256) res"

record ledger =
  lg_chain :: chain
  lg_saved :: "chain list"

datatype act =
  Idle
| Transact h256
| MineBlocks nat
| Write storage_key h256
| Save
| Rewind nat
| Restart

text \<open>
  The two blocks of a transaction; a run of empty blocks, whose numbers the storage decides; a
  write, which is what is read afterwards unless it is zero over a fork; and a new chain.
\<close>

definition transacted :: "ext \<Rightarrow> h256 \<Rightarrow> chain \<Rightarrow> chain \<Rightarrow> bool" where
  "transacted E tx C C' \<longleftrightarrow>
     (let k = sat_add (ch_height C) 1; k' = sat_add k 1 in
      ch_height C' = k' \<and> ch_hashes C' = (ch_hashes C)(k \<mapsto> compute_hash E k tx, k' \<mapsto> compute_hash E k' 0) \<and>
      ch_txs C' = insert tx (ch_txs C))"

inductive mined :: "ext \<Rightarrow> nat \<Rightarrow> chain \<Rightarrow> chain \<Rightarrow> bool" for E where
  none_mined: "mined E 0 C C"
| one_mined: "ch_height C1 = k \<Longrightarrow> ch_hashes C1 = (ch_hashes C)(k \<mapsto> compute_hash E k 0) \<Longrightarrow>
    ch_txs C1 = ch_txs C \<Longrightarrow> mined E j C1 C' \<Longrightarrow> mined E (Suc j) C C'"

definition written :: "storage_key \<Rightarrow> h256 \<Rightarrow> chain \<Rightarrow> chain \<Rightarrow> bool" where
  "written k v C C' \<longleftrightarrow> (\<exists>x. C' = C\<lparr>ch_storage := (ch_storage C)(k := x)\<rparr> \<and> (v \<noteq> 0 \<longrightarrow> x = Ok v))"

definition fresh :: "chain \<Rightarrow> bool" where
  "fresh C \<longleftrightarrow> (\<exists>h. ch_hashes C = [ch_height C \<mapsto> h]) \<and> ch_txs C = {}"

inductive ledger_step :: "ext \<Rightarrow> act \<Rightarrow> ledger \<Rightarrow> ledger \<Rightarrow> bool" for E where
  idle: "ledger_step E Idle L L"
| transact: "transacted E tx (lg_chain L) C \<Longrightarrow> ledger_step E (Transact tx) L (L\<lparr>lg_chain := C\<rparr>)"
| mine: "mined E k (lg_chain L) C \<Longrightarrow> ledger_step E (MineBlocks k) L (L\<lparr>lg_chain := C\<rparr>)"
| store: "written k v (lg_chain L) C \<Longrightarrow> ledger_step E (Write k v) L (L\<lparr>lg_chain := C\<rparr>)"
| save: "length (lg_saved L) < 100 \<Longrightarrow> ledger_step E Save L (L\<lparr>lg_saved := lg_saved L @ [lg_chain L]\<rparr>)"
| rewind: "i < length (lg_saved L) \<Longrightarrow>
    ledger_step E (Rewind i) L \<lparr>lg_chain = lg_saved L ! i, lg_saved = take i (lg_saved L)\<rparr>"
| restart: "fresh C \<Longrightarrow> ledger_step E Restart L \<lparr>lg_chain = C, lg_saved = []\<rparr>"

inductive_cases ledger_stepE: "ledger_step E a L L'"

section \<open>The ledger of a node\<close>

definition chain_of :: "inner \<Rightarrow> chain" where
  "chain_of n = \<lparr>ch_height = n_current_miniblock n, ch_hashes = n_block_hashes n,
     ch_txs = fst ` set (n_tx_results n), ch_storage = fork_value (n_fork_storage n)\<rparr>"

definition saved_chain :: "inner \<Rightarrow> snapshot \<Rightarrow> chain" where
  "saved_chain n s = chain_of (restore_snapshot s n)"

definition ledger_of :: "node \<Rightarrow> ledger" where
  "ledger_of nd = \<lparr>lg_chain = chain_of (nd_inner nd), lg_saved = map (saved_chain (nd_inner nd)) (nd_snapshots nd)\<rparr>"

text \<open>What a request may do to the ledger, if it does anything.\<close>

fun account_acts :: "ext \<Rightarrow> account_request \<Rightarrow> act set" where
  "account_acts E (SetBalance a v) = {Write (x_eth_balance_key E a) v}"
| "account_acts E (SetNonce a v) = {Write (x_nonce_key E a) (x_nonces_to_full_nonce E v v)}"
| "account_acts E (Mine k i) = {MineBlocks (unat (unwrap_or k 1))}"
| "account_acts E (Reset spec) = {Restart}"
| "account_acts E (SetCode a c) = range (Write (x_code_key E a))"
| "account_acts E (SetStorageAt a k v) = {Write (StorageKey a k) v}"
| "account_acts E _ = {}"

fun acts :: "ext \<Rightarrow> request \<Rightarrow> act set" where
  "acts E (Hardhat r) = account_acts E r"
| "acts E (Anvil r) = account_acts E r"
| "acts E (Evm r) =
     (case r of
        EvmSetNonce a v \<Rightarrow> {Write (x_nonce_key E a) (x_nonces_to_full_nonce E v v)}
      | EvmMine \<Rightarrow> {MineBlocks 1}
      | EvmSnapshot \<Rightarrow> {Save}
      | EvmRevert i \<Rightarrow> {Rewind (unat i - 1)}
      | _ \<Rightarrow> {})"
| "acts E (Eth r) =
     (case r of EthSendRawTransaction bs \<Rightarrow> range Transact | EthSendTransaction req \<Rightarrow> range Transact | _ \<Rightarrow> {})"
| "acts E _ = {}"

definition performs :: "ext \<Rightarrow> act set \<Rightarrow> node \<Rightarrow> node \<Rightarrow> bool" where
  "performs E A nd nd' \<longleftrightarrow> (\<exists>a \<in> insert Idle A. ledger_step E a (ledger_of nd) (ledger_of nd'))"

section \<open>Lemmas\<close>

lemma chain_of_simps [simp]:
  "ch_height (chain_of n) = n_current_miniblock n" "ch_hashes (chain_of n) = n_block_hashes n"
  "ch_txs (chain_of n) = fst ` set (n_tx_results n)" "ch_storage (chain_of n) = fork_value (n_fork_storage n)"
  by (simp_all add: chain_of_def)

lemma chain_of_frame:
  "n_current_miniblock n' = n_current_miniblock n \<Longrightarrow> n_block_hashes n' = n_block_hashes n \<Longrightarrow>
   n_tx_results n' = n_tx_results n \<Longrightarrow> fork_value (n_fork_storage n') = fork_value (n_fork_storage n) \<Longrightarrow> chain_of n' = chain_of n"
  by (simp add: chain_of_def)

lemma fork_value_cong: "fo_raw fo' = fo_raw fo \<Longrightarrow> fo_fork fo' = fo_fork fo \<Longrightarrow> fork_value fo' = fork_value fo"
  by (simp add: fun_eq_iff fork_value_def split: option.split)

lemma saved_chain_cong: "fo_fork (n_fork_storage n') = fo_fork (n_fork_storage n) \<Longrightarrow> saved_chain n' = saved_chain n"
  unfolding saved_chain_def
  by (intro ext chain_of_frame fork_value_cong) (simp_all add: restore_snapshot_def)

lemma saved_chain_taken: "saved_chain n (take_snapshot n) = chain_of n"
  unfolding saved_chain_def
  by (intro chain_of_frame fork_value_cong) (simp_all add: restore_snapshot_def take_snapshot_def)

lemma ledger_of_step:
  assumes "fo_fork (n_fork_storage (nd_inner nd')) = fo_fork (n_fork_storage (nd_inner nd))"
    and "nd_snapshots nd' = nd_snapshots nd"
  shows "ledger_of nd' = (ledger_of nd)\<lparr>lg_chain := chain_of (nd_inner nd')\<rparr>"
  using saved_chain_cong [OF assms(1)] assms(2) by (simp add: ledger_of_def)

lemma ledger_of_poisoned [simp]: "ledger_of (nd\<lparr>nd_inner_poisoned := b\<rparr>) = ledger_of nd"
  by (simp add: ledger_of_def)

lemma performs_nothing [intro]: "ledger_of nd' = ledger_of nd \<Longrightarrow> performs E A nd nd'"
  by (simp add: performs_def ledger_step.idle)

lemma performs_here [simp]: "performs E A nd nd"
  by (rule performs_nothing) simp

lemma performs_mono: "performs E A nd nd' \<Longrightarrow> A \<subseteq> B \<Longrightarrow> performs E B nd nd'"
  by (auto simp: performs_def)

text \<open>The requests that leave the chain alone.\<close>

definition same_chain :: "inner \<Rightarrow> inner \<Rightarrow> bool" where
  "same_chain n n' \<longleftrightarrow> step_ok n n' \<and> chain_of n' = chain_of n"

interpretation ch: quiet_relation same_chain
proof (unfold_locales, unfold same_chain_def)
  fix a b c
  assume "step_ok a b \<and> chain_of b = chain_of a" "step_ok b c \<and> chain_of c = chain_of b"
  then show "step_ok a c \<and> chain_of c = chain_of a" using step_ok_trans [of a b c] by simp
qed (simp_all add: chain_of_def step_ok_refl step_same_contents step_filters step_plain same_contents_fork)

lemma same_chain_node:
  assumes "node_ok nd" and "node_rel same_chain nd nd'"
  shows "node_ok nd' \<and> performs E A nd nd'"
proof -
  have "ledger_of nd' = ledger_of nd"
    using ledger_of_step [of nd' nd] assms(2) by (simp add: node_rel_def same_chain_def step_ok_def) (simp add: ledger_of_def)
  moreover have "node_ok nd'" using node_rel_ok [OF assms(1), of nd'] assms(2) by (simp add: node_rel_def same_chain_def)
  ultimately show ?thesis by blast
qed

lemma quiet_performs:
  assumes "node_ok nd" and "quiet r"
  shows "performs E A nd (serve_request W r nd)"
  using same_chain_node [OF assms(1) ch.rel_quiet_request [OF assms]] by blast

text \<open>Under the write lock it is enough to look at what the operation does to the inner state.\<close>

lemma write_inner_performs:
  assumes "\<And>r n'. f (nd_inner nd) = (r, n') \<Longrightarrow> r \<noteq> Panic \<Longrightarrow>
      fo_fork (n_fork_storage n') = fo_fork (n_fork_storage (nd_inner nd)) \<and>
      (\<exists>a \<in> insert Idle A. ledger_step E a (ledger_of nd) ((ledger_of nd)\<lparr>lg_chain := chain_of n'\<rparr>))"
  shows "performs E A nd (snd (write_inner e f nd))"
proof (cases "f (nd_inner nd)")
  case (Pair r n')
  show ?thesis
  proof (cases "nd_inner_poisoned nd \<or> r = Panic")
    case True
    then show ?thesis using Pair by (auto simp: write_inner_def)
  next
    case False
    then have "snd (write_inner e f nd) = nd\<lparr>nd_inner := n'\<rparr>" using Pair by (cases r) (simp_all add: write_inner_def)
    then show ?thesis
      using assms [OF Pair] False ledger_of_step [of "nd\<lparr>nd_inner := n'\<rparr>" nd] by (simp add: performs_def)
  qed
qed

section \<open>Writes\<close>

lemma chain_written:
  assumes "fork_value fo = fork_value (n_fork_storage n)"
  shows "written k v (chain_of n) (chain_of (n\<lparr>n_fork_storage := fo_set_value k v fo\<rparr>))"
proof -
  have "fork_value (fo_set_value k v fo) = (fork_value (n_fork_storage n))(k := fork_value (fo_set_value k v fo) k)"
    unfolding assms [symmetric]
    by (auto simp: fun_eq_iff fork_value_def fo_set_value_def im_set_value_def im_read_value_def split: option.split)
  moreover have "v \<noteq> 0 \<Longrightarrow> fork_value (fo_set_value k v fo) k = Ok v"
    by (simp add: fork_value_def fo_set_value_def im_set_value_def im_read_value_def split: option.split)
  ultimately show ?thesis
    unfolding written_def by (intro exI [of _ "fork_value (fo_set_value k v fo) k"]) (simp add: chain_of_def)
qed

text \<open>What an operation under the write lock may do to the inner state, as an action.\<close>

definition inner_does :: "ext \<Rightarrow> act set \<Rightarrow> inner \<Rightarrow> inner \<Rightarrow> bool" where
  "inner_does E A n n' \<longleftrightarrow> fo_fork (n_fork_storage n') = fo_fork (n_fork_storage n) \<and>
     (\<forall>saved. \<exists>a \<in> insert Idle A. ledger_step E a \<lparr>lg_chain = chain_of n, lg_saved = saved\<rparr> \<lparr>lg_chain = chain_of n', lg_saved = saved\<rparr>)"

lemma inner_does_nothing:
  "fo_fork (n_fork_storage n') = fo_fork (n_fork_storage n) \<Longrightarrow> chain_of n' = chain_of n \<Longrightarrow> inner_does E A n n'"
  by (simp add: inner_does_def ledger_step.idle)

lemma inner_does_write:
  assumes "fork_value fo = fork_value (n_fork_storage n)" and "fo_fork fo = fo_fork (n_fork_storage n)" and "Write k v \<in> A"
  shows "inner_does E A n (n\<lparr>n_fork_storage := fo_set_value k v fo\<rparr>)"
  using ledger_step.store [of k v "\<lparr>lg_chain = chain_of n, lg_saved = saved\<rparr>" for saved] chain_written [OF assms(1), of k v] assms(2,3)
  by (auto simp: inner_does_def fo_set_value_def)

lemma under_write_lock:
  assumes "\<And>r n'. f (nd_inner nd) = (r, n') \<Longrightarrow> r \<noteq> Panic \<Longrightarrow> inner_does E A (nd_inner nd) n'"
  shows "performs E A nd (snd (write_inner e f nd))"
proof (rule write_inner_performs)
  fix r n' assume "f (nd_inner nd) = (r, n')" "r \<noteq> Panic"
  then show "fo_fork (n_fork_storage n') = fo_fork (n_fork_storage (nd_inner nd)) \<and>
      (\<exists>a \<in> insert Idle A. ledger_step E a (ledger_of nd) ((ledger_of nd)\<lparr>lg_chain := chain_of n'\<rparr>))"
    using assms by (simp add: inner_does_def ledger_of_def)
qed

lemma nonce_inner_does:
  assumes "inner_ok n" and "nonce_inner E a v n = (r, n')"
  shows "inner_does E {Write (x_nonce_key E a) (x_nonces_to_full_nonce E v v)} n n'"
proof -
  obtain x fo where x: "read_value_internal (x_nonce_key E a) (n_fork_storage n) = (x, fo)" by force
  have s: "same_contents (n_fork_storage n) fo" using read_value_correct [OF inner_ok_coherent [OF assms(1)]] x by (metis snd_conv)
  then have f: "fork_value fo = fork_value (n_fork_storage n)" "fo_fork fo = fo_fork (n_fork_storage n)"
    using same_contents_fork [OF s] by (simp_all add: same_contents_def)
  then have read: "inner_does E A n (n\<lparr>n_fork_storage := fo\<rparr>)" for A
    by (intro inner_does_nothing chain_of_frame) simp_all
  show ?thesis
    using assms x inner_does_write [OF f] read
    by (cases x) (auto simp: nonce_inner_def Let_def split: prod.splits if_splits intro: inner_does_nothing)
qed

lemma code_inner_does:
  assumes "code_inner E a c n = (r, n')"
  shows "inner_does E (range (Write (x_code_key E a))) n n'"
proof -
  have "inner_does E (range (Write (x_code_key E a))) n
      (n\<lparr>n_fork_storage := fo_set_value (x_code_key E a) h (fo_store_factory_dep h bs (n_fork_storage n))\<rparr>)" for h bs
    by (rule inner_does_write)
       (simp_all add: fun_eq_iff fork_value_def fo_store_factory_dep_def im_store_factory_dep_def im_read_value_def split: option.split)
  then show ?thesis using assms
    by (auto simp: code_inner_def Let_def intro: inner_does_nothing split: res.splits prod.splits)
qed

section \<open>Mining\<close>

lemma mine_rest_does:
  "mine_rest E iv j n = Some n' \<Longrightarrow> caches_coherent (n_fork_storage n) \<Longrightarrow>
   mined E j (chain_of n) (chain_of n') \<and> fo_fork (n_fork_storage n') = fo_fork (n_fork_storage n)"
proof (induction j arbitrary: n)
  case (Suc j)
  then obtain m where m: "mine_one E False iv n = Some m" "mine_rest E iv j m = Some n'"
    by (auto simp: bind_eq_Some_conv)
  note co = mine_one_coherent [OF m(1) Suc.prems(2)]
  obtain b where "mined_block E b n m" using mine_one_block [OF m(1)] ..
  then show ?case
    using Suc.IH [OF m(2)] co mined.one_mined [of "chain_of m" "b_number b" "chain_of n" E j "chain_of n'"]
    by (simp add: mined_block_def mined_frame_def)
qed (simp add: mined.none_mined)

lemma mine_does:
  assumes "inner_ok n" and "mine_empty_blocks E k iv n = Some n'"
  shows "inner_does E {MineBlocks (unat k)} n n'"
proof -
  note co = inner_ok_coherent [OF assms(1)]
  have "mined E (unat k) (chain_of n) (chain_of n') \<and> fo_fork (n_fork_storage n') = fo_fork (n_fork_storage n)"
  proof (cases "unat k")
    case 0
    then show ?thesis using assms(2) by (simp add: mine_empty_blocks_def mined.none_mined)
  next
    case (Suc j)
    then obtain m where m: "mine_one E True iv n = Some m" "mine_rest E iv j m = Some n'"
      using assms(2) by (auto simp: mine_empty_blocks_def bind_eq_Some_conv)
    note co1 = mine_one_coherent [OF m(1) co]
    obtain b where "mined_block E b n m" using mine_one_block [OF m(1)] ..
    then show ?thesis
      using mine_rest_does [OF m(2)] co1 Suc mined.one_mined [of "chain_of m" "b_number b" "chain_of n" E j "chain_of n'"]
      by (simp add: mined_block_def mined_frame_def)
  qed
  then show ?thesis
    using ledger_step.mine [of E "unat k" "\<lparr>lg_chain = chain_of n, lg_saved = saved\<rparr>" "chain_of n'" for saved]
    by (simp add: inner_does_def)
qed

lemma operations_perform:
  assumes "node_ok nd"
  shows "performs E {Write (x_eth_balance_key E a) v} nd (snd (set_balance E a v nd))"
    "performs E {Write (StorageKey a k') v} nd (snd (set_storage_at a k' v nd))"
    "performs E {Write (x_nonce_key E a) (x_nonces_to_full_nonce E v v)} nd (snd (set_nonce E a v nd))"
    "performs E (range (Write (x_code_key E a))) nd (snd (set_code E a c nd))"
    "performs E {MineBlocks (unat (unwrap_or k 1))} nd (snd (mine_blocks E k i nd))"
    "performs E {MineBlocks 1} nd (snd (mine_block E nd))"
proof -
  note i = node_ok_inner [OF assms]
  show "performs E {Write (x_eth_balance_key E a) v} nd (snd (set_balance E a v nd))"
    "performs E {Write (StorageKey a k') v} nd (snd (set_storage_at a k' v nd))"
    unfolding set_balance_def set_storage_at_def by (rule under_write_lock; auto intro: inner_does_write)+
  show "performs E {Write (x_nonce_key E a) (x_nonces_to_full_nonce E v v)} nd (snd (set_nonce E a v nd))"
    "performs E (range (Write (x_code_key E a))) nd (snd (set_code E a c nd))"
    unfolding set_nonce_def set_code_def
    by (rule under_write_lock, erule nonce_inner_does [OF i], rule under_write_lock, erule code_inner_does)
  show "performs E {MineBlocks (unat (unwrap_or k 1))} nd (snd (mine_blocks E k i nd))"
    unfolding mine_blocks_def
    by (rule under_write_lock) (auto simp: Let_def inner_does_nothing split: option.splits if_splits intro: mine_does [OF i])
  show "performs E {MineBlocks 1} nd (snd (mine_block E nd))"
    unfolding mine_block_def
    by (rule under_write_lock) (auto simp: inner_does_nothing split: option.splits dest: mine_does [OF i])
qed

section \<open>Transactions, snapshots and resets\<close>

lemma failed_tx_chain:
  assumes "node_ok nd" and "\<not> is_Ok (fst (run_l2_tx E tx mode nd))"
  shows "ledger_of (snd (run_l2_tx E tx mode nd)) = ledger_of nd"
proof (cases "\<exists>u. validate_tx tx nd = Ok u")
  case False
  then show ?thesis by (auto simp: run_l2_tx_def split: res.split)
next
  case True
  then obtain u where v: "validate_tx tx nd = Ok u" by blast
  obtain r fo where r: "run_l2_tx_raw E tx mode True (notified E tx (nd_inner nd)) = (r, fo)" by force
  let ?nd2 = "nd\<lparr>nd_inner := (notified E tx (nd_inner nd))\<lparr>n_fork_storage := fo\<rparr>\<rparr>"
  have "same_local (n_fork_storage (nd_inner nd)) fo"
    using run_l2_tx_raw_storage [of "notified E tx (nd_inner nd)" E tx mode True] r
      inner_ok_coherent [OF node_ok_inner [OF assms(1)]] by simp
  then have f: "fo_raw fo = fo_raw (n_fork_storage (nd_inner nd))" "fo_fork fo = fo_fork (n_fork_storage (nd_inner nd))"
    by (simp_all add: same_local_def)
  then have "chain_of (nd_inner ?nd2) = chain_of (nd_inner nd)"
    by (intro chain_of_frame fork_value_cong) simp_all
  then have "ledger_of ?nd2 = ledger_of nd"
    using ledger_of_step [of ?nd2 nd] f by simp (simp add: ledger_of_def)
  then show ?thesis
    using assms(2) run_l2_tx_unfold [OF v, of E mode] validate_tx_Ok [OF v] r
    by (auto simp: Let_def write_inner_def of_option_def split: res.splits exec_result.splits option.splits)
qed

lemma run_performs:
  assumes "node_ok nd"
  shows "performs E {Transact (x_tx_hash E tx)} nd (snd (run_l2_tx E tx mode nd))"
proof (cases "run_l2_tx E tx mode nd")
  case (Pair r nd')
  show ?thesis
  proof (cases r)
    case (Ok u)
    obtain lt :: l2_tx_result and b2 tr where "two_blocks E tx (lt_block lt) b2 (nd_inner nd) (nd_inner nd')"
        "n_tx_results (nd_inner nd') = al_insert (x_tx_hash E tx) tr (n_tx_results (nd_inner nd))"
      using run_l2_tx_effects [OF Pair [unfolded Ok]] by blast
    moreover have "fst ` set (al_insert k v xs) = insert k (fst ` set xs)" for k :: h256 and v :: transaction_result and xs
      by (metis dom_fun_upd dom_map_of_conv_image_fst map_of_al_insert option.distinct(1))
    ultimately have "transacted E (x_tx_hash E tx) (chain_of (nd_inner nd)) (chain_of (nd_inner nd'))"
      by (simp add: transacted_def two_blocks_def Let_def)
    moreover have "ledger_of nd' = (ledger_of nd)\<lparr>lg_chain := chain_of (nd_inner nd')\<rparr>"
      using run_l2_tx_step [OF assms, of E tx mode] Pair by (intro ledger_of_step) (simp_all add: node_step_def)
    ultimately show ?thesis
      using ledger_step.transact [of E "x_tx_hash E tx" "ledger_of nd" "chain_of (nd_inner nd')"] Pair
      by (simp add: performs_def) (simp add: ledger_of_def)
  qed (use failed_tx_chain [OF assms, of E tx mode] Pair in auto)
qed

lemma sent_performs:
  assumes "node_ok nd"
  shows "performs E (range Transact) nd (snd (eth_send_raw_transaction E bs nd))"
    "performs E (range Transact) nd (snd (eth_send_transaction E req nd))"
proof -
  have run: "performs E (range Transact) nd nd'" if "run_l2_tx E tx mode nd = (r, nd')" for tx mode r nd'
    using performs_mono [OF run_performs [OF assms, of E tx mode]] that by simp
  show "performs E (range Transact) nd (snd (eth_send_raw_transaction E bs nd))"
    by (auto simp: eth_send_raw_transaction_def Let_def split: res.split prod.split intro: run)
  show "performs E (range Transact) nd (snd (eth_send_transaction E req nd))"
    by (auto simp: eth_send_transaction_def split: res.split prod.split intro: run)
qed

lemma snapshot_performs: "performs E {Save} nd (snd (nd_snapshot nd))"
proof (cases "nd_inner_poisoned nd \<or> nd_snapshots_poisoned nd \<or> 100 \<le> length (nd_snapshots nd)")
  case False
  then have "ledger_of (snd (nd_snapshot nd)) = (ledger_of nd)\<lparr>lg_saved := lg_saved (ledger_of nd) @ [lg_chain (ledger_of nd)]\<rparr>"
    by (simp add: nd_snapshot_def Let_def MAX_SNAPSHOTS_def ledger_of_def saved_chain_taken)
  then show ?thesis using False ledger_step.save [of "ledger_of nd" E] by (simp add: performs_def) (simp add: ledger_of_def)
qed (auto simp: nd_snapshot_def MAX_SNAPSHOTS_def)

lemma revert_performs: "performs E {Rewind (unat i - 1)} nd (snd (revert_snapshot i nd))"
proof (cases "nd_inner_poisoned nd \<or> nd_snapshots_poisoned nd \<or> length (nd_snapshots nd) \<le> unat i - 1")
  case False
  let ?j = "unat i - 1" and ?n = "nd_inner nd"
  have "saved_chain (restore_snapshot s ?n) = saved_chain ?n" for s
    by (rule saved_chain_cong) (simp add: restore_snapshot_def)
  then have "ledger_of (snd (revert_snapshot i nd)) =
      \<lparr>lg_chain = lg_saved (ledger_of nd) ! ?j, lg_saved = take ?j (lg_saved (ledger_of nd))\<rparr>"
    using False by (simp add: revert_snapshot_def Let_def ledger_of_def take_map) (simp add: saved_chain_def)
  then show ?thesis using False ledger_step.rewind [of ?j "ledger_of nd" E] by (simp add: performs_def) (simp add: ledger_of_def)
qed (auto simp: revert_snapshot_def Let_def)

lemma seeded_chain:
  "set_rich_accounts E as nd = (r, nd') \<Longrightarrow> nd_snapshots nd' = nd_snapshots nd \<and>
     n_current_miniblock (nd_inner nd') = n_current_miniblock (nd_inner nd) \<and>
     n_block_hashes (nd_inner nd') = n_block_hashes (nd_inner nd) \<and> n_tx_results (nd_inner nd') = n_tx_results (nd_inner nd)"
proof (induction as arbitrary: nd)
  case (Cons a as)
  obtain r1 nd1 where 1: "set_rich_account E a nd = (r1, nd1)" by force
  then have "nd_snapshots nd1 = nd_snapshots nd \<and>
     n_current_miniblock (nd_inner nd1) = n_current_miniblock (nd_inner nd) \<and>
     n_block_hashes (nd_inner nd1) = n_block_hashes (nd_inner nd) \<and> n_tx_results (nd_inner nd1) = n_tx_results (nd_inner nd)"
    by (auto simp: set_rich_account_def write_inner_def rich_inner_def split: if_splits option.splits)
  then show ?case using Cons.prems 1 Cons.IH [of nd1] by (cases r1) auto
qed simp

lemma reset_performs:
  assumes "\<And>f. fork = Some f \<Longrightarrow> fork_ok f"
  shows "performs E {Restart} nd (snd (reset E fork nd))"
proof (cases "nd_inner_poisoned nd \<or> nd_snapshots_poisoned nd \<or> inner_new E fork (n_observability (nd_inner nd))
    (n_config (nd_inner nd)) (Some (gas_values (n_fee_input_provider (nd_inner nd)))) = None")
  case False
  then obtain n where n: "inner_new E fork (n_observability (nd_inner nd)) (n_config (nd_inner nd))
      (Some (gas_values (n_fee_input_provider (nd_inner nd)))) = Some n" by blast
  then have "fresh (chain_of n)"
    using assms by (auto simp: inner_new_def fresh_def fork_ok_def bind_eq_Some_conv Let_def split: option.splits if_splits)
  moreover obtain r nd' where s: "set_rich_accounts E (LEGACY_RICH_WALLETS @ RICH_WALLETS)
      (nd\<lparr>nd_snapshots := [], nd_inner := n\<rparr>) = (r, nd')" by force
  ultimately have "fresh (chain_of (nd_inner nd'))" "nd_snapshots nd' = []"
    using seeded_chain [OF s] by (simp_all add: fresh_def)
  then have "ledger_step E Restart (ledger_of nd) (ledger_of nd')"
    using ledger_step.restart [of "chain_of (nd_inner nd')" E "ledger_of nd"] by (simp add: ledger_of_def)
  moreover have "ledger_of (nd'\<lparr>nd_snapshots_poisoned := True\<rparr>) = ledger_of nd'" by (simp add: ledger_of_def)
  ultimately show ?thesis
    using False n s by (cases r) (simp_all add: reset_def performs_def)
qed (auto simp: reset_def Let_def split: option.split)

lemma reset_network_performs:
  assumes "honest_world W" and "small_reset spec"
  shows "performs E {Restart} nd (snd (reset_network E io d (wo_client W) spec nd))"
proof -
  have "performs E {Restart} nd (snd (reset E fork nd))" if "reset_fork E io d (wo_client W) spec nd = Ok fork" for fork
    using reset_performs [of fork E nd] reset_fork_ok [OF assms] that by blast
  then show ?thesis by (fastforce simp: reset_network_def split: res.split prod.split)
qed

section \<open>The simulation\<close>

lemma account_performs:
  assumes "node_ok nd" and "honest_world W" and "\<And>spec. r = Reset spec \<Longrightarrow> small_reset spec" and "\<not> quiet_account r"
  shows "performs (wo_ext W) (account_acts (wo_ext W) r) nd (serve_hardhat W r nd)"
    "performs (wo_ext W) (account_acts (wo_ext W) r) nd (serve_anvil W r nd)"
  using assms(3,4) operations_perform [OF assms(1)] reset_network_performs [OF assms(2)]
  by (cases r; simp add: hardhat_set_balance_def hardhat_set_nonce_def hardhat_mine_def hardhat_reset_def
      hardhat_set_code_def hardhat_set_storage_at_def
      anvil_set_balance_def anvil_set_nonce_def anvil_mine_def anvil_reset_def anvil_set_code_def anvil_set_storage_at_def)+

lemma evm_performs:
  assumes "node_ok nd" and "\<not> quiet (Evm r)"
  shows "performs (wo_ext W) (acts (wo_ext W) (Evm r)) nd (serve_evm W r nd)"
  using assms(2) operations_perform [OF assms(1)] snapshot_performs revert_performs
  by (cases r) (simp_all add: evm_set_nonce_def evm_mine_def evm_snapshot_def evm_revert_def)

lemma request_performs:
  assumes "node_ok nd" and "honest_world W" and "small_request r"
  shows "performs (wo_ext W) (acts (wo_ext W) r) nd (serve_request W r nd)"
proof (cases "quiet r")
  case True
  then show ?thesis by (rule quiet_performs [OF assms(1)])
next
  case False
  show ?thesis
  proof (cases r)
    case (Hardhat q)
    have "small_reset spec" if "q = Reset spec" for spec using assms(3) Hardhat that by simp
    then show ?thesis using account_performs(1) [OF assms(1,2)] Hardhat False by simp
  next
    case (Anvil q)
    have "small_reset spec" if "q = Reset spec" for spec using assms(3) Anvil that by simp
    then show ?thesis using account_performs(2) [OF assms(1,2)] Anvil False by simp
  next
    case (Evm q)
    then show ?thesis using evm_performs [OF assms(1), of q W] False by simp
  next
    case (Eth q)
    then show ?thesis using False sent_performs [OF assms(1)] by (cases q) simp_all
  qed (use False in simp_all)
qed

section \<open>Requests that only add\<close>

fun forward_account :: "account_request \<Rightarrow> bool" where
  "forward_account (Mine k i) = False"
| "forward_account (Reset spec) = False"
| "forward_account _ = True"

fun forward :: "request \<Rightarrow> bool" where
  "forward (Hardhat r) = forward_account r"
| "forward (Anvil r) = forward_account r"
| "forward (Evm r) = (case r of EvmMine \<Rightarrow> False | EvmRevert i \<Rightarrow> False | _ \<Rightarrow> True)"
| "forward _ = True"

text \<open>What such requests do to the ledger, with at most two blocks each.\<close>

definition tidy :: "chain \<Rightarrow> bool" where
  "tidy C \<longleftrightarrow> (\<forall>k \<in> dom (ch_hashes C). k \<le> ch_height C)"

definition extends :: "nat \<Rightarrow> ledger \<Rightarrow> ledger \<Rightarrow> bool" where
  "extends j L L' \<longleftrightarrow> tidy (lg_chain L') \<and> ch_hashes (lg_chain L) \<subseteq>\<^sub>m ch_hashes (lg_chain L') \<and>
     ch_height (lg_chain L) \<le> ch_height (lg_chain L') \<and> ch_txs (lg_chain L) \<subseteq> ch_txs (lg_chain L') \<and>
     (\<exists>more. lg_saved L' = lg_saved L @ more) \<and>
     unat (ch_height (lg_chain L')) \<le> unat (ch_height (lg_chain L)) + 2 * j"

lemma extends_refl: "tidy (lg_chain L) \<Longrightarrow> extends j L L"
  by (simp add: extends_def)

lemma extends_trans: "extends i L L1 \<Longrightarrow> extends j L1 L2 \<Longrightarrow> extends (i + j) L L2"
  by (auto simp: extends_def intro: map_le_trans)

lemma transacted_extends:
  assumes "transacted E tx C C'" and "tidy C" and "unat (ch_height C) + 2 < 2 ^ 64"
  shows "extends 1 \<lparr>lg_chain = C, lg_saved = S\<rparr> \<lparr>lg_chain = C', lg_saved = S\<rparr>"
proof -
  let ?h = "ch_height C" and ?h1 = "sat_add (ch_height C) 1" and ?h2 = "sat_add (sat_add (ch_height C) 1) 1"
  have u: "unat ?h1 = unat ?h + 1" "unat ?h2 = unat ?h + 2" using assms(3) by (simp_all add: unat_sat_add)
  then have o: "?h < ?h1" "?h1 < ?h2" by (simp_all add: word_less_nat_alt)
  have n: "ch_hashes C k = None" if "?h < k" for k using assms(2) that by (auto simp: tidy_def dom_def)
  have "ch_hashes C \<subseteq>\<^sub>m (ch_hashes C)(?h1 \<mapsto> x, ?h2 \<mapsto> y)" for x y
    using n [OF o(1)] n [OF less_trans [OF o]] by (auto simp: map_le_def)
  moreover have "k \<le> ?h2" if "ch_hashes C k = Some y" for k y
  proof -
    have "k \<le> ?h" using assms(2) that by (auto simp: tidy_def)
    then show ?thesis using o by (meson less_imp_le order_trans)
  qed
  then have "tidy C'"
    using assms(1) o by (auto simp: tidy_def transacted_def Let_def split: if_splits)
  ultimately show ?thesis
    using assms(1) o u by (auto simp: extends_def transacted_def Let_def)
qed

lemma forward_acts: "forward r \<Longrightarrow> a \<in> acts E r \<Longrightarrow> (\<exists>tx. a = Transact tx) \<or> (\<exists>k v. a = Write k v) \<or> a = Save"
proof -
  have "forward_account q \<Longrightarrow> a \<in> account_acts E q \<Longrightarrow> \<exists>k v. a = Write k v" for q by (cases q) auto
  then show "forward r \<Longrightarrow> a \<in> acts E r \<Longrightarrow> ?thesis"
    by (cases r) (auto split: evm_request.splits eth_request.splits)
qed

lemma step_extends:
  assumes "ledger_step E a L L'" and "a = Idle \<or> (\<exists>tx. a = Transact tx) \<or> (\<exists>k v. a = Write k v) \<or> a = Save"
    and "tidy (lg_chain L)" and "unat (ch_height (lg_chain L)) + 2 < 2 ^ 64"
  shows "extends 1 L L'"
  using assms transacted_extends [of E _ "lg_chain L" _ "lg_saved L"]
  by (cases rule: ledger_step.cases) (auto simp: extends_refl written_def, auto simp: extends_def tidy_def)

lemma serve_all_extends:
  "reachable W nd \<Longrightarrow> honest_world W \<Longrightarrow> list_all small_request rs \<Longrightarrow> list_all forward rs \<Longrightarrow>
   tidy (chain_of (nd_inner nd)) \<Longrightarrow> unat (n_current_miniblock (nd_inner nd)) + 2 * length rs < 2 ^ 64 \<Longrightarrow>
   extends (length rs) (ledger_of nd) (ledger_of (serve_all W rs nd))"
proof (induction rs arbitrary: nd)
  case Nil
  then show ?case by (simp add: serve_all_def extends_refl ledger_of_def)
next
  case (Cons r rs)
  let ?nd1 = "serve_request W r nd"
  have s: "small_request r" "forward r" "list_all small_request rs" "list_all forward rs" using Cons.prems(3,4) by simp_all
  have "performs (wo_ext W) (acts (wo_ext W) r) nd ?nd1"
    by (rule request_performs [OF reachable_node_ok [OF Cons.prems(1,2)] Cons.prems(2) s(1)])
  then obtain a where "a = Idle \<or> a \<in> acts (wo_ext W) r" "ledger_step (wo_ext W) a (ledger_of nd) (ledger_of ?nd1)"
    by (auto simp: performs_def)
  then have 1: "extends 1 (ledger_of nd) (ledger_of ?nd1)"
    using step_extends [of "wo_ext W" a "ledger_of nd" "ledger_of ?nd1"] forward_acts [OF s(2)] Cons.prems(5,6)
    by (auto simp: ledger_of_def)
  then have "tidy (chain_of (nd_inner ?nd1))" "unat (n_current_miniblock (nd_inner ?nd1)) + 2 * length rs < 2 ^ 64"
    using Cons.prems(6) by (simp_all add: extends_def ledger_of_def)
  then have "extends (length rs) (ledger_of ?nd1) (ledger_of (serve_all W rs ?nd1))"
    by (intro Cons.IH reachable.served [OF Cons.prems(1)] Cons.prems(2) s)
  then show ?case using extends_trans [OF 1] by (simp add: serve_all_def)
qed

section \<open>Properties\<close>

text \<open>C2: the node refines the ledger. Whatever request of whatever namespace a reachable node serves,
  and whether it succeeds, fails or panics, the ledger of the node takes one step of the abstract
  machine: one of the actions the request stands for, as a whole, or none. A transaction appends
  its block and the empty one after it, with their hashes at their numbers, and is recorded; mining
  hashes as many empty blocks as were asked for; a write changes what is read at its key, and
  nowhere else; a snapshot saves the chain, there being fewer than 100; reverting brings back
  the saved chain and forgets it and the later ones; a reset starts a chain of one block.\<close>

theorem request_refines_ledger:
  assumes "reachable W nd" and "honest_world W" and "small_request r"
  shows "\<exists>a \<in> insert Idle (acts (wo_ext W) r). ledger_step (wo_ext W) a (ledger_of nd) (ledger_of (serve_request W r nd))"
  using request_performs [OF reachable_node_ok [OF assms(1,2)] assms(2,3)] by (simp only: performs_def)

text \<open>C9: the past stays. As long as a node is not asked to mine, to revert or to reset, whatever else
  it serves, no block hash is ever replaced, no number is given up, no transaction is forgotten,
  the snapshots taken stay the first ones with what they hold, and the chain grows by at most two
  blocks for each request. Blocks are assumed to be numbered up to the current number, which is
  how a node starts, with room for the new ones. (Mining is left out because the storage decides
  the numbers of the mined blocks, which may be the numbers of older ones.)\<close>

theorem history_is_append_only:
  assumes "reachable W nd" and "honest_world W" and "list_all small_request rs" and "list_all forward rs"
    and "\<forall>k \<in> dom (n_block_hashes (nd_inner nd)). k \<le> n_current_miniblock (nd_inner nd)"
    and "unat (n_current_miniblock (nd_inner nd)) + 2 * length rs < 2 ^ 64"
  shows "let nd' = serve_all W rs nd in n_block_hashes (nd_inner nd) \<subseteq>\<^sub>m n_block_hashes (nd_inner nd') \<and>
    n_current_miniblock (nd_inner nd) \<le> n_current_miniblock (nd_inner nd') \<and>
    unat (n_current_miniblock (nd_inner nd')) \<le> unat (n_current_miniblock (nd_inner nd)) + 2 * length rs \<and>
    fst ` set (n_tx_results (nd_inner nd)) \<subseteq> fst ` set (n_tx_results (nd_inner nd')) \<and>
    (\<exists>more. lg_saved (ledger_of nd') = lg_saved (ledger_of nd) @ more)"
proof -
  have "extends (length rs) (ledger_of nd) (ledger_of (serve_all W rs nd))"
    by (rule serve_all_extends) (use assms in \<open>simp_all add: tidy_def\<close>)
  then show ?thesis by (simp add: extends_def ledger_of_def Let_def)
qed

text \<open>The witnesses start a node without a fork.\<close>

lemma started0: "\<exists>nd. reachable lone_world nd \<and> nd_snapshots nd = [] \<and> n_current_miniblock (nd_inner nd) = 0 \<and>
    dom (n_block_hashes (nd_inner nd)) = {0}"
proof -
  obtain n where n: "inner_new ext0 None None default_node_config None = Some n"
    using inner_new0 [of None None] by blast
  then have "node_new ext0 None None default_node_config None = Some \<lparr>nd_inner = n, nd_inner_poisoned = False, nd_snapshots = [],
      nd_snapshots_poisoned = False, nd_system_contracts_options = nc_system_contracts_options default_node_config\<rparr>" (is "_ = Some ?nd")
    by (simp add: node_new_def)
  then have "reachable lone_world ?nd"
    by (intro reachable.started [where fork = None]) (auto simp: lone_world_def)
  moreover have "n_current_miniblock n = 0" "dom (n_block_hashes n) = {0}"
    using n by (auto simp: inner_new_def bind_eq_Some_conv Let_def split: if_splits)
  ultimately show ?thesis by (intro exI [of _ ?nd]) simp
qed

lemma honest_lone: "honest_world lone_world"
  by (simp add: honest_world_def lone_world_def)

lemma request_refines_ledger_witness:
  "\<exists>nd. \<exists>a \<in> {Idle, Write (StorageKey 5 6) 7}.
     ledger_step ext0 a (ledger_of nd) (ledger_of (serve_request lone_world (Hardhat (SetStorageAt 5 6 7)) nd))"
proof -
  obtain nd where r: "reachable lone_world nd" using started0 by blast
  have "\<exists>a \<in> insert Idle (acts (wo_ext lone_world) (Hardhat (SetStorageAt 5 6 7))).
      ledger_step (wo_ext lone_world) a (ledger_of nd) (ledger_of (serve_request lone_world (Hardhat (SetStorageAt 5 6 7)) nd))"
    by (rule request_refines_ledger [OF r honest_lone]) simp
  then show ?thesis by (auto simp: lone_world_def)
qed

lemma history_is_append_only_witness:
  "\<exists>nd. dom (n_block_hashes (nd_inner nd)) = {0} \<and> n_block_hashes (nd_inner nd) \<subseteq>\<^sub>m
     n_block_hashes (nd_inner (serve_all lone_world [Evm EvmSnapshot, Hardhat (SetBalance 5 6), Evm (EvmIncreaseTime 1)] nd))"
proof -
  obtain nd where nd: "reachable lone_world nd" "n_current_miniblock (nd_inner nd) = 0" "dom (n_block_hashes (nd_inner nd)) = {0}"
    using started0 by blast
  then show ?thesis
    using history_is_append_only [OF nd(1) honest_lone, of "[Evm EvmSnapshot, Hardhat (SetBalance 5 6), Evm (EvmIncreaseTime 1)]"]
    by (intro exI [of _ nd]) (simp add: Let_def)
qed

end
