(* ===== verification/Formatter.thy ===== *)
theory Formatter
  imports Resolver Utils "HOL-Library.Sublist"
begin

text \<open>
  What the node prints about calls, events and storage writes (\<open>src/formatter.rs\<close>). A printing
  function is the list of the lines it writes to the log. The colours of the terminal, the
  table of known addresses and the textual forms that libraries give to their values are
  the fields of \<open>paint\<close>; a colour function takes the width that its text is padded to.

  With hashes being resolved, printing asks the resolver, which keeps what it learns on the disk:
  a \<open>printing\<close> is what is printed and the disk afterwards. \<open>None\<close> is the panic when a lookup
  fails; the disk of a panic holds what was saved before it.
\<close>

section \<open>Printing with a disk\<close>

type_synonym 'a printing = "'a option \<times> disk"

definition pbind :: "'a printing \<Rightarrow> ('a \<Rightarrow> disk \<Rightarrow> 'b printing) \<Rightarrow> 'b printing" where
  "pbind m f = (case m of (None, d) \<Rightarrow> (None, d) | (Some x, d) \<Rightarrow> f x d)"

lemma pbind_simps [simp]:
  "pbind (Some x, d) f = f x d"
  "pbind (None, d) f = (None, d)"
  by (simp_all add: pbind_def)

lemma pbind_cong [fundef_cong]:
  "m = m' \<Longrightarrow> (\<And>x d. m' = (Some x, d) \<Longrightarrow> f x d = g x d) \<Longrightarrow> pbind m f = pbind m' g"
  by (auto simp: pbind_def split: prod.split option.split)

lemma pbind_SomeD: "fst (pbind m f) = Some y \<Longrightarrow> \<exists>x d. m = (Some x, d) \<and> fst (f x d) = Some y"
  by (auto simp: pbind_def split: prod.splits option.splits)

section \<open>Texts\<close>

datatype contract_type = ContractSystem | ContractPrecompile | ContractPopular | ContractUnknown

record known_address =
  ka_name :: string
  ka_type :: contract_type

record paint =
  pt_known :: "address \<rightharpoonup> known_address"
  pt_dimmed :: "nat \<Rightarrow> string \<Rightarrow> string"
  pt_green :: "string \<Rightarrow> string"
  pt_blue :: "nat \<Rightarrow> string \<Rightarrow> string"
  pt_bold :: "nat \<Rightarrow> string \<Rightarrow> string"
  pt_grey :: "string \<Rightarrow> string"
  pt_on_red :: "string \<Rightarrow> string"
  pt_call_type :: "call_type \<Rightarrow> string"
  pt_log_kind :: "storage_log_kind \<Rightarrow> string"
  pt_short_address :: "address \<Rightarrow> string"
  pt_utf8 :: "bytes \<Rightarrow> string option"

definition pad_right :: "nat \<Rightarrow> string \<Rightarrow> string" where
  "pad_right n s = s @ replicate (n - length s) (CHR '' '')"

definition pad_left :: "nat \<Rightarrow> string \<Rightarrow> string" where
  "pad_left n s = replicate (n - length s) (CHR '' '') @ s"

definition hex_digit :: "nat \<Rightarrow> char" where
  "hex_digit n = (if n < 10 then digit_char n else char_of (n + 87))"

definition hex_bytes :: "bytes \<Rightarrow> string" where
  "hex_bytes bs = concat (map (\<lambda>b. [hex_digit (unat b div 16), hex_digit (unat b mod 16)]) bs)"

definition address_to_human_readable :: "paint \<Rightarrow> address \<Rightarrow> string option" where
  "address_to_human_readable P a =
     map_option (\<lambda>k. case ka_type k of
         ContractSystem \<Rightarrow> ka_name k
       | ContractPrecompile \<Rightarrow> pt_dimmed P 0 (ka_name k)
       | ContractPopular \<Rightarrow> pt_green P (ka_name k)
       | ContractUnknown \<Rightarrow> ka_name k) (pt_known P a)"

section \<open>Events\<close>

fun resolve_topics :: "ext \<Rightarrow> io \<Rightarrow> web \<Rightarrow> h256 list \<Rightarrow> disk \<Rightarrow> string list printing" where
  "resolve_topics E io w [] d = (Some [], d)"
| "resolve_topics E io w (topic # topics) d =
     (case decode_event_selector E io w (x_fmt_h256 E topic) d of
        (Ok selector, d') \<Rightarrow>
          pbind (resolve_topics E io w topics d') (\<lambda>tt d''. (Some (unwrap_or selector (x_fmt_h256 E topic) # tt), d''))
      | (_, d') \<Rightarrow> (None, d'))"

definition event_data_line :: "ext \<Rightarrow> paint \<Rightarrow> bytes \<Rightarrow> string" where
  "event_data_line E P v =
     (if v = [] then pt_grey P ''  Data: EMPTY''
      else case pt_utf8 P v of
             Some s \<Rightarrow> pt_grey P ''  Data (String):'' @ '' '' @ s
           | None \<Rightarrow>
               (let hex_str = x_hex_encode E v;
                    display_str = (if 200 < length hex_str then take 200 hex_str @ ''...'' else hex_str)
                in pt_grey P ''  Data (Hex):'' @ '' 0x'' @ display_str))"

definition print_event ::
  "ext \<Rightarrow> paint \<Rightarrow> io \<Rightarrow> web \<Rightarrow> vm_event \<Rightarrow> bool \<Rightarrow> disk \<Rightarrow> string list printing" where
  "print_event E P io w event resolve_hashes d =
     pbind (if resolve_hashes then resolve_topics E io w (ev_topics event) d
            else (Some (map (x_fmt_h256 E) (ev_topics event)), d)) (\<lambda>tt d'.
         (Some ([unwrap_or (map_option (pt_blue P 42) (address_to_human_readable P (ev_address event)))
             (pt_blue P 42 (x_fmt_address E (ev_address event))),
           pt_grey P ''  Topics:''] @ map (\<lambda>t. ''    '' @ t) tt @
          [event_data_line E P (ev_value event), '''']), d'))"

section \<open>Calls\<close>

definition contract_type_of :: "paint \<Rightarrow> address \<Rightarrow> contract_type" where
  "contract_type_of P a = unwrap_or (map_option ka_type (pt_known P a)) ContractUnknown"

fun should_print :: "contract_type \<Rightarrow> show_calls \<Rightarrow> bool" where
  "should_print _ ShowCallsAll = True"
| "should_print _ ShowCallsNone = False"
| "should_print ContractUnknown _ = True"
| "should_print ContractPopular _ = True"
| "should_print ContractPrecompile _ = False"
| "should_print ContractSystem ShowCallsUser = False"
| "should_print ContractSystem ShowCallsSystem = True"

definition function_signature ::
  "ext \<Rightarrow> paint \<Rightarrow> io \<Rightarrow> web \<Rightarrow> contract_type \<Rightarrow> bool \<Rightarrow> bytes \<Rightarrow> disk \<Rightarrow> string printing" where
  "function_signature E P io w contract_type resolve_hashes input d =
     (if 4 \<le> length input
      then let sig = hex_bytes (take 4 input) in
        if contract_type = ContractPrecompile \<or> \<not> resolve_hashes then (Some (pad_left 16 sig), d)
        else case decode_function_selector E io w sig d of
               (Ok fetch, d') \<Rightarrow> (Some (unwrap_or fetch (pt_dimmed P 16 (''0x'' @ sig))), d')
             | (_, d') \<Rightarrow> (None, d')
      else (Some (''0x'' @ hex_bytes input), d))"

definition call_line :: "ext \<Rightarrow> paint \<Rightarrow> bool \<Rightarrow> nat \<Rightarrow> call \<Rightarrow> string \<Rightarrow> string" where
  "call_line E P show_outputs padding c fsig =
     (let pretty_print = replicate padding (CHR '' '') @ pt_call_type P (c_type c) @ '' '' @
            unwrap_or (map_option (pad_right 52) (address_to_human_readable P (c_to c)))
              (pt_bold P 52 (x_fmt_address E (c_to c))) @ '' '' @
            fsig @ '' '' @ (if show_outputs then hex_bytes (c_output c) else '''') @ '' '' @
            unwrap_or (map_option (\<lambda>s. ''Revert: '' @ s) (c_revert_reason c)) '''' @ '' '' @
            unwrap_or (map_option (\<lambda>s. ''Error: '' @ s) (c_error c)) '''' @ '' '' @
            dec_string (unat (c_gas c)) @ '' ('' @ dec_string (unat (c_gas_used c)) @ '')''
      in if c_revert_reason c \<noteq> None \<or> c_error c \<noteq> None then pt_on_red P pretty_print else pretty_print)"

definition print_this_call ::
  "ext \<Rightarrow> paint \<Rightarrow> io \<Rightarrow> web \<Rightarrow> show_calls \<Rightarrow> bool \<Rightarrow> bool \<Rightarrow> nat \<Rightarrow> call \<Rightarrow> disk \<Rightarrow> string list printing" where
  "print_this_call E P io w show_calls show_outputs resolve_hashes padding c d =
     (let contract_type = contract_type_of P (c_to c) in
      if should_print contract_type show_calls
      then pbind (function_signature E P io w contract_type resolve_hashes (c_input c) d) (\<lambda>fsig d'.
             (Some [call_line E P show_outputs padding c fsig], d'))
      else (Some [], d))"

fun print_call ::
    "ext \<Rightarrow> paint \<Rightarrow> io \<Rightarrow> web \<Rightarrow> show_calls \<Rightarrow> bool \<Rightarrow> bool \<Rightarrow> nat \<Rightarrow> call \<Rightarrow> disk \<Rightarrow> string list printing"
  and print_subcalls ::
    "ext \<Rightarrow> paint \<Rightarrow> io \<Rightarrow> web \<Rightarrow> show_calls \<Rightarrow> bool \<Rightarrow> bool \<Rightarrow> nat \<Rightarrow> call list \<Rightarrow> disk \<Rightarrow> string list printing" where
  "print_call E P io w sc so rh padding (Call ty fr to g gu v inp out er rv cs) d =
     pbind (print_this_call E P io w sc so rh padding (Call ty fr to g gu v inp out er rv cs) d) (\<lambda>lines d1.
     pbind (print_subcalls E P io w sc so rh (padding + 2) cs d1) (\<lambda>more d2.
       (Some (lines @ more), d2)))"
| "print_subcalls E P io w sc so rh padding [] d = (Some [], d)"
| "print_subcalls E P io w sc so rh padding (c # cs) d =
     pbind (print_call E P io w sc so rh padding c d) (\<lambda>lines d1.
     pbind (print_subcalls E P io w sc so rh padding cs d1) (\<lambda>more d2.
       (Some (lines @ more), d2)))"

section \<open>Storage writes\<close>

datatype pubdata_bytes_info = FreeSlot | Paid u32 | AdditionalPayment u32 u32 | PaidAlready

fun show_pubdata :: "pubdata_bytes_info \<Rightarrow> string" where
  "show_pubdata FreeSlot = ''free slot''"
| "show_pubdata (Paid cost) = dec_string (unat cost) @ '' bytes''"
| "show_pubdata (AdditionalPayment additional_cost total_cost) =
     dec_string (unat additional_cost) @ '' addditional bytes, '' @ dec_string (unat total_cost) @ '' total cost''"
| "show_pubdata PaidAlready = ''already paid''"

fun does_cost :: "pubdata_bytes_info \<Rightarrow> bool" where
  "does_cost FreeSlot = False"
| "does_cost (Paid _) = True"
| "does_cost (AdditionalPayment _ _) = True"
| "does_cost PaidAlready = False"

text \<open>The separator is 82 times the box-drawing character of the code, in UTF-8.\<close>

definition separator :: string where
  "separator = concat (replicate 82 [CHR 0xE2, CHR 0x94, CHR 0x80])"

definition print_logs :: "ext \<Rightarrow> paint \<Rightarrow> storage_log \<Rightarrow> pubdata_bytes_info option \<Rightarrow> string list" where
  "print_logs E P log_query pubdata_bytes =
     [pad_right 15 ''Kind:'' @ '' '' @ pt_log_kind P (sl_kind log_query),
      pad_right 15 ''Address:'' @ '' '' @
        unwrap_or (address_to_human_readable P (key_address (sl_key log_query)))
          (pt_short_address P (key_address (sl_key log_query))),
      pad_right 15 ''Key:'' @ '' '' @ x_fmt_h256 E (key_slot (sl_key log_query)),
      pad_right 15 ''Read Value:'' @ '' '' @ x_fmt_h256 E (sl_previous_value log_query)] @
     (if is_write log_query then [pad_right 15 ''Written Value:'' @ '' '' @ x_fmt_h256 E (sl_value log_query)] else []) @
     (case pubdata_bytes of
        Some i \<Rightarrow> [pad_right 15 ''Pubdata bytes:'' @ '' '' @ show_pubdata i]
      | None \<Rightarrow> []) @
     [separator]"

section \<open>Results of a run\<close>

text \<open>The title box, drawn with the box-drawing characters in UTF-8.\<close>

definition title_box :: "string \<Rightarrow> string list" where
  "title_box title =
     (let bar = concat (replicate (length title + 6) [CHR 0xE2, CHR 0x94, CHR 0x80]) in
      [[CHR 0xE2, CHR 0x94, CHR 0x8C] @ bar @ [CHR 0xE2, CHR 0x94, CHR 0x90],
       [CHR 0xE2, CHR 0x94, CHR 0x82] @ ''   '' @ title @ ''   '' @ [CHR 0xE2, CHR 0x94, CHR 0x82],
       [CHR 0xE2, CHR 0x94, CHR 0x94] @ bar @ [CHR 0xE2, CHR 0x94, CHR 0x98]])"

text \<open>The cycles and the number of contracts are statistics that nothing else of the model looks at.\<close>

definition print_vm_details :: "paint \<Rightarrow> nat \<Rightarrow> nat \<Rightarrow> vm_result \<Rightarrow> string list" where
  "print_vm_details P cycles_used contracts_used result =
     [''''] @ title_box ''VM EXECUTION RESULTS'' @
     [''Cycles Used:          '' @ dec_string cycles_used,
      ''Computation Gas Used: '' @ dec_string (unat (vm_computational_gas_used result)),
      ''Contracts Used:       '' @ dec_string contracts_used] @
     (case vm_exec result of
        Success _ \<Rightarrow> []
      | Revert output \<Rightarrow> ['''', pt_on_red P (newline @ ''[!] Revert Reason:    '' @ rv_friendly output)]
      | Halt reason \<Rightarrow> ['''', pt_on_red P (newline @ ''[!] Halt Reason:    '' @ reason)]) @
     [concat (replicate 28 [CHR 0xE2, CHR 0x95, CHR 0x90])]"

section \<open>Which calls are printed\<close>

fun preorder :: "nat \<Rightarrow> call \<Rightarrow> (nat \<times> call) list" where
  "preorder padding (Call ty fr to g gu v inp out er rv cs) =
     (padding, Call ty fr to g gu v inp out er rv cs) # concat (map (preorder (padding + 2)) cs)"

definition shown :: "paint \<Rightarrow> show_calls \<Rightarrow> nat \<times> call \<Rightarrow> bool" where
  "shown P sc x = should_print (contract_type_of P (c_to (snd x))) sc"

definition unresolved_line :: "ext \<Rightarrow> paint \<Rightarrow> bool \<Rightarrow> nat \<times> call \<Rightarrow> string" where
  "unresolved_line E P so x = call_line E P so (fst x) (snd x)
     (if 4 \<le> length (c_input (snd x)) then pad_left 16 (hex_bytes (take 4 (c_input (snd x))))
      else ''0x'' @ hex_bytes (c_input (snd x)))"

lemma print_this_call_unresolved:
  "print_this_call E P io w sc so False padding c d =
     (Some (map (unresolved_line E P so) (filter (shown P sc) [(padding, c)])), d)"
  by (simp add: print_this_call_def function_signature_def shown_def unresolved_line_def Let_def)

lemma print_call_unresolved:
  "print_call E P io w sc so False padding c d =
     (Some (map (unresolved_line E P so) (filter (shown P sc) (preorder padding c))), d)"
  "print_subcalls E P io w sc so False padding cs d =
     (Some (map (unresolved_line E P so) (filter (shown P sc) (concat (map (preorder padding) cs)))), d)"
proof (induction E P io w sc so "False" padding c d and E P io w sc so "False" padding cs d
    rule: print_call_print_subcalls.induct)
  case (1 E P io w sc so padding ty fr to g gu v inp out er rv cs d)
  then show ?case by (simp add: print_this_call_unresolved)
qed simp_all

lemma subseq_filter_imp: "(\<And>x. p x \<Longrightarrow> q x) \<Longrightarrow> subseq (filter p xs) (filter q xs)"
  by (induction xs) auto

text \<open>When hashes are resolved, a call whose selector cannot be looked up is a panic; the disk keeps
  what the lookup left on it.\<close>

lemma print_call_panics:
  assumes "shown P sc (padding, c)" and "contract_type_of P (c_to c) \<noteq> ContractPrecompile" and "4 \<le> length (c_input c)"
    and "decode_function_selector E io w (hex_bytes (take 4 (c_input c))) d = (answer, d')" and "\<not> is_Ok answer"
  shows "print_call E P io w sc so True padding c d = (None, d')"
proof -
  have "function_signature E P io w (contract_type_of P (c_to c)) True (c_input c) d = (None, d')"
    using assms(2-5) by (cases answer) (auto simp: function_signature_def Let_def)
  then have "print_this_call E P io w sc so True padding c d = (None, d')"
    using assms(1) by (simp add: print_this_call_def shown_def Let_def)
  then show ?thesis by (cases c) simp
qed

section \<open>Properties\<close>

text \<open>The printed calls. Without resolving hashes, printing a call never fails, touches nothing, and
  writes one line for each call of the tree that the option shows, in the order in which the
  calls were made and indented by its depth. The options are nested: none shows nothing, the
  calls shown for the user are shown for the system, and all shows every call.\<close>

theorem printed_calls_are_the_shown_ones:
  "print_call E P io w sc so False 0 c d =
     (Some (map (unresolved_line E P so) (filter (shown P sc) (preorder 0 c))), d) \<and>
   filter (shown P ShowCallsNone) (preorder 0 c) = [] \<and>
   subseq (filter (shown P ShowCallsUser) (preorder 0 c)) (filter (shown P ShowCallsSystem) (preorder 0 c)) \<and>
   filter (shown P ShowCallsAll) (preorder 0 c) = preorder 0 c"
proof -
  have "shown P ShowCallsSystem x" if "shown P ShowCallsUser x" for x
    using that by (cases "contract_type_of P (c_to (snd x))") (simp_all add: shown_def)
  then have "subseq (filter (shown P ShowCallsUser) xs) (filter (shown P ShowCallsSystem) xs)" for xs
    by (rule subseq_filter_imp)
  then show ?thesis by (simp add: print_call_unresolved(1) shown_def filter_empty_conv)
qed

end
