(* ===== verification/Storage_Logs.thy ===== *)
theory Storage_Logs
  imports Formatter
begin

text \<open>
  The report of the storage logs of a transaction (\<open>src/node/storage_logs.rs\<close>): what each write
  costs in published bytes, given what has been paid for its slot before, and which logs the
  display option shows. The sizes are \<open>u32\<close> values; their sum wraps around.
\<close>

section \<open>Costs\<close>

definition is_storage_key_free :: "ext \<Rightarrow> storage_key \<Rightarrow> bool" where
  "is_storage_key_free E key =
     (key_address key = x_system_context_address E \<or> key = x_eth_balance_key E (x_bootloader_address E))"

definition final_pubdata_cost :: "ext \<Rightarrow> storage_log \<Rightarrow> u32" where
  "final_pubdata_cost E log_query =
     (let compressed_value_size =
            of_nat (length (x_compress_with_best_strategy E (sl_previous_value log_query) (sl_value log_query)))
      in if sl_kind log_query = InitialWrite then x_bytes_per_derived_key E + compressed_value_size
         else x_bytes_per_enumeration_index E + compressed_value_size)"

definition compute_and_update_pubdata_cost ::
  "ext \<Rightarrow> (storage_key \<rightharpoonup> u32) \<Rightarrow> storage_log \<Rightarrow> pubdata_bytes_info \<times> (storage_key \<rightharpoonup> u32)" where
  "compute_and_update_pubdata_cost E cost_paid log_query =
     (let storage_key = sl_key log_query in
      if is_storage_key_free E storage_key then (FreeSlot, cost_paid)
      else let cost = final_pubdata_cost E log_query;
               result = (case cost_paid storage_key of
                   Some already_paid \<Rightarrow>
                     (let to_pay = sat_sub cost already_paid
                      in if 0 < to_pay then AdditionalPayment to_pay cost else PaidAlready)
                 | None \<Rightarrow> Paid cost)
           in (result, cost_paid(storage_key \<mapsto> cost)))"

section \<open>The report\<close>

definition is_shown_log :: "show_storage_logs \<Rightarrow> storage_log \<Rightarrow> pubdata_bytes_info option \<Rightarrow> bool" where
  "is_shown_log show_logs log_query info =
     (case show_logs of
        ShowStorageLogsWrite \<Rightarrow> is_write log_query
      | ShowStorageLogsPaid \<Rightarrow> unwrap_or (map_option does_cost info) False
      | ShowStorageLogsRead \<Rightarrow> sl_kind log_query = LogRead
      | ShowStorageLogsAll \<Rightarrow> True
      | _ \<Rightarrow> False)"

fun log_loop ::
  "ext \<Rightarrow> show_storage_logs \<Rightarrow> (storage_key \<rightharpoonup> u32) \<Rightarrow> storage_log list \<Rightarrow> (storage_log \<times> pubdata_bytes_info option) list" where
  "log_loop E show_logs cost_paid [] = []"
| "log_loop E show_logs cost_paid (log_query # logs) =
     (let (info, cost_paid') =
            (if is_write log_query
             then map_prod Some id (compute_and_update_pubdata_cost E cost_paid log_query)
             else (None, cost_paid))
      in (if is_shown_log show_logs log_query info then [(log_query, info)] else []) @
         log_loop E show_logs cost_paid' logs)"

definition print_storage_logs_details :: "ext \<Rightarrow> paint \<Rightarrow> show_storage_logs \<Rightarrow> vm_result \<Rightarrow> string list" where
  "print_storage_logs_details E P show_logs result =
     [''''] @ title_box ''STORAGE LOGS'' @
     concat (map (\<lambda>(log_query, info). print_logs E P log_query info)
       (log_loop E show_logs Map.empty (vm_storage_logs result)))"

section \<open>What a slot is charged\<close>

text \<open>
  The reference: the first write of a slot is charged in full, a later one what it costs more
  than the write before it.
\<close>

fun owed :: "nat option \<Rightarrow> nat list \<Rightarrow> nat" where
  "owed paid [] = 0"
| "owed None (cost # costs) = cost + owed (Some cost) costs"
| "owed (Some paid) (cost # costs) = (cost - paid) + owed (Some cost) costs"

fun charge :: "storage_log \<times> pubdata_bytes_info option \<Rightarrow> nat" where
  "charge (_, Some (Paid cost)) = unat cost"
| "charge (_, Some (AdditionalPayment additional cost)) = unat additional"
| "charge (_, _) = 0"

definition charged :: "storage_key \<Rightarrow> (storage_log \<times> pubdata_bytes_info option) list \<Rightarrow> nat" where
  "charged key reported = (\<Sum>x \<leftarrow> reported. if sl_key (fst x) = key then charge x else 0)"

definition slot_costs :: "ext \<Rightarrow> storage_key \<Rightarrow> storage_log list \<Rightarrow> nat list" where
  "slot_costs E key logs = map (\<lambda>l. unat (final_pubdata_cost E l)) (filter (\<lambda>l. is_write l \<and> sl_key l = key) logs)"

lemma charged_simps [simp]:
  "charged key [] = 0" "charged key (x # xs) = (if sl_key (fst x) = key then charge x else 0) + charged key xs"
  "charged key (xs @ ys) = charged key xs + charged key ys"
  by (simp_all add: charged_def)

lemma slot_costs_simps [simp]:
  "slot_costs E key [] = []"
  "slot_costs E key (l # logs) =
     (if is_write l \<and> sl_key l = key then unat (final_pubdata_cost E l) # slot_costs E key logs else slot_costs E key logs)"
  by (simp_all add: slot_costs_def)

lemma owed_covers: "cost \<in> set costs \<Longrightarrow> cost \<le> unwrap_or paid 0 + owed paid costs"
proof (induction paid costs rule: owed.induct)
  case (2 c costs)
  then show ?case by fastforce
next
  case (3 p c costs)
  then show ?case by fastforce
qed simp

lemma computed_cost:
  assumes "compute_and_update_pubdata_cost E paid l = (info, paid')"
  shows "paid' = (if is_storage_key_free E (sl_key l) then paid else paid(sl_key l \<mapsto> final_pubdata_cost E l))"
    and "charge (l', Some info) = (if is_storage_key_free E (sl_key l) then 0
       else unat (final_pubdata_cost E l) - (case paid (sl_key l) of None \<Rightarrow> 0 | Some p \<Rightarrow> unat p))"
    and "does_cost info \<or> charge (l', Some info) = 0"
proof -
  have "sat_sub a p = 0 \<Longrightarrow> unat a - unat p = 0" for a p :: u32
    using unat_sat_sub [of a p] by simp
  then show "paid' = (if is_storage_key_free E (sl_key l) then paid else paid(sl_key l \<mapsto> final_pubdata_cost E l))"
    and "charge (l', Some info) = (if is_storage_key_free E (sl_key l) then 0
       else unat (final_pubdata_cost E l) - (case paid (sl_key l) of None \<Rightarrow> 0 | Some p \<Rightarrow> unat p))"
    and "does_cost info \<or> charge (l', Some info) = 0"
    using assms
    by (auto simp: compute_and_update_pubdata_cost_def Let_def unat_sat_sub word_gt_0 split: if_splits option.splits)
qed

lemma log_loop_charges:
  assumes "show_logs = ShowStorageLogsPaid \<or> show_logs = ShowStorageLogsAll"
  shows "charged key (log_loop E show_logs paid logs) =
    (if is_storage_key_free E key then 0 else owed (map_option unat (paid key)) (slot_costs E key logs))"
proof (induction logs arbitrary: paid)
  case (Cons l logs)
  show ?case
  proof (cases "is_write l")
    case False
    then have "charged key (log_loop E show_logs paid (l # logs)) = charged key (log_loop E show_logs paid logs)" by simp
    then show ?thesis using Cons False by simp
  next
    case True
    obtain info paid' where c: "compute_and_update_pubdata_cost E paid l = (info, paid')" by force
    have "is_shown_log show_logs l (Some info) \<or> charge (l, Some info) = 0"
      using computed_cost(3) [OF c, of l] assms by (auto simp: is_shown_log_def)
    then have "charged key (log_loop E show_logs paid (l # logs)) =
        (if sl_key l = key then charge (l, Some info) else 0) + charged key (log_loop E show_logs paid' logs)"
      using True c by auto
    then show ?thesis
      using True computed_cost(1) [OF c] computed_cost(2) [OF c, of l] unfolding Cons
      by (auto split: option.splits)
  qed
qed simp

section \<open>Properties\<close>

text \<open>C38: what the report charges for a slot. The bytes of the lines shown for a slot add up to the
  reference: nothing for a free slot, and otherwise the full cost of its first write and, for
  every later write, what it costs more than the write before. Showing only the paid logs loses
  none of it, and the sum is never less than the cost of any single write.\<close>

theorem slot_charges_match:
  "charged key (log_loop E ShowStorageLogsAll Map.empty logs) =
     (if is_storage_key_free E key then 0 else owed None (slot_costs E key logs)) \<and>
   charged key (log_loop E ShowStorageLogsPaid Map.empty logs) =
     charged key (log_loop E ShowStorageLogsAll Map.empty logs) \<and>
   Max (insert 0 (set (slot_costs E key logs))) \<le> owed None (slot_costs E key logs)"
  using owed_covers [of _ "slot_costs E key logs" None] by (simp add: log_loop_charges)

text \<open>A cost that falls and rises again is charged twice.\<close>

lemma charged_again: "owed None [50, 10, 50] = 90"
  by simp

end
