(* ===== verification/Console_Log.thy ===== *)
theory Console_Log
  imports Formatter
begin

text \<open>
  The interception of \<open>console.log\<close> (\<open>src/console_log.rs\<close>): calls to the fake console contract are
  decoded and printed. What \<open>ethabi\<close> does (reading a type, the selector of a function, decoding
  and printing its arguments) is the record \<open>abi\<close>; the colour of the output is left out. What is
  printed are events of the log, with the level and the target (the path of the module) that
  \<open>tracing::info!\<close> gives them; whether an event reaches the output is up to the filter of the
  subscriber.
\<close>

record log_event =
  le_level :: log_level
  le_target :: string
  le_text :: string

definition CONSOLE_TARGET :: string where
  "CONSOLE_TARGET = ''era_test_node::console_log''"

text \<open>The lines that a filter lets through.\<close>

definition let_through :: "(log_level \<Rightarrow> string \<Rightarrow> bool) \<Rightarrow> log_event list \<Rightarrow> string list" where
  "let_through enabled es = map le_text (filter (\<lambda>e. enabled (le_level e) (le_target e)) es)"

record 'k abi =
  ab_read :: "string \<Rightarrow> 'k option"
  ab_short_signature :: "string \<Rightarrow> 'k list \<Rightarrow> bytes"
  ab_decode_input :: "string \<Rightarrow> 'k list \<Rightarrow> bytes \<Rightarrow> string list option"

record 'k param =
  pa_name :: string
  pa_kind :: 'k
  pa_internal_type :: string

record 'k log_function =
  lf_name :: string
  lf_inputs :: "'k param list"

record 'k console_log_handler =
  ch_signature_map :: "bytes \<rightharpoonup> 'k log_function"
  ch_target_contract :: address

definition CONSOLE_ADDRESS :: address where
  "CONSOLE_ADDRESS = 0x000000000000000000636f6e736f6c652e6c6f67"

section \<open>The log functions\<close>

definition LOG_FUNCTIONS :: "string list" where
  "LOG_FUNCTIONS =
   [''log(int256)'', ''log(uint256)'', ''log(string)'', ''log(bool)'', ''log(address)'', ''log(bytes)'',
    ''log(bytes1)'', ''log(bytes2)'', ''log(bytes3)'', ''log(bytes4)'', ''log(bytes5)'', ''log(bytes6)'',
    ''log(bytes7)'', ''log(bytes8)'', ''log(bytes9)'', ''log(bytes10)'', ''log(bytes11)'', ''log(bytes12)'',
    ''log(bytes13)'', ''log(bytes14)'', ''log(bytes15)'', ''log(bytes16)'', ''log(bytes17)'',
    ''log(bytes18)'', ''log(bytes19)'', ''log(bytes20)'', ''log(bytes21)'', ''log(bytes22)'',
    ''log(bytes23)'', ''log(bytes24)'', ''log(bytes25)'', ''log(bytes26)'', ''log(bytes27)'',
    ''log(bytes28)'', ''log(bytes29)'', ''log(bytes30)'', ''log(bytes31)'', ''log(bytes32)'',
    ''log(uint256)'', ''log(string)'', ''log(bool)'', ''log(address)'', ''log(uint256,uint256)'',
    ''log(uint256,string)'', ''log(uint256,bool)'', ''log(uint256,address)'', ''log(string,uint256)'',
    ''log(string,string)'', ''log(string,bool)'', ''log(string,address)'', ''log(bool,uint256)'',
    ''log(bool,string)'', ''log(bool,bool)'', ''log(bool,address)'', ''log(address,uint256)'',
    ''log(address,string)'', ''log(address,bool)'', ''log(address,address)'',
    ''log(uint256,uint256,uint256)'', ''log(uint256,uint256,string)'', ''log(uint256,uint256,bool)'',
    ''log(uint256,uint256,address)'', ''log(uint256,string,uint256)'', ''log(uint256,string,string)'',
    ''log(uint256,string,bool)'', ''log(uint256,string,address)'', ''log(uint256,bool,uint256)'',
    ''log(uint256,bool,string)'', ''log(uint256,bool,bool)'', ''log(uint256,bool,address)'',
    ''log(uint256,address,uint256)'', ''log(uint256,address,string)'', ''log(uint256,address,bool)'',
    ''log(uint256,address,address)'', ''log(string,uint256,uint256)'', ''log(string,uint256,string)'',
    ''log(string,uint256,bool)'', ''log(string,uint256,address)'', ''log(string,string,uint256)'',
    ''log(string,string,string)'', ''log(string,string,bool)'', ''log(string,string,address)'',
    ''log(string,bool,uint256)'', ''log(string,bool,string)'', ''log(string,bool,bool)'',
    ''log(string,bool,address)'', ''log(string,address,uint256)'', ''log(string,address,string)'',
    ''log(string,address,bool)'', ''log(string,address,address)'', ''log(bool,uint256,uint256)'',
    ''log(bool,uint256,string)'', ''log(bool,uint256,bool)'', ''log(bool,uint256,address)'',
    ''log(bool,string,uint256)'', ''log(bool,string,string)'', ''log(bool,string,bool)'',
    ''log(bool,string,address)'', ''log(bool,bool,uint256)'', ''log(bool,bool,string)'',
    ''log(bool,bool,bool)'', ''log(bool,bool,address)'', ''log(bool,address,uint256)'',
    ''log(bool,address,string)'', ''log(bool,address,bool)'', ''log(bool,address,address)'',
    ''log(address,uint256,uint256)'', ''log(address,uint256,string)'', ''log(address,uint256,bool)'',
    ''log(address,uint256,address)'', ''log(address,string,uint256)'', ''log(address,string,string)'',
    ''log(address,string,bool)'', ''log(address,string,address)'', ''log(address,bool,uint256)'',
    ''log(address,bool,string)'', ''log(address,bool,bool)'', ''log(address,bool,address)'',
    ''log(address,address,uint256)'', ''log(address,address,string)'', ''log(address,address,bool)'',
    ''log(address,address,address)'', ''log(uint256,uint256,uint256,uint256)'',
    ''log(uint256,uint256,uint256,string)'', ''log(uint256,uint256,uint256,bool)'',
    ''log(uint256,uint256,uint256,address)'', ''log(uint256,uint256,string,uint256)'',
    ''log(uint256,uint256,string,string)'', ''log(uint256,uint256,string,bool)'',
    ''log(uint256,uint256,string,address)'', ''log(uint256,uint256,bool,uint256)'',
    ''log(uint256,uint256,bool,string)'', ''log(uint256,uint256,bool,bool)'',
    ''log(uint256,uint256,bool,address)'', ''log(uint256,uint256,address,uint256)'',
    ''log(uint256,uint256,address,string)'', ''log(uint256,uint256,address,bool)'',
    ''log(uint256,uint256,address,address)'', ''log(uint256,string,uint256,uint256)'',
    ''log(uint256,string,uint256,string)'', ''log(uint256,string,uint256,bool)'',
    ''log(uint256,string,uint256,address)'', ''log(uint256,string,string,uint256)'',
    ''log(uint256,string,string,string)'', ''log(uint256,string,string,bool)'',
    ''log(uint256,string,string,address)'', ''log(uint256,string,bool,uint256)'',
    ''log(uint256,string,bool,string)'', ''log(uint256,string,bool,bool)'',
    ''log(uint256,string,bool,address)'', ''log(uint256,string,address,uint256)'',
    ''log(uint256,string,address,string)'', ''log(uint256,string,address,bool)'',
    ''log(uint256,string,address,address)'', ''log(uint256,bool,uint256,uint256)'',
    ''log(uint256,bool,uint256,string)'', ''log(uint256,bool,uint256,bool)'',
    ''log(uint256,bool,uint256,address)'', ''log(uint256,bool,string,uint256)'',
    ''log(uint256,bool,string,string)'', ''log(uint256,bool,string,bool)'',
    ''log(uint256,bool,string,address)'', ''log(uint256,bool,bool,uint256)'',
    ''log(uint256,bool,bool,string)'', ''log(uint256,bool,bool,bool)'', ''log(uint256,bool,bool,address)'',
    ''log(uint256,bool,address,uint256)'', ''log(uint256,bool,address,string)'',
    ''log(uint256,bool,address,bool)'', ''log(uint256,bool,address,address)'',
    ''log(uint256,address,uint256,uint256)'', ''log(uint256,address,uint256,string)'',
    ''log(uint256,address,uint256,bool)'', ''log(uint256,address,uint256,address)'',
    ''log(uint256,address,string,uint256)'', ''log(uint256,address,string,string)'',
    ''log(uint256,address,string,bool)'', ''log(uint256,address,string,address)'',
    ''log(uint256,address,bool,uint256)'', ''log(uint256,address,bool,string)'',
    ''log(uint256,address,bool,bool)'', ''log(uint256,address,bool,address)'',
    ''log(uint256,address,address,uint256)'', ''log(uint256,address,address,string)'',
    ''log(uint256,address,address,bool)'', ''log(uint256,address,address,address)'',
    ''log(string,uint256,uint256,uint256)'', ''log(string,uint256,uint256,string)'',
    ''log(string,uint256,uint256,bool)'', ''log(string,uint256,uint256,address)'',
    ''log(string,uint256,string,uint256)'', ''log(string,uint256,string,string)'',
    ''log(string,uint256,string,bool)'', ''log(string,uint256,string,address)'',
    ''log(string,uint256,bool,uint256)'', ''log(string,uint256,bool,string)'',
    ''log(string,uint256,bool,bool)'', ''log(string,uint256,bool,address)'',
    ''log(string,uint256,address,uint256)'', ''log(string,uint256,address,string)'',
    ''log(string,uint256,address,bool)'', ''log(string,uint256,address,address)'',
    ''log(string,string,uint256,uint256)'', ''log(string,string,uint256,string)'',
    ''log(string,string,uint256,bool)'', ''log(string,string,uint256,address)'',
    ''log(string,string,string,uint256)'', ''log(string,string,string,string)'',
    ''log(string,string,string,bool)'', ''log(string,string,string,address)'',
    ''log(string,string,bool,uint256)'', ''log(string,string,bool,string)'',
    ''log(string,string,bool,bool)'', ''log(string,string,bool,address)'',
    ''log(string,string,address,uint256)'', ''log(string,string,address,string)'',
    ''log(string,string,address,bool)'', ''log(string,string,address,address)'',
    ''log(string,bool,uint256,uint256)'', ''log(string,bool,uint256,string)'',
    ''log(string,bool,uint256,bool)'', ''log(string,bool,uint256,address)'',
    ''log(string,bool,string,uint256)'', ''log(string,bool,string,string)'',
    ''log(string,bool,string,bool)'', ''log(string,bool,string,address)'', ''log(string,bool,bool,uint256)'',
    ''log(string,bool,bool,string)'', ''log(string,bool,bool,bool)'', ''log(string,bool,bool,address)'',
    ''log(string,bool,address,uint256)'', ''log(string,bool,address,string)'',
    ''log(string,bool,address,bool)'', ''log(string,bool,address,address)'',
    ''log(string,address,uint256,uint256)'', ''log(string,address,uint256,string)'',
    ''log(string,address,uint256,bool)'', ''log(string,address,uint256,address)'',
    ''log(string,address,string,uint256)'', ''log(string,address,string,string)'',
    ''log(string,address,string,bool)'', ''log(string,address,string,address)'',
    ''log(string,address,bool,uint256)'', ''log(string,address,bool,string)'',
    ''log(string,address,bool,bool)'', ''log(string,address,bool,address)'',
    ''log(string,address,address,uint256)'', ''log(string,address,address,string)'',
    ''log(string,address,address,bool)'', ''log(string,address,address,address)'',
    ''log(bool,uint256,uint256,uint256)'', ''log(bool,uint256,uint256,string)'',
    ''log(bool,uint256,uint256,bool)'', ''log(bool,uint256,uint256,address)'',
    ''log(bool,uint256,string,uint256)'', ''log(bool,uint256,string,string)'',
    ''log(bool,uint256,string,bool)'', ''log(bool,uint256,string,address)'',
    ''log(bool,uint256,bool,uint256)'', ''log(bool,uint256,bool,string)'', ''log(bool,uint256,bool,bool)'',
    ''log(bool,uint256,bool,address)'', ''log(bool,uint256,address,uint256)'',
    ''log(bool,uint256,address,string)'', ''log(bool,uint256,address,bool)'',
    ''log(bool,uint256,address,address)'', ''log(bool,string,uint256,uint256)'',
    ''log(bool,string,uint256,string)'', ''log(bool,string,uint256,bool)'',
    ''log(bool,string,uint256,address)'', ''log(bool,string,string,uint256)'',
    ''log(bool,string,string,string)'', ''log(bool,string,string,bool)'',
    ''log(bool,string,string,address)'', ''log(bool,string,bool,uint256)'', ''log(bool,string,bool,string)'',
    ''log(bool,string,bool,bool)'', ''log(bool,string,bool,address)'', ''log(bool,string,address,uint256)'',
    ''log(bool,string,address,string)'', ''log(bool,string,address,bool)'',
    ''log(bool,string,address,address)'', ''log(bool,bool,uint256,uint256)'',
    ''log(bool,bool,uint256,string)'', ''log(bool,bool,uint256,bool)'', ''log(bool,bool,uint256,address)'',
    ''log(bool,bool,string,uint256)'', ''log(bool,bool,string,string)'', ''log(bool,bool,string,bool)'',
    ''log(bool,bool,string,address)'', ''log(bool,bool,bool,uint256)'', ''log(bool,bool,bool,string)'',
    ''log(bool,bool,bool,bool)'', ''log(bool,bool,bool,address)'', ''log(bool,bool,address,uint256)'',
    ''log(bool,bool,address,string)'', ''log(bool,bool,address,bool)'', ''log(bool,bool,address,address)'',
    ''log(bool,address,uint256,uint256)'', ''log(bool,address,uint256,string)'',
    ''log(bool,address,uint256,bool)'', ''log(bool,address,uint256,address)'',
    ''log(bool,address,string,uint256)'', ''log(bool,address,string,string)'',
    ''log(bool,address,string,bool)'', ''log(bool,address,string,address)'',
    ''log(bool,address,bool,uint256)'', ''log(bool,address,bool,string)'', ''log(bool,address,bool,bool)'',
    ''log(bool,address,bool,address)'', ''log(bool,address,address,uint256)'',
    ''log(bool,address,address,string)'', ''log(bool,address,address,bool)'',
    ''log(bool,address,address,address)'', ''log(address,uint256,uint256,uint256)'',
    ''log(address,uint256,uint256,string)'', ''log(address,uint256,uint256,bool)'',
    ''log(address,uint256,uint256,address)'', ''log(address,uint256,string,uint256)'',
    ''log(address,uint256,string,string)'', ''log(address,uint256,string,bool)'',
    ''log(address,uint256,string,address)'', ''log(address,uint256,bool,uint256)'',
    ''log(address,uint256,bool,string)'', ''log(address,uint256,bool,bool)'',
    ''log(address,uint256,bool,address)'', ''log(address,uint256,address,uint256)'',
    ''log(address,uint256,address,string)'', ''log(address,uint256,address,bool)'',
    ''log(address,uint256,address,address)'', ''log(address,string,uint256,uint256)'',
    ''log(address,string,uint256,string)'', ''log(address,string,uint256,bool)'',
    ''log(address,string,uint256,address)'', ''log(address,string,string,uint256)'',
    ''log(address,string,string,string)'', ''log(address,string,string,bool)'',
    ''log(address,string,string,address)'', ''log(address,string,bool,uint256)'',
    ''log(address,string,bool,string)'', ''log(address,string,bool,bool)'',
    ''log(address,string,bool,address)'', ''log(address,string,address,uint256)'',
    ''log(address,string,address,string)'', ''log(address,string,address,bool)'',
    ''log(address,string,address,address)'', ''log(address,bool,uint256,uint256)'',
    ''log(address,bool,uint256,string)'', ''log(address,bool,uint256,bool)'',
    ''log(address,bool,uint256,address)'', ''log(address,bool,string,uint256)'',
    ''log(address,bool,string,string)'', ''log(address,bool,string,bool)'',
    ''log(address,bool,string,address)'', ''log(address,bool,bool,uint256)'',
    ''log(address,bool,bool,string)'', ''log(address,bool,bool,bool)'', ''log(address,bool,bool,address)'',
    ''log(address,bool,address,uint256)'', ''log(address,bool,address,string)'',
    ''log(address,bool,address,bool)'', ''log(address,bool,address,address)'',
    ''log(address,address,uint256,uint256)'', ''log(address,address,uint256,string)'',
    ''log(address,address,uint256,bool)'', ''log(address,address,uint256,address)'',
    ''log(address,address,string,uint256)'', ''log(address,address,string,string)'',
    ''log(address,address,string,bool)'', ''log(address,address,string,address)'',
    ''log(address,address,bool,uint256)'', ''log(address,address,bool,string)'',
    ''log(address,address,bool,bool)'', ''log(address,address,bool,address)'',
    ''log(address,address,address,uint256)'', ''log(address,address,address,string)'',
    ''log(address,address,address,bool)'', ''log(address,address,address,address)'']"

definition trim_end_matches :: "char \<Rightarrow> string \<Rightarrow> string" where
  "trim_end_matches c s = rev (dropWhile (\<lambda>x. x = c) (rev s))"

fun split_once :: "char \<Rightarrow> string \<Rightarrow> (string \<times> string) option" where
  "split_once c [] = None"
| "split_once c (x # xs) =
     (if x = c then Some ([], xs) else map_option (\<lambda>(a, b). (x # a, b)) (split_once c xs))"

text \<open>\<open>None\<close> is the panic on a declaration that cannot be read.\<close>

definition log_function_of :: "'k abi \<Rightarrow> string \<Rightarrow> 'k log_function option" where
  "log_function_of A func_decl =
     Option.bind (split_once (CHR ''('') (trim_end_matches (CHR '')'') func_decl)) (\<lambda>(name, params).
       map_option (\<lambda>inputs. \<lparr>lf_name = name, lf_inputs = inputs\<rparr>)
         (those (map (\<lambda>(index, param). map_option (\<lambda>kind.
             \<lparr>pa_name = CHR ''p'' # dec_string index, pa_kind = kind, pa_internal_type = param\<rparr>) (ab_read A param))
           (enumerate 0 (split_on (CHR '','') params)))))"

definition get_log_functions :: "'k abi \<Rightarrow> 'k log_function list option" where
  "get_log_functions A = those (map (log_function_of A) LOG_FUNCTIONS)"

definition short_signature :: "'k abi \<Rightarrow> 'k log_function \<Rightarrow> bytes" where
  "short_signature A f = ab_short_signature A (lf_name f) (map pa_kind (lf_inputs f))"

definition console_handler_default :: "'k abi \<Rightarrow> 'k console_log_handler option" where
  "console_handler_default A =
     map_option (\<lambda>fs. \<lparr>ch_signature_map = foldl (\<lambda>m f. m(short_signature A f \<mapsto> f)) Map.empty fs,
         ch_target_contract = CONSOLE_ADDRESS\<rparr>) (get_log_functions A)"

section \<open>Handling a call\<close>

text \<open>The events that are logged: none or one.\<close>

definition info_event :: "string \<Rightarrow> log_event" where
  "info_event message = \<lparr>le_level = LevelInfo, le_target = CONSOLE_TARGET, le_text = message\<rparr>"

definition handle_call :: "'k abi \<Rightarrow> 'k console_log_handler \<Rightarrow> call \<Rightarrow> log_event list" where
  "handle_call A h current_call =
     (if c_to current_call \<noteq> ch_target_contract h then []
      else if length (c_input current_call) < 4 then []
      else [info_event (case ch_signature_map h (take 4 (c_input current_call)) of
              None \<Rightarrow> ''Unknown log call.''
            | Some func \<Rightarrow>
                (case ab_decode_input A (lf_name func) (map pa_kind (lf_inputs func)) (drop 4 (c_input current_call)) of
                   None \<Rightarrow> ''Failed to parse inputs for log.''
                 | Some tokens \<Rightarrow> join '' '' tokens))])"

fun handle_call_recursive :: "'k abi \<Rightarrow> 'k console_log_handler \<Rightarrow> call \<Rightarrow> log_event list" where
  "handle_call_recursive A h (Call ty fr to g gu v inp out er rv cs) =
     handle_call A h (Call ty fr to g gu v inp out er rv cs) @ concat (map (handle_call_recursive A h) cs)"

section \<open>Lemmas\<close>

lemma handle_call_preorder:
  "handle_call_recursive A h c = concat (map (\<lambda>x. handle_call A h (snd x)) (preorder padding c))"
proof (induction A h c arbitrary: padding rule: handle_call_recursive.induct)
  case (1 A h ty fr to g gu v inp out er rv cs)
  have "concat (map (handle_call_recursive A h) cs) =
      concat (map (\<lambda>x. handle_call A h (snd x)) (concat (map (preorder (padding + 2)) cs)))"
    using 1 by (induction cs) auto
  then show ?case by simp
qed

lemma signature_map_lookup:
  "f \<in> set fs \<Longrightarrow> \<forall>g \<in> set fs. s g = s f \<longrightarrow> g = f \<Longrightarrow> foldl (\<lambda>m g. m(s g \<mapsto> g)) m fs (s f) = Some f"
proof (induction fs rule: rev_induct)
  case (snoc g fs)
  then show ?case by (cases "s g = s f") auto
qed simp

lemma those_map_all_Some: "\<forall>x \<in> set xs. f x \<noteq> None \<Longrightarrow> those (map f xs) = Some (map (the \<circ> f) xs)"
  by (induction xs) auto

lemma trim_after_paren: "trim_end_matches (CHR '')'') (''log('' @ r) = ''log('' @ trim_end_matches (CHR '')'') r"
  by (simp add: trim_end_matches_def dropWhile_append)

lemma set_enumerate_snd: "x \<in> set (enumerate n xs) \<Longrightarrow> snd x \<in> set xs"
  by (metis image_eqI list.set_map map_snd_enumerate)

section \<open>The declarations\<close>

definition types_of :: "string \<Rightarrow> string list" where
  "types_of func_decl = split_on (CHR '','') (trim_end_matches (CHR '')'') (drop 4 func_decl))"

definition param_of :: "'k abi \<Rightarrow> nat \<times> string \<Rightarrow> 'k param option" where
  "param_of A x = map_option (\<lambda>kind.
     \<lparr>pa_name = CHR ''p'' # dec_string (fst x), pa_kind = kind, pa_internal_type = snd x\<rparr>) (ab_read A (snd x))"

lemma declarations_are_logs: "list_all (\<lambda>d. take 4 d = ''log('') LOG_FUNCTIONS"
  by (simp add: LOG_FUNCTIONS_def)

lemma declarations_length: "length LOG_FUNCTIONS = 378"
  by (simp add: LOG_FUNCTIONS_def)

lemma log_function_of_declaration:
  assumes "func_decl \<in> set LOG_FUNCTIONS"
  shows "log_function_of A func_decl =
    map_option (\<lambda>inputs. \<lparr>lf_name = ''log'', lf_inputs = inputs\<rparr>) (those (map (param_of A) (enumerate 0 (types_of func_decl))))"
proof -
  have "take 4 func_decl = ''log(''" using declarations_are_logs assms by (simp add: list_all_iff)
  then have "func_decl = ''log('' @ drop 4 func_decl" by (metis append_take_drop_id)
  then have "trim_end_matches (CHR '')'') func_decl = ''log('' @ trim_end_matches (CHR '')'') (drop 4 func_decl)"
    using trim_after_paren by metis
  then show ?thesis
    by (simp add: log_function_of_def types_of_def param_of_def [abs_def] case_prod_unfold)
qed

lemma log_functions_read:
  assumes "\<forall>func_decl \<in> set LOG_FUNCTIONS. \<forall>t \<in> set (types_of func_decl). ab_read A t \<noteq> None"
  shows "get_log_functions A = Some (map (\<lambda>func_decl. \<lparr>lf_name = ''log'',
    lf_inputs = map (the \<circ> param_of A) (enumerate 0 (types_of func_decl))\<rparr>) LOG_FUNCTIONS)"
proof -
  have "log_function_of A d = Some \<lparr>lf_name = ''log'', lf_inputs = map (the \<circ> param_of A) (enumerate 0 (types_of d))\<rparr>"
    if d: "d \<in> set LOG_FUNCTIONS" for d
  proof -
    have "\<forall>x \<in> set (enumerate 0 (types_of d)). param_of A x \<noteq> None"
      using assms d by (auto simp: param_of_def dest!: set_enumerate_snd)
    then show ?thesis by (simp add: log_function_of_declaration [OF d] those_map_all_Some)
  qed
  then show ?thesis by (auto simp: get_log_functions_def those_map_all_Some)
qed

section \<open>Properties\<close>

text \<open>C40: console logs. When the type reader knows the types of the declarations, the handler can be
  built. It has 378 functions, and a call to the console contract with the selector of one of
  them (one that no other declaration shares) logs one event, at the level INFO and for the module
  itself, whose text is exactly its decoded arguments, or that they cannot be decoded; so whether
  it is shown depends on what the filter says about that level and module, and not on the level
  TRACE of the target \<open>console\<close> that the comment on the handler names. A call to any other
  contract logs nothing, and the calls of a tree are handled in the order in which they were made.\<close>

theorem console_log_prints_arguments:
  assumes "\<forall>func_decl \<in> set LOG_FUNCTIONS. \<forall>t \<in> set (types_of func_decl). ab_read A t \<noteq> None"
  shows "\<exists>fs h. get_log_functions A = Some fs \<and> length fs = 378 \<and> console_handler_default A = Some h \<and>
    (\<forall>f args c. f \<in> set fs \<longrightarrow> length (short_signature A f) = 4 \<longrightarrow>
       (\<forall>g \<in> set fs. short_signature A g = short_signature A f \<longrightarrow> g = f) \<longrightarrow>
       c_to c = CONSOLE_ADDRESS \<longrightarrow> c_input c = short_signature A f @ args \<longrightarrow>
       (let text = (case ab_decode_input A (lf_name f) (map pa_kind (lf_inputs f)) args of
              None \<Rightarrow> ''Failed to parse inputs for log.'' | Some tokens \<Rightarrow> join '' '' tokens)
        in handle_call A h c = [\<lparr>le_level = LevelInfo, le_target = CONSOLE_TARGET, le_text = text\<rparr>] \<and>
           (\<forall>enabled. let_through enabled (handle_call A h c) = (if enabled LevelInfo CONSOLE_TARGET then [text] else [])))) \<and>
    (\<forall>c. c_to c \<noteq> CONSOLE_ADDRESS \<longrightarrow> handle_call A h c = []) \<and>
    (\<forall>c. handle_call_recursive A h c = concat (map (\<lambda>x. handle_call A h (snd x)) (preorder 0 c)))"
proof -
  obtain fs where fs: "get_log_functions A = Some fs" "length fs = 378"
    using log_functions_read [OF assms] by (simp add: declarations_length)
  define h where "h = \<lparr>ch_signature_map = foldl (\<lambda>m f. m(short_signature A f \<mapsto> f)) Map.empty fs,
    ch_target_contract = CONSOLE_ADDRESS\<rparr>"
  have "let text = (case ab_decode_input A (lf_name f) (map pa_kind (lf_inputs f)) args of
              None \<Rightarrow> ''Failed to parse inputs for log.'' | Some tokens \<Rightarrow> join '' '' tokens)
        in handle_call A h c = [\<lparr>le_level = LevelInfo, le_target = CONSOLE_TARGET, le_text = text\<rparr>] \<and>
           (\<forall>enabled. let_through enabled (handle_call A h c) = (if enabled LevelInfo CONSOLE_TARGET then [text] else []))"
    if "f \<in> set fs" "length (short_signature A f) = 4" "\<forall>g \<in> set fs. short_signature A g = short_signature A f \<longrightarrow> g = f"
      "c_to c = CONSOLE_ADDRESS" "c_input c = short_signature A f @ args" for f args c
    using signature_map_lookup [OF that(1,3)] that
    by (simp add: handle_call_def h_def info_event_def let_through_def Let_def)
  moreover have "handle_call A h c = []" if "c_to c \<noteq> CONSOLE_ADDRESS" for c
    using that by (simp add: handle_call_def h_def)
  moreover have "console_handler_default A = Some h" by (simp add: console_handler_default_def fs h_def)
  ultimately show ?thesis using fs handle_call_preorder [of A h _ 0] by blast
qed

definition text_abi :: "string abi" where
  "text_abi = \<lparr>ab_read = Some, ab_short_signature = \<lambda>_ ts. if ts = [''string''] then [65, 48, 75, 224] else [0, 0, 0, 0],
     ab_decode_input = \<lambda>_ _ args. Some [''hi'']\<rparr>"

lemma console_log_prints_arguments_witness:
  "\<exists>h. console_handler_default text_abi = Some h \<and>
     handle_call text_abi h (Call CallCall 1 CONSOLE_ADDRESS 0 0 0 [65, 48, 75, 224, 104, 105] [] None None []) =
       [\<lparr>le_level = LevelInfo, le_target = CONSOLE_TARGET, le_text = ''hi''\<rparr>] \<and>
     let_through (\<lambda>level target. level = LevelInfo \<and> target \<noteq> ''console'')
       (handle_call text_abi h (Call CallCall 1 CONSOLE_ADDRESS 0 0 0 [65, 48, 75, 224, 104, 105] [] None None [])) = [''hi'']"
proof -
  have r: "\<forall>func_decl \<in> set LOG_FUNCTIONS. \<forall>t \<in> set (types_of func_decl). ab_read text_abi t \<noteq> None"
    by (simp add: text_abi_def)
  let ?f = "\<lambda>d. \<lparr>lf_name = ''log'', lf_inputs = map (the \<circ> param_of text_abi) (enumerate 0 (types_of d))\<rparr>"
  have kinds: "map pa_kind (lf_inputs (?f d)) = types_of d" for d
    by (simp add: param_of_def text_abi_def comp_def)
  then have sig: "short_signature text_abi (?f d) = (if types_of d = [''string''] then [65, 48, 75, 224] else [0, 0, 0, 0])" for d
    by (simp add: short_signature_def text_abi_def)
  have d: "''log(string)'' \<in> set LOG_FUNCTIONS" "types_of ''log(string)'' = [''string'']"
    by (simp_all add: LOG_FUNCTIONS_def types_of_def trim_end_matches_def)
  have same: "?f d = ?f ''log(string)''" if "short_signature text_abi (?f d) = short_signature text_abi (?f ''log(string)'')" for d
    using that d(2) unfolding sig by (auto split: if_splits)
  let ?c = "Call CallCall 1 CONSOLE_ADDRESS 0 0 0 [65, 48, 75, 224, 104, 105] [] None None []"
  obtain h where h: "console_handler_default text_abi = Some h"
      "\<And>f args. f \<in> ?f ` set LOG_FUNCTIONS \<Longrightarrow> length (short_signature text_abi f) = 4 \<Longrightarrow>
        \<forall>g \<in> ?f ` set LOG_FUNCTIONS. short_signature text_abi g = short_signature text_abi f \<longrightarrow> g = f \<Longrightarrow>
        c_input ?c = short_signature text_abi f @ args \<Longrightarrow>
        handle_call text_abi h ?c = [\<lparr>le_level = LevelInfo, le_target = CONSOLE_TARGET,
          le_text = (case ab_decode_input text_abi (lf_name f) (map pa_kind (lf_inputs f)) args of
           None \<Rightarrow> ''Failed to parse inputs for log.'' | Some tokens \<Rightarrow> join '' '' tokens)\<rparr>]"
    using console_log_prints_arguments [OF r] log_functions_read [OF r] by (auto simp: image_def Let_def)
  have m: "?f ''log(string)'' \<in> ?f ` set LOG_FUNCTIONS" using d(1) by (rule imageI)
  have s4: "short_signature text_abi (?f ''log(string)'') = [65, 48, 75, 224]" unfolding sig using d(2) by simp
  have u: "\<forall>g \<in> ?f ` set LOG_FUNCTIONS. short_signature text_abi g = short_signature text_abi (?f ''log(string)'') \<longrightarrow> g = ?f ''log(string)''"
    using same by (simp only: ball_simps(9)) blast
  have i: "c_input ?c = short_signature text_abi (?f ''log(string)'') @ [104, 105]" unfolding s4 by simp
  have "ab_decode_input text_abi n ks bs = Some [''hi'']" for n ks bs by (simp add: text_abi_def)
  then have "handle_call text_abi h ?c = [\<lparr>le_level = LevelInfo, le_target = CONSOLE_TARGET, le_text = ''hi''\<rparr>]"
    using h(2) [OF m _ u i] unfolding s4 by simp
  then show ?thesis using h(1) by (auto simp: let_through_def CONSOLE_TARGET_def)
qed

end
