(* ===== verification/Run_Report.thy ===== *)
theory Run_Report
  imports Node_Tx Storage_Logs Console_Log
begin

text \<open>
  What a transaction and a call print (\<open>run_l2_tx_raw\<close>, \<open>run_l2_tx\<close>, \<open>run_l2_call\<close> and
  \<open>display_detailed_gas_info\<close> of \<open>src/node/in_memory.rs\<close>), and the operations that print as
  they run: their results, the lines, and the disk that resolving hashes leaves behind. The
  operations of \<open>Node_Tx\<close> are the same operations without the printing; the lemmas say when the
  two agree. An operation that panics leaves the disk as it is at the panic; its lines are left out.
\<close>

section \<open>The printer\<close>

text \<open>
  The texts and colours, the resolver's surroundings, the console handler of the node with its
  decoder, and the cycles and contracts among the statistics of a result.
\<close>

record 'k printer =
  pr_paint :: paint
  pr_red :: "string \<Rightarrow> string"
  pr_yellow :: "string \<Rightarrow> string"
  pr_io :: io
  pr_web :: web
  pr_abi :: "'k abi"
  pr_console :: "'k console_log_handler"
  pr_cycles :: "vm_result \<Rightarrow> nat"
  pr_contracts :: "vm_result \<Rightarrow> nat"

definition narrow_box :: "string \<Rightarrow> string list" where
  "narrow_box title =
     (let bar = concat (replicate 25 [CHR 0xE2, CHR 0x94, CHR 0x80]) in
      [[CHR 0xE2, CHR 0x94, CHR 0x8C] @ bar @ [CHR 0xE2, CHR 0x94, CHR 0x90],
       [CHR 0xE2, CHR 0x94, CHR 0x82] @ title @ [CHR 0xE2, CHR 0x94, CHR 0x82],
       [CHR 0xE2, CHR 0x94, CHR 0x94] @ bar @ [CHR 0xE2, CHR 0x94, CHR 0x98]])"

section \<open>The gas report\<close>

definition gas_warnings :: "'k printer \<Rightarrow> bootloader_debug \<Rightarrow> gas_details \<Rightarrow> string list" where
  "gas_warnings R b d =
     (if bg_total_gas_limit_from_user b \<noteq> gd_total_gas_limit d
      then [pr_yellow R (''  WARNING: user actually provided more gas '' @ to_human_size (bg_total_gas_limit_from_user b) @
              '', but system had a lower max limit.'')]
      else []) @
     (if bg_refund_computed b \<noteq> bg_refund_by_operator b
      then [pr_yellow R (''  WARNING: Refund by VM: '' @ to_human_size (bg_refund_computed b) @
              '', but operator refunded more: '' @ to_human_size (bg_refund_by_operator b))]
      else []) @
     (let total = bg_refund_computed b + gd_gas_used d in
      if total \<noteq> gd_total_gas_limit d
      then [pr_yellow R (''  WARNING: Gas totals don't match. '' @ to_human_size total @ '' != '' @
              to_human_size (gd_total_gas_limit d) @ '' , delta: '' @
              to_human_size (if gd_total_gas_limit d \<le> total then total - gd_total_gas_limit d
                             else gd_total_gas_limit d - total))]
      else [])"

definition share_line :: "u256 \<Rightarrow> u256 \<Rightarrow> string \<Rightarrow> string" where
  "share_line gas share what =
     ''  '' @ pad_left 15 (to_human_size gas) @ '' gas ('' @ pad_left 2 (to_human_size share) @ ''%) '' @ what"

definition gas_lines :: "'k printer \<Rightarrow> u64 \<Rightarrow> bootloader_debug \<Rightarrow> gas_details \<Rightarrow> string list" where
  "gas_lines R spent_on_pubdata b d =
     narrow_box ''       GAS DETAILS       '' @
     [''Gas - Limit: '' @ to_human_size (gd_total_gas_limit d) @ '' | Used: '' @ to_human_size (gd_gas_used d) @
        '' | Refunded: '' @ to_human_size (bg_refund_by_operator b)] @
     gas_warnings R b d @
     [''During execution published '' @ to_human_size (ucast (gd_bytes_published d)) @ '' bytes to L1, @'' @
        to_human_size (bg_gas_per_pubdata b) @ '' each - in total '' @ to_human_size (ucast spent_on_pubdata) @ '' gas'',
      ''Out of '' @ to_human_size (gd_gas_used d) @ '' gas used, we spent:'',
      share_line (gd_intrinsic_gas d) (gd_percentages d ! 0) ''for transaction setup'',
      share_line (bg_gas_spent_on_bytecode_preparation b) (gd_percentages d ! 1)
        ''for bytecode preparation (decompression etc)'',
      share_line (gd_gas_for_validation d) (gd_percentages d ! 2) ''for account validation'',
      share_line (gd_gas_spent_on_compute d) (gd_percentages d ! 3) ''for computations (opcodes)'',
      '''', '''',
      pt_bold (pr_paint R) 0 ''=== Transaction setup cost breakdown ==='',
      ''Total cost: '' @ pt_bold (pr_paint R) 0 (to_human_size (gd_intrinsic_gas d)),
      share_line (bg_intrinsic_overhead b) (gd_percentages d ! 4) ''fixed cost'',
      share_line (bg_operator_overhead b) (gd_percentages d ! 5) ''operator cost'',
      '''',
      ''  FYI: operator could have charged up to: '' @ to_human_size (bg_required_overhead b) @ '', so you got '' @
        to_human_size (gd_discount d) @ ''% discount'',
      ''Publishing full block costs the operator around '' @ to_human_size (gd_block_cost d) @ '' l2 gas'',
      ''Your transaction has contributed to filling up the block in the following way (we take the max contribution as the cost):'',
      ''  Length overhead:  '' @ pad_left 15 (to_human_size (bg_overhead_for_length b)),
      ''  Slot overhead:    '' @ pad_left 15 (to_human_size (bg_overhead_for_slot b)),
      ''Also, with every spent gas unit you potentially can pay some additional amount of gas for filling up the block by execution limits'',
      ''This overhead is included in the gas price, although now it's set to zero'',
      ''And with every pubdata byte, you potentially can pay an additional amount of gas for filling up the block by pubdata limit'',
      ''This overhead is included in the `gas_per_pubdata` price'']"

definition gas_section :: "'k printer \<Rightarrow> inner \<Rightarrow> inspect_out \<Rightarrow> string list option" where
  "gas_section R n out =
     (case nc_show_gas_details (n_config n) of
        ShowGasDetailsNone \<Rightarrow>
          Some [''Use --show-gas-details flag or call config_setShowGasDetails to display more info'']
      | ShowGasDetailsAll \<Rightarrow>
          (let spent_on_pubdata = vm_gas_used (io_result out) - ucast (vm_computational_gas_used (io_result out));
               loaded = load_from_memory (io_debug_slots out)
           in case display_detailed_gas_info (Some loaded) spent_on_pubdata (get_fee_model_config (n_fee_input_provider n)) of
                Ok d \<Rightarrow> Some (case loaded of Ok b \<Rightarrow> gas_lines R spent_on_pubdata b d | _ \<Rightarrow> [])
              | Err e \<Rightarrow> Some [pr_red R ''!!! FAILED TO GET DETAILED GAS INFO !!!'' @ newline @ ''Error: '' @ e]
              | Panic \<Rightarrow> None))"

section \<open>The report of a transaction\<close>

definition outcome :: "'k printer \<Rightarrow> exec_result \<Rightarrow> string" where
  "outcome R r =
     (case r of
        Success _ \<Rightarrow> pt_green (pr_paint R) ''SUCCESS''
      | Revert _ \<Rightarrow> pr_red R ''FAILED''
      | Halt _ \<Rightarrow> pr_red R ''HALTED'')"

definition summary_lines :: "ext \<Rightarrow> 'k printer \<Rightarrow> l2_tx \<Rightarrow> vm_result \<Rightarrow> string list option" where
  "summary_lines E R tx r =
     map_option (\<lambda>used.
       narrow_box ''   TRANSACTION SUMMARY   '' @
       [''Transaction: '' @ outcome R (vm_exec r),
        ''Initiator: '' @ x_fmt_address E (initiator tx),
        ''Payer: '' @ x_fmt_address E (x_tx_payer E tx),
        ''Gas - Limit: '' @ to_human_size (gas_limit (tx_fee tx)) @ '' | Used: '' @ to_human_size used @
          '' | Refunded: '' @ to_human_size (ucast (vm_gas_refunded r))])
     (checked_sub (gas_limit (tx_fee tx)) (ucast (vm_gas_refunded r)))"

definition console_lines :: "'k printer \<Rightarrow> call list \<Rightarrow> string list" where
  "console_lines R traces = map le_text (concat (map (handle_call_recursive (pr_abi R) (pr_console R)) traces))"

definition print_calls ::
  "ext \<Rightarrow> 'k printer \<Rightarrow> node_config \<Rightarrow> call list \<Rightarrow> disk \<Rightarrow> string list printing" where
  "print_calls E R c traces =
     print_subcalls E (pr_paint R) (pr_io R) (pr_web R) (nc_show_calls c) (nc_show_outputs c) (nc_resolve_hashes c) 0 traces"

fun print_events :: "ext \<Rightarrow> 'k printer \<Rightarrow> bool \<Rightarrow> vm_event list \<Rightarrow> disk \<Rightarrow> string list printing" where
  "print_events E R resolve_hashes [] d = (Some [], d)"
| "print_events E R resolve_hashes (event # events) d =
     pbind (print_event E (pr_paint R) (pr_io R) (pr_web R) event resolve_hashes d) (\<lambda>lines d1.
     pbind (print_events E R resolve_hashes events d1) (\<lambda>more d2. (Some (lines @ more), d2)))"

definition tx_report ::
  "ext \<Rightarrow> 'k printer \<Rightarrow> inner \<Rightarrow> l2_tx \<Rightarrow> inspect_out \<Rightarrow> disk \<Rightarrow> string list printing" where
  "tx_report E R n tx out d =
     (let c = n_config n; r = io_result out; traces = io_traces out in
      pbind (summary_lines E R tx r, d) (\<lambda>summary d.
      pbind (gas_section R n out, d) (\<lambda>gas d.
      pbind (if nc_show_calls c \<noteq> ShowCallsNone then print_calls E R c traces d else (Some [], d)) (\<lambda>calls d1.
      pbind (print_events E R (nc_resolve_hashes c) (vm_events r) d1) (\<lambda>events d2.
        (Some (summary @ gas @
          (if nc_show_storage_logs c \<noteq> ShowStorageLogsNone
           then print_storage_logs_details E (pr_paint R) (nc_show_storage_logs c) r else []) @
          (if nc_show_vm_details c \<noteq> ShowVMDetailsNone
           then print_vm_details (pr_paint R) (pr_cycles R r) (pr_contracts R r) r else []) @
          ['''', ''==== Console logs: ''] @ console_lines R traces @
          ['''', ''==== '' @ pt_bold (pr_paint R) 0
              (dec_string (if traces = [] then 0 else length (c_calls (traces ! 0))) @ '' call traces. '') @
             '' Use --show-calls flag or call config_setShowCalls to display more info.''] @
          calls @
          ['''', ''==== '' @ pt_bold (pr_paint R) 0 (dec_string (length (vm_events r)) @ '' events'')] @
          events), d2))))))"

section \<open>The operations with their printing\<close>

text \<open>A printed operation: what the operation gives, the lines, and the disk afterwards.\<close>

definition printed_raw ::
  "ext \<Rightarrow> 'k printer \<Rightarrow> l2_tx \<Rightarrow> exec_mode \<Rightarrow> bool \<Rightarrow> inner \<Rightarrow> disk \<Rightarrow>
   ((string, l2_tx_result) res \<times> fork_storage) \<times> string list \<times> disk" where
  "printed_raw E R tx mode execute_bootloader n d =
     (let fo = n_fork_storage n in
      case create_l1_batch_env E n fo_ops (storage_view_new fo) of
        None \<Rightarrow> ((Panic, fo), [], d)
      | Some ((env, ctx), sv1) \<Rightarrow>
     (let impersonating = initiator tx \<in> n_impersonated_accounts n;
          intro = (if impersonating
            then [[CHR 0xF0, CHR 0x9F, CHR 0x95, CHR 0xB5, CHR 0xEF, CHR 0xB8, CHR 0x8F] @
                  '' Executing tx from impersonated account '' @ x_fmt_address E (initiator tx)] else [])
      in case contracts (n_system_contracts n) mode impersonating of
        None \<Rightarrow> ((Panic, fo), [], d)
      | Some base \<Rightarrow>
     (case run fo_ops (x_vm_inspect_with_compression E env (create_system_env E n base mode) tx) sv1 of
        None \<Rightarrow> ((Panic, fo), [], d)
      | Some (out, sv2) \<Rightarrow>
     (case io_compressed out of
        Panic \<Rightarrow> ((Panic, fo), [], d)
      | Err e \<Rightarrow> ((Err (''failed compressing bytecodes: '' @ e), sv_storage_handle sv2), intro, d)
      | Ok compressed_bytecodes \<Rightarrow>
     (case tx_report E R n tx out d of
        (None, d') \<Rightarrow> ((Panic, fo), [], d')
      | (Some lines, d') \<Rightarrow>
     (case convert_bytecodes E compressed_bytecodes [] of
        Panic \<Rightarrow> ((Panic, fo), [], d')
      | Err e \<Rightarrow> ((Err e, sv_storage_handle sv2),
          intro @ lines @ [pt_on_red (pr_paint R) (''cannot convert bytecode: '' @ e)], d')
      | Ok bytecodes \<Rightarrow>
     (case (if execute_bootloader then run fo_ops (io_bootloader out) sv2 else Some ((), sv2)) of
        None \<Rightarrow> ((Panic, fo), [], d')
      | Some (_, sv3) \<Rightarrow>
          ((Ok \<lparr>lt_keys = sv_modified sv3, lt_result = io_result out, lt_traces = io_traces out,
               lt_block = tx_block E n tx env ctx (io_result out), lt_bytecodes = bytecodes,
               lt_ctx = ctx\<rparr>, sv_storage_handle sv3), intro @ lines, d'))))))))"

definition unexecutable_lines :: "ext \<Rightarrow> l2_tx \<Rightarrow> node \<Rightarrow> string list" where
  "unexecutable_lines E tx nd =
     (let line = (\<lambda>why. [''Submitted Tx is Unexecutable '' @ x_fmt_h256 E (x_tx_hash E tx) @ '' because of '' @ why @ '' '' @
                    dec_string (unat (max_fee_per_gas (tx_fee tx)))])
      in case validate_tx tx nd of
           Err e \<Rightarrow>
             if e = ''block base fee higher than max fee per gas'' then line ''MaxFeePerGasTooLow''
             else if e = ''max priority fee per gas higher than max fee per gas'' then line ''MaxPriorityFeeGreaterThanMaxFee''
             else []
         | _ \<Rightarrow> [])"

definition printed_tx ::
  "ext \<Rightarrow> 'k printer \<Rightarrow> l2_tx \<Rightarrow> exec_mode \<Rightarrow> node \<Rightarrow> disk \<Rightarrow> ((string, unit) res \<times> node) \<times> string list \<times> disk" where
  "printed_tx E R tx mode nd d =
     (let shown_hash = pt_bold (pr_paint R) 0 (x_fmt_h256 E (x_tx_hash E tx));
          validating = [[], ''Validating '' @ shown_hash] @ unexecutable_lines E tx nd;
          executing = validating @ [''Executing '' @ shown_hash]
      in case validate_tx tx nd of
        Err e \<Rightarrow> ((Err e, nd), validating, d)
      | Panic \<Rightarrow> ((Panic, nd), [], d)
      | Ok _ \<Rightarrow>
     (case write_inner (Err write_lock_failed) (\<lambda>n. (Ok (),
             n\<lparr>n_filters := notify_new_pending_transaction (x_tx_hash E tx) (n_filters n)\<rparr>)) nd of
        (Ok _, nd1) \<Rightarrow>
          (let ((r, fo), lines, d') = printed_raw E R tx mode True (nd_inner nd1) d;
               nd2 = nd1\<lparr>nd_inner := (nd_inner nd1)\<lparr>n_fork_storage := fo\<rparr>\<rparr>
           in case r of
                Err e \<Rightarrow> ((Err e, nd2), executing @ lines, d')
              | Panic \<Rightarrow> ((Panic, nd2), [], d')
              | Ok lt \<Rightarrow>
                  (case vm_exec (lt_result lt) of
                     Halt reason \<Rightarrow> ((Err (''Transaction HALT: '' @ reason), nd2), executing @ lines, d')
                   | _ \<Rightarrow> (write_inner (Err write_lock_failed) (\<lambda>n. of_option n (commit_tx E tx lt n)) nd2,
                           executing @ lines, d')))
      | (r, nd1) \<Rightarrow> ((r, nd1), executing, d)))"

definition call_outcome_lines :: "'k printer \<Rightarrow> exec_result \<Rightarrow> string list" where
  "call_outcome_lines R r =
     (case r of
        Success output \<Rightarrow> [''Call: '' @ outcome R r, ''Output: '' @ [CHR 0x22] @ ''0x'' @ hex_bytes output @ [CHR 0x22]]
      | Revert output \<Rightarrow> [''Call: '' @ outcome R r @ '': '' @ rv_string output]
      | Halt reason \<Rightarrow> [''Call: '' @ outcome R r @ '' '' @ reason])"

definition printed_call_inner ::
  "ext \<Rightarrow> 'k printer \<Rightarrow> l2_tx \<Rightarrow> inner \<Rightarrow> disk \<Rightarrow> ((string, exec_result) res \<times> inner) \<times> string list \<times> disk" where
  "printed_call_inner E R tx n d =
     (let fo = n_fork_storage n in
      case contracts_for_l2_call (n_system_contracts n) of
        None \<Rightarrow> ((Panic, n), [], d)
      | Some base \<Rightarrow>
     (case create_l1_batch_env E n fo_ops (storage_view_new fo) of
        None \<Rightarrow> ((Panic, n), [], d)
      | Some ((env, _), sv1) \<Rightarrow>
          (let tx' = (if signature tx = [] then tx\<lparr>signature := x_default_signature E\<rparr> else tx)
           in case run fo_ops (x_vm_run_tx E env (create_system_env E n base EthCall) tx') sv1 of
                None \<Rightarrow> ((Panic, n), [], d)
              | Some (out, sv2) \<Rightarrow>
                  (case print_calls E R (n_config n) (ro_traces out) d of
                     (None, d') \<Rightarrow> ((Panic, n), [], d')
                   | (Some calls, d') \<Rightarrow>
                       ((Ok (vm_exec (ro_result out)), n\<lparr>n_fork_storage := sv_storage_handle sv2\<rparr>),
                        call_outcome_lines R (vm_exec (ro_result out)) @ [''=== Console Logs: ''] @
                        console_lines R (ro_traces out) @ [''=== Call traces:''] @ calls, d')))))"

definition printed_call ::
  "ext \<Rightarrow> 'k printer \<Rightarrow> l2_tx \<Rightarrow> node \<Rightarrow> disk \<Rightarrow> ((string, exec_result) res \<times> node) \<times> string list \<times> disk" where
  "printed_call E R tx nd d =
     (if nd_inner_poisoned nd then ((Err write_lock_failed, nd), [], d)
      else let (rn, lines, d') = printed_call_inner E R tx (nd_inner nd) d
           in (write_inner (Err write_lock_failed) (\<lambda>_. rn) nd, lines, d'))"

section \<open>Lemmas\<close>

lemma print_events_unresolved:
  "\<exists>lines. print_events E R False events d = (Some lines, d)"
proof (induction events)
  case (Cons event events)
  then show ?case by (auto simp: print_event_def)
qed simp

lemma print_calls_unresolved:
  "\<not> nc_resolve_hashes c \<Longrightarrow> \<exists>lines. print_calls E R c traces d = (Some lines, d)"
  by (simp add: print_calls_def print_call_unresolved(2))

lemma gas_section_None: "gas_section R n out = None \<longleftrightarrow> gas_report_panics n out"
  by (auto simp: gas_section_def gas_report_panics_def Let_def split: show_gas_details.splits res.splits)

abbreviation summary_panics :: "inner \<Rightarrow> l2_tx \<Rightarrow> inspect_out \<Rightarrow> bool" where
  "summary_panics n tx out \<equiv>
     checked_sub (gas_limit (tx_fee tx)) (ucast (vm_gas_refunded (io_result out))) = None \<or> gas_report_panics n out"

lemma tx_report_unresolved:
  assumes "\<not> nc_resolve_hashes (n_config n)"
  shows "(\<exists>lines. tx_report E R n tx out d = (Some lines, d)) \<and> \<not> summary_panics n tx out \<or>
    tx_report E R n tx out d = (None, d) \<and> summary_panics n tx out"
proof -
  obtain calls events where "print_calls E R (n_config n) (io_traces out) d = (Some calls, d)"
      "print_events E R False (vm_events (io_result out)) d = (Some events, d)"
    using print_calls_unresolved [OF assms] print_events_unresolved by metis
  then show ?thesis
    using assms gas_section_None [of R n out]
    by (cases "checked_sub (gas_limit (tx_fee tx)) (ucast (vm_gas_refunded (io_result out)))"; cases "gas_section R n out")
       (simp_all add: tx_report_def summary_lines_def Let_def)
qed

lemma printed_raw_unresolved:
  assumes "\<not> nc_resolve_hashes (n_config n)"
  shows "\<exists>lines. printed_raw E R tx mode b n d = (run_l2_tx_raw E tx mode b n, lines, d)"
proof (cases "create_l1_batch_env E n fo_ops (storage_view_new (n_fork_storage n))")
  case (Some p)
  obtain env ctx sv1 where p: "p = ((env, ctx), sv1)" by (metis prod.exhaust)
  let ?imp = "initiator tx \<in> n_impersonated_accounts n"
  show ?thesis
  proof (cases "contracts (n_system_contracts n) mode ?imp")
    case c: (Some base)
    show ?thesis
    proof (cases "run fo_ops (x_vm_inspect_with_compression E env (create_system_env E n base mode) tx) sv1")
      case r: (Some q)
      obtain out sv2 where q: "q = (out, sv2)" by (cases q)
      note e = Some p c r q
      consider (quiet) lines where "tx_report E R n tx out d = (Some lines, d)" "\<not> summary_panics n tx out"
        | (panics) "tx_report E R n tx out d = (None, d)" "summary_panics n tx out"
        using tx_report_unresolved [OF assms, of E R tx out d] by (elim disjE conjE exE) blast+
      then show ?thesis
      proof cases
        case quiet
        then show ?thesis using e
          by (cases "io_compressed out") (auto simp: printed_raw_def run_l2_tx_raw_def Let_def split: res.split option.split)
      next
        case panics
        then show ?thesis using e
          by (cases "io_compressed out") (auto simp: printed_raw_def run_l2_tx_raw_def Let_def)
      qed
    qed (simp add: printed_raw_def run_l2_tx_raw_def Let_def Some p c)
  qed (simp add: printed_raw_def run_l2_tx_raw_def Let_def Some p)
qed (simp add: printed_raw_def run_l2_tx_raw_def Let_def)

text \<open>The run of a call, without what is done with its result.\<close>

definition call_out :: "ext \<Rightarrow> l2_tx \<Rightarrow> inner \<Rightarrow> (run_out \<times> fork_storage storage_view) option" where
  "call_out E tx n =
     (case contracts_for_l2_call (n_system_contracts n) of
        None \<Rightarrow> None
      | Some base \<Rightarrow>
     (case create_l1_batch_env E n fo_ops (storage_view_new (n_fork_storage n)) of
        None \<Rightarrow> None
      | Some ((env, _), sv1) \<Rightarrow>
          run fo_ops (x_vm_run_tx E env (create_system_env E n base EthCall)
            (if signature tx = [] then tx\<lparr>signature := x_default_signature E\<rparr> else tx)) sv1))"

lemma call_inner_out:
  "call_inner E tx n =
     (case call_out E tx n of
        None \<Rightarrow> (Panic, n)
      | Some (out, sv) \<Rightarrow> (Ok (vm_exec (ro_result out)), n\<lparr>n_fork_storage := sv_storage_handle sv\<rparr>))"
  by (simp add: call_inner_def call_out_def Let_def split: option.split prod.split)

lemma printed_call_inner_out:
  "printed_call_inner E R tx n d =
     (case call_out E tx n of
        None \<Rightarrow> ((Panic, n), [], d)
      | Some (out, sv) \<Rightarrow>
          (case print_calls E R (n_config n) (ro_traces out) d of
             (None, d') \<Rightarrow> ((Panic, n), [], d')
           | (Some calls, d') \<Rightarrow>
               ((Ok (vm_exec (ro_result out)), n\<lparr>n_fork_storage := sv_storage_handle sv\<rparr>),
                call_outcome_lines R (vm_exec (ro_result out)) @ [''=== Console Logs: ''] @
                console_lines R (ro_traces out) @ [''=== Call traces:''] @ calls, d')))"
  by (simp add: printed_call_inner_def call_out_def Let_def split: option.split prod.split)

text \<open>The lines of a call that returns, as long as hashes are not resolved.\<close>

definition call_report :: "ext \<Rightarrow> 'k printer \<Rightarrow> node_config \<Rightarrow> vm_result \<Rightarrow> call list \<Rightarrow> string list" where
  "call_report E R c result traces =
     call_outcome_lines R (vm_exec result) @ [''=== Console Logs: ''] @ console_lines R traces @ [''=== Call traces:''] @
     map (unresolved_line E (pr_paint R) (nc_show_outputs c))
       (filter (shown (pr_paint R) (nc_show_calls c)) (concat (map (preorder 0) traces)))"

lemma printed_call_inner_unresolved:
  assumes "\<not> nc_resolve_hashes (n_config n)"
  shows "printed_call_inner E R tx n d =
    (call_inner E tx n,
     (case call_out E tx n of None \<Rightarrow> [] | Some (out, _) \<Rightarrow> call_report E R (n_config n) (ro_result out) (ro_traces out)), d)"
  using assms
  by (simp add: printed_call_inner_out call_inner_out print_calls_def print_call_unresolved(2) call_report_def
      split: option.split prod.split)

lemma printed_tx_unresolved:
  assumes "\<not> nc_resolve_hashes (n_config (nd_inner nd))"
  shows "\<exists>lines. printed_tx E R tx mode nd d = (run_l2_tx E tx mode nd, lines, d)"
proof (cases "validate_tx tx nd")
  case (Ok u)
  let ?n = "(nd_inner nd)\<lparr>n_filters := notify_new_pending_transaction (x_tx_hash E tx) (n_filters (nd_inner nd))\<rparr>"
  show ?thesis
  proof (cases "nd_inner_poisoned nd")
    case False
    have "\<not> nc_resolve_hashes (n_config ?n)" using assms by simp
    then obtain lines where "printed_raw E R tx mode True ?n d = (run_l2_tx_raw E tx mode True ?n, lines, d)"
      using printed_raw_unresolved by blast
    then show ?thesis using Ok False
      by (simp add: printed_tx_def run_l2_tx_def write_inner_def Let_def split: prod.split res.split exec_result.split)
  qed (use Ok in \<open>simp add: printed_tx_def run_l2_tx_def write_inner_def Let_def\<close>)
qed (simp_all add: printed_tx_def run_l2_tx_def Let_def)

section \<open>Properties\<close>

text \<open>C17: printing is transparent as long as hashes are not resolved. Under every other display option
  a transaction that prints its report has the result and leaves the node of the transaction
  without the printing, and so has a call; nothing is written to the disk. The lines of a call that
  returns are its outcome, the lines of \<open>console.log\<close>, and those calls of the traces of its run
  that the configuration shows, in the order of the calls.\<close>

theorem printing_is_transparent:
  assumes "\<not> nc_resolve_hashes (n_config (nd_inner nd))"
  shows "(\<exists>lines. printed_tx E R tx mode nd d = (run_l2_tx E tx mode nd, lines, d)) \<and>
    (\<exists>lines. printed_call E R tx nd d = (run_l2_call E tx nd, lines, d) \<and>
      (\<forall>result nd'. run_l2_call E tx nd = (Ok result, nd') \<longrightarrow>
        (\<exists>out sv. call_out E tx (nd_inner nd) = Some (out, sv) \<and> result = vm_exec (ro_result out) \<and>
          lines = call_report E R (n_config (nd_inner nd)) (ro_result out) (ro_traces out))))"
proof (intro conjI printed_tx_unresolved assms)
  let ?lines = "if nd_inner_poisoned nd then []
    else case call_out E tx (nd_inner nd) of None \<Rightarrow> []
      | Some (out, _) \<Rightarrow> call_report E R (n_config (nd_inner nd)) (ro_result out) (ro_traces out)"
  have "printed_call E R tx nd d = (run_l2_call E tx nd, ?lines, d)"
    using printed_call_inner_unresolved [OF assms, of E R tx d] by (simp add: printed_call_def run_l2_call_def write_inner_def)
  moreover have "\<exists>out sv. call_out E tx (nd_inner nd) = Some (out, sv) \<and> result = vm_exec (ro_result out) \<and>
      ?lines = call_report E R (n_config (nd_inner nd)) (ro_result out) (ro_traces out)"
    if "run_l2_call E tx nd = (Ok result, nd')" for result nd'
    using that by (auto simp: run_l2_call_def write_inner_def call_inner_out split: if_splits option.splits prod.splits res.splits)
  ultimately show "\<exists>lines. printed_call E R tx nd d = (run_l2_call E tx nd, lines, d) \<and>
      (\<forall>result nd'. run_l2_call E tx nd = (Ok result, nd') \<longrightarrow>
        (\<exists>out sv. call_out E tx (nd_inner nd) = Some (out, sv) \<and> result = vm_exec (ro_result out) \<and>
          lines = call_report E R (n_config (nd_inner nd)) (ro_result out) (ro_traces out)))"
    by blast
qed

text \<open>C18: a failed lookup of a selector breaks the node. With hashes being resolved, a call that would
  succeed panics when the selector of its outermost call is to be shown and cannot be looked up;
  the panic happens under the write lock, so the lock is poisoned and every later call and
  transaction of the node is answered with an error or panics. The disk is the one that the lookup
  left.\<close>

theorem failed_lookup_poisons_node:
  assumes "\<not> nd_inner_poisoned nd" and "nc_resolve_hashes (n_config (nd_inner nd))"
    and "call_out E tx (nd_inner nd) = Some (out, sv)" and "ro_traces out = c # rest"
    and "shown (pr_paint R) (nc_show_calls (n_config (nd_inner nd))) (0, c)"
    and "contract_type_of (pr_paint R) (c_to c) \<noteq> ContractPrecompile" and "4 \<le> length (c_input c)"
    and "decode_function_selector E (pr_io R) (pr_web R) (hex_bytes (take 4 (c_input c))) d = (answer, d1)"
    and "\<not> is_Ok answer"
  shows "is_Ok (fst (run_l2_call E tx nd)) \<and>
    (\<exists>nd'. printed_call E R tx nd d = ((Panic, nd'), [], d1) \<and>
      (\<forall>E' tx' mode R' d'. fst (printed_call E' (R' :: 'k printer) tx' nd' d') = (Err write_lock_failed, nd') \<and>
         \<not> is_Ok (fst (run_l2_tx E' tx' mode nd'))))"
proof -
  have "print_calls E R (n_config (nd_inner nd)) (ro_traces out) d = (None, d1)"
    using print_call_panics [OF assms(5-9), of "nc_show_outputs (n_config (nd_inner nd))"] assms(2,4) by (simp add: print_calls_def)
  then have p: "printed_call E R tx nd d = ((Panic, nd\<lparr>nd_inner_poisoned := True\<rparr>), [], d1)"
    using assms(1,3) by (simp add: printed_call_def printed_call_inner_out write_inner_def)
  have "\<not> is_Ok (fst (run_l2_tx E' tx' mode (nd\<lparr>nd_inner_poisoned := True\<rparr>)))" for E' tx' mode
    by (simp add: run_l2_tx_def write_inner_def split: res.split)
  moreover have "is_Ok (fst (run_l2_call E tx nd))"
    using assms(1,3) by (simp add: run_l2_call_def call_inner_out write_inner_def)
  ultimately show ?thesis using p by (simp add: printed_call_def)
qed

text \<open>A plain printer over a network that is down, and a call of one contract.\<close>

definition plain_paint :: paint where
  "plain_paint = \<lparr>pt_known = Map.empty, pt_dimmed = pad_left, pt_green = id, pt_blue = pad_left, pt_bold = pad_left,
     pt_grey = id, pt_on_red = id, pt_call_type = \<lambda>_. ''Call'', pt_log_kind = \<lambda>_. [], pt_short_address = \<lambda>_. [],
     pt_utf8 = \<lambda>_. None\<rparr>"

definition plain_printer :: "string printer" where
  "plain_printer = \<lparr>pr_paint = plain_paint, pr_red = id, pr_yellow = id, pr_io = working_io, pr_web = failing_web,
     pr_abi = text_abi, pr_console = \<lparr>ch_signature_map = Map.empty, ch_target_contract = CONSOLE_ADDRESS\<rparr>,
     pr_cycles = \<lambda>_. 0, pr_contracts = \<lambda>_. 0\<rparr>"

definition token_call :: call where
  "token_call = Call CallCall 1 2 100 50 0 [0xa9, 0x05, 0x9c, 0xbb] [] None None []"

definition ext_traced :: ext where
  "ext_traced = ext0\<lparr>x_vm_run_tx := \<lambda>_ _ _. Return \<lparr>ro_result =
       \<lparr>vm_exec = Success [], vm_events = [], vm_storage_logs = [], vm_gas_used = 0,
         vm_computational_gas_used = 0, vm_pubdata_published = 0, vm_gas_refunded = 0\<rparr>, ro_traces = [token_call]\<rparr>\<rparr>"

definition resolving_node :: node where
  "resolving_node = node0\<lparr>nd_inner := inner0\<lparr>n_config := (n_config inner0)
     \<lparr>nc_show_calls := ShowCallsAll, nc_resolve_hashes := True\<rparr>\<rparr>\<rparr>"

lemma ext_traced_env:
  "create_l1_batch_env ext_traced (n\<lparr>n_config := c\<rparr>) ops sv = create_l1_batch_env ext0 n ops sv"
  unfolding create_l1_batch_env_def load_last_l1_batch_def
  by (simp add: ext_traced_def fun_eq_iff cong del: let_weak_cong option.case_cong_weak if_weak_cong)

lemma call_out0: "\<exists>out sv. call_out ext_traced tx0 (nd_inner resolving_node) = Some (out, sv) \<and> ro_traces out = [token_call]"
proof -
  obtain env sv where "create_l1_batch_env ext0 inner0 fo_ops (storage_view_new (n_fork_storage inner0)) =
      Some ((env, \<lparr>bc_batch = 1, bc_miniblock = 1, bc_timestamp = 1001\<rparr>), sv)"
    using env0_notified by blast
  moreover have "contracts_for_l2_call (n_system_contracts inner0) = Some contracts0"
    by (simp add: inner0_def contracts_for_l2_call_def)
  moreover obtain out where "\<And>env se tx. x_vm_run_tx ext_traced env se tx = Return out" "ro_traces out = [token_call]"
    by (simp add: ext_traced_def)
  ultimately show ?thesis
    by (simp add: call_out_def resolving_node_def ext_traced_env)
qed

lemma printing_is_transparent_witness:
  "\<exists>lines. printed_tx ext0 plain_printer tx0 VerifyExecute node0 [] = (run_l2_tx ext0 tx0 VerifyExecute node0, lines, [])"
proof -
  have "\<not> nc_resolve_hashes (n_config (nd_inner node0))" by (simp add: inner0_def default_node_config_def)
  from printing_is_transparent [OF this, of ext0 plain_printer tx0 VerifyExecute "[]"] show ?thesis by blast
qed

lemma failed_lookup_poisons_node_witness:
  "\<exists>nd' d'. printed_call ext_traced plain_printer tx0 resolving_node [] = ((Panic, nd'), [], d')"
proof -
  obtain out sv where out: "call_out ext_traced tx0 (nd_inner resolving_node) = Some (out, sv)" "ro_traces out = [token_call]"
    using call_out0 by blast
  have "hex_bytes [0xa9, 0x05, 0x9c, 0xbb] = ''a9059cbb''"
    by (simp add: hex_bytes_def hex_digit_def digit_char_def char_of_def bit_0_eq bit_iff_odd)
  then obtain answer d1 where "decode_function_selector ext_traced (pr_io plain_printer) (pr_web plain_printer)
      (hex_bytes (take 4 (c_input token_call))) [] = (answer, d1)" "\<not> is_Ok answer"
    using lookup_fails0 [of ext_traced] by (cases "decode_function_selector ext_traced (pr_io plain_printer) (pr_web plain_printer)
      (hex_bytes (take 4 (c_input token_call))) []") (simp add: plain_printer_def token_call_def)
  moreover have "\<not> nd_inner_poisoned resolving_node" "nc_resolve_hashes (n_config (nd_inner resolving_node))"
    "shown (pr_paint plain_printer) (nc_show_calls (n_config (nd_inner resolving_node))) (0, token_call)"
    "contract_type_of (pr_paint plain_printer) (c_to token_call) \<noteq> ContractPrecompile" "4 \<le> length (c_input token_call)"
    by (simp_all add: resolving_node_def shown_def contract_type_of_def plain_printer_def plain_paint_def token_call_def)
  ultimately show ?thesis
    using failed_lookup_poisons_node [OF _ _ out, of plain_printer "[]"] by blast
qed

end
