(* ===== verification/Printed_Node.thy ===== *)
theory Printed_Node
  imports Ledger Run_Report
begin

text \<open>
  The node with its printing: the handlers of \<open>src/node/eth.rs\<close> that run transactions and calls, as
  they run when the report is printed on the way, and a server made of them. Printing may add
  panics (a failed lookup of a selector), so that a request may be cut off; it is shown that this
  is all it can do, and that the node stays sound.
\<close>

section \<open>Handlers\<close>

definition failed_call_lines :: "'k printer \<Rightarrow> (string, exec_result) res \<Rightarrow> string list" where
  "failed_call_lines R result =
     (case result of
        Ok (Revert output) \<Rightarrow> [pt_on_red (pr_paint R) (reverted_message (rv_friendly output))]
      | Ok (Halt reason) \<Rightarrow> [pt_on_red (pr_paint R) (''execution halted '' @ (if reason = [] then [] else '': '') @ reason)]
      | _ \<Rightarrow> [])"

definition printed_eth_call ::
  "ext \<Rightarrow> 'k printer \<Rightarrow> call_request \<Rightarrow> node \<Rightarrow> disk \<Rightarrow> (bytes rpc \<times> node) \<times> string list \<times> disk" where
  "printed_eth_call E R req nd d =
     (case x_l2_tx_from_request E (x_request_of_call E req) MAX_TX_SIZE of
        Ok tx \<Rightarrow>
          (let ((result, nd'), lines, d') = printed_call E R
                 (tx\<lparr>tx_fee := (tx_fee tx)\<lparr>gas_limit := ucast (x_eth_call_gas_limit E)\<rparr>\<rparr>) nd d
           in ((call_answer E result, nd'), lines @ failed_call_lines R result, d'))
      | Err e \<Rightarrow> ((Err (into_jsrpc_error E (SerializationError e)), nd), [], d)
      | Panic \<Rightarrow> ((Panic, nd), [], d))"

definition printed_send_raw_transaction ::
  "ext \<Rightarrow> 'k printer \<Rightarrow> bytes \<Rightarrow> node \<Rightarrow> disk \<Rightarrow> (h256 rpc \<times> node) \<times> string list \<times> disk" where
  "printed_send_raw_transaction E R tx_bytes nd d =
     (case read_inner (Err (internal_rpc_error E ''Failed to acquire read lock for chain ID retrieval''))
             (\<lambda>n. Ok (fo_chain_id (n_fork_storage n))) nd of
        Err e \<Rightarrow> ((Err e, nd), [], d)
      | Panic \<Rightarrow> ((Panic, nd), [], d)
      | Ok chain_id \<Rightarrow>
     (case rbind (x_request_from_bytes E tx_bytes chain_id) (\<lambda>(tx_req, hash).
             rbind (x_l2_tx_from_request E tx_req MAX_TX_SIZE) (\<lambda>tx. Ok (tx, hash))) of
        Err e \<Rightarrow> ((Err (into_jsrpc_error E (SerializationError e)), nd), [], d)
      | Panic \<Rightarrow> ((Panic, nd), [], d)
      | Ok (tx, hash) \<Rightarrow>
          (let l2_tx = x_set_input E tx tx_bytes hash in
           if hash \<noteq> x_tx_hash E l2_tx
           then ((Err (internal_rpc_error E
                  ''Invalid transaction data: computed hash does not match the provided hash.''), nd), [], d)
           else let ((r, nd'), lines, d') = printed_tx E R l2_tx VerifyExecute nd d
                in ((case r of
                       Ok _ \<Rightarrow> Ok hash
                     | Err e \<Rightarrow> Err (into_jsrpc_error E
                         (SubmitTransactionError (''Execution error: '' @ e) (h256_bytes (x_tx_hash E l2_tx))))
                     | Panic \<Rightarrow> Panic, nd'), lines, d'))))"

text \<open>What is logged when an unsigned transaction is not sent.\<close>

definition refused_send_lines :: "ext \<Rightarrow> call_request \<Rightarrow> inner \<Rightarrow> string list" where
  "refused_send_lines E tx n =
     (case sent_request E tx (fo_chain_id (n_fork_storage n)) (fp_l1_gas_price' (n_fee_input_provider n)) of
        Err _ \<Rightarrow> [unsupported_fields]
      | Panic \<Rightarrow> []
      | Ok tx_req \<Rightarrow>
     (case rbind (x_request_tx_hash E tx_req) (\<lambda>_. x_request_signed_bytes E tx_req) of
        Err e \<Rightarrow> [''Transaction request serialization error: '' @ e]
      | Panic \<Rightarrow> []
      | Ok _ \<Rightarrow>
     (case x_l2_tx_from_request E tx_req MAX_TX_SIZE of
        Err e \<Rightarrow> [''Transaction serialization error: '' @ e]
      | Panic \<Rightarrow> []
      | Ok _ \<Rightarrow>
          (case impersonated_tx E tx_req of
             Ok l2_tx \<Rightarrow>
               if initiator l2_tx \<in> n_impersonated_accounts n then []
               else [''Initiator address '' @ x_fmt_address E (initiator l2_tx) @ '' is not allowed to perform transactions'']
           | _ \<Rightarrow> []))))"

definition printed_send_transaction ::
  "ext \<Rightarrow> 'k printer \<Rightarrow> call_request \<Rightarrow> node \<Rightarrow> disk \<Rightarrow> (h256 rpc \<times> node) \<times> string list \<times> disk" where
  "printed_send_transaction E R tx nd d =
     (case rbind (read_inner (Err (into_jsrpc_error_message ''Failed to acquire read lock for chain ID retrieval.''))
               (\<lambda>n. Ok (fo_chain_id (n_fork_storage n), fp_l1_gas_price' (n_fee_input_provider n))) nd)
             (\<lambda>(chain_id, l1_gas_price).
           rbind (sent_request E tx chain_id l1_gas_price) (\<lambda>tx_req.
           rbind (map_err (\<lambda>e. into_jsrpc_error E (SerializationError e)) (impersonated_tx E tx_req)) (\<lambda>l2_tx.
           rbind (may_send E l2_tx nd) (\<lambda>_. Ok l2_tx)))) of
        Err e \<Rightarrow> ((Err e, nd), if nd_inner_poisoned nd then [] else refused_send_lines E tx (nd_inner nd), d)
      | Panic \<Rightarrow> ((Panic, nd), [], d)
      | Ok l2_tx \<Rightarrow>
          (let ((r, nd'), lines, d') = printed_tx E R l2_tx VerifyExecute nd d
           in ((case r of
                  Ok _ \<Rightarrow> Ok (x_tx_hash E l2_tx)
                | Err e \<Rightarrow> Err (into_jsrpc_error_message (''Execution error: '' @ e))
                | Panic \<Rightarrow> Panic, nd'), lines, d')))"

section \<open>The server\<close>

text \<open>The disk is the one on which resolved selectors are kept.\<close>

definition serve_printing :: "world \<Rightarrow> 'k printer \<Rightarrow> request \<Rightarrow> node \<times> disk \<Rightarrow> node \<times> disk" where
  "serve_printing W R r s =
     (let E = wo_ext W; nd = fst s; d = snd s in
      case r of
        Eth (EthCall req) \<Rightarrow> let ((_, nd'), _, d') = printed_eth_call E R req nd d in (nd', d')
      | Eth (EthSendRawTransaction bs) \<Rightarrow> let ((_, nd'), _, d') = printed_send_raw_transaction E R bs nd d in (nd', d')
      | Eth (EthSendTransaction req) \<Rightarrow> let ((_, nd'), _, d') = printed_send_transaction E R req nd d in (nd', d')
      | _ \<Rightarrow> (serve_request W r nd, d))"

inductive printing_reachable :: "world \<Rightarrow> 'k printer \<Rightarrow> node \<times> disk \<Rightarrow> bool" for W R where
  started_printing: "node_new (wo_ext W) fork obs config gas = Some nd \<Longrightarrow> (\<forall>f. fork = Some f \<longrightarrow> fork_ok f) \<Longrightarrow>
    printing_reachable W R (nd, d)"
| served_printing: "printing_reachable W R s \<Longrightarrow> small_request r \<Longrightarrow> printing_reachable W R (serve_printing W R r s)"

section \<open>Lemmas\<close>

lemma tx_report_Some: "tx_report E R n tx out d = (Some lines, d') \<Longrightarrow> \<not> summary_panics n tx out"
  using gas_section_None [of R n out]
  by (auto simp: tx_report_def summary_lines_def Let_def dest!: arg_cong [where f = fst] pbind_SomeD)

text \<open>Printing adds panics, and nothing else.\<close>

lemma printed_raw_cases:
  "fst (printed_raw E R tx mode b n d) = run_l2_tx_raw E tx mode b n \<or> fst (printed_raw E R tx mode b n d) = (Panic, n_fork_storage n)"
proof (cases "create_l1_batch_env E n fo_ops (storage_view_new (n_fork_storage n))")
  case (Some p)
  obtain env ctx sv1 where p: "p = ((env, ctx), sv1)" by (metis prod.exhaust)
  let ?imp = "initiator tx \<in> n_impersonated_accounts n"
  show ?thesis
  proof (cases "contracts (n_system_contracts n) mode ?imp")
    case c: (Some base)
    show ?thesis
    proof (cases "run fo_ops (x_vm_inspect_with_compression E env (create_system_env E n base mode) tx) sv1")
      case r: (Some q)
      obtain out sv2 where q: "q = (out, sv2)" by (cases q)
      note e = Some p c r q
      show ?thesis
      proof (cases "fst (tx_report E R n tx out d)")
        case None
        then obtain d' where "tx_report E R n tx out d = (None, d')" by (metis prod.collapse)
        then show ?thesis using e
          by (cases "io_compressed out") (simp_all add: printed_raw_def run_l2_tx_raw_def Let_def)
      next
        case (Some lines)
        then obtain d' where t: "tx_report E R n tx out d = (Some lines, d')" by (metis prod.collapse)
        show ?thesis using e t tx_report_Some [OF t]
          by (cases "io_compressed out") (auto simp: printed_raw_def run_l2_tx_raw_def Let_def split: res.split option.split)
      qed
    qed (simp add: printed_raw_def run_l2_tx_raw_def Let_def Some p c)
  qed (simp add: printed_raw_def run_l2_tx_raw_def Let_def Some p)
qed (simp add: printed_raw_def run_l2_tx_raw_def Let_def)

lemma printed_tx_cases:
  "fst (printed_tx E R tx mode nd d) = run_l2_tx E tx mode nd \<or>
   fst (printed_tx E R tx mode nd d) = (Panic, nd\<lparr>nd_inner := notified E tx (nd_inner nd)\<rparr>)"
proof (cases "validate_tx tx nd")
  case (Ok u)
  show ?thesis
  proof (cases "nd_inner_poisoned nd")
    case False
    let ?n = "notified E tx (nd_inner nd)"
    obtain x lines d' where p: "printed_raw E R tx mode True ?n d = (x, lines, d')" by (metis prod.exhaust)
    let ?finish = "\<lambda>(r, fo). let nd2 = nd\<lparr>nd_inner := ?n\<lparr>n_fork_storage := fo\<rparr>\<rparr> in
        case r of Err e \<Rightarrow> (Err e, nd2)
         | Panic \<Rightarrow> (Panic, nd2)
         | Ok lt \<Rightarrow> (case vm_exec (lt_result lt) of
             Halt reason \<Rightarrow> (Err (''Transaction HALT: '' @ reason), nd2)
           | _ \<Rightarrow> write_inner (Err write_lock_failed) (\<lambda>n. of_option n (commit_tx E tx lt n)) nd2)"
    have 1: "fst (printed_tx E R tx mode nd d) = ?finish x"
      using Ok False p
      by (simp add: printed_tx_def notified_def write_inner_def Let_def split: prod.split res.split exec_result.split)
    have 2: "run_l2_tx E tx mode nd = ?finish (run_l2_tx_raw E tx mode True ?n)"
      using run_l2_tx_unfold [OF Ok False, of E mode] by (simp add: Let_def case_prod_beta)
    have 3: "?finish (Panic, n_fork_storage ?n) = (Panic, nd\<lparr>nd_inner := ?n\<rparr>)" by (simp add: Let_def)
    have "x = run_l2_tx_raw E tx mode True ?n \<or> x = (Panic, n_fork_storage ?n)"
      using printed_raw_cases [of E R tx mode True ?n d] p by simp
    then show ?thesis by (rule disj_forward) (simp only: 1 2, simp only: 1 3)
  qed (use Ok in \<open>simp add: printed_tx_def run_l2_tx_def write_inner_def Let_def\<close>)
qed (simp_all add: printed_tx_def run_l2_tx_def Let_def)

lemma printed_call_cases:
  "fst (printed_call E R tx nd d) = run_l2_call E tx nd \<or> fst (printed_call E R tx nd d) = (Panic, nd\<lparr>nd_inner_poisoned := True\<rparr>)"
  by (auto simp: printed_call_def run_l2_call_def write_inner_def printed_call_inner_out call_inner_out Let_def
      split: option.split prod.split)

lemma notified_performs:
  assumes "node_ok nd"
  shows "node_ok (nd\<lparr>nd_inner := notified E tx (nd_inner nd)\<rparr>) \<and> performs E A nd (nd\<lparr>nd_inner := notified E tx (nd_inner nd)\<rparr>)"
proof -
  have "filters_inv (n_filters (notified E tx (nd_inner nd)))"
    using assms filters_inv_cong [OF notify_keys(2,4)] by (simp add: notified_def node_ok_def inner_ok_def)
  then have "node_ok (nd\<lparr>nd_inner := notified E tx (nd_inner nd)\<rparr>)"
    using node_ok_step [OF assms step_filters [OF node_ok_inner [OF assms]]] by (simp add: notified_def)
  moreover have "ledger_of (nd\<lparr>nd_inner := notified E tx (nd_inner nd)\<rparr>) = ledger_of nd"
    using ledger_of_step [of "nd\<lparr>nd_inner := notified E tx (nd_inner nd)\<rparr>" nd]
    by (simp add: chain_of_def) (simp add: ledger_of_def chain_of_def)
  ultimately show ?thesis by blast
qed

definition sound :: "ext \<Rightarrow> act set \<Rightarrow> node \<Rightarrow> node \<Rightarrow> bool" where
  "sound E A nd nd' \<longleftrightarrow> node_ok nd' \<and> performs E A nd nd'"

lemma sound_here: "node_ok nd \<Longrightarrow> sound E A nd nd"
  by (simp add: sound_def)

lemma printed_tx_sound:
  assumes "node_ok nd" and "printed_tx E R tx mode nd d = ((r, nd'), lines, d')"
  shows "sound E (range Transact) nd nd'"
proof -
  have "nd' = snd (run_l2_tx E tx mode nd) \<or> nd' = nd\<lparr>nd_inner := notified E tx (nd_inner nd)\<rparr>"
    using printed_tx_cases [of E R tx mode nd d] assms(2) by (metis fst_conv snd_conv)
  moreover have "sound E (range Transact) nd (snd (run_l2_tx E tx mode nd))"
    using run_l2_tx_ok [OF assms(1)] performs_mono [OF run_performs [OF assms(1)]] by (auto simp: sound_def)
  moreover have "sound E (range Transact) nd (nd\<lparr>nd_inner := notified E tx (nd_inner nd)\<rparr>)"
    using notified_performs [OF assms(1)] by (simp add: sound_def)
  ultimately show ?thesis by auto
qed

lemma printed_call_sound:
  assumes "node_ok nd" and "printed_call E R tx nd d = ((r, nd'), lines, d')"
  shows "sound E A nd nd'"
proof -
  have "nd' = snd (run_l2_call E tx nd) \<or> nd' = nd\<lparr>nd_inner_poisoned := True\<rparr>"
    using printed_call_cases [of E R tx nd d] assms(2) by (metis fst_conv snd_conv)
  moreover have "node_rel same_chain nd (snd (run_l2_call E tx nd))"
    unfolding run_l2_call_def by (rule ch.rel_write [OF assms(1)]) (rule ch.keeps_call_inner [OF node_ok_inner [OF assms(1)]])
  then have "sound E A nd (snd (run_l2_call E tx nd))"
    using same_chain_node [OF assms(1)] by (simp add: sound_def)
  moreover have "sound E A nd (nd\<lparr>nd_inner_poisoned := True\<rparr>)"
    using node_ok_poisoned [OF assms(1)] by (simp add: sound_def performs_nothing)
  ultimately show ?thesis by auto
qed

lemma serve_printing_sound:
  assumes "node_ok nd" and "honest_world W" and "small_request r"
  shows "sound (wo_ext W) (acts (wo_ext W) r) nd (fst (serve_printing W R r (nd, d)))"
proof -
  let ?E = "wo_ext W"
  have quietly: "sound ?E (acts ?E r) nd (serve_request W r nd)"
    using serve_request_ok [OF assms] request_performs [OF assms] by (simp add: sound_def)
  note here = sound_here [OF assms(1)]
  show ?thesis
  proof (cases r)
    case (Eth q)
    then show ?thesis
    proof (cases q)
      case (EthCall req)
      then show ?thesis using Eth here printed_call_sound [OF assms(1)]
        by (auto simp: serve_printing_def printed_eth_call_def Let_def split: res.split prod.split)
    next
      case (EthSendRawTransaction bs)
      then show ?thesis using Eth here printed_tx_sound [OF assms(1)]
        by (auto simp: serve_printing_def printed_send_raw_transaction_def Let_def split: res.split prod.split)
    next
      case (EthSendTransaction req)
      then show ?thesis using Eth here printed_tx_sound [OF assms(1)]
        by (auto simp: serve_printing_def printed_send_transaction_def Let_def split: res.split prod.split)
    qed (use quietly Eth in \<open>simp_all add: serve_printing_def Let_def\<close>)
  qed (use quietly in \<open>simp_all add: serve_printing_def Let_def\<close>)
qed

lemma printing_reachable_ok:
  "printing_reachable W R s \<Longrightarrow> honest_world W \<Longrightarrow> node_ok (fst s)"
proof (induction rule: printing_reachable.induct)
  case (started_printing fork obs config gas nd d)
  then show ?case using reachable_node_ok [OF reachable.started] by simp
next
  case (served_printing s r)
  then show ?case using serve_printing_sound [of "fst s" W r R "snd s"] by (simp add: sound_def)
qed

text \<open>Without resolving hashes, the server is the one that does not print.\<close>

lemma serve_printing_unresolved:
  assumes "\<not> nc_resolve_hashes (n_config (nd_inner nd))"
  shows "serve_printing W R r (nd, d) = (serve_request W r nd, d)"
proof -
  let ?E = "wo_ext W"
  have "\<exists>lines. printed_call ?E R tx nd d = (run_l2_call ?E tx nd, lines, d)" for tx
    using printed_call_inner_unresolved [OF assms, of ?E R tx d] by (simp add: printed_call_def run_l2_call_def write_inner_def)
  then obtain C where C: "printed_call ?E R tx nd d = (run_l2_call ?E tx nd, C tx, d)" for tx by metis
  have "\<exists>lines. printed_tx ?E R tx mode nd d = (run_l2_tx ?E tx mode nd, lines, d)" for tx mode
    by (rule printed_tx_unresolved [OF assms])
  then obtain T where T: "printed_tx ?E R tx mode nd d = (run_l2_tx ?E tx mode nd, T tx mode, d)" for tx mode by metis
  show ?thesis
  proof (cases r)
    case (Eth q)
    then show ?thesis
      by (cases q) (auto simp: serve_printing_def printed_eth_call_def eth_call_def printed_send_raw_transaction_def
          eth_send_raw_transaction_def printed_send_transaction_def eth_send_transaction_def C T Let_def
          split: res.split prod.split)
  qed (simp_all add: serve_printing_def Let_def)
qed

section \<open>Properties\<close>

text \<open>C4: the server that prints. With any display options, hashes being resolved or not, the invariant of
  the node holds in every state that a node reaches while it prints what its transactions and
  calls do; and every further request still is one action of the ledger or none, even if its
  printing panics half way. As long as hashes are not resolved it is exactly what the request does
  without printing, and nothing is kept on disk.\<close>

theorem printing_server_is_sound:
  assumes "printing_reachable W R (nd, d)" and "honest_world W" and "small_request r"
  shows "node_ok nd \<and>
    (\<exists>a \<in> insert Idle (acts (wo_ext W) r).
       ledger_step (wo_ext W) a (ledger_of nd) (ledger_of (fst (serve_printing W R r (nd, d))))) \<and>
    (\<not> nc_resolve_hashes (n_config (nd_inner nd)) \<longrightarrow> serve_printing W R r (nd, d) = (serve_request W r nd, d))"
proof -
  have "node_ok nd" using printing_reachable_ok [OF assms(1,2)] by simp
  then show ?thesis
    using serve_printing_sound [OF _ assms(2,3), of nd R d] serve_printing_unresolved [of nd W R r d]
    by (simp add: sound_def performs_def)
qed

lemma printing_server_is_sound_witness:
  "\<exists>nd d. printing_reachable lone_world plain_printer (nd, d) \<and> nc_resolve_hashes (n_config (nd_inner nd)) \<and> node_ok nd"
proof -
  obtain n where n: "inner_new ext0 None None default_node_config None = Some n" using inner_new0 [of None None] by blast
  define nd where "nd = \<lparr>nd_inner = n, nd_inner_poisoned = False, nd_snapshots = [], nd_snapshots_poisoned = False,
    nd_system_contracts_options = nc_system_contracts_options default_node_config\<rparr>"
  have "printing_reachable lone_world plain_printer (nd, [])"
    by (rule printing_reachable.started_printing [where fork = None and obs = None and config = default_node_config and gas = None])
       (simp_all add: lone_world_def node_new_def n nd_def)
  then have "printing_reachable lone_world plain_printer (serve_printing lone_world plain_printer (Config (SetResolveHashes True)) (nd, []))"
    by (rule printing_reachable.served_printing) simp
  moreover have "nc_resolve_hashes (n_config (nd_inner (serve_request lone_world (Config (SetResolveHashes True)) nd)))"
    by (simp add: nd_def config_set_resolve_hashes_def config_write_def write_inner_def)
  ultimately have "printing_reachable lone_world plain_printer (serve_request lone_world (Config (SetResolveHashes True)) nd, [])"
    "nc_resolve_hashes (n_config (nd_inner (serve_request lone_world (Config (SetResolveHashes True)) nd)))"
    by (simp_all add: serve_printing_def)
  moreover from printing_server_is_sound [OF this(1) honest_lone, of "Ask (NodeQuery NetVersion)"]
  have "node_ok (serve_request lone_world (Config (SetResolveHashes True)) nd)" by simp
  ultimately show ?thesis by blast
qed

end
