(* ===== verification/Logging.thy ===== *)
theory Logging
  imports Config Externals
begin

unbundle bit_operations_syntax

text \<open>
  What the node writes to its log about requests and about errors of the virtual machine:
  the middleware around every request (\<open>src/logging_middleware.rs\<close>) and the tracer of call
  errors (\<open>src/node/call_error_tracer.rs\<close>). A line is its level and its text. Texts are lists
  of Unicode scalar values here, because the middleware measures some of them in bytes and cuts
  them in characters. The textual form of a value and the colour of the method name are the
  libraries' and are parameters; so are the bits of the error flags.
\<close>

section \<open>Texts\<close>

type_synonym utf_text = "nat list"

type_synonym log_line = "log_level \<times> utf_text"

definition utf :: "string \<Rightarrow> utf_text" where
  "utf s = map of_char s"

definition len_utf8 :: "nat \<Rightarrow> nat" where
  "len_utf8 c = (if c < 0x80 then 1 else if c < 0x800 then 2 else if c < 0x10000 then 3 else 4)"

definition byte_len :: "utf_text \<Rightarrow> nat" where
  "byte_len s = sum_list (map len_utf8 s)"

fun commas :: "utf_text list \<Rightarrow> utf_text" where
  "commas [] = []"
| "commas [x] = x"
| "commas (x # xs) = x @ utf '', '' @ commas xs"

section \<open>Requests\<close>

datatype 'v rpc_params = ParamsNone | ParamsArray "'v list" | ParamsMap "(utf_text \<times> 'v) list"

datatype 'v rpc_call = MethodCall utf_text "'v rpc_params" | Notification utf_text "'v rpc_params" | InvalidCall

datatype 'v rpc_request = Single "'v rpc_call" | Batch "'v rpc_call list"

definition full_params :: "('v \<Rightarrow> utf_text) \<Rightarrow> 'v rpc_params \<Rightarrow> utf_text" where
  "full_params to_text params =
     (case params of
        ParamsArray values \<Rightarrow>
          if values = [] then [] else utf ''with ['' @ commas (map to_text values) @ utf '']''
      | _ \<Rightarrow> [])"

definition truncated :: "utf_text \<Rightarrow> utf_text" where
  "truncated s_str = (if byte_len s_str > 70 then take 67 s_str @ utf ''...'' else s_str)"

definition truncated_params :: "('v \<Rightarrow> utf_text) \<Rightarrow> 'v rpc_params \<Rightarrow> utf_text" where
  "truncated_params to_text params =
     (case params of
        ParamsArray values \<Rightarrow>
          if values = [] then [] else utf ''with ['' @ commas (map (truncated \<circ> to_text) values) @ utf '']''
      | _ \<Rightarrow> [])"

definition request_lines ::
  "(utf_text \<Rightarrow> utf_text) \<Rightarrow> ('v \<Rightarrow> utf_text) \<Rightarrow> log_level \<Rightarrow> 'v rpc_request \<Rightarrow> log_line list" where
  "request_lines cyan to_text log_level_filter request =
     (case request of
        Single (MethodCall method params) \<Rightarrow>
          (case log_level_filter of
             LevelTrace \<Rightarrow> [(LevelTrace, cyan method @ utf '' was called '' @ full_params to_text params)]
           | _ \<Rightarrow> [(LevelDebug, cyan method @ utf '' was called '' @ truncated_params to_text params)])
      | _ \<Rightarrow> [])"

text \<open>The middleware around a handler \<open>next_handler\<close> that answers a request and changes a state.\<close>

definition on_request ::
  "(utf_text \<Rightarrow> utf_text) \<Rightarrow> ('v \<Rightarrow> utf_text) \<Rightarrow> ('r option \<Rightarrow> utf_text) \<Rightarrow> log_level \<Rightarrow>
   ('v rpc_request \<Rightarrow> 's \<Rightarrow> 'r option \<times> 's) \<Rightarrow> 'v rpc_request \<Rightarrow> 's \<Rightarrow> ('r option \<times> 's) \<times> log_line list" where
  "on_request cyan to_text debug_text log_level_filter next_handler request s =
     (let lines = request_lines cyan to_text log_level_filter request;
          (r, s') = next_handler request s
      in ((r, s'), lines @ [(LevelTrace, utf ''API response => '' @ debug_text r)]))"

section \<open>Errors of the virtual machine\<close>

record error_flag_bits =
  ef_invalid_opcode :: u64
  ef_not_enough_ergs :: u64
  ef_privileged_access :: u64
  ef_write_in_static_context :: u64
  ef_callstack_is_full :: u64

definition contains_flag :: "u64 \<Rightarrow> u64 \<Rightarrow> bool" where
  "contains_flag flags f \<longleftrightarrow> flags AND f = f"

definition after_decoding :: "error_flag_bits \<Rightarrow> u64 \<Rightarrow> log_line list" where
  "after_decoding bits error_flags_accumulated =
     (if error_flags_accumulated = 0 then []
      else (LevelError, utf ''!! Got error flags: '') #
        (if contains_flag error_flags_accumulated (ef_invalid_opcode bits) then [(LevelError, utf ''INVALID OPCODE'')] else []) @
        (if contains_flag error_flags_accumulated (ef_not_enough_ergs bits) then [(LevelError, utf ''NOT ENOUGH ERGS'')] else []) @
        (if contains_flag error_flags_accumulated (ef_privileged_access bits) then [(LevelError, utf ''PRIVILEGED ACCESS'')] else []) @
        (if contains_flag error_flags_accumulated (ef_write_in_static_context bits) then [(LevelError, utf ''WRITE IN STATIC'')] else []) @
        (if contains_flag error_flags_accumulated (ef_callstack_is_full bits) then [(LevelError, utf ''CALLSTACK IS FULL'')] else []))"

section \<open>Lemmas\<close>

lemma len_utf8_pos: "1 \<le> len_utf8 c"
  by (simp add: len_utf8_def)

lemma byte_len_ge: "length s \<le> byte_len s"
proof (induction s)
  case (Cons c s)
  then show ?case using len_utf8_pos [of c] by (simp add: byte_len_def)
qed (simp add: byte_len_def)

text \<open>A shown value has at most seventy characters.\<close>

lemma truncated_bounded: "length (truncated s) \<le> 70"
  using byte_len_ge [of s] by (simp add: truncated_def utf_def)

text \<open>
  Bytes are counted and characters are kept: a value of at most 67 characters that takes more
  than 70 bytes is shown whole and still marked as cut.
\<close>

lemma truncated_marks_uncut_value: "length s \<le> 67 \<Longrightarrow> 70 < byte_len s \<Longrightarrow> truncated s = s @ utf ''...''"
  by (simp add: truncated_def)

lemma truncated_marks_uncut_value_example:
  "truncated (replicate 24 0x20AC) = replicate 24 0x20AC @ utf ''...''"
  by (rule truncated_marks_uncut_value) (simp_all add: byte_len_def len_utf8_def sum_list_replicate)

text \<open>The middleware answers what the handler answers, and two log levels differ in the lines only.\<close>

lemma on_request_transparent:
  "fst (on_request cyan to_text debug_text level next_handler request s) = next_handler request s"
  by (simp add: on_request_def Let_def split: prod.splits)

lemma short_params_are_shown_whole:
  assumes "\<And>v. v \<in> set vs \<Longrightarrow> byte_len (to_text v) \<le> 70"
  shows "truncated_params to_text (ParamsArray vs) = full_params to_text (ParamsArray vs)"
proof -
  have "map (truncated \<circ> to_text) vs = map to_text vs"
    using assms by (auto simp: truncated_def not_less [symmetric])
  then show ?thesis unfolding truncated_params_def full_params_def rpc_params.case by (rule arg_cong)
qed

lemma batches_are_not_logged: "request_lines cyan to_text level (Batch calls) = []"
  by (simp add: request_lines_def)

lemma after_decoding_silent_iff: "after_decoding bits flags = [] \<longleftrightarrow> flags = 0"
  by (simp add: after_decoding_def)

end
