(* ===== verification/Rpc.thy ===== *)
theory Rpc
  imports Ledger
begin

text \<open>
  The JSON-RPC interface: the methods the namespaces declare (\<open>src/namespaces/\<close>) with the types
  of their parameters and results, the handler that \<open>build_json_http\<close> of \<open>src/main.rs\<close> puts
  together from them, and what a call is answered with. The parsing of the parameters is the library's: it
  is an argument, assumed to give values of the declared types.
\<close>

section \<open>Parameters\<close>

text \<open>\<open>TU64\<close> is the hexadecimal \<open>U64\<close> of the web3 types, \<open>TNumber64\<close> the plain \<open>u64\<close>.\<close>

datatype ptype =
  TAddress | TU256 | TH256 | TU64 | TNumber64 | TU32 | TU16 | TU8 | TUsize | TF32 | TBool | TString | TBytes | TIndex
| TCallRequest | TFilter | TBlockNumber | TBlockId | TBlockIdVariant | TTracerConfig | TLogLevel | TResetRequest
| TOption ptype
| TVec ptype

datatype param =
  VAddress address | VU256 u256 | VH256 h256 | VU64 u64 | VU32 u32 | VU16 u16 | VU8 u8 | VF32 f32
| VBool bool | VString string | VBytes bytes
| VCallRequest call_request | VFilter filter_spec | VBlockNumber block_number | VBlockId trace_block
| VBlockIdVariant block_id | VTracerConfig bool | VLogLevel log_level | VResetRequest reset_request
| VNone
| VList "param list"

primrec has_type :: "ptype \<Rightarrow> param \<Rightarrow> bool" where
  "has_type TAddress p = (case p of VAddress a \<Rightarrow> True | _ \<Rightarrow> False)"
| "has_type TU256 p = (case p of VU256 v \<Rightarrow> True | _ \<Rightarrow> False)"
| "has_type TH256 p = (case p of VH256 h \<Rightarrow> True | _ \<Rightarrow> False)"
| "has_type TU64 p = (case p of VU64 k \<Rightarrow> True | _ \<Rightarrow> False)"
| "has_type TNumber64 p = (case p of VU64 k \<Rightarrow> True | _ \<Rightarrow> False)"
| "has_type TU32 p = (case p of VU32 k \<Rightarrow> True | _ \<Rightarrow> False)"
| "has_type TU16 p = (case p of VU16 k \<Rightarrow> True | _ \<Rightarrow> False)"
| "has_type TU8 p = (case p of VU8 k \<Rightarrow> True | _ \<Rightarrow> False)"
| "has_type TUsize p = (case p of VU64 k \<Rightarrow> True | _ \<Rightarrow> False)"
| "has_type TF32 p = (case p of VF32 x \<Rightarrow> True | _ \<Rightarrow> False)"
| "has_type TBool p = (case p of VBool b \<Rightarrow> True | _ \<Rightarrow> False)"
| "has_type TString p = (case p of VString s \<Rightarrow> True | _ \<Rightarrow> False)"
| "has_type TBytes p = (case p of VBytes bs \<Rightarrow> True | _ \<Rightarrow> False)"
| "has_type TIndex p = (case p of VU64 k \<Rightarrow> True | _ \<Rightarrow> False)"
| "has_type TCallRequest p = (case p of VCallRequest r \<Rightarrow> True | _ \<Rightarrow> False)"
| "has_type TFilter p = (case p of VFilter f \<Rightarrow> True | _ \<Rightarrow> False)"
| "has_type TBlockNumber p = (case p of VBlockNumber b \<Rightarrow> True | _ \<Rightarrow> False)"
| "has_type TBlockId p = (case p of VBlockId b \<Rightarrow> True | _ \<Rightarrow> False)"
| "has_type TBlockIdVariant p = (case p of VBlockIdVariant b \<Rightarrow> True | _ \<Rightarrow> False)"
| "has_type TTracerConfig p = (case p of VTracerConfig b \<Rightarrow> True | _ \<Rightarrow> False)"
| "has_type TLogLevel p = (case p of VLogLevel l \<Rightarrow> True | _ \<Rightarrow> False)"
| "has_type TResetRequest p = (case p of VResetRequest r \<Rightarrow> True | _ \<Rightarrow> False)"
| "has_type (TOption t) p = (p = VNone \<or> has_type t p)"
| "has_type (TVec t) p = (case p of VList ps \<Rightarrow> list_all (has_type t) ps | _ \<Rightarrow> False)"

text \<open>A kind of parameter: its type, and the value in it.\<close>

type_synonym 'a kind = "ptype \<times> (param \<Rightarrow> 'a option)"

definition address_kind :: "address kind" where
  "address_kind = (TAddress, \<lambda>p. case p of VAddress a \<Rightarrow> Some a | _ \<Rightarrow> None)"
definition u256_kind :: "u256 kind" where
  "u256_kind = (TU256, \<lambda>p. case p of VU256 v \<Rightarrow> Some v | _ \<Rightarrow> None)"
definition h256_kind :: "h256 kind" where
  "h256_kind = (TH256, \<lambda>p. case p of VH256 h \<Rightarrow> Some h | _ \<Rightarrow> None)"
definition u64_kind :: "u64 kind" where
  "u64_kind = (TU64, \<lambda>p. case p of VU64 k \<Rightarrow> Some k | _ \<Rightarrow> None)"
definition number_kind :: "u64 kind" where
  "number_kind = (TNumber64, \<lambda>p. case p of VU64 k \<Rightarrow> Some k | _ \<Rightarrow> None)"
definition bool_kind :: "bool kind" where
  "bool_kind = (TBool, \<lambda>p. case p of VBool b \<Rightarrow> Some b | _ \<Rightarrow> None)"
definition string_kind :: "string kind" where
  "string_kind = (TString, \<lambda>p. case p of VString s \<Rightarrow> Some s | _ \<Rightarrow> None)"
definition bytes_kind :: "bytes kind" where
  "bytes_kind = (TBytes, \<lambda>p. case p of VBytes bs \<Rightarrow> Some bs | _ \<Rightarrow> None)"
definition call_kind :: "call_request kind" where
  "call_kind = (TCallRequest, \<lambda>p. case p of VCallRequest r \<Rightarrow> Some r | _ \<Rightarrow> None)"
definition filter_kind :: "filter_spec kind" where
  "filter_kind = (TFilter, \<lambda>p. case p of VFilter f \<Rightarrow> Some f | _ \<Rightarrow> None)"
definition block_number_kind :: "block_number kind" where
  "block_number_kind = (TBlockNumber, \<lambda>p. case p of VBlockNumber b \<Rightarrow> Some b | _ \<Rightarrow> None)"
definition block_id_kind :: "trace_block kind" where
  "block_id_kind = (TBlockId, \<lambda>p. case p of VBlockId b \<Rightarrow> Some b | _ \<Rightarrow> None)"
definition variant_kind :: "block_id kind" where
  "variant_kind = (TBlockIdVariant, \<lambda>p. case p of VBlockIdVariant b \<Rightarrow> Some b | _ \<Rightarrow> None)"
definition tracer_kind :: "bool kind" where
  "tracer_kind = (TTracerConfig, \<lambda>p. case p of VTracerConfig b \<Rightarrow> Some b | _ \<Rightarrow> None)"
definition level_kind :: "log_level kind" where
  "level_kind = (TLogLevel, \<lambda>p. case p of VLogLevel l \<Rightarrow> Some l | _ \<Rightarrow> None)"
definition reset_kind :: "reset_request kind" where
  "reset_kind = (TResetRequest, \<lambda>p. case p of VResetRequest r \<Rightarrow> Some r | _ \<Rightarrow> None)"
definition u32_kind :: "u32 kind" where
  "u32_kind = (TU32, \<lambda>p. case p of VU32 k \<Rightarrow> Some k | _ \<Rightarrow> None)"
definition u16_kind :: "u16 kind" where
  "u16_kind = (TU16, \<lambda>p. case p of VU16 k \<Rightarrow> Some k | _ \<Rightarrow> None)"
definition u8_kind :: "u8 kind" where
  "u8_kind = (TU8, \<lambda>p. case p of VU8 k \<Rightarrow> Some k | _ \<Rightarrow> None)"
definition usize_kind :: "u64 kind" where
  "usize_kind = (TUsize, \<lambda>p. case p of VU64 k \<Rightarrow> Some k | _ \<Rightarrow> None)"
definition index_kind :: "u64 kind" where
  "index_kind = (TIndex, \<lambda>p. case p of VU64 k \<Rightarrow> Some k | _ \<Rightarrow> None)"
definition f32_kind :: "f32 kind" where
  "f32_kind = (TF32, \<lambda>p. case p of VF32 x \<Rightarrow> Some x | _ \<Rightarrow> None)"

definition optional :: "'a kind \<Rightarrow> 'a option kind" where
  "optional k = (TOption (fst k), \<lambda>p. if p = VNone then Some None else map_option Some (snd k p))"

definition array_of :: "'a kind \<Rightarrow> 'a list kind" where
  "array_of k = (TVec (fst k), \<lambda>p. case p of VList ps \<Rightarrow> those (map (snd k) ps) | _ \<Rightarrow> None)"

section \<open>Methods\<close>

text \<open>A method: its name, the types of its parameters and of its result, and the request it makes.\<close>

record rpc_method =
  md_name :: string
  md_params :: "ptype list"
  md_returns :: rtype
  md_request :: "param list \<Rightarrow> request option"

definition method0 :: "string \<Rightarrow> rtype \<Rightarrow> request \<Rightarrow> rpc_method" where
  "method0 name t r = \<lparr>md_name = name, md_params = [], md_returns = t,
     md_request = \<lambda>ps. if ps = [] then Some r else None\<rparr>"

definition method1 :: "string \<Rightarrow> 'a kind \<Rightarrow> rtype \<Rightarrow> ('a \<Rightarrow> request) \<Rightarrow> rpc_method" where
  "method1 name k t f = \<lparr>md_name = name, md_params = [fst k], md_returns = t,
     md_request = \<lambda>ps. case ps of [p] \<Rightarrow> map_option f (snd k p) | _ \<Rightarrow> None\<rparr>"

definition method2 :: "string \<Rightarrow> 'a kind \<Rightarrow> 'b kind \<Rightarrow> rtype \<Rightarrow> ('a \<Rightarrow> 'b \<Rightarrow> request) \<Rightarrow> rpc_method" where
  "method2 name k l t f = \<lparr>md_name = name, md_params = [fst k, fst l], md_returns = t,
     md_request = \<lambda>ps. case ps of
         [p, q] \<Rightarrow> Option.bind (snd k p) (\<lambda>x. map_option (f x) (snd l q)) | _ \<Rightarrow> None\<rparr>"

definition method3 ::
  "string \<Rightarrow> 'a kind \<Rightarrow> 'b kind \<Rightarrow> 'c kind \<Rightarrow> rtype \<Rightarrow> ('a \<Rightarrow> 'b \<Rightarrow> 'c \<Rightarrow> request) \<Rightarrow> rpc_method" where
  "method3 name k l m t f = \<lparr>md_name = name, md_params = [fst k, fst l, fst m], md_returns = t,
     md_request = \<lambda>ps. case ps of
         [p, q, r] \<Rightarrow> Option.bind (snd k p) (\<lambda>x. Option.bind (snd l q) (\<lambda>y. map_option (f x y) (snd m r))) | _ \<Rightarrow> None\<rparr>"

definition method4 ::
  "string \<Rightarrow> 'a kind \<Rightarrow> 'b kind \<Rightarrow> 'c kind \<Rightarrow> 'd kind \<Rightarrow> rtype \<Rightarrow> ('a \<Rightarrow> 'b \<Rightarrow> 'c \<Rightarrow> 'd \<Rightarrow> request) \<Rightarrow> rpc_method" where
  "method4 name k l m j t f = \<lparr>md_name = name, md_params = [fst k, fst l, fst m, fst j], md_returns = t,
     md_request = \<lambda>ps. case ps of
         [p, q, r, s] \<Rightarrow> Option.bind (snd k p) (\<lambda>x. Option.bind (snd l q) (\<lambda>y.
           Option.bind (snd m r) (\<lambda>z. map_option (f x y z) (snd j s)))) | _ \<Rightarrow> None\<rparr>"

section \<open>Namespaces\<close>

definition net_namespace :: "rpc_method list" where
  "net_namespace =
     [method0 ''net_version'' (RNamed ''String'') (Ask (NodeQuery NetVersion)),
      method0 ''net_peerCount'' (RNamed ''U256'') (Ask (NodeQuery NetPeerCount)),
      method0 ''net_listening'' (RNamed ''bool'') (Ask (NodeQuery NetListening))]"

definition web3_namespace :: "rpc_method list" where
  "web3_namespace =
     [method0 ''web3_clientVersion'' (RNamed ''String'') (Ask (NodeQuery Web3ClientVersion))]"

definition config_namespace :: "rpc_method list" where
  "config_namespace =
     [method0 ''config_getShowCalls'' (RNamed ''String'') (Ask (NodeQuery ConfigGetShowCalls)),
      method0 ''config_getShowOutputs'' (RNamed ''bool'') (Ask (NodeQuery ConfigGetShowOutputs)),
      method0 ''config_getCurrentTimestamp'' (RNamed ''u64'') (Ask (NodeQuery ConfigGetCurrentTimestamp)),
      method1 ''config_setShowCalls'' string_kind (RNamed ''String'') (\<lambda>v. Config (SetShowCalls v)),
      method1 ''config_setShowOutputs'' bool_kind (RNamed ''bool'') (\<lambda>v. Config (SetShowOutputs v)),
      method1 ''config_setShowStorageLogs'' string_kind (RNamed ''String'')
         (\<lambda>v. Config (SetShowStorageLogs v)),
      method1 ''config_setShowVmDetails'' string_kind (RNamed ''String'') (\<lambda>v. Config (SetShowVMDetails v)),
      method1 ''config_setShowGasDetails'' string_kind (RNamed ''String'')
         (\<lambda>v. Config (SetShowGasDetails v)),
      method1 ''config_setResolveHashes'' bool_kind (RNamed ''bool'') (\<lambda>v. Config (SetResolveHashes v)),
      method1 ''config_setLogLevel'' level_kind (RNamed ''bool'') (\<lambda>v. Config (SetLogLevel v)),
      method1 ''config_setLogging'' string_kind (RNamed ''bool'') (\<lambda>v. Config (SetLogging v))]"

definition debug_namespace :: "rpc_method list" where
  "debug_namespace =
     [method2 ''debug_traceBlockByNumber'' block_number_kind (optional tracer_kind) (RVec (RNamed ''ResultDebugCall''))
         (\<lambda>b t. Ask (NodeQuery (DebugTraceBlockByNumber b t))),
      method2 ''debug_traceBlockByHash'' h256_kind (optional tracer_kind) (RVec (RNamed ''ResultDebugCall''))
         (\<lambda>h t. Ask (NodeQuery (DebugTraceBlockByHash h t))),
      method3 ''debug_traceCall'' call_kind (optional block_id_kind) (optional tracer_kind) (RNamed ''DebugCall'')
         DebugTraceCall,
      method2 ''debug_traceTransaction'' h256_kind (optional tracer_kind) (ROption (RNamed ''DebugCall''))
         (\<lambda>h t. Ask (NodeQuery (DebugTraceTransaction h t)))]"

definition eth_namespace :: "rpc_method list" where
  "eth_namespace =
     [method0 ''eth_blockNumber'' (RNamed ''U64'') (Ask (EthQuery EthBlockNumber)),
      method0 ''eth_chainId'' (RNamed ''U64'') (Ask (EthQuery EthChainId)),
      method2 ''eth_call'' call_kind (optional variant_kind) (RNamed ''Bytes'') (\<lambda>req _. Eth (EthCall req)),
      method2 ''eth_estimateGas'' call_kind (optional block_number_kind) (RNamed ''U256'')
         (\<lambda>req _. Eth (EthEstimateGas req)),
      method0 ''eth_gasPrice'' (RNamed ''U256'') (Ask (EthQuery EthGasPrice)),
      method1 ''eth_newFilter'' filter_kind (RNamed ''U256'') (\<lambda>f. Eth (EthNewFilter f)),
      method0 ''eth_newBlockFilter'' (RNamed ''U256'') (Eth EthNewBlockFilter),
      method1 ''eth_uninstallFilter'' u256_kind (RNamed ''bool'') (\<lambda>i. Eth (EthUninstallFilter i)),
      method0 ''eth_newPendingTransactionFilter'' (RNamed ''U256'') (Eth EthNewPendingTransactionFilter),
      method1 ''eth_getLogs'' filter_kind (RVec (RNamed ''Log'')) (\<lambda>f. Ask (EthQuery (EthGetLogs f))),
      method1 ''eth_getFilterLogs'' u256_kind (RNamed ''FilterChanges'')
         (\<lambda>i. Ask (EthQuery (EthGetFilterLogs i))),
      method1 ''eth_getFilterChanges'' u256_kind (RNamed ''FilterChanges'')
         (\<lambda>i. Eth (EthGetFilterChanges i)),
      method2 ''eth_getBalance'' address_kind (optional variant_kind) (RNamed ''U256'')
         (\<lambda>a _. Eth (EthGetBalance a)),
      method2 ''eth_getBlockByNumber'' block_number_kind bool_kind (ROption (RNamed ''Block<TransactionVariant>''))
         (\<lambda>b full. Ask (EthQuery (EthGetBlockByNumber b full))),
      method2 ''eth_getBlockByHash'' h256_kind bool_kind (ROption (RNamed ''Block<TransactionVariant>''))
         (\<lambda>h full. Ask (EthQuery (EthGetBlockByHash h full))),
      method1 ''eth_getBlockTransactionCountByNumber'' block_number_kind (ROption (RNamed ''U256''))
         (\<lambda>b. Ask (EthQuery (EthGetBlockTransactionCountByNumber b))),
      method1 ''eth_getBlockTransactionCountByHash'' h256_kind (ROption (RNamed ''U256''))
         (\<lambda>h. Ask (EthQuery (EthGetBlockTransactionCountByHash h))),
      method2 ''eth_getCode'' address_kind (optional variant_kind) (RNamed ''Bytes'')
         (\<lambda>a _. Eth (EthGetCode a)),
      method3 ''eth_getStorageAt'' address_kind u256_kind (optional variant_kind) (RNamed ''H256'')
         (\<lambda>a k b. Eth (EthGetStorage a k b)),
      method2 ''eth_getTransactionCount'' address_kind (optional variant_kind) (RNamed ''U256'')
         (\<lambda>a _. Eth (EthGetTransactionCount a)),
      method1 ''eth_getTransactionByHash'' h256_kind (ROption (RNamed ''Transaction''))
         (\<lambda>h. Ask (EthQuery (EthGetTransactionByHash h))),
      method2 ''eth_getTransactionByBlockHashAndIndex'' h256_kind index_kind (ROption (RNamed ''Transaction''))
         (\<lambda>h i. Ask (EthQuery (EthGetTransactionByBlockHashAndIndex h i))),
      method2 ''eth_getTransactionByBlockNumberAndIndex'' block_number_kind index_kind (ROption (RNamed ''Transaction''))
         (\<lambda>b i. Ask (EthQuery (EthGetTransactionByBlockNumberAndIndex b i))),
      method1 ''eth_getTransactionReceipt'' h256_kind (ROption (RNamed ''TransactionReceipt''))
         (\<lambda>h. Ask (EthQuery (EthGetTransactionReceipt h))),
      method0 ''eth_protocolVersion'' (RNamed ''String'') (Ask (EthQuery EthProtocolVersion)),
      method1 ''eth_sendRawTransaction'' bytes_kind (RNamed ''H256'') (\<lambda>bs. Eth (EthSendRawTransaction bs)),
      method0 ''eth_syncing'' (RNamed ''SyncState'') (Ask (EthQuery EthSyncing)),
      method0 ''eth_accounts'' (RVec (RNamed ''Address'')) (Ask (EthQuery EthAccounts)),
      method0 ''eth_coinbase'' (RNamed ''Address'') (Ask (EthQuery EthCoinbase)),
      method0 ''eth_getCompilers'' (RVec (RNamed ''String'')) (Ask (EthQuery EthGetCompilers)),
      method0 ''eth_hashrate'' (RNamed ''U256'') (Ask (EthQuery EthHashrate)),
      method1 ''eth_getUncleCountByBlockHash'' h256_kind (ROption (RNamed ''U256''))
         (\<lambda>_. Ask (EthQuery EthGetUncleCountByBlockHash)),
      method1 ''eth_getUncleCountByBlockNumber'' block_number_kind (ROption (RNamed ''U256''))
         (\<lambda>_. Ask (EthQuery EthGetUncleCountByBlockNumber)),
      method0 ''eth_mining'' (RNamed ''bool'') (Ask (EthQuery EthMining)),
      method3 ''eth_feeHistory'' u64_kind block_number_kind (array_of f32_kind) (RNamed ''FeeHistory'')
         (\<lambda>k b ps. Ask (EthQuery (EthFeeHistory k b ps)))]"

definition eth_test_namespace :: "rpc_method list" where
  "eth_test_namespace =
     [method1 ''eth_sendTransaction'' call_kind (RNamed ''H256'') (\<lambda>tx. Eth (EthSendTransaction tx))]"

definition anvil_namespace :: "rpc_method list" where
  "anvil_namespace =
     [method2 ''anvil_setBalance'' address_kind u256_kind (RNamed ''bool'') (\<lambda>a v. Anvil (SetBalance a v)),
      method2 ''anvil_setNonce'' address_kind u256_kind (RNamed ''bool'') (\<lambda>a v. Anvil (SetNonce a v)),
      method2 ''anvil_mine'' (optional u64_kind) (optional u64_kind) (RNamed ''bool'')
         (\<lambda>k i. Anvil (Mine k i)),
      method1 ''anvil_reset'' (optional reset_kind) (RNamed ''bool'') (\<lambda>spec. Anvil (Reset spec)),
      method1 ''anvil_impersonateAccount'' address_kind (RNamed ''bool'')
         (\<lambda>a. Anvil (ImpersonateAccount a)),
      method1 ''anvil_stopImpersonatingAccount'' address_kind (RNamed ''bool'')
         (\<lambda>a. Anvil (StopImpersonatingAccount a)),
      method2 ''anvil_setCode'' address_kind string_kind (RNamed ''()'') (\<lambda>a c. Anvil (SetCode a c)),
      method3 ''anvil_setStorageAt'' address_kind u256_kind u256_kind (RNamed ''bool'')
         (\<lambda>a k v. Anvil (SetStorageAt a k v))]"

definition evm_namespace :: "rpc_method list" where
  "evm_namespace =
     [method1 ''evm_increaseTime'' number_kind (RNamed ''u64'') (\<lambda>t. Evm (EvmIncreaseTime t)),
      method2 ''evm_setAccountNonce'' address_kind u256_kind (RNamed ''bool'')
         (\<lambda>a v. Evm (EvmSetNonce a v)),
      method0 ''evm_mine'' (RNamed ''String'') (Evm EvmMine),
      method1 ''evm_setNextBlockTimestamp'' u64_kind (RNamed ''U64'')
         (\<lambda>t. Evm (EvmSetNextBlockTimestamp t)),
      method1 ''evm_setTime'' number_kind (RNamed ''i128'') (\<lambda>t. Evm (EvmSetTime t)),
      method0 ''evm_snapshot'' (RNamed ''U64'') (Evm EvmSnapshot),
      method1 ''evm_revert'' u64_kind (RNamed ''bool'') (\<lambda>i. Evm (EvmRevert i))]"

definition hardhat_namespace :: "rpc_method list" where
  "hardhat_namespace =
     [method2 ''hardhat_setBalance'' address_kind u256_kind (RNamed ''bool'')
         (\<lambda>a v. Hardhat (SetBalance a v)),
      method2 ''hardhat_setNonce'' address_kind u256_kind (RNamed ''bool'') (\<lambda>a v. Hardhat (SetNonce a v)),
      method2 ''hardhat_mine'' (optional u64_kind) (optional u64_kind) (RNamed ''bool'')
         (\<lambda>k i. Hardhat (Mine k i)),
      method1 ''hardhat_reset'' (optional reset_kind) (RNamed ''bool'') (\<lambda>spec. Hardhat (Reset spec)),
      method1 ''hardhat_impersonateAccount'' address_kind (RNamed ''bool'')
         (\<lambda>a. Hardhat (ImpersonateAccount a)),
      method1 ''hardhat_stopImpersonatingAccount'' address_kind (RNamed ''bool'')
         (\<lambda>a. Hardhat (StopImpersonatingAccount a)),
      method2 ''hardhat_setCode'' address_kind string_kind (RNamed ''()'') (\<lambda>a c. Hardhat (SetCode a c)),
      method3 ''hardhat_setStorageAt'' address_kind u256_kind u256_kind (RNamed ''bool'')
         (\<lambda>a k v. Hardhat (SetStorageAt a k v))]"

definition zks_namespace :: "rpc_method list" where
  "zks_namespace =
     [method1 ''zks_estimateFee'' call_kind (RNamed ''Fee'') ZksEstimateFee,
      method1 ''zks_estimateGasL1ToL2'' call_kind (RNamed ''U256'')
         (\<lambda>_. Ask (ZksQuery ZksEstimateGasL1ToL2)),
      method0 ''zks_getMainContract'' (RNamed ''Address'') (Ask (ZksQuery ZksGetMainContract)),
      method0 ''zks_getTestnetPaymaster'' (ROption (RNamed ''Address'')) (Ask (ZksQuery ZksGetTestnetPaymaster)),
      method0 ''zks_getBridgeContracts'' (RNamed ''BridgeAddresses'') (Ask (ZksQuery ZksGetBridgeContracts)),
      method0 ''zks_L1ChainId'' (RNamed ''U64'') (Ask (ZksQuery ZksL1ChainId)),
      method2 ''zks_getConfirmedTokens'' u32_kind u8_kind (RVec (RNamed ''Token''))
         (\<lambda>i k. Ask (ZksQuery (ZksGetConfirmedTokens i k))),
      method1 ''zks_getTokenPrice'' address_kind (RNamed ''BigDecimal'')
         (\<lambda>a. Ask (ZksQuery (ZksGetTokenPrice a))),
      method1 ''zks_getAllAccountBalances'' address_kind (RNamed ''HashMap<Address, U256>'')
         ZksGetAllAccountBalances,
      method4 ''zks_getL2ToL1MsgProof'' u32_kind address_kind h256_kind (optional usize_kind) (ROption (RNamed ''L2ToL1LogProof''))
         (\<lambda>_ _ _ _. Ask (ZksQuery ZksGetL2ToL1MsgProof)),
      method2 ''zks_getL2ToL1LogProof'' h256_kind (optional usize_kind) (ROption (RNamed ''L2ToL1LogProof''))
         (\<lambda>_ _. Ask (ZksQuery ZksGetL2ToL1LogProof)),
      method0 ''zks_L1BatchNumber'' (RNamed ''U64'') (Ask (ZksQuery ZksL1BatchNumber)),
      method1 ''zks_getBlockDetails'' u32_kind (ROption (RNamed ''BlockDetails''))
         (\<lambda>k. Ask (ZksQuery (ZksGetBlockDetails k))),
      method1 ''zks_getL1BatchBlockRange'' u32_kind (ROption (RPair (RNamed ''U64'') (RNamed ''U64'')))
         (\<lambda>_. Ask (ZksQuery ZksGetL1BatchBlockRange)),
      method1 ''zks_getTransactionDetails'' h256_kind (ROption (RNamed ''TransactionDetails''))
         (\<lambda>h. Ask (ZksQuery (ZksGetTransactionDetails h))),
      method1 ''zks_getRawBlockTransactions'' u32_kind (RVec (RNamed ''zksync_types::Transaction''))
         (\<lambda>k. Ask (ZksQuery (ZksGetRawBlockTransactions k))),
      method1 ''zks_getL1BatchDetails'' u32_kind (ROption (RNamed ''L1BatchDetails''))
         (\<lambda>_. Ask (ZksQuery ZksGetL1BatchDetails)),
      method1 ''zks_getBytecodeByHash'' h256_kind (ROption (RNamed ''Vec<u8>'')) ZksGetBytecodeByHash,
      method0 ''zks_getL1GasPrice'' (RNamed ''U64'') (Ask (ZksQuery ZksGetL1GasPrice)),
      method1 ''zks_getProtocolVersion'' (optional u16_kind) (ROption (RNamed ''ProtocolVersion''))
         (\<lambda>_. Ask (ZksQuery ZksGetProtocolVersion)),
      method3 ''zks_getProof'' address_kind (array_of h256_kind) u32_kind (RNamed ''Proof'')
         (\<lambda>_ _ _. Ask (ZksQuery ZksGetProof)),
      method0 ''zks_getBaseTokenL1Address'' (RNamed ''Address'') (Ask (ZksQuery ZksGetBaseTokenL1Address))]"

section \<open>The handler\<close>

type_synonym handler = "string \<rightharpoonup> rpc_method"

definition extend_with :: "handler \<Rightarrow> rpc_method list \<Rightarrow> handler" where
  "extend_with h ms = foldl (\<lambda>h m. h(md_name m \<mapsto> m)) h ms"

definition namespaces :: "rpc_method list list" where
  "namespaces = [net_namespace, web3_namespace, config_namespace, debug_namespace, eth_namespace,
     eth_test_namespace, anvil_namespace, evm_namespace, hardhat_namespace, zks_namespace]"

definition io_handler :: handler where
  "io_handler = foldl extend_with Map.empty namespaces"

datatype reply = MethodNotFound | InvalidParams | Stuck | Served request answer

definition rpc_call ::
  "world \<Rightarrow> (ptype list \<Rightarrow> 'j \<Rightarrow> param list option) \<Rightarrow> string \<Rightarrow> 'j \<Rightarrow> node \<Rightarrow> reply \<times> node" where
  "rpc_call W parse name params nd =
     (case io_handler name of
        None \<Rightarrow> (MethodNotFound, nd)
      | Some m \<Rightarrow>
          (case parse (md_params m) params of
             None \<Rightarrow> (InvalidParams, nd)
           | Some ps \<Rightarrow>
               (case md_request m ps of
                  None \<Rightarrow> (Stuck, nd)
                | Some r \<Rightarrow> (let (x, nd') = answer_request W r nd in (Served r x, nd')))))"

section \<open>Lemmas\<close>

text \<open>Parameters of the declared types always make a request.\<close>

definition kind_ok :: "'a kind \<Rightarrow> bool" where
  "kind_ok k \<longleftrightarrow> (\<forall>p. has_type (fst k) p \<longrightarrow> snd k p \<noteq> None)"

definition method_ok :: "rpc_method \<Rightarrow> bool" where
  "method_ok m \<longleftrightarrow> (\<forall>ps. list_all2 has_type (md_params m) ps \<longrightarrow> md_request m ps \<noteq> None)"

lemma plain_kinds_ok:
  "kind_ok address_kind" "kind_ok u256_kind" "kind_ok h256_kind" "kind_ok u64_kind" "kind_ok number_kind"
  "kind_ok bool_kind" "kind_ok string_kind" "kind_ok bytes_kind" "kind_ok call_kind" "kind_ok filter_kind"
  "kind_ok block_number_kind" "kind_ok block_id_kind" "kind_ok variant_kind" "kind_ok tracer_kind"
  "kind_ok level_kind" "kind_ok reset_kind" "kind_ok u32_kind" "kind_ok u16_kind" "kind_ok u8_kind" "kind_ok usize_kind"
  "kind_ok index_kind" "kind_ok f32_kind"
  by (simp_all add: kind_ok_def address_kind_def u256_kind_def h256_kind_def u64_kind_def number_kind_def bool_kind_def
      string_kind_def bytes_kind_def call_kind_def filter_kind_def block_number_kind_def block_id_kind_def variant_kind_def
      tracer_kind_def level_kind_def reset_kind_def u32_kind_def u16_kind_def u8_kind_def usize_kind_def index_kind_def
      f32_kind_def split: param.split)

lemma optional_ok: "kind_ok k \<Longrightarrow> kind_ok (optional k)"
  by (auto simp: kind_ok_def optional_def)

lemma array_of_ok: "kind_ok k \<Longrightarrow> kind_ok (array_of k)"
proof -
  have "list_all (has_type (fst k)) ps \<Longrightarrow> those (map (snd k) ps) \<noteq> None" if "kind_ok k" for ps
    using that by (induction ps) (auto simp: kind_ok_def split: option.split)
  then show "kind_ok k \<Longrightarrow> kind_ok (array_of k)" by (auto simp: kind_ok_def array_of_def split: param.split)
qed

lemma methods_ok:
  "method_ok (method0 name t r)" "kind_ok k \<Longrightarrow> method_ok (method1 name k t f)"
  "kind_ok k \<Longrightarrow> kind_ok l \<Longrightarrow> method_ok (method2 name k l t g)"
  "kind_ok k \<Longrightarrow> kind_ok l \<Longrightarrow> kind_ok m \<Longrightarrow> method_ok (method3 name k l m t h)"
  "kind_ok k \<Longrightarrow> kind_ok l \<Longrightarrow> kind_ok m \<Longrightarrow> kind_ok j \<Longrightarrow> method_ok (method4 name k l m j t i)"
  unfolding method_ok_def kind_ok_def method0_def method1_def method2_def method3_def method4_def
  by (auto simp: list_all2_Cons1) (fastforce simp: bind_eq_Some_conv)+

lemmas typed_methods = methods_ok plain_kinds_ok optional_ok array_of_ok

text \<open>The request of a method has the result type the method declares.\<close>

definition method_typed :: "rpc_method \<Rightarrow> bool" where
  "method_typed m \<longleftrightarrow> (\<forall>ps r. md_request m ps = Some r \<longrightarrow> request_type r = md_returns m)"

lemma methods_typed:
  "request_type r = t \<Longrightarrow> method_typed (method0 name t r)"
  "(\<And>x. request_type (g1 x) = t) \<Longrightarrow> method_typed (method1 name k t g1)"
  "(\<And>x y. request_type (g2 x y) = t) \<Longrightarrow> method_typed (method2 name k l t g2)"
  "(\<And>x y z. request_type (g3 x y z) = t) \<Longrightarrow> method_typed (method3 name k l m t g3)"
  "(\<And>x y z w. request_type (g4 x y z w) = t) \<Longrightarrow> method_typed (method4 name k l m j t g4)"
  unfolding method_typed_def method0_def method1_def method2_def method3_def method4_def
  by (auto simp: bind_eq_Some_conv split: list.splits if_splits)

lemma namespaces_typed: "m \<in> set (concat namespaces) \<Longrightarrow> method_typed m"
proof -
  have "list_all method_typed net_namespace" "list_all method_typed web3_namespace" "list_all method_typed config_namespace"
    "list_all method_typed debug_namespace" "list_all method_typed eth_namespace" "list_all method_typed eth_test_namespace"
    "list_all method_typed anvil_namespace" "list_all method_typed evm_namespace" "list_all method_typed hardhat_namespace"
    "list_all method_typed zks_namespace"
    by (simp_all add: methods_typed net_namespace_def web3_namespace_def config_namespace_def debug_namespace_def eth_namespace_def
        eth_test_namespace_def anvil_namespace_def evm_namespace_def hardhat_namespace_def zks_namespace_def)
  then show "m \<in> set (concat namespaces) \<Longrightarrow> method_typed m"
    by (auto simp: namespaces_def list_all_iff)
qed

lemma method_result:
  assumes "m \<in> set (concat namespaces)" and "md_request m ps = Some r" and "fst (answer_request W r nd) = Some (Ok v)"
  shows "has_result (md_returns m) v"
  using request_result [OF assms(3)] namespaces_typed [OF assms(1)] assms(2) by (simp add: method_typed_def)

lemma namespaces_ok: "m \<in> set (concat namespaces) \<Longrightarrow> method_ok m"
proof -
  have "list_all method_ok net_namespace" "list_all method_ok web3_namespace" "list_all method_ok config_namespace"
    "list_all method_ok debug_namespace" "list_all method_ok eth_namespace" "list_all method_ok eth_test_namespace"
    "list_all method_ok anvil_namespace" "list_all method_ok evm_namespace" "list_all method_ok hardhat_namespace"
    "list_all method_ok zks_namespace"
    by (simp_all add: typed_methods net_namespace_def web3_namespace_def config_namespace_def debug_namespace_def eth_namespace_def
        eth_test_namespace_def anvil_namespace_def evm_namespace_def hardhat_namespace_def zks_namespace_def)
  then show "m \<in> set (concat namespaces) \<Longrightarrow> method_ok m"
    by (auto simp: namespaces_def list_all_iff)
qed

lemma method_names [simp]:
  "md_name (method0 name t r) = name" "md_name (method1 name k t f) = name" "md_name (method2 name k l t g) = name"
  "md_name (method3 name k l m t h) = name" "md_name (method4 name k l m j t i) = name"
  by (simp_all add: method0_def method1_def method2_def method3_def method4_def)

text \<open>Names are told apart by what stands before the underscore, and within a namespace one by one.\<close>

definition prefix_of :: "string \<Rightarrow> string" where
  "prefix_of name = takeWhile (\<lambda>c. c \<noteq> CHR 0x5F) name"

lemma namespace_prefixes:
  "list_all (\<lambda>m. prefix_of (md_name m) = ''net'') net_namespace"
  "list_all (\<lambda>m. prefix_of (md_name m) = ''web3'') web3_namespace"
  "list_all (\<lambda>m. prefix_of (md_name m) = ''config'') config_namespace"
  "list_all (\<lambda>m. prefix_of (md_name m) = ''debug'') debug_namespace"
  "list_all (\<lambda>m. prefix_of (md_name m) = ''anvil'') anvil_namespace"
  "list_all (\<lambda>m. prefix_of (md_name m) = ''evm'') evm_namespace"
  "list_all (\<lambda>m. prefix_of (md_name m) = ''hardhat'') hardhat_namespace"
  "list_all (\<lambda>m. prefix_of (md_name m) = ''zks'') zks_namespace"
  "list_all (\<lambda>m. prefix_of (md_name m) = ''eth'') (eth_namespace @ eth_test_namespace)"
  by (simp_all add: prefix_of_def net_namespace_def web3_namespace_def config_namespace_def debug_namespace_def
      anvil_namespace_def evm_namespace_def hardhat_namespace_def zks_namespace_def
      eth_namespace_def eth_test_namespace_def)

lemma namespace_names:
  "distinct (map md_name net_namespace)"  "distinct (map md_name web3_namespace)"
  "distinct (map md_name config_namespace)"  "distinct (map md_name debug_namespace)"
  "distinct (map md_name anvil_namespace)"  "distinct (map md_name evm_namespace)"
  "distinct (map md_name hardhat_namespace)"  "distinct (map md_name zks_namespace)"
  "distinct (map md_name (eth_namespace @ eth_test_namespace))"
  by (simp_all add: net_namespace_def web3_namespace_def config_namespace_def debug_namespace_def
      anvil_namespace_def evm_namespace_def hardhat_namespace_def zks_namespace_def
      eth_namespace_def eth_test_namespace_def)

lemma distinct_by_prefix:
  "list_all (\<lambda>m. prefix_of (md_name m) = p) ms \<Longrightarrow> distinct (map md_name ms) \<Longrightarrow> distinct (map md_name ns) \<Longrightarrow>
   list_all (\<lambda>m. prefix_of (md_name m) \<noteq> p) ns \<Longrightarrow> distinct (map md_name (ms @ ns))"
  by (fastforce simp: list_all_iff)

lemma other_prefix: "list_all (\<lambda>m. prefix_of (md_name m) = q) ms \<Longrightarrow> q \<noteq> p \<Longrightarrow> list_all (\<lambda>m. prefix_of (md_name m) \<noteq> p) ms"
  by (simp add: list_all_iff)

lemma names_distinct: "distinct (map md_name (concat namespaces))"
proof -
  have "distinct (map md_name (net_namespace @ web3_namespace @ config_namespace @ debug_namespace @
      (eth_namespace @ eth_test_namespace) @ anvil_namespace @ evm_namespace @ hardhat_namespace @ zks_namespace))"
    by (intro distinct_by_prefix [OF namespace_prefixes(1)] distinct_by_prefix [OF namespace_prefixes(2)]
        distinct_by_prefix [OF namespace_prefixes(3)] distinct_by_prefix [OF namespace_prefixes(4)]
        distinct_by_prefix [OF namespace_prefixes(9)] distinct_by_prefix [OF namespace_prefixes(5)]
        distinct_by_prefix [OF namespace_prefixes(6)] distinct_by_prefix [OF namespace_prefixes(7)] namespace_names)
       (simp_all add: namespace_prefixes [THEN other_prefix] list_all_append
         namespace_prefixes(9) [unfolded list_all_append, THEN conjunct1, THEN other_prefix]
         namespace_prefixes(9) [unfolded list_all_append, THEN conjunct2, THEN other_prefix] del: append_assoc)
  then show ?thesis by (simp add: namespaces_def)
qed

abbreviation table :: "rpc_method list \<Rightarrow> handler" where
  "table ms \<equiv> map_of (map (\<lambda>m. (md_name m, m)) ms)"

lemma extend_table: "distinct (map md_name ms) \<Longrightarrow> extend_with h ms = h ++ table ms"
proof (induction ms arbitrary: h)
  case (Cons m ms)
  have "table ms (md_name m) = None" using Cons.prems by (auto simp: map_of_eq_None_iff)
  then have "h(md_name m \<mapsto> m) ++ table ms = h ++ table (m # ms)"
    by (auto simp: map_add_def fun_eq_iff split: option.split)
  moreover have "extend_with h (m # ms) = extend_with (h(md_name m \<mapsto> m)) ms" by (simp add: extend_with_def)
  ultimately show ?case using Cons.IH [of "h(md_name m \<mapsto> m)"] Cons.prems by (simp only: distinct.simps list.map)
qed (simp add: extend_with_def)

lemma extend_concat: "foldl extend_with h nss = extend_with h (concat nss)"
  by (induction nss arbitrary: h) (simp_all add: extend_with_def)

lemma io_handler_iff: "io_handler name = Some m \<longleftrightarrow> m \<in> set (concat namespaces) \<and> md_name m = name"
proof -
  have "io_handler = map_of (map (\<lambda>m. (md_name m, m)) (concat namespaces))"
    unfolding io_handler_def extend_concat extend_table [OF names_distinct] by simp
  moreover have "distinct (map fst (map (\<lambda>m. (md_name m, m)) (concat namespaces)))"
    using names_distinct by (simp only: map_map comp_def fst_conv)
  ultimately show ?thesis using map_of_eq_Some_iff [of "map (\<lambda>m. (md_name m, m)) (concat namespaces)" name m] by auto
qed

lemma rpc_call_reachable:
  assumes "reachable W nd" and "rpc_call W parse name params nd = (reply, nd')"
    and "\<And>r x. reply = Served r x \<Longrightarrow> small_request r"
  shows "reachable W nd'"
proof -
  have "reachable W nd1" if "small_request r" "answer_request W r nd = (x, nd1)" for r x nd1
    using reachable.served [OF assms(1) that(1)] that(2) by (simp add: serve_request_def)
  then show ?thesis using assms by (auto simp: rpc_call_def Let_def split: option.splits prod.splits)
qed

section \<open>Properties\<close>

text \<open>C11: the interface is complete and typed. No two namespaces declare a method of the same name, so
  that each of them, whatever the order in which they are added, answers under its own name.
  Provided the parser gives parameters of the types it is asked for, a call of a declared method
  whose parameters can be parsed is served as the request of that method and answered, and a result
  it is answered with has the type the method declares; a call whose parameters cannot be parsed, or of a
  name that is not declared, is refused, and the node is unchanged. No call gets stuck between its
  declaration and the operation behind it. (The largest gas limit of a transaction is assumed to be
  at most 2 to the 63rd, for gas estimations to end.)\<close>

theorem declared_methods_are_served:
  assumes "\<And>ts params ps. parse ts params = Some ps \<Longrightarrow> list_all2 has_type ts ps"
    and "unat (x_max_l2_tx_gas_limit (wo_ext W)) \<le> 2 ^ 63"
  shows "distinct (map md_name (concat namespaces)) \<and>
    (\<forall>m \<in> set (concat namespaces). \<forall>params nd.
       case parse (md_params m) params of
         None \<Rightarrow> rpc_call W parse (md_name m) params nd = (InvalidParams, nd)
       | Some ps \<Rightarrow> \<exists>r a. md_request m ps = Some r \<and>
           rpc_call W parse (md_name m) params nd = (Served r (Some a), serve_request W r nd) \<and>
           (\<forall>v. a = Ok v \<longrightarrow> has_result (md_returns m) v)) \<and>
    (\<forall>name params nd. name \<notin> md_name ` set (concat namespaces) \<longrightarrow>
       rpc_call W parse name params nd = (MethodNotFound, nd)) \<and>
    (\<forall>name params nd. fst (rpc_call W parse name params nd) \<noteq> Stuck)"
proof (intro conjI ballI allI impI names_distinct)
  fix m params nd assume m: "m \<in> set (concat namespaces)"
  have "io_handler (md_name m) = Some m" using m io_handler_iff by blast
  moreover have "md_request m ps \<noteq> None" if "parse (md_params m) params = Some ps" for ps
    using namespaces_ok [OF m] assms(1) [OF that] by (simp add: method_ok_def)
  ultimately show "case parse (md_params m) params of
         None \<Rightarrow> rpc_call W parse (md_name m) params nd = (InvalidParams, nd)
       | Some ps \<Rightarrow> \<exists>r a. md_request m ps = Some r \<and>
           rpc_call W parse (md_name m) params nd = (Served r (Some a), serve_request W r nd) \<and>
           (\<forall>v. a = Ok v \<longrightarrow> has_result (md_returns m) v)"
    using method_result [OF m] request_answered [OF assms(2)]
    by (fastforce simp: rpc_call_def serve_request_def case_prod_beta split: option.split)
next
  fix name params nd assume "name \<notin> md_name ` set (concat namespaces)"
  then have "io_handler name = None" using io_handler_iff [of name] by (metis image_eqI not_None_eq)
  then show "rpc_call W parse name params nd = (MethodNotFound, nd)" by (simp add: rpc_call_def)
next
  fix name params nd
  have "\<exists>r. md_request m ps = Some r" if "io_handler name = Some m" "parse (md_params m) params = Some ps" for m ps
    using namespaces_ok [of m] assms(1) [OF that(2)] that(1) io_handler_iff [of name m] by (auto simp: method_ok_def)
  then have "\<forall>m ps. io_handler name = Some m \<longrightarrow> parse (md_params m) params = Some ps \<longrightarrow> (\<exists>r. md_request m ps = Some r)"
    by blast
  then show "fst (rpc_call W parse name params nd) \<noteq> Stuck"
    by (cases "io_handler name"; cases "parse (md_params (the (io_handler name))) params")
       (auto simp: rpc_call_def case_prod_beta)
qed

text \<open>The witness: parameters that are already parsed, checked against the declaration.\<close>

definition checked :: "ptype list \<Rightarrow> param list \<Rightarrow> param list option" where
  "checked ts ps = (if list_all2 has_type ts ps then Some ps else None)"

lemma declared_methods_are_served_witness:
  "(\<exists>a. rpc_call lone_world checked ''hardhat_setBalance'' [VAddress 1, VU256 2] node0 =
       (Served (Hardhat (SetBalance 1 2)) (Some a), serve_request lone_world (Hardhat (SetBalance 1 2)) node0) \<and>
     (\<forall>v. a = Ok v \<longrightarrow> has_result (RNamed ''bool'') v)) \<and>
   rpc_call lone_world checked ''hardhat_setBalance'' [VAddress 1, VString []] node0 = (InvalidParams, node0)"
proof -
  let ?m = "method2 ''hardhat_setBalance'' address_kind u256_kind (RNamed ''bool'') (\<lambda>a v. Hardhat (SetBalance a v))"
  have m: "?m \<in> set (concat namespaces)" by (simp add: namespaces_def hardhat_namespace_def)
  have typed: "list_all2 has_type ts ps" if "checked ts params = Some ps" for ts params ps
    using that by (simp add: checked_def split: if_splits)
  have limit: "unat (x_max_l2_tx_gas_limit (wo_ext lone_world)) \<le> 2 ^ 63" by (simp add: lone_world_def ext0_def)
  have served: "case checked (md_params ?m) params of
         None \<Rightarrow> rpc_call lone_world checked (md_name ?m) params nd = (InvalidParams, nd)
       | Some ps \<Rightarrow> \<exists>r a. md_request ?m ps = Some r \<and>
           rpc_call lone_world checked (md_name ?m) params nd = (Served r (Some a), serve_request lone_world r nd) \<and>
           (\<forall>v. a = Ok v \<longrightarrow> has_result (md_returns ?m) v)" for params nd
    using declared_methods_are_served [of checked lone_world, OF typed limit, THEN conjunct2, THEN conjunct1, THEN bspec, OF _ m]
    by simp
  have "checked (md_params ?m) [VAddress 1, VU256 2] = Some [VAddress 1, VU256 2]"
    "checked (md_params ?m) [VAddress 1, VString []] = None"
    "md_request ?m [VAddress 1, VU256 2] = Some (Hardhat (SetBalance 1 2))" "md_returns ?m = RNamed ''bool''"
    by (simp_all add: checked_def method2_def address_kind_def u256_kind_def)
  then show ?thesis
    using served [of "[VAddress 1, VU256 2]" node0] served [of "[VAddress 1, VString []]" node0] by simp
qed

end
