(* ===== verification/Interleaving.thy ===== *)
theory Interleaving
  imports Ledger
begin

text \<open>
  Transactions that run at the same time. \<open>run_l2_tx\<close> (\<open>src/node/in_memory.rs\<close>) takes the lock of
  the inner state four times: to validate, to announce the transaction to the filters, to run it,
  and to commit it. Between two of them other requests may take the lock. A transaction is a job
  that takes one locked section at a time, and any number of jobs and requests are interleaved.
  (The server of \<open>main.rs\<close> has one worker thread and no section waits, so that it runs the
  sections of a transaction in a row; a program that shares the node between threads does not.)
\<close>

section \<open>Jobs\<close>

datatype job =
  Submitted l2_tx exec_mode
| Accepted l2_tx exec_mode
| Announced l2_tx exec_mode
| Executed l2_tx l2_tx_result
| Answered "(string, unit) res"

definition execute_section :: "ext \<Rightarrow> l2_tx \<Rightarrow> exec_mode \<Rightarrow> node \<Rightarrow> job \<times> node" where
  "execute_section E tx mode nd =
     (if nd_inner_poisoned nd then (Answered (Err read_lock_failed), nd)
      else let (r, fo) = run_l2_tx_raw E tx mode True (nd_inner nd);
               nd' = nd\<lparr>nd_inner := (nd_inner nd)\<lparr>n_fork_storage := fo\<rparr>\<rparr>
           in case r of
                Err e \<Rightarrow> (Answered (Err e), nd')
              | Panic \<Rightarrow> (Answered Panic, nd')
              | Ok lt \<Rightarrow>
                  (case vm_exec (lt_result lt) of
                     Halt reason \<Rightarrow> (Answered (Err (''Transaction HALT: '' @ reason)), nd')
                   | _ \<Rightarrow> (Executed tx lt, nd')))"

definition commit_section :: "ext \<Rightarrow> l2_tx \<Rightarrow> l2_tx_result \<Rightarrow> node \<Rightarrow> job \<times> node" where
  "commit_section E tx lt nd =
     (let (r, nd') = write_inner (Err write_lock_failed) (\<lambda>n. of_option n (commit_tx E tx lt n)) nd
      in (Answered r, nd'))"

fun job_step :: "ext \<Rightarrow> job \<Rightarrow> node \<Rightarrow> job \<times> node" where
  "job_step E (Submitted tx mode) nd =
     (case validate_tx tx nd of
        Ok _ \<Rightarrow> (Accepted tx mode, nd)
      | Err e \<Rightarrow> (Answered (Err e), nd)
      | Panic \<Rightarrow> (Answered Panic, nd))"
| "job_step E (Accepted tx mode) nd =
     (case write_inner (Err write_lock_failed) (\<lambda>n. (Ok (),
             n\<lparr>n_filters := notify_new_pending_transaction (x_tx_hash E tx) (n_filters n)\<rparr>)) nd of
        (Ok _, nd') \<Rightarrow> (Announced tx mode, nd')
      | (r, nd') \<Rightarrow> (Answered r, nd'))"
| "job_step E (Announced tx mode) nd = execute_section E tx mode nd"
| "job_step E (Executed tx lt) nd = commit_section E tx lt nd"
| "job_step E (Answered r) nd = (Answered r, nd)"

text \<open>One step of the whole: a transaction comes in, a job takes its next section, a request is served.\<close>

inductive interleaved :: "world \<Rightarrow> node \<times> job list \<Rightarrow> node \<times> job list \<Rightarrow> bool" for W where
  submit: "interleaved W (nd, js) (nd, js @ [Submitted tx mode])"
| advance: "i < length js \<Longrightarrow> job_step (wo_ext W) (js ! i) nd = (j, nd') \<Longrightarrow> interleaved W (nd, js) (nd', js[i := j])"
| request: "small_request r \<Longrightarrow> interleaved W (nd, js) (serve_request W r nd, js)"

inductive_cases interleavedE: "interleaved W s s'"

section \<open>Lemmas\<close>

text \<open>A job that is left alone is \<open>run_l2_tx\<close>.\<close>

definition take_section :: "ext \<Rightarrow> job \<times> node \<Rightarrow> job \<times> node" where
  "take_section E s = job_step E (fst s) (snd s)"

lemma job_alone:
  "(take_section E ^^ 4) (Submitted tx mode, nd) = (Answered (fst (run_l2_tx E tx mode nd)), snd (run_l2_tx E tx mode nd))"
proof (cases "validate_tx tx nd")
  case (Ok u)
  note p = validate_tx_Ok [OF Ok]
  show ?thesis
    using p run_l2_tx_unfold [OF Ok, of E mode]
    by (simp add: numeral_eq_Suc take_section_def Ok write_inner_def execute_section_def commit_section_def notified_def Let_def
        split: prod.split res.split exec_result.split)
qed (simp_all add: numeral_eq_Suc take_section_def run_l2_tx_def)

text \<open>What is known of the result of a run, however long ago it was.\<close>

fun job_ok :: "ext \<Rightarrow> job \<Rightarrow> bool" where
  "job_ok E (Executed tx lt) \<longleftrightarrow> b_hash (lt_block lt) = compute_hash E (b_number (lt_block lt)) (x_tx_hash E tx) \<and>
     bc_miniblock (lt_ctx lt) = b_number (lt_block lt)"
| "job_ok E _ \<longleftrightarrow> True"

lemma committed_chain:
  assumes "commit_tx E tx lt n = Some n'" and "job_ok E (Executed tx lt)"
  shows "transacted E (x_tx_hash E tx) (chain_of n) (chain_of n')"
proof -
  define n1 where "n1 = n\<lparr>n_fork_storage := store_bytecodes E (lt_bytecodes lt) (store_keys (lt_keys lt) (n_fork_storage n))\<rparr>"
  define b2 where "b2 = create_empty_block E (bc_miniblock (new_block (lt_ctx lt)))
      (bc_timestamp (new_block (lt_ctx lt))) (bc_batch (new_block (lt_ctx lt))) (Some (b_hash (lt_block lt)))"
  obtain n2 n4 where c: "record_tx E tx lt n1 = Some n2"
      "produce_block (lt_block lt) (n2\<lparr>n_current_batch := sat_add (n_current_batch n2) 1\<rparr>) = Some n4"
      "produce_block b2 n4 = Some n'"
    using commit_tx_Some [OF assms(1)] unfolding n1_def b2_def by blast
  obtain fs tr where r: "n2 = n1\<lparr>n_filters := fs, n_tx_results := al_insert (x_tx_hash E tx) tr (n_tx_results n1)\<rparr>"
    using record_tx_Some [OF c(1)] by blast
  have "fst ` set (al_insert k v xs) = insert k (fst ` set xs)" for k :: h256 and v :: transaction_result and xs
    by (metis dom_fun_upd dom_map_of_conv_image_fst map_of_al_insert option.distinct(1))
  moreover have "b_hash b2 = compute_hash E (b_number b2) 0" by (simp add: b2_def)
  moreover note produce_block_Some [OF c(2)] produce_block_Some [OF c(3)]
  ultimately show ?thesis
    using assms(2) by (auto simp: transacted_def Let_def r n1_def)
qed

lemma executed_job_ok:
  assumes "execute_section E tx mode nd = (j, nd')"
  shows "job_ok E j"
proof (cases j)
  case (Executed tx' lt)
  then have "tx' = tx" "\<exists>fo. run_l2_tx_raw E tx mode True (nd_inner nd) = (Ok lt, fo)"
    using assms by (auto simp: execute_section_def Let_def split: if_splits prod.splits res.splits exec_result.splits)
  then show ?thesis using run_l2_tx_raw_Ok [of E tx mode True "nd_inner nd" lt] Executed by auto
qed simp_all

lemma execute_section_same:
  assumes "node_ok nd" and "execute_section E tx mode nd = (j, nd')"
  shows "node_ok nd' \<and> ledger_of nd' = ledger_of nd"
proof (cases "nd_inner_poisoned nd")
  case True
  then show ?thesis using assms by (simp add: execute_section_def)
next
  case False
  note i = node_ok_inner [OF assms(1)]
  obtain r fo where r: "run_l2_tx_raw E tx mode True (nd_inner nd) = (r, fo)" by force
  let ?nd' = "nd\<lparr>nd_inner := (nd_inner nd)\<lparr>n_fork_storage := fo\<rparr>\<rparr>"
  have f: "caches_coherent fo" "fo_raw fo = fo_raw (n_fork_storage (nd_inner nd))" "fo_fork fo = fo_fork (n_fork_storage (nd_inner nd))"
    using run_l2_tx_raw_storage [OF inner_ok_coherent [OF i], of E tx mode True] r by (simp_all add: same_local_def)
  have "nd' = ?nd'"
    using assms(2) r False
    by (auto simp: execute_section_def Let_def split: res.splits exec_result.splits)
  moreover have "node_ok ?nd'" by (intro node_ok_step [OF assms(1)] step_storage i f)
  moreover have "chain_of (nd_inner ?nd') = chain_of (nd_inner nd)" by (intro chain_of_frame fork_value_cong) (simp_all add: f)
  moreover have "ledger_of ?nd' = ledger_of nd"
    using ledger_of_step [of ?nd' nd] f calculation(3) by simp (simp add: ledger_of_def)
  ultimately show ?thesis by simp
qed

lemma announce_same:
  assumes "node_ok nd" and "job_step E (Accepted tx mode) nd = (j, nd')"
  shows "node_ok nd' \<and> ledger_of nd' = ledger_of nd \<and> job_ok E j"
proof (cases "nd_inner_poisoned nd")
  case True
  then show ?thesis using assms by auto
next
  case False
  let ?nd' = "nd\<lparr>nd_inner := notified E tx (nd_inner nd)\<rparr>"
  have "nd' = ?nd'" "j = Announced tx mode" using assms(2) False by (simp_all add: write_inner_def notified_def)
  moreover have "filters_inv (n_filters (notified E tx (nd_inner nd)))"
    using assms(1) filters_inv_cong [OF notify_keys(2,4)] by (simp add: notified_def node_ok_def inner_ok_def)
  then have "node_ok ?nd'"
    using node_ok_step [OF assms(1) step_filters [OF node_ok_inner [OF assms(1)]]] by (simp add: notified_def)
  moreover have "ledger_of ?nd' = ledger_of nd"
    using ledger_of_step [of ?nd' nd] by (simp add: chain_of_def) (simp add: ledger_of_def chain_of_def)
  ultimately show ?thesis by simp
qed

lemma commit_section_step:
  assumes "node_ok nd" and "job_ok E (Executed tx lt)" and "commit_section E tx lt nd = (j, nd')"
  shows "node_ok nd' \<and> performs E {Transact (x_tx_hash E tx)} nd nd' \<and> job_ok E j"
proof -
  let ?x = "write_inner (Err write_lock_failed) (\<lambda>n. of_option n (commit_tx E tx lt n)) nd"
  have e: "nd' = snd ?x" "job_ok E j" using assms(3) by (auto simp: commit_section_def Let_def split: prod.splits)
  have c: "commit_tx E tx lt (nd_inner nd) = Some n'"
    if "of_option (nd_inner nd) (commit_tx E tx lt (nd_inner nd)) = (r, n')" "r \<noteq> Panic" for r n'
    using that by (auto simp: of_option_def split: option.splits)
  have "node_ok (snd ?x)" by (rule write_inner_ok [OF assms(1)]) (rule commit_tx_ok [OF c node_ok_inner [OF assms(1)]])
  moreover have "performs E {Transact (x_tx_hash E tx)} nd (snd ?x)"
  proof (rule under_write_lock)
    fix r n' assume "of_option (nd_inner nd) (commit_tx E tx lt (nd_inner nd)) = (r, n')" "r \<noteq> Panic"
    then have n': "commit_tx E tx lt (nd_inner nd) = Some n'" by (rule c)
    then have "fo_fork (n_fork_storage n') = fo_fork (n_fork_storage (nd_inner nd))"
      using commit_tx_ok node_ok_inner [OF assms(1)] by (simp add: step_ok_def)
    then show "inner_does E {Transact (x_tx_hash E tx)} (nd_inner nd) n'"
      using committed_chain [OF n' assms(2)]
        ledger_step.transact [of E "x_tx_hash E tx" "\<lparr>lg_chain = chain_of (nd_inner nd), lg_saved = saved\<rparr>" "chain_of n'" for saved]
      by (simp add: inner_does_def)
  qed
  ultimately show ?thesis using e by simp
qed

text \<open>Only the last section may do anything to the ledger.\<close>

fun job_acts :: "ext \<Rightarrow> job \<Rightarrow> act set" where
  "job_acts E (Executed tx lt) = {Transact (x_tx_hash E tx)}"
| "job_acts E _ = {}"

lemma job_step_ok:
  assumes "node_ok nd" and "job_ok E j" and "job_step E j nd = (j', nd')"
  shows "node_ok nd' \<and> job_ok E j' \<and> performs E (job_acts E j) nd nd'"
proof (cases j)
  case (Submitted tx mode)
  then show ?thesis using assms by (auto split: res.splits)
next
  case (Accepted tx mode)
  then show ?thesis using announce_same [OF assms(1)] assms(3) by blast
next
  case (Announced tx mode)
  then show ?thesis using execute_section_same [OF assms(1)] executed_job_ok assms(3) by simp blast
next
  case (Executed tx lt)
  then show ?thesis
    using commit_section_step [OF assms(1), of E tx lt j' nd'] assms(2,3) by simp
qed (use assms in auto)

lemma interleaved_ok:
  assumes "interleaved W s s'" and "honest_world W" and "node_ok (fst s)" and "list_all (job_ok (wo_ext W)) (snd s)"
  shows "node_ok (fst s') \<and> list_all (job_ok (wo_ext W)) (snd s')"
  using assms(1)
proof cases
  case (submit nd js tx mode)
  then show ?thesis using assms(3,4) by auto
next
  case (advance i js nd j nd')
  have "job_ok (wo_ext W) (js ! i)" using advance assms(4) by (simp add: list_all_length)
  then have "node_ok nd' \<and> job_ok (wo_ext W) j \<and> performs (wo_ext W) (job_acts (wo_ext W) (js ! i)) nd nd'"
    using job_step_ok [of nd "wo_ext W" "js ! i" j nd'] advance assms(3) by simp
  moreover have "list_all (job_ok (wo_ext W)) (js[i := j])" if "job_ok (wo_ext W) j"
    using that advance assms(4) set_update_subset_insert [of js i j] by (auto simp: list_all_iff)
  ultimately show ?thesis using advance by simp
next
  case (request r nd js)
  then show ?thesis
    using serve_request_ok [OF _ assms(2), of nd r] assms(3,4) by simp
qed

lemma interleavings_ok:
  assumes "(interleaved W)\<^sup>*\<^sup>* s s'" and "honest_world W" and "node_ok (fst s)" and "list_all (job_ok (wo_ext W)) (snd s)"
  shows "node_ok (fst s') \<and> list_all (job_ok (wo_ext W)) (snd s')"
  using assms(1)
proof (induction rule: rtranclp_induct)
  case (step t u)
  then show ?case using interleaved_ok [OF step(2) assms(2)] by blast
qed (simp add: assms)

lemma commit_number:
  assumes "commit_tx E tx lt n = Some n'"
  shows "b_number (lt_block lt) = sat_add (n_current_miniblock n) 1 \<and>
    n_current_miniblock n' = sat_add (sat_add (n_current_miniblock n) 1) 1"
proof -
  define n1 where "n1 = n\<lparr>n_fork_storage := store_bytecodes E (lt_bytecodes lt) (store_keys (lt_keys lt) (n_fork_storage n))\<rparr>"
  obtain n2 n4 b2 where c: "record_tx E tx lt n1 = Some n2"
      "produce_block (lt_block lt) (n2\<lparr>n_current_batch := sat_add (n_current_batch n2) 1\<rparr>) = Some n4"
      "produce_block b2 n4 = Some n'"
    using commit_tx_Some [OF assms] unfolding n1_def by blast
  obtain fs tr where r: "n2 = n1\<lparr>n_filters := fs, n_tx_results := al_insert (x_tx_hash E tx) tr (n_tx_results n1)\<rparr>"
    using record_tx_Some [OF c(1)] by blast
  show ?thesis
    using produce_block_Some [OF c(2)] produce_block_Some [OF c(3)] by (auto simp: r n1_def)
qed

lemma committed_section:
  assumes "commit_section E tx lt nd = (Answered (Ok u), nd')"
  shows "\<exists>n'. commit_tx E tx lt (nd_inner nd) = Some n' \<and> nd' = nd\<lparr>nd_inner := n'\<rparr> \<and> \<not> nd_inner_poisoned nd"
proof -
  have p: "\<not> nd_inner_poisoned nd"
    using assms by (cases "nd_inner_poisoned nd") (auto simp: commit_section_def)
  then show ?thesis
    using assms by (auto simp: commit_section_def write_inner_def of_option_def Let_def split: option.splits)
qed

section \<open>Properties\<close>

text \<open>C3: interleavings are safe for the node. However the locked sections of any number of transactions
  and any requests are interleaved on a new node, the invariant of the node holds at every moment.
  A transaction does nothing to the ledger before its last section, and there it takes effect as a
  whole, with its hash, or not at all, even if the node has changed since it was run. A job that
  is left alone is \<open>run_l2_tx\<close>.\<close>

theorem interleavings_are_safe:
  assumes "node_new (wo_ext W) fork obs config gas = Some nd" and "\<forall>f. fork = Some f \<longrightarrow> fork_ok f" and "honest_world W"
    and "(interleaved W)\<^sup>*\<^sup>* (nd, []) (nd', js)"
  shows "node_ok nd' \<and>
    (\<forall>job \<in> set js. \<forall>job' nd''. job_step (wo_ext W) job nd' = (job', nd'') \<longrightarrow>
       (\<exists>a \<in> insert Idle (job_acts (wo_ext W) job). ledger_step (wo_ext W) a (ledger_of nd') (ledger_of nd''))) \<and>
    (\<forall>tx mode. ((\<lambda>(j, m). job_step (wo_ext W) j m) ^^ 4) (Submitted tx mode, nd') =
       (Answered (fst (run_l2_tx (wo_ext W) tx mode nd')), snd (run_l2_tx (wo_ext W) tx mode nd')))"
proof -
  have new: "node_ok nd" by (rule reachable_node_ok [OF reachable.started [OF assms(1,2)] assms(3)])
  have ok: "node_ok nd'" "list_all (job_ok (wo_ext W)) js"
    using interleavings_ok [OF assms(4,3)] new by simp_all
  have "\<exists>a \<in> insert Idle (job_acts (wo_ext W) job). ledger_step (wo_ext W) a (ledger_of nd') (ledger_of nd'')"
    if "job \<in> set js" "job_step (wo_ext W) job nd' = (job', nd'')" for job job' nd''
    using job_step_ok [OF ok(1) _ that(2)] ok(2) that(1) by (simp add: performs_def list_all_iff)
  moreover have "(\<lambda>(j, m). job_step (wo_ext W) j m) = take_section (wo_ext W)"
    by (simp add: fun_eq_iff take_section_def split_beta)
  ultimately show ?thesis using ok(1) job_alone [of "wo_ext W"] by simp
qed

text \<open>C15: of two transactions that were run before either was committed, the second commit breaks the
  node. If each of the two results could be committed to the node as it is, then once the first
  one has been committed, committing the second panics under the write lock: its block no longer is the
  next one. The lock is poisoned, and no later transaction succeeds. (There is room for two more blocks.)\<close>

theorem lost_race_poisons_node:
  assumes "commit_section E tx1 lt1 nd = (Answered (Ok u), nd1)" and "commit_section E tx2 lt2 nd = (Answered (Ok v), nd2)"
    and "unat (n_current_miniblock (nd_inner nd)) + 2 < 2 ^ 64"
  shows "commit_section E tx2 lt2 nd1 = (Answered Panic, nd1\<lparr>nd_inner_poisoned := True\<rparr>) \<and>
    (\<forall>E' tx mode. \<not> is_Ok (fst (run_l2_tx E' tx mode (nd1\<lparr>nd_inner_poisoned := True\<rparr>))))"
proof -
  obtain n1 where 1: "commit_tx E tx1 lt1 (nd_inner nd) = Some n1" "nd1 = nd\<lparr>nd_inner := n1\<rparr>" "\<not> nd_inner_poisoned nd"
    using committed_section [OF assms(1)] by blast
  obtain n2 where 2: "commit_tx E tx2 lt2 (nd_inner nd) = Some n2"
    using committed_section [OF assms(2)] by blast
  have "sat_add (n_current_miniblock n1) 1 \<noteq> sat_add (n_current_miniblock (nd_inner nd)) 1"
  proof
    assume "sat_add (n_current_miniblock n1) 1 = sat_add (n_current_miniblock (nd_inner nd)) 1"
    then have "unat (sat_add (n_current_miniblock n1) 1) = unat (sat_add (n_current_miniblock (nd_inner nd)) 1)" by simp
    then show False using commit_number [OF 1(1)] assms(3) by (simp add: unat_sat_add)
  qed
  then have "commit_tx E tx2 lt2 n1 = None"
    using commit_number [OF 2] commit_number [of E tx2 lt2 n1] by (cases "commit_tx E tx2 lt2 n1") auto
  moreover have "\<not> is_Ok (fst (run_l2_tx E' tx mode (nd1\<lparr>nd_inner_poisoned := True\<rparr>)))" for E' tx mode
    by (simp add: run_l2_tx_def write_inner_def split: res.split)
  ultimately show ?thesis using 1 by (simp add: commit_section_def write_inner_def)
qed

text \<open>The witnesses: a schedule of two jobs, and the transaction of the other witnesses run twice.\<close>

lemma interleavings_are_safe_witness:
  "\<exists>nd nd' js. node_new ext0 None None default_node_config None = Some nd \<and>
     (interleaved lone_world)\<^sup>*\<^sup>* (nd, []) (nd', js) \<and> length js = 2 \<and> node_ok nd'"
proof -
  obtain nd where nd: "node_new ext0 None None default_node_config None = Some nd"
    using inner_new0 [of None None] by (auto simp: node_new_def)
  have e: "wo_ext lone_world = ext0" by (simp add: lone_world_def)
  let ?two = "[Submitted tx0 VerifyExecute, Submitted tx0 VerifyExecute]"
  have "interleaved lone_world (nd, []) (nd, [] @ [Submitted tx0 VerifyExecute])" by (rule interleaved.submit)
  moreover have "interleaved lone_world (nd, [] @ [Submitted tx0 VerifyExecute])
      (nd, ([] @ [Submitted tx0 VerifyExecute]) @ [Submitted tx0 VerifyExecute])" by (rule interleaved.submit)
  moreover obtain j nd' where "job_step (wo_ext lone_world) (?two ! 1) nd = (j, nd')" by force
  then have "interleaved lone_world (nd, ?two) (nd', ?two[1 := j])" by (intro interleaved.advance) simp_all
  ultimately have s: "(interleaved lone_world)\<^sup>*\<^sup>* (nd, []) (nd', ?two[1 := j])"
    by (auto intro: rtranclp.rtrancl_into_rtrancl)
  have "node_ok nd'"
    using interleavings_are_safe [of lone_world None None default_node_config None nd nd' "?two[1 := j]"] nd s honest_lone e by simp
  then show ?thesis using nd s by (intro exI [of _ nd] exI [of _ nd'] exI [of _ "?two[1 := j]"]) simp
qed

lemma lost_race_poisons_node_witness:
  "\<exists>nd lt nd1. commit_section ext0 tx0 lt nd = (Answered (Ok ()), nd1) \<and>
     commit_section ext0 tx0 lt nd1 = (Answered Panic, nd1\<lparr>nd_inner_poisoned := True\<rparr>)"
proof -
  obtain lt fo where raw: "run_l2_tx_raw ext0 tx0 VerifyExecute True (notified ext0 tx0 inner0) = (Ok lt, fo)"
      "vm_exec (lt_result lt) = Success []" "vm_events (lt_result lt) = []" "vm_gas_refunded (lt_result lt) = 0"
      "lt_traces lt = []" "lt_ctx lt = \<lparr>bc_batch = 1, bc_miniblock = 1, bc_timestamp = 1001\<rparr>"
      "b_number (lt_block lt) = 1" "b_timestamp (lt_block lt) = ucast (1001 :: u64)"
      "b_l1_batch_number (lt_block lt) = Some (ucast (1 :: u32))"
    using raw0 by blast
  obtain n' where c: "commit_tx ext0 tx0 lt ((notified ext0 tx0 inner0)\<lparr>n_fork_storage := fo\<rparr>) = Some n'"
    using commit0 [OF raw] by blast
  let ?nd = "node0\<lparr>nd_inner := (notified ext0 tx0 inner0)\<lparr>n_fork_storage := fo\<rparr>\<rparr>"
  have 1: "commit_section ext0 tx0 lt ?nd = (Answered (Ok ()), ?nd\<lparr>nd_inner := n'\<rparr>)"
    using c by (simp add: commit_section_def write_inner_def of_option_def)
  have "unat (n_current_miniblock (nd_inner ?nd)) + 2 < 2 ^ 64" by (simp add: inner0_def)
  then show ?thesis using lost_race_poisons_node [OF 1 1] 1 by blast
qed

end
