(* ===== verification/Twins.thy ===== *)
theory Twins
  imports Node_Steps
begin

text \<open>
  The caches of the fork storage cannot be seen. Two nodes that differ in nothing but what their
  caches hold are twins; every operation gives twins the same result and leaves twins behind,
  which is shown for the storage, the views over it, the operations on the inner state and the
  requests, one after the other.
\<close>

section \<open>Nodes without caches\<close>

definition cold_storage :: "fork_storage \<Rightarrow> fork_storage" where
  "cold_storage fo = fo\<lparr>fo_value_cache := Map.empty, fo_dep_cache := Map.empty\<rparr>"

definition cold_snapshot :: "snapshot \<Rightarrow> snapshot" where
  "cold_snapshot s = s\<lparr>sn_value_read_cache := Map.empty, sn_factory_dep_cache := Map.empty\<rparr>"

definition cold_inner :: "inner \<Rightarrow> inner" where
  "cold_inner n = n\<lparr>n_fork_storage := cold_storage (n_fork_storage n)\<rparr>"

definition cold :: "node \<Rightarrow> node" where
  "cold nd = nd\<lparr>nd_inner := cold_inner (nd_inner nd), nd_snapshots := map cold_snapshot (nd_snapshots nd)\<rparr>"

text \<open>The caches of a node, and of the snapshots it holds, repeat the remote node.\<close>

definition coherent_node :: "node \<Rightarrow> bool" where
  "coherent_node nd \<longleftrightarrow> caches_coherent (n_fork_storage (nd_inner nd)) \<and>
     (\<forall>s \<in> set (nd_snapshots nd). caches_coherent (n_fork_storage (restore_snapshot s (nd_inner nd))))"

text \<open>A client's requests one after the other, and the same on a node that forgets its caches before each.\<close>

fun session :: "world \<Rightarrow> request list \<Rightarrow> node \<Rightarrow> answer list \<times> node" where
  "session W [] nd = ([], nd)"
| "session W (r # rs) nd =
     (let (x, nd1) = answer_request W r nd; (xs, nd2) = session W rs nd1 in (x # xs, nd2))"

fun cold_session :: "world \<Rightarrow> request list \<Rightarrow> node \<Rightarrow> answer list \<times> node" where
  "cold_session W [] nd = ([], nd)"
| "cold_session W (r # rs) nd =
     (let (x, nd1) = answer_request W r (cold nd); (xs, nd2) = cold_session W rs nd1 in (x # xs, nd2))"

section \<open>Results that agree up to twins\<close>

definition alike :: "('s \<Rightarrow> 's \<Rightarrow> bool) \<Rightarrow> 'a \<times> 's \<Rightarrow> 'a \<times> 's \<Rightarrow> bool" where
  "alike T x y \<longleftrightarrow> fst x = fst y \<and> T (snd x) (snd y)"

abbreviation alike_opt :: "('s \<Rightarrow> 's \<Rightarrow> bool) \<Rightarrow> ('a \<times> 's) option \<Rightarrow> ('a \<times> 's) option \<Rightarrow> bool" where
  "alike_opt T \<equiv> rel_option (alike T)"

lemma alike_Pair [simp]: "alike T (x, s) (y, t) \<longleftrightarrow> x = y \<and> T s t"
  by (simp add: alike_def)

lemma alikeE:
  assumes "alike T x y"
  obtains r s t where "x = (r, s)" "y = (r, t)" "T s t"
  using assms by (cases x; cases y) simp

lemma alike_opt_cases [consumes 1, case_names nothing something]:
  assumes "alike_opt T x y"
  obtains "x = None" "y = None" | r s t where "x = Some (r, s)" "y = Some (r, t)" "T s t"
  using assms by (cases x; cases y) (auto elim: alikeE)

lemma alike_bind:
  assumes "alike_opt T x y" and "\<And>r s t. T s t \<Longrightarrow> rel_option Q (f (r, s)) (g (r, t))"
  shows "rel_option Q (Option.bind x f) (Option.bind y g)"
  using assms(1) by (cases rule: alike_opt_cases) (auto intro: assms(2))

text \<open>A result as an answer: what is done with the value depends on the value only.\<close>

lemma alike_map: "alike T x y \<Longrightarrow> alike T (h (fst x), snd x) (h (fst y), snd y)"
  by (simp add: alike_def)

section \<open>Storage\<close>

definition twin_storage :: "fork_details option \<Rightarrow> fork_storage \<Rightarrow> fork_storage \<Rightarrow> bool" where
  "twin_storage F a b \<longleftrightarrow> fo_fork a = F \<and> same_local a b \<and> caches_coherent a \<and> caches_coherent b"

lemma twin_storage_contents:
  "twin_storage F a b \<Longrightarrow> fork_value b = fork_value a \<and> fork_initial b = fork_initial a \<and> fork_dep b = fork_dep a"
  using same_contents_fork [of a b] by (simp add: twin_storage_def same_local_def same_contents_def)

lemma twin_storage_after:
  "twin_storage F a b \<Longrightarrow> same_contents a a' \<Longrightarrow> same_contents b b' \<Longrightarrow> twin_storage F a' b'"
  by (simp add: twin_storage_def same_local_def same_contents_def)

lemma twin_read_value:
  assumes "twin_storage F a b"
  shows "alike (twin_storage F) (read_value_internal k a) (read_value_internal k b)"
  using assms read_value_correct [of a k] read_value_correct [of b k] twin_storage_contents [OF assms]
  by (simp add: alike_def) (simp add: twin_storage_def same_local_def same_contents_def)

lemma twin_load_dep:
  assumes "twin_storage F a b"
  shows "alike (twin_storage F) (load_factory_dep_internal h a) (load_factory_dep_internal h b)"
  using assms load_factory_dep_correct [of a h] load_factory_dep_correct [of b h] twin_storage_contents [OF assms]
  by (simp add: alike_def) (simp add: twin_storage_def same_local_def same_contents_def)

lemma twin_is_write_initial:
  assumes "twin_storage F a b"
  shows "alike (twin_storage F) (is_write_initial_internal k a) (is_write_initial_internal k b)"
  using assms is_write_initial_correct [of a k] is_write_initial_correct [of b k] twin_storage_contents [OF assms]
  by (simp add: alike_def) (simp add: twin_storage_def same_local_def same_contents_def)

lemma twin_unwrapped: "alike T x y \<Longrightarrow> alike_opt T (unwrapped x) (unwrapped y)"
  by (cases "unwrap (fst x)") (auto simp: unwrapped_def alike_def)

lemma twin_fo_ops:
  assumes "twin_storage F a b"
  shows "alike_opt (twin_storage F) (ro_value fo_ops k a) (ro_value fo_ops k b)"
    "alike_opt (twin_storage F) (ro_initial fo_ops k a) (ro_initial fo_ops k b)"
    "alike_opt (twin_storage F) (ro_dep fo_ops h a) (ro_dep fo_ops h b)"
  using twin_read_value [OF assms] twin_is_write_initial [OF assms] twin_load_dep [OF assms]
  by (simp_all add: fo_ops_def twin_unwrapped)

text \<open>Writes go to the local storage, which twins share.\<close>

lemma twin_writes:
  assumes "twin_storage F a b"
  shows "twin_storage F (fo_set_value k v a) (fo_set_value k v b)"
    "twin_storage F (fo_store_factory_dep h c a) (fo_store_factory_dep h c b)"
    "twin_storage F (store_keys m a) (store_keys m b)"
  using assms
  by (simp_all add: twin_storage_def same_local_def fo_set_value_def fo_store_factory_dep_def store_keys_def
      caches_coherent_def)

lemma twin_store_bytecodes: "twin_storage F a b \<Longrightarrow> twin_storage F (store_bytecodes E cs a) (store_bytecodes E cs b)"
  unfolding store_bytecodes_def by (induction cs arbitrary: a b) (auto simp: twin_writes(2))

section \<open>Views and runs\<close>

definition twin_view :: "fork_details option \<Rightarrow> fork_storage storage_view \<Rightarrow> fork_storage storage_view \<Rightarrow> bool" where
  "twin_view F v w \<longleftrightarrow> twin_storage F (sv_storage_handle v) (sv_storage_handle w) \<and>
     sv_modified w = sv_modified v \<and> sv_read w = sv_read v \<and> sv_initial w = sv_initial v"

lemma twin_viewI: "twin_storage F (sv_storage_handle v) b \<Longrightarrow> twin_view F v (v\<lparr>sv_storage_handle := b\<rparr>)"
  by (simp add: twin_view_def)

lemma twin_viewE:
  assumes "twin_view F v w"
  obtains b where "w = v\<lparr>sv_storage_handle := b\<rparr>" "twin_storage F (sv_storage_handle v) b"
  using assms that [of "sv_storage_handle w"] by (simp add: twin_view_def)

lemma twin_view_new: "twin_storage F a b \<Longrightarrow> twin_view F (storage_view_new a) (storage_view_new b)"
  by (simp add: twin_view_def storage_view_new_def)

lemma twin_view_storage: "twin_view F v w \<Longrightarrow> twin_storage F (sv_storage_handle v) (sv_storage_handle w)"
  by (simp add: twin_view_def)

lemma twin_view_modified: "twin_view F v w \<Longrightarrow> sv_modified w = sv_modified v"
  by (elim twin_viewE) simp

lemma twin_get_value:
  assumes "twin_view F v w"
  shows "alike_opt (twin_view F) (get_value_no_log fo_ops k v) (get_value_no_log fo_ops k w)"
proof -
  obtain b where w: "w = v\<lparr>sv_storage_handle := b\<rparr>" "twin_storage F (sv_storage_handle v) b" using assms by (rule twin_viewE)
  show ?thesis
    using twin_fo_ops(1) [OF w(2), of k] w
    by (cases rule: alike_opt_cases) (auto simp: get_value_no_log_def twin_view_def split: option.split)
qed

lemma twin_sv_initial:
  assumes "twin_view F v w"
  shows "alike_opt (twin_view F) (sv_is_write_initial fo_ops k v) (sv_is_write_initial fo_ops k w)"
proof -
  obtain b where w: "w = v\<lparr>sv_storage_handle := b\<rparr>" "twin_storage F (sv_storage_handle v) b" using assms by (rule twin_viewE)
  show ?thesis
    using twin_fo_ops(2) [OF w(2), of k] w
    by (cases rule: alike_opt_cases) (auto simp: sv_is_write_initial_def twin_view_def split: option.split)
qed

lemma twin_sv_dep:
  assumes "twin_view F v w"
  shows "alike_opt (twin_view F) (sv_load_factory_dep fo_ops h v) (sv_load_factory_dep fo_ops h w)"
proof -
  obtain b where w: "w = v\<lparr>sv_storage_handle := b\<rparr>" "twin_storage F (sv_storage_handle v) b" using assms by (rule twin_viewE)
  show ?thesis
    using twin_fo_ops(3) [OF w(2), of h] w
    by (cases rule: alike_opt_cases) (auto simp: sv_load_factory_dep_def twin_view_def)
qed

lemma twin_sv_set:
  assumes "twin_view F v w"
  shows "alike_opt (twin_view F) (sv_set_value fo_ops k x v) (sv_set_value fo_ops k x w)"
  using twin_get_value [OF assms, of k]
  by (cases rule: alike_opt_cases) (auto simp: sv_set_value_def twin_view_def)

lemma alike_case:
  assumes "alike_opt T x y" and "\<And>r s t. T s t \<Longrightarrow> rel_option Q (f r s) (g r t)"
  shows "rel_option Q (case x of None \<Rightarrow> None | Some (r, s) \<Rightarrow> f r s) (case y of None \<Rightarrow> None | Some (r, s) \<Rightarrow> g r s)"
  using assms(1) by (cases rule: alike_opt_cases) (auto intro: assms(2))

lemma twin_run: "twin_view F v w \<Longrightarrow> alike_opt (twin_view F) (run fo_ops p v) (run fo_ops p w)"
proof (induction p arbitrary: v w)
  case (ReadValue k p)
  show ?case unfolding run.simps by (rule alike_case [OF twin_get_value [OF ReadValue.prems]]) (rule ReadValue.IH [OF rangeI])
next
  case (SetValue k x p)
  show ?case unfolding run.simps by (rule alike_case [OF twin_sv_set [OF SetValue.prems]]) (rule SetValue.IH [OF rangeI])
next
  case (IsWriteInitial k p)
  show ?case unfolding run.simps
    by (rule alike_case [OF twin_sv_initial [OF IsWriteInitial.prems]]) (rule IsWriteInitial.IH [OF rangeI])
next
  case (LoadFactoryDep h p)
  show ?case unfolding run.simps
    by (rule alike_case [OF twin_sv_dep [OF LoadFactoryDep.prems]]) (rule LoadFactoryDep.IH [OF rangeI])
qed simp

section \<open>Inner states\<close>

definition twin_inner :: "fork_details option \<Rightarrow> inner \<Rightarrow> inner \<Rightarrow> bool" where
  "twin_inner F n n' \<longleftrightarrow> twin_storage F (n_fork_storage n) (n_fork_storage n') \<and> n' = n\<lparr>n_fork_storage := n_fork_storage n'\<rparr>"

lemma twin_innerI: "twin_storage F (n_fork_storage n) b \<Longrightarrow> twin_inner F n (n\<lparr>n_fork_storage := b\<rparr>)"
  by (simp add: twin_inner_def)

lemma twin_innerI2: "twin_storage F a b \<Longrightarrow> twin_inner F (n\<lparr>n_fork_storage := a\<rparr>) (n\<lparr>n_fork_storage := b\<rparr>)"
  by (simp add: twin_inner_def)

lemma twin_innerE:
  assumes "twin_inner F n n'"
  obtains b where "n' = n\<lparr>n_fork_storage := b\<rparr>" "twin_storage F (n_fork_storage n) b"
  using assms by (auto simp: twin_inner_def)

lemma twin_storage_fields:
  "twin_storage F a b \<Longrightarrow> fo_raw b = fo_raw a \<and> fo_fork a = F \<and> fo_fork b = F \<and> fo_chain_id b = fo_chain_id a"
  by (simp add: twin_storage_def same_local_def)

lemma batch_env_storage:
  "fo_fork b = fo_fork (n_fork_storage n) \<Longrightarrow> create_l1_batch_env E (n\<lparr>n_fork_storage := b\<rparr>) = create_l1_batch_env E n"
  by (simp add: fun_eq_iff create_l1_batch_env_def Let_def case_prod_beta cong: option.case_cong)

lemma twin_run_bind:
  "twin_view F v w \<Longrightarrow> (\<And>r s t. twin_view F s t \<Longrightarrow> rel_option Q (f (r, s)) (g (r, t))) \<Longrightarrow>
   rel_option Q (Option.bind (run fo_ops p v) f) (Option.bind (run fo_ops p w) g)"
  by (rule alike_bind [OF twin_run])

lemma twin_batch_env:
  assumes "twin_view F v w"
  shows "alike_opt (twin_view F) (create_l1_batch_env E n fo_ops v) (create_l1_batch_env E n fo_ops w)"
  unfolding create_l1_batch_env_def
  by (rule twin_run_bind [OF assms], simp only: prod.case, rule twin_run_bind, assumption) (simp add: Let_def case_prod_beta)

lemma create_system_env_twin:
  "twin_storage F (n_fork_storage n) b \<Longrightarrow> create_system_env E (n\<lparr>n_fork_storage := b\<rparr>) = create_system_env E n"
  by (simp add: fun_eq_iff create_system_env_def twin_storage_fields)

text \<open>Case distinctions of the handlers, on results that agree and on values that are the same.\<close>

lemma alike_opt_then:
  assumes "alike_opt S x y" and "alike T z z'" and "\<And>r s t. S s t \<Longrightarrow> alike T (f (r, s)) (g (r, t))"
  shows "alike T (case x of None \<Rightarrow> z | Some p \<Rightarrow> f p) (case y of None \<Rightarrow> z' | Some p \<Rightarrow> g p)"
  using assms(1) by (cases rule: alike_opt_cases) (auto intro: assms(2,3))

lemma alike_same_option:
  "alike T z z' \<Longrightarrow> (\<And>x. m = Some x \<Longrightarrow> alike T (f x) (g x)) \<Longrightarrow>
   alike T (case m of None \<Rightarrow> z | Some x \<Rightarrow> f x) (case m of None \<Rightarrow> z' | Some x \<Rightarrow> g x)"
  by (cases m) auto

lemma alike_same_res:
  "(\<And>x. m = Ok x \<Longrightarrow> alike T (f x) (f' x)) \<Longrightarrow> (\<And>e. m = Err e \<Longrightarrow> alike T (g e) (g' e)) \<Longrightarrow>
   (m = Panic \<Longrightarrow> alike T z z') \<Longrightarrow>
   alike T (case m of Ok x \<Rightarrow> f x | Err e \<Rightarrow> g e | Panic \<Rightarrow> z) (case m of Ok x \<Rightarrow> f' x | Err e \<Rightarrow> g' e | Panic \<Rightarrow> z')"
  by (cases m) auto

lemma alike_same_if:
  "(c \<Longrightarrow> alike T x y) \<Longrightarrow> (\<not> c \<Longrightarrow> alike T x' y') \<Longrightarrow> alike T (if c then x else x') (if c then y else y')"
  by simp

lemma alike_same_prod:
  "(\<And>a b. p = (a, b) \<Longrightarrow> alike T (f a b) (g a b)) \<Longrightarrow> alike T (case p of (a, b) \<Rightarrow> f a b) (case p of (a, b) \<Rightarrow> g a b)"
  by (cases p) simp

lemmas alike_same = alike_same_option alike_same_res alike_same_if alike_same_prod

section \<open>Operations on the inner state\<close>

lemma twin_read_key: "twin_inner F n n' \<Longrightarrow> alike (twin_inner F) (read_key E k n) (read_key E k n')"
  by (elim twin_innerE) (drule twin_read_value [of _ _ _ k], elim alikeE, simp add: read_key_def twin_innerI2)

lemma twin_env:
  assumes "twin_storage F (n_fork_storage n) b"
  shows "create_l1_batch_env E (n\<lparr>n_fork_storage := b\<rparr>) = create_l1_batch_env E n"
    "create_system_env E (n\<lparr>n_fork_storage := b\<rparr>) = create_system_env E n"
  using batch_env_storage [of b n] create_system_env_twin [OF assms] twin_storage_fields [OF assms] by simp_all

text \<open>The batch environment of twins is the same, and the views after it are twins.\<close>

lemma twin_env_cases [consumes 1, case_names nothing something]:
  assumes "twin_storage F (n_fork_storage n) b"
  obtains "create_l1_batch_env E n fo_ops (storage_view_new (n_fork_storage n)) = None"
      "create_l1_batch_env E n fo_ops (storage_view_new b) = None"
  | env ctx v w where "create_l1_batch_env E n fo_ops (storage_view_new (n_fork_storage n)) = Some ((env, ctx), v)"
      "create_l1_batch_env E n fo_ops (storage_view_new b) = Some ((env, ctx), w)" "twin_view F v w"
  using twin_batch_env [OF twin_view_new [OF assms], of E n]
  by (cases rule: alike_opt_cases) auto

lemma twin_call_inner:
  assumes "twin_inner F n n'"
  shows "alike (twin_inner F) (call_inner E tx n) (call_inner E tx n')"
proof -
  obtain b where n': "n' = n\<lparr>n_fork_storage := b\<rparr>" and b: "twin_storage F (n_fork_storage n) b" using assms by (rule twin_innerE)
  note simps = call_inner_def Let_def n' twin_env [OF b] twin_innerI [OF b]
  show ?thesis
  proof (cases "contracts_for_l2_call (n_system_contracts n)")
    case (Some base)
    from b show ?thesis
    proof (cases rule: twin_env_cases [where E = E])
      case nothing
      then show ?thesis using Some by (simp add: simps)
    next
      case (something env ctx v w)
      show ?thesis
        using twin_run [OF something(3), of "x_vm_run_tx E env (create_system_env E n base exec_mode.EthCall)
            (if signature tx = [] then tx\<lparr>signature := x_default_signature E\<rparr> else tx)"]
        by (cases rule: alike_opt_cases) (simp_all add: simps Some something twin_innerI2 twin_view_storage)
    qed
  qed (simp add: simps)
qed

lemma twin_trace_call:
  assumes "twin_inner F n n'"
  shows "alike (twin_storage F) (trace_call_inner E flat tx n) (trace_call_inner E flat tx n')"
proof -
  obtain b where n': "n' = n\<lparr>n_fork_storage := b\<rparr>" and b: "twin_storage F (n_fork_storage n) b" using assms by (rule twin_innerE)
  note simps = trace_call_inner_def Let_def n' twin_env [OF b] b
  show ?thesis
  proof (cases "contracts_for_l2_call (n_system_contracts n)")
    case (Some base)
    from b show ?thesis
    proof (cases rule: twin_env_cases [where E = E])
      case nothing
      then show ?thesis using Some by (simp add: simps)
    next
      case (something env ctx v w)
      show ?thesis
      proof (cases "as_u64 (max_fee_per_gas (tx_fee tx))")
        case (Some fee)
        show ?thesis
          using twin_run [OF something(3), of "x_vm_run_tx E (env\<lparr>be_enforced_base_fee := Some fee\<rparr>)
              (create_system_env E n base exec_mode.EthCall) (traced_tx E tx)"]
          by (cases rule: alike_opt_cases)
             (simp_all add: simps \<open>contracts_for_l2_call (n_system_contracts n) = Some base\<close> Some something twin_view_storage)
      qed (simp add: simps Some something)
    qed
  qed (simp add: simps)
qed

lemma twin_run_tx_raw:
  assumes "twin_inner F n n'"
  shows "alike (twin_storage F) (run_l2_tx_raw E tx mode boot n) (run_l2_tx_raw E tx mode boot n')"
proof -
  obtain b where n': "n' = n\<lparr>n_fork_storage := b\<rparr>" and b: "twin_storage F (n_fork_storage n) b" using assms by (rule twin_innerE)
  have block: "tx_block E n' = tx_block E n" "gas_report_panics n' = gas_report_panics n"
    by (simp_all add: n' fun_eq_iff tx_block_def gas_report_panics_def)
  note simps = run_l2_tx_raw_def Let_def n' twin_env [OF b] b block [unfolded n']
  from b show ?thesis
  proof (cases rule: twin_env_cases [where E = E])
    case nothing
    then show ?thesis by (simp add: simps)
  next
    case (something env ctx v w)
    show ?thesis
    proof (cases "contracts (n_system_contracts n) mode (initiator tx \<in> n_impersonated_accounts n)")
      case (Some base)
      note env = something Some
      show ?thesis
        using twin_run [OF something(3), of "x_vm_inspect_with_compression E env (create_system_env E n base mode) tx"]
      proof (cases rule: alike_opt_cases)
        case (something out v' w')
        note view = twin_view_storage [OF something(3)] twin_view_modified [OF something(3)]
        show ?thesis
        proof (cases boot)
          case True
          show ?thesis
            using twin_run [OF something(3), of "io_bootloader out"]
          proof (cases rule: alike_opt_cases)
            case boot: (something u v'' w'')
            show ?thesis using twin_view_storage [OF boot(3)] twin_view_modified [OF boot(3)] view
              by (auto simp: simps env something True boot split: res.split)
          qed (use view in \<open>auto simp: simps env something True split: res.split\<close>)
        qed (use view in \<open>auto simp: simps env something split: res.split\<close>)
      qed (simp add: simps env)
    qed (simp add: simps something)
  qed
qed

lemma twin_mine_one:
  assumes "twin_inner F n n'"
  shows "rel_option (twin_inner F) (mine_one E first iv n) (mine_one E first iv n')"
proof -
  obtain b where n': "n' = n\<lparr>n_fork_storage := b\<rparr>" and b: "twin_storage F (n_fork_storage n) b" using assms by (rule twin_innerE)
  note simps = mine_one_def Let_def n' twin_env [OF b] b
  show ?thesis
  proof (cases "contracts_for_l2_call (n_system_contracts n)")
    case (Some base)
    from b show ?thesis
    proof (cases rule: twin_env_cases [where E = E])
      case nothing
      then show ?thesis using Some by (simp add: simps)
    next
      case (something env ctx v w)
      show ?thesis
        using twin_run [OF something(3), of "x_vm_bootloader E env (create_system_env E n base VerifyExecute)"]
      proof (cases rule: alike_opt_cases)
        case run: (something r v' w')
        have "insert_mined E c m (n\<lparr>n_fork_storage := x\<rparr>) =
            (insert_mined E c m n)\<lparr>n_fork_storage := store_keys m x\<rparr>" for c m x
          by (simp add: insert_mined_def Let_def)
        then show ?thesis
          using twin_writes(3) [OF twin_view_storage [OF run(3)]] twin_view_modified [OF run(3)]
          by (simp add: simps Some something run mine_block_ctx_def twin_innerI2)
      qed (simp add: simps Some something)
    qed
  qed (simp add: simps)
qed

lemma twin_mine_rest: "twin_inner F n n' \<Longrightarrow> rel_option (twin_inner F) (mine_rest E iv k n) (mine_rest E iv k n')"
proof (induction k arbitrary: n n')
  case (Suc k)
  show ?case
    using twin_mine_one [OF Suc.prems, of E False iv] Suc.IH
    by (cases "mine_one E False iv n"; cases "mine_one E False iv n'") simp_all
qed simp

lemma twin_mine: "twin_inner F n n' \<Longrightarrow> rel_option (twin_inner F) (mine_empty_blocks E k iv n) (mine_empty_blocks E k iv n')"
  using twin_mine_one [of F n n' E True iv] twin_mine_rest
  by (cases "mine_one E True iv n"; cases "mine_one E True iv n'") (auto simp: mine_empty_blocks_def split: nat.split)

text \<open>Recording a transaction does not look at the storage; archiving copies the local one.\<close>

lemma record_tx_storage:
  "record_tx E tx lt (n\<lparr>n_fork_storage := b\<rparr>) = map_option (\<lambda>m. m\<lparr>n_fork_storage := b\<rparr>) (record_tx E tx lt n)"
  by (simp add: record_tx_def split: Option.bind_split)

lemma archive_state_storage:
  "fo_raw b = fo_raw (n_fork_storage n) \<Longrightarrow> archive_state (n\<lparr>n_fork_storage := b\<rparr>) = (archive_state n)\<lparr>n_fork_storage := b\<rparr>"
  by (simp add: archive_state_def Let_def)

lemma produce_block_storage:
  "fo_raw b = fo_raw (n_fork_storage n) \<Longrightarrow>
   produce_block B (n\<lparr>n_fork_storage := b\<rparr>) = map_option (\<lambda>m. m\<lparr>n_fork_storage := b\<rparr>) (produce_block B n)"
  by (simp add: produce_block_def archive_state_def Let_def split: Option.bind_split)

lemma record_tx_keeps: "record_tx E tx lt n = Some m \<Longrightarrow> n_fork_storage m = n_fork_storage n"
  by (auto simp: record_tx_def bind_eq_Some_conv)

lemma produce_block_keeps: "produce_block B n = Some m \<Longrightarrow> n_fork_storage m = n_fork_storage n"
  by (auto simp: produce_block_def archive_state_def Let_def bind_eq_Some_conv split: if_splits)

lemma twin_produce_block:
  assumes "twin_inner F n n'"
  shows "rel_option (twin_inner F) (produce_block B n) (produce_block B n')"
proof -
  obtain b where n': "n' = n\<lparr>n_fork_storage := b\<rparr>" and b: "twin_storage F (n_fork_storage n) b" using assms by (rule twin_innerE)
  show ?thesis
    using produce_block_storage [of b n B] twin_storage_fields [OF b] n' b produce_block_keeps [of B n]
    by (cases "produce_block B n") (auto simp: intro!: twin_innerI)
qed

lemma twin_record_tx:
  assumes "twin_inner F n n'"
  shows "rel_option (twin_inner F) (record_tx E tx lt n) (record_tx E tx lt n')"
proof -
  obtain b where n': "n' = n\<lparr>n_fork_storage := b\<rparr>" and b: "twin_storage F (n_fork_storage n) b" using assms by (rule twin_innerE)
  show ?thesis
    using record_tx_storage [of E tx lt b n] n' b record_tx_keeps [of E tx lt n]
    by (cases "record_tx E tx lt n") (auto simp: intro!: twin_innerI)
qed

lemma rel_option_bind:
  "rel_option P x y \<Longrightarrow> (\<And>a b. P a b \<Longrightarrow> rel_option Q (f a) (g b)) \<Longrightarrow> rel_option Q (Option.bind x f) (Option.bind y g)"
  by (cases x; cases y) auto

lemma twin_next_batch:
  "twin_inner F n n' \<Longrightarrow> twin_inner F (n\<lparr>n_current_batch := sat_add (n_current_batch n) 1\<rparr>)
     (n'\<lparr>n_current_batch := sat_add (n_current_batch n') 1\<rparr>)"
  by (elim twin_innerE) (simp add: twin_inner_def)

lemma twin_commit_tx:
  assumes "twin_inner F n n'"
  shows "rel_option (twin_inner F) (commit_tx E tx lt n) (commit_tx E tx lt n')"
proof -
  obtain b where n': "n' = n\<lparr>n_fork_storage := b\<rparr>" and b: "twin_storage F (n_fork_storage n) b" using assms by (rule twin_innerE)
  let ?kept = "\<lambda>fo. store_bytecodes E (lt_bytecodes lt) (store_keys (lt_keys lt) fo)"
  have "twin_inner F (n\<lparr>n_fork_storage := ?kept (n_fork_storage n)\<rparr>) (n\<lparr>n_fork_storage := ?kept b\<rparr>)"
    by (intro twin_innerI2 twin_store_bytecodes twin_writes b)
  then have "rel_option (twin_inner F) (record_tx E tx lt (n\<lparr>n_fork_storage := ?kept (n_fork_storage n)\<rparr>))
      (record_tx E tx lt (n\<lparr>n_fork_storage := ?kept b\<rparr>))" by (rule twin_record_tx)
  then show ?thesis
    unfolding commit_tx_def n' Let_def inner.simps
    by (simp, elim rel_option_bind)
       (intro rel_option_bind [OF twin_produce_block] twin_produce_block twin_next_batch, assumption+)
qed

lemma twin_rich:
  assumes "twin_inner F n n'"
  shows "alike (twin_inner F) (rich_inner E a n) (rich_inner E a n')"
proof -
  obtain b where n': "n' = n\<lparr>n_fork_storage := b\<rparr>" and b: "twin_storage F (n_fork_storage n) b" using assms by (rule twin_innerE)
  show ?thesis
    using twin_sv_set [OF twin_view_new [OF b], of "x_eth_balance_key E a" rich_balance]
  proof (cases rule: alike_opt_cases)
    case (something r v w)
    then show ?thesis
      using twin_writes(3) [OF twin_view_storage [OF something(3)]] twin_view_modified [OF something(3)]
      by (simp add: rich_inner_def n' twin_inner_def)
  qed (simp add: rich_inner_def n' twin_innerI b)
qed

lemma twin_nonce:
  assumes "twin_inner F n n'"
  shows "alike (twin_inner F) (nonce_inner E a v n) (nonce_inner E a v n')"
proof -
  obtain b where n': "n' = n\<lparr>n_fork_storage := b\<rparr>" and b: "twin_storage F (n_fork_storage n) b" using assms by (rule twin_innerE)
  obtain r s t where "read_value_internal (x_nonce_key E a) (n_fork_storage n) = (r, s)"
      "read_value_internal (x_nonce_key E a) b = (r, t)" "twin_storage F s t"
    using twin_read_value [OF b] by (rule alikeE)
  then show ?thesis
    using assms by (simp add: nonce_inner_def Let_def n' twin_innerI2 twin_writes split: res.split prod.split)
qed

lemma twin_code:
  "twin_inner F n n' \<Longrightarrow> alike (twin_inner F) (code_inner E a c n) (code_inner E a c n')"
  by (elim twin_innerE) (simp add: code_inner_def Let_def twin_innerI twin_innerI2 twin_writes split: res.split prod.split)

lemma twin_set_value:
  "twin_inner F n n' \<Longrightarrow> twin_inner F (n\<lparr>n_fork_storage := fo_set_value k v (n_fork_storage n)\<rparr>)
     (n'\<lparr>n_fork_storage := fo_set_value k v (n_fork_storage n')\<rparr>)"
  by (elim twin_innerE) (simp add: twin_innerI2 twin_writes)

lemma twin_storage_at:
  assumes "twin_inner F n n'"
  shows "alike (twin_inner F) (storage_inner E a k bl n) (storage_inner E a k bl n')"
proof -
  obtain b where n': "n' = n\<lparr>n_fork_storage := b\<rparr>" and b: "twin_storage F (n_fork_storage n) b" using assms by (rule twin_innerE)
  have same: "storage_block E bl n' = storage_block E bl n" "archived_value j key n' = archived_value j key n"
    "fo_fork (n_fork_storage n') = fo_fork (n_fork_storage n)" "n_current_miniblock n' = n_current_miniblock n"
    "n_block_hashes n' = n_block_hashes n" for j key
    using twin_storage_fields [OF b] by (simp_all add: n' storage_block_def archived_value_def split: option.split block_id.split)
  show ?thesis
    unfolding storage_inner_def Let_def same
    by (intro alike_same twin_read_key [OF assms]) (simp_all add: assms)
qed

lemma twin_code_at:
  assumes "twin_inner F n n'"
  shows "alike (twin_inner F)
     (case read_key E k n of
        (Ok code_hash, n1) \<Rightarrow>
          (let (r, fo) = load_factory_dep_internal code_hash (n_fork_storage n1) in (g r, n1\<lparr>n_fork_storage := fo\<rparr>))
      | (Err e, n1) \<Rightarrow> (Err e, n1)
      | (Panic, n1) \<Rightarrow> (Panic, n1))
     (case read_key E k n' of
        (Ok code_hash, n1) \<Rightarrow>
          (let (r, fo) = load_factory_dep_internal code_hash (n_fork_storage n1) in (g r, n1\<lparr>n_fork_storage := fo\<rparr>))
      | (Err e, n1) \<Rightarrow> (Err e, n1)
      | (Panic, n1) \<Rightarrow> (Panic, n1))"
proof -
  obtain r m m' where k: "read_key E k n = (r, m)" "read_key E k n' = (r, m')" "twin_inner F m m'"
    using twin_read_key [OF assms] by (rule alikeE)
  obtain b where m': "m' = m\<lparr>n_fork_storage := b\<rparr>" and b: "twin_storage F (n_fork_storage m) b" using k(3) by (rule twin_innerE)
  have "alike (twin_inner F) (let (r, fo) = load_factory_dep_internal h (n_fork_storage m) in (g r, m\<lparr>n_fork_storage := fo\<rparr>))
      (let (r, fo) = load_factory_dep_internal h (n_fork_storage m') in (g r, m'\<lparr>n_fork_storage := fo\<rparr>))" for h
    using twin_load_dep [OF b, of h] by (elim alikeE) (simp add: m' twin_innerI2)
  then show ?thesis using k by (cases r) simp_all
qed

lemma twin_bytecode:
  assumes "twin_inner F n n'"
  shows "alike (twin_inner F) (bytecode_inner E h n) (bytecode_inner E h n')"
proof -
  obtain b where n': "n' = n\<lparr>n_fork_storage := b\<rparr>" and b: "twin_storage F (n_fork_storage n) b" using assms by (rule twin_innerE)
  obtain r s t where "load_factory_dep_internal h (n_fork_storage n) = (r, s)"
      "load_factory_dep_internal h b = (r, t)" and t: "twin_storage F s t"
    using twin_load_dep [OF b] by (rule alikeE)
  then show ?thesis
    using twin_storage_fields [OF t] twin_innerI2 [OF t, of n]
    by (auto simp: bytecode_inner_def Let_def n' split: res.split option.split)
qed

lemma twin_balances:
  "twin_inner F n n' \<Longrightarrow> alike (twin_inner F) (token_balances E a ts acc n) (token_balances E a ts acc n')"
proof (induction ts arbitrary: n n' acc)
  case (Cons t ts)
  obtain r m m' where k: "read_key E (x_token_balance_key E (tk_l2_address t) a) n = (r, m)"
      "read_key E (x_token_balance_key E (tk_l2_address t) a) n' = (r, m')" "twin_inner F m m'"
    using twin_read_key [OF Cons.prems] by (rule alikeE)
  then show ?case using Cons.IH [OF k(3)] by (cases r) simp_all
qed simp

section \<open>Gas estimation\<close>

lemma twin_storage_sym: "twin_storage F a b \<Longrightarrow> twin_storage F b a"
  by (simp add: twin_storage_def same_local_def)

lemma twin_step_at:
  assumes "twin_storage F a b"
  shows "alike_opt (twin_storage F) (step_at E g lim a) (step_at E g lim b)"
  using twin_run [OF twin_view_new [OF assms], of "gas_step_prog E (gs_l2_tx g) (gs_gas_per_pubdata g) lim (gs_batch_env g) (gs_system_env g)"]
  by (cases rule: alike_opt_cases) (auto simp: step_at_def estimate_gas_step_def twin_view_storage split: option.split)

text \<open>The search asks its steps for nothing but whether they failed, so it goes the same way on twins.\<close>

lemma gas_search_simulation:
  fixes fails :: "u64 \<Rightarrow> 'a \<Rightarrow> (bool \<times> 'a) option"
  assumes "gas_search fails l u s = Some r" and "T s t" and "\<And>mid s t. T s t \<Longrightarrow> alike_opt T (fails mid s) (fails mid t)"
  shows "\<exists>r'. gas_search fails l u t = Some r' \<and> alike_opt T r r'"
proof -
  define Q where "Q = (\<lambda>(fails :: u64 \<Rightarrow> 'a \<Rightarrow> (bool \<times> 'a) option) (l :: u64) (u :: u64) s r.
    (\<forall>mid s t. T s t \<longrightarrow> alike_opt T (fails mid s) (fails mid t)) \<longrightarrow>
    (\<forall>t. T s t \<longrightarrow> (\<exists>r'. gas_search fails l u t = Some r' \<and> alike_opt T r r')))"
  have "Q fails l u s r"
  proof (rule gas_search.raw_induct [OF _ assms(1)])
    fix search fails l u s r
    assume IH: "\<And>fails l u s r. search fails l u s = Some r \<Longrightarrow> Q fails l u s r"
    assume eq: "(if l + ESTIMATE_GAS_ACCEPTABLE_OVERESTIMATION < u
      then let mid = (l + u) div 2 in
           case fails mid s of None \<Rightarrow> Some None
           | Some (failed, s') \<Rightarrow> if failed then search fails (mid + 1) u s' else search fails l mid s'
      else Some (Some (u, s))) = Some r"
    show "Q fails l u s r"
      unfolding Q_def
    proof (intro impI allI)
      fix t assume sim: "\<forall>mid s t. T s t \<longrightarrow> alike_opt T (fails mid s) (fails mid t)" and t: "T s t"
      have fails: "alike_opt T (fails ((l + u) div 2) s) (fails ((l + u) div 2) t)" using sim t by blast
      show "\<exists>r'. gas_search fails l u t = Some r' \<and> alike_opt T r r'"
      proof (cases "l + ESTIMATE_GAS_ACCEPTABLE_OVERESTIMATION < u")
        case True
        note unfold = gas_search.simps [of fails l u t] Let_def
        from fails show ?thesis
        proof (cases rule: alike_opt_cases)
          case nothing
          then show ?thesis using eq True by (simp add: unfold)
        next
          case (something failed s1 t1)
          then have "(if failed then search fails ((l + u) div 2 + 1) u s1 else search fails l ((l + u) div 2) s1) = Some r"
            using eq True by (simp add: Let_def)
          then show ?thesis
            using IH [of fails "(l + u) div 2 + 1" u s1 r] IH [of fails l "(l + u) div 2" s1 r] sim something True
            unfolding Q_def by (cases failed) (simp_all add: unfold)
        qed
      qed (use eq t in \<open>auto simp: gas_search.simps [of fails l u t]\<close>)
    qed
  qed
  then show ?thesis using assms(2,3) unfolding Q_def by blast
qed

lemma gas_search_twin:
  assumes "T s t" and "\<And>mid s t. T s t \<Longrightarrow> alike_opt T (fails mid s) (fails mid t)" and "\<And>s t. T s t \<Longrightarrow> T t s"
  shows "rel_option (alike_opt T) (gas_search fails l u s) (gas_search fails l u t)"
proof -
  have "\<exists>r'. gas_search fails l u t = Some r' \<and> alike_opt T r r'" if "gas_search fails l u s = Some r" for r
    using gas_search_simulation [OF that assms(1,2)] .
  moreover have "\<exists>r'. gas_search fails l u s = Some r'" if "gas_search fails l u t = Some r" for r
    using gas_search_simulation [OF that assms(3) [OF assms(1)] assms(2)] by blast
  ultimately show ?thesis by (cases "gas_search fails l u s"; cases "gas_search fails l u t") fastforce+
qed

lemma twin_gas_answer:
  assumes "twin_storage F a b"
  shows "alike (twin_storage F) (gas_answer E g f x y a) (gas_answer E g f x y b)"
  using twin_step_at [OF assms, of E g "suggested_gas (y + x) f"]
  by (cases rule: alike_opt_cases) (simp_all add: gas_answer_def Let_def assms)

lemma twin_failing_step:
  "twin_storage F a b \<Longrightarrow> alike_opt (twin_storage F)
     (map_option (\<lambda>(r, fo'). (is_failed (vm_exec r), fo')) (step_at E g lim a))
     (map_option (\<lambda>(r, fo'). (is_failed (vm_exec r), fo')) (step_at E g lim b))"
  using twin_step_at [of F a b E g lim] by (cases rule: alike_opt_cases) auto

lemma twin_estimate_prepared:
  assumes "twin_storage F a b"
  shows "alike_opt (twin_storage F) (estimate_prepared E g f a) (estimate_prepared E g f b)"
  using twin_step_at [OF assms, of E g "x_batch_gas_limit E"]
proof (cases rule: alike_opt_cases)
  case nothing
  then show ?thesis using assms by (simp add: estimate_prepared_def)
next
  case (something res s t)
  let ?x = "ucast (vm_pubdata_published res) * gs_gas_per_pubdata g :: u64"
  let ?find = "\<lambda>fo. gas_search (\<lambda>mid fo. map_option (\<lambda>(r, fo'). (is_failed (vm_exec r), fo')) (step_at E g (?x + mid) fo))
      0 (x_max_l2_tx_gas_limit E) fo"
  have found: "rel_option (alike_opt (twin_storage F)) (?find s) (?find t)"
    by (rule gas_search_twin [OF something(3) twin_failing_step twin_storage_sym])
  have "alike_opt (twin_storage F)
      (Option.bind (?find s) (\<lambda>found. Some (case found of None \<Rightarrow> (Panic, a) | Some (u, fo2) \<Rightarrow> gas_answer E g f ?x u fo2)))
      (Option.bind (?find t) (\<lambda>found. Some (case found of None \<Rightarrow> (Panic, b) | Some (u, fo2) \<Rightarrow> gas_answer E g f ?x u fo2)))"
  proof (rule rel_option_bind [OF found])
    fix p q :: "(u64 \<times> fork_storage) option" assume "alike_opt (twin_storage F) p q"
    then show "alike_opt (twin_storage F) (Some (case p of None \<Rightarrow> (Panic, a) | Some (u, fo2) \<Rightarrow> gas_answer E g f ?x u fo2))
        (Some (case q of None \<Rightarrow> (Panic, b) | Some (u, fo2) \<Rightarrow> gas_answer E g f ?x u fo2))"
      by (cases rule: alike_opt_cases) (simp_all add: assms twin_gas_answer)
  qed
  then show ?thesis using something by (simp add: estimate_prepared_def Let_def)
qed

lemma twin_prepare:
  assumes "twin_inner F n n'"
  shows "alike (twin_storage F) (prepare_estimation E req n) (prepare_estimation E req n')"
proof -
  obtain b where n': "n' = n\<lparr>n_fork_storage := b\<rparr>" and b: "twin_storage F (n_fork_storage n) b" using assms by (rule twin_innerE)
  note simps = prepare_estimation_def Let_def n' twin_env [OF b] b
  from b show ?thesis
  proof (cases rule: twin_env_cases [where E = E])
    case nothing
    then show ?thesis by (simp add: simps split: res.split prod.split)
  next
    case (something env ctx v w)
    then show ?thesis by (simp add: simps twin_view_storage split: res.split prod.split option.split)
  qed
qed

lemma twin_estimate:
  assumes "twin_inner F n n'"
  shows "alike_opt (twin_inner F) (estimate_gas_impl E req n) (estimate_gas_impl E req n')"
proof -
  obtain b where n': "n' = n\<lparr>n_fork_storage := b\<rparr>" and b: "twin_storage F (n_fork_storage n) b" using assms by (rule twin_innerE)
  obtain r s t where p: "prepare_estimation E req n = (r, s)" "prepare_estimation E req n' = (r, t)" and t: "twin_storage F s t"
    using twin_prepare [OF assms] by (rule alikeE)
  have "alike_opt (twin_inner F) (map_option (\<lambda>(r, fo'). (r, n\<lparr>n_fork_storage := fo'\<rparr>)) (estimate_prepared E g f s))
      (map_option (\<lambda>(r, fo'). (r, n'\<lparr>n_fork_storage := fo'\<rparr>)) (estimate_prepared E g f t))" for g f
    using twin_estimate_prepared [OF t, of E g f] by (cases rule: alike_opt_cases) (simp_all add: n' twin_innerI2)
  then show ?thesis
    using p assms t by (cases r) (simp_all add: estimate_gas_impl_def n' twin_innerI2)
qed

section \<open>Nodes\<close>

definition snapshot_coherent :: "fork_details option \<Rightarrow> snapshot \<Rightarrow> bool" where
  "snapshot_coherent F s \<longleftrightarrow> caches_coherent \<lparr>fo_raw = sn_raw_storage s, fo_value_cache = sn_value_read_cache s,
     fo_dep_cache = sn_factory_dep_cache s, fo_fork = F, fo_chain_id = 0\<rparr>"

definition twin_snapshot :: "fork_details option \<Rightarrow> snapshot \<Rightarrow> snapshot \<Rightarrow> bool" where
  "twin_snapshot F s s' \<longleftrightarrow> cold_snapshot s' = cold_snapshot s \<and> snapshot_coherent F s \<and> snapshot_coherent F s'"

definition twin :: "fork_details option \<Rightarrow> node \<Rightarrow> node \<Rightarrow> bool" where
  "twin F nd nd' \<longleftrightarrow> twin_inner F (nd_inner nd) (nd_inner nd') \<and>
     list_all2 (twin_snapshot F) (nd_snapshots nd) (nd_snapshots nd') \<and>
     nd_inner_poisoned nd' = nd_inner_poisoned nd \<and> nd_snapshots_poisoned nd' = nd_snapshots_poisoned nd \<and>
     nd_system_contracts_options nd' = nd_system_contracts_options nd"

definition twins :: "node \<Rightarrow> node \<Rightarrow> bool" where
  "twins nd nd' \<longleftrightarrow> (\<exists>F. twin F nd nd')"

lemma restored_coherent:
  "caches_coherent (n_fork_storage (restore_snapshot s n)) \<longleftrightarrow> snapshot_coherent (fo_fork (n_fork_storage n)) s"
  by (simp add: snapshot_coherent_def restore_snapshot_def caches_coherent_def)

lemma twin_inner_cold: "twin_inner F n n' \<Longrightarrow> cold_inner n' = cold_inner n"
  by (elim twin_innerE) (simp add: cold_inner_def cold_storage_def twin_storage_def same_local_def)

lemma cold_storage_eqD:
  assumes "cold_storage a = cold_storage b"
  shows "fo_raw a = fo_raw b \<and> fo_fork a = fo_fork b \<and> fo_chain_id a = fo_chain_id b"
  using arg_cong [OF assms, of fo_raw] arg_cong [OF assms, of fo_fork] arg_cong [OF assms, of fo_chain_id]
  by (simp add: cold_storage_def)

lemma cold_eqD:
  assumes "cold nd' = cold nd"
  shows "cold_inner (nd_inner nd') = cold_inner (nd_inner nd)"
    "map cold_snapshot (nd_snapshots nd') = map cold_snapshot (nd_snapshots nd)"
    "nd_inner_poisoned nd' = nd_inner_poisoned nd" "nd_snapshots_poisoned nd' = nd_snapshots_poisoned nd"
    "nd_system_contracts_options nd' = nd_system_contracts_options nd"
  using arg_cong [OF assms, of nd_inner] arg_cong [OF assms, of nd_snapshots] arg_cong [OF assms, of nd_inner_poisoned]
    arg_cong [OF assms, of nd_snapshots_poisoned] arg_cong [OF assms, of nd_system_contracts_options]
  by (simp_all add: cold_def)

lemma cold_inner_eqD:
  assumes "cold_inner n' = cold_inner n"
  shows "n' = n\<lparr>n_fork_storage := n_fork_storage n'\<rparr> \<and> same_local (n_fork_storage n) (n_fork_storage n')"
proof -
  have "cold_storage (n_fork_storage n') = cold_storage (n_fork_storage n)"
    using arg_cong [OF assms, of n_fork_storage] by (simp add: cold_inner_def)
  moreover have "n' = n\<lparr>n_fork_storage := n_fork_storage n'\<rparr>"
    using arg_cong [OF assms, of "\<lambda>m. m\<lparr>n_fork_storage := n_fork_storage n'\<rparr>"] by (simp add: cold_inner_def)
  ultimately show ?thesis using cold_storage_eqD by (metis same_local_def)
qed

text \<open>Twins are coherent nodes that are the same without their caches.\<close>

lemma twins_iff: "twins nd nd' \<longleftrightarrow> coherent_node nd \<and> coherent_node nd' \<and> cold nd' = cold nd"
proof
  assume "twins nd nd'"
  then obtain F where t: "twin F nd nd'" by (auto simp: twins_def)
  have f: "fo_fork (n_fork_storage (nd_inner nd)) = F" "fo_fork (n_fork_storage (nd_inner nd')) = F"
    "caches_coherent (n_fork_storage (nd_inner nd))" "caches_coherent (n_fork_storage (nd_inner nd'))"
    using t by (auto simp: twin_def twin_inner_def twin_storage_def same_local_def)
  have l: "list_all2 (twin_snapshot F) (nd_snapshots nd) (nd_snapshots nd')" using t by (simp add: twin_def)
  have "map cold_snapshot ss = map cold_snapshot ss'" "\<forall>s \<in> set ss. snapshot_coherent F s" "\<forall>s \<in> set ss'. snapshot_coherent F s"
    if "list_all2 (twin_snapshot F) ss ss'" for ss ss'
    using that by (induction rule: list_all2_induct) (auto simp: twin_snapshot_def)
  then show "coherent_node nd \<and> coherent_node nd' \<and> cold nd' = cold nd"
    using t f l twin_inner_cold [of F "nd_inner nd" "nd_inner nd'"]
    by (auto simp: twin_def coherent_node_def restored_coherent cold_def)
next
  assume c: "coherent_node nd \<and> coherent_node nd' \<and> cold nd' = cold nd"
  then have "cold nd' = cold nd" by simp
  note i = cold_inner_eqD [OF cold_eqD(1) [OF this]] and s = cold_eqD(2) [OF this] and r = cold_eqD(3-5) [OF this]
  let ?F = "fo_fork (n_fork_storage (nd_inner nd))"
  have F: "fo_fork (n_fork_storage (nd_inner nd')) = ?F" using i by (simp add: same_local_def)
  have "list_all2 (twin_snapshot ?F) (nd_snapshots nd) (nd_snapshots nd')"
    unfolding list_all2_conv_all_nth
  proof (intro conjI allI impI)
    show "length (nd_snapshots nd) = length (nd_snapshots nd')" using s by (metis length_map)
    fix j assume "j < length (nd_snapshots nd)"
    then show "twin_snapshot ?F (nd_snapshots nd ! j) (nd_snapshots nd' ! j)"
      using c F s \<open>length (nd_snapshots nd) = length (nd_snapshots nd')\<close> nth_map [of j "nd_snapshots nd" cold_snapshot]
        nth_map [of j "nd_snapshots nd'" cold_snapshot]
      by (simp add: twin_snapshot_def coherent_node_def restored_coherent)
  qed
  then have "twin ?F nd nd'"
    using c i r by (simp add: twin_def twin_inner_def twin_storage_def coherent_node_def)
  then show "twins nd nd'" by (auto simp: twins_def)
qed

section \<open>Under the locks\<close>

lemma twin_with_inner: "twin F nd nd' \<Longrightarrow> twin_inner F n n' \<Longrightarrow> twin F (nd\<lparr>nd_inner := n\<rparr>) (nd'\<lparr>nd_inner := n'\<rparr>)"
  by (simp add: twin_def)

lemma twin_with_poison: "twin F nd nd' \<Longrightarrow> twin F (nd\<lparr>nd_inner_poisoned := p\<rparr>) (nd'\<lparr>nd_inner_poisoned := p\<rparr>)"
  by (simp add: twin_def)

lemma twin_node_inner: "twin F nd nd' \<Longrightarrow> twin_inner F (nd_inner nd) (nd_inner nd')"
  by (simp add: twin_def)

lemma twin_write:
  assumes "twin F nd nd'" and "\<And>n n'. twin_inner F n n' \<Longrightarrow> alike (twin_inner F) (f n) (f n')"
  shows "alike (twin F) (write_inner e f nd) (write_inner e f nd')"
proof -
  obtain r m m' where f: "f (nd_inner nd) = (r, m)" "f (nd_inner nd') = (r, m')" "twin_inner F m m'"
    using assms(2) [OF twin_node_inner [OF assms(1)]] by (rule alikeE)
  have p: "nd_inner_poisoned nd' = nd_inner_poisoned nd" using assms(1) by (simp add: twin_def)
  show ?thesis
    using f p assms(1) twin_with_inner [OF assms(1) f(3)] twin_with_poison [OF assms(1), of True]
    by (cases r) (simp_all add: write_inner_def)
qed

lemma twin_read:
  assumes "twin F nd nd'" and "\<And>n n'. twin_inner F n n' \<Longrightarrow> f n' = f n"
  shows "read_inner e f nd' = read_inner e f nd"
  using assms(1) assms(2) [OF twin_node_inner [OF assms(1)]] by (simp add: read_inner_def twin_def)

text \<open>Operations that do not touch the storage.\<close>

lemma twin_frame:
  "twin_inner F n n' \<Longrightarrow> (\<And>b. f (n\<lparr>n_fork_storage := b\<rparr>) = (\<lambda>(r, m). (r, m\<lparr>n_fork_storage := b\<rparr>)) (f n)) \<Longrightarrow>
   n_fork_storage (snd (f n)) = n_fork_storage n \<Longrightarrow> alike (twin_inner F) (f n) (f n')"
  by (elim twin_innerE) (simp add: alike_def case_prod_beta twin_innerI)

lemma twin_of_option:
  "twin_inner F n n' \<Longrightarrow> rel_option (twin_inner F) m m' \<Longrightarrow> alike (twin_inner F) (of_option n m) (of_option n' m')"
  by (cases m; cases m') (simp_all add: of_option_def)

section \<open>Transactions\<close>

lemma twin_notified:
  "twin_inner F n n' \<Longrightarrow> twin_inner F (n\<lparr>n_filters := g (n_filters n)\<rparr>) (n'\<lparr>n_filters := g (n_filters n')\<rparr>)"
  by (elim twin_innerE) (simp add: twin_inner_def)

lemma twin_validate: "twin F nd nd' \<Longrightarrow> validate_tx tx nd' = validate_tx tx nd"
  unfolding validate_tx_def Let_def
  by (simp, intro impI twin_read, assumption, elim twin_innerE) (simp add: validate_inner_def)

lemma twin_run_l2_tx:
  assumes "twin F nd nd'"
  shows "alike (twin F) (run_l2_tx E tx mode nd) (run_l2_tx E tx mode nd')"
proof (cases "validate_tx tx nd")
  case (Ok u)
  let ?seen = "write_inner (Err write_lock_failed :: (string, unit) res) (\<lambda>n. (Ok (),
             n\<lparr>n_filters := notify_new_pending_transaction (x_tx_hash E tx) (n_filters n)\<rparr>))"
  have "alike (twin F) (?seen nd) (?seen nd')" by (rule twin_write [OF assms]) (simp add: twin_notified)
  then obtain r nd1 nd1' where 1: "?seen nd = (r, nd1)" "?seen nd' = (r, nd1')" "twin F nd1 nd1'" by (rule alikeE)
  obtain x fo fo' where 2: "run_l2_tx_raw E tx mode True (nd_inner nd1) = (x, fo)"
      "run_l2_tx_raw E tx mode True (nd_inner nd1') = (x, fo')" "twin_storage F fo fo'"
    using twin_run_tx_raw [OF twin_node_inner [OF 1(3)]] by (rule alikeE)
  have "twin_inner F ((nd_inner nd1)\<lparr>n_fork_storage := fo\<rparr>) ((nd_inner nd1')\<lparr>n_fork_storage := fo'\<rparr>)"
    using twin_node_inner [OF 1(3)] 2(3) by (elim twin_innerE) (simp add: twin_innerI2)
  then have 3: "twin F (nd1\<lparr>nd_inner := (nd_inner nd1)\<lparr>n_fork_storage := fo\<rparr>\<rparr>)
      (nd1'\<lparr>nd_inner := (nd_inner nd1')\<lparr>n_fork_storage := fo'\<rparr>\<rparr>)" by (rule twin_with_inner [OF 1(3)])
  have "alike (twin F) (write_inner (Err write_lock_failed) (\<lambda>n. of_option n (commit_tx E tx lt n))
        (nd1\<lparr>nd_inner := (nd_inner nd1)\<lparr>n_fork_storage := fo\<rparr>\<rparr>))
      (write_inner (Err write_lock_failed) (\<lambda>n. of_option n (commit_tx E tx lt n))
        (nd1'\<lparr>nd_inner := (nd_inner nd1')\<lparr>n_fork_storage := fo'\<rparr>\<rparr>))" for lt
    by (rule twin_write [OF 3]) (intro twin_of_option twin_commit_tx)
  then show ?thesis
    using twin_validate [OF assms] Ok 1 2 3
    by (cases r; cases x) (simp_all add: run_l2_tx_def Let_def split: exec_result.split)
qed (use twin_validate [OF assms] assms in \<open>simp_all add: run_l2_tx_def\<close>)

section \<open>Snapshots and resets\<close>

lemma twin_taken:
  "twin_inner F n n' \<Longrightarrow> twin_snapshot F (take_snapshot n) (take_snapshot n')"
  by (elim twin_innerE) (simp add: twin_snapshot_def cold_snapshot_def snapshot_coherent_def take_snapshot_def twin_storage_def
      same_local_def caches_coherent_def)

lemma cold_snapshot_eqD:
  assumes "cold_snapshot s' = cold_snapshot s"
  shows "restore_snapshot s' n = (restore_snapshot s n)\<lparr>n_fork_storage := n_fork_storage (restore_snapshot s' n)\<rparr>"
    "sn_raw_storage s' = sn_raw_storage s"
proof -
  have "s' = s\<lparr>sn_value_read_cache := sn_value_read_cache s', sn_factory_dep_cache := sn_factory_dep_cache s'\<rparr>"
    using arg_cong [OF assms, of "\<lambda>x. x\<lparr>sn_value_read_cache := sn_value_read_cache s', sn_factory_dep_cache := sn_factory_dep_cache s'\<rparr>"]
    by (simp add: cold_snapshot_def)
  then obtain c d where s': "s' = s\<lparr>sn_value_read_cache := c, sn_factory_dep_cache := d\<rparr>" ..
  show "restore_snapshot s' n = (restore_snapshot s n)\<lparr>n_fork_storage := n_fork_storage (restore_snapshot s' n)\<rparr>"
    "sn_raw_storage s' = sn_raw_storage s"
    unfolding s' by (simp_all add: restore_snapshot_def)
qed

lemma twin_restored:
  assumes "twin_inner F n n'" and "twin_snapshot F s s'"
  shows "twin_inner F (restore_snapshot s n) (restore_snapshot s' n')"
proof -
  obtain b where n': "n' = n\<lparr>n_fork_storage := b\<rparr>" and b: "twin_storage F (n_fork_storage n) b" using assms(1) by (rule twin_innerE)
  have c: "cold_snapshot s' = cold_snapshot s" using assms(2) by (simp add: twin_snapshot_def)
  have "restore_snapshot s' n' = (restore_snapshot s' n)\<lparr>n_fork_storage := n_fork_storage (restore_snapshot s' n')\<rparr>"
    by (simp add: n' restore_snapshot_def)
  then have "restore_snapshot s' n' = (restore_snapshot s n)\<lparr>n_fork_storage := n_fork_storage (restore_snapshot s' n')\<rparr>"
    using cold_snapshot_eqD(1) [OF c, of n] by (metis inner.update_convs(10) inner.surjective)
  moreover have "same_local (n_fork_storage (restore_snapshot s n)) (n_fork_storage (restore_snapshot s' n'))"
    using twin_storage_fields [OF b] cold_snapshot_eqD(2) [OF c] by (simp add: n' restore_snapshot_def same_local_def)
  moreover have "fo_fork (n_fork_storage n) = F" "fo_fork (n_fork_storage n') = F" using twin_storage_fields [OF b] n' by simp_all
  moreover have "fo_fork (n_fork_storage (restore_snapshot s n)) = fo_fork (n_fork_storage n)" by (simp add: restore_snapshot_def)
  ultimately show ?thesis
    using assms(2) by (simp add: twin_inner_def twin_storage_def restored_coherent twin_snapshot_def)
qed

lemma twin_snapshots_length: "twin F nd nd' \<Longrightarrow> length (nd_snapshots nd') = length (nd_snapshots nd)"
  by (auto simp: twin_def dest: list_all2_lengthD)

lemma twin_nd_snapshot:
  assumes "twin F nd nd'"
  shows "alike (twin F) (nd_snapshot nd) (nd_snapshot nd')"
proof -
  have "twin F (nd\<lparr>nd_snapshots := nd_snapshots nd @ [take_snapshot (nd_inner nd)]\<rparr>)
      (nd'\<lparr>nd_snapshots := nd_snapshots nd' @ [take_snapshot (nd_inner nd')]\<rparr>)"
    using assms twin_taken [OF twin_node_inner [OF assms]] by (simp add: twin_def list_all2_appendI)
  then show ?thesis
    using assms twin_snapshots_length [OF assms] by (simp add: nd_snapshot_def Let_def twin_def)
qed

lemma twin_revert:
  assumes "twin F nd nd'"
  shows "alike (twin F) (revert_snapshot i nd) (revert_snapshot i nd')"
proof -
  note len = twin_snapshots_length [OF assms]
  have l: "list_all2 (twin_snapshot F) (nd_snapshots nd) (nd_snapshots nd')" using assms by (simp add: twin_def)
  have "twin F (nd\<lparr>nd_snapshots := take j (nd_snapshots nd), nd_inner := restore_snapshot (nd_snapshots nd ! j) (nd_inner nd)\<rparr>)
      (nd'\<lparr>nd_snapshots := take j (nd_snapshots nd'), nd_inner := restore_snapshot (nd_snapshots nd' ! j) (nd_inner nd')\<rparr>)"
    if "j < length (nd_snapshots nd)" for j
    using assms twin_restored [OF twin_node_inner [OF assms] list_all2_nthD [OF l that]] list_all2_takeI [OF l, of j]
    by (simp add: twin_def)
  then show ?thesis using assms len by (simp add: revert_snapshot_def Let_def twin_def)
qed

lemma twin_set_rich: "twin F nd nd' \<Longrightarrow> alike (twin F) (set_rich_accounts E as nd) (set_rich_accounts E as nd')"
proof (induction as arbitrary: nd nd')
  case (Cons a as)
  obtain r nd1 nd1' where 1: "set_rich_account E a nd = (r, nd1)" "set_rich_account E a nd' = (r, nd1')" "twin F nd1 nd1'"
    using twin_write [OF Cons.prems twin_rich] unfolding set_rich_account_def by (rule alikeE)
  then show ?case using Cons.IH by (cases r) simp_all
qed simp

lemma twin_refl:
  "caches_coherent (n_fork_storage (nd_inner nd)) \<Longrightarrow> nd_snapshots nd = [] \<Longrightarrow>
   twin (fo_fork (n_fork_storage (nd_inner nd))) nd nd"
  by (simp add: twin_def twin_inner_def twin_storage_def)

section \<open>Requests\<close>

lemma alike_twins: "alike (twin F) x y \<Longrightarrow> alike twins x y"
  by (auto simp: alike_def twins_def)

lemma twins_of_twin: "twin F nd nd' \<Longrightarrow> twins nd nd'"
  by (auto simp: twins_def)

lemma alike_answered: "alike twins x y \<Longrightarrow> alike twins (answered g x) (answered g y)"
  by (simp add: alike_def answered_def)

lemma alike_computed:
  "alike_opt twins x y \<Longrightarrow> twins nd nd' \<Longrightarrow> alike twins (computed g x nd) (computed g y nd')"
  by (cases x; cases y) (simp_all add: computed_def alike_answered)

lemma alike_rpc: "alike T x y \<Longrightarrow> alike T (rpc_internal E x) (rpc_internal E y)" "alike T u v \<Longrightarrow> alike T (rpc_message u) (rpc_message v)"
  by (simp_all add: alike_def rpc_internal_def rpc_message_def)

lemma twin_mine_inner:
  assumes "twin_inner F n n'"
  shows "alike (twin_inner F) (case mine_empty_blocks E k iv n of None \<Rightarrow> (Panic, n) | Some m \<Rightarrow> (Ok x, m))
    (case mine_empty_blocks E k iv n' of None \<Rightarrow> (Panic, n') | Some m \<Rightarrow> (Ok x, m))"
  using twin_mine [OF assms, of E k iv] assms
  by (cases "mine_empty_blocks E k iv n"; cases "mine_empty_blocks E k iv n'") simp_all

text \<open>The operations of the test namespaces.\<close>

lemma twin_operations:
  assumes "twin F nd nd'"
  shows "alike (twin F) (set_balance E a v nd) (set_balance E a v nd')"
    "alike (twin F) (set_nonce E a v nd) (set_nonce E a v nd')"
    "alike (twin F) (set_code E a c nd) (set_code E a c nd')"
    "alike (twin F) (set_storage_at a k v nd) (set_storage_at a k v nd')"
    "alike (twin F) (mine_block E nd) (mine_block E nd')"
    "alike (twin F) (mine_blocks E num iv nd) (mine_blocks E num iv nd')"
  unfolding set_balance_def set_nonce_def set_code_def set_storage_at_def mine_block_def mine_blocks_def Let_def
  by (rule twin_write [OF assms]; auto intro!: twin_set_value twin_nonce twin_code twin_mine_inner alike_same)+

lemma twin_clock:
  assumes "twin F nd nd'"
  shows "alike (twin F) (increase_time t nd) (increase_time t nd')"
    "alike (twin F) (set_next_block_timestamp t nd) (set_next_block_timestamp t nd')"
    "alike (twin F) (set_time t nd) (set_time t nd')"
    "alike (twin F) (impersonate_account a nd) (impersonate_account a nd')"
    "alike (twin F) (nd_stop_impersonating_account a nd) (nd_stop_impersonating_account a nd')"
  unfolding increase_time_def set_next_block_timestamp_def set_time_def impersonate_account_def nd_stop_impersonating_account_def
    set_impersonated_account_def stop_impersonating_account_def Let_def
  by (rule twin_write [OF assms]; erule twin_frame; simp)+

lemma twin_reset:
  assumes "twin F nd nd'"
  shows "alike twins (reset E fork nd) (reset E fork nd')"
proof -
  obtain b where n': "nd_inner nd' = (nd_inner nd)\<lparr>n_fork_storage := b\<rparr>" using twin_node_inner [OF assms] by (rule twin_innerE)
  have p: "nd_inner_poisoned nd' = nd_inner_poisoned nd" "nd_snapshots_poisoned nd' = nd_snapshots_poisoned nd"
    "nd_system_contracts_options nd' = nd_system_contracts_options nd" using assms by (simp_all add: twin_def)
  have same: "alike twins (x, nd) (x, nd')" for x :: "(string, unit) res" using twins_of_twin [OF assms] by simp
  let ?new = "inner_new E fork (n_observability (nd_inner nd)) (n_config (nd_inner nd)) (Some (gas_values (n_fee_input_provider (nd_inner nd))))"
  show ?thesis
  proof (cases ?new)
    case None
    then show ?thesis using same p n' by (simp add: reset_def Let_def)
  next
    case (Some m)
    have "caches_coherent (n_fork_storage m)"
      using Some fork_storage_new_coherent by (auto simp: inner_new_def Let_def bind_eq_Some_conv split: option.splits)
    then have 1: "twin (fo_fork (n_fork_storage m)) (nd\<lparr>nd_snapshots := [], nd_inner := m\<rparr>) (nd'\<lparr>nd_snapshots := [], nd_inner := m\<rparr>)"
      using p by (simp add: twin_def twin_inner_def twin_storage_def)
    obtain r nd1 nd1' where "set_rich_accounts E (LEGACY_RICH_WALLETS @ RICH_WALLETS) (nd\<lparr>nd_snapshots := [], nd_inner := m\<rparr>) = (r, nd1)"
        "set_rich_accounts E (LEGACY_RICH_WALLETS @ RICH_WALLETS) (nd'\<lparr>nd_snapshots := [], nd_inner := m\<rparr>) = (r, nd1')"
        "twin (fo_fork (n_fork_storage m)) nd1 nd1'"
      using twin_set_rich [OF 1] by (rule alikeE)
    moreover have "twin (fo_fork (n_fork_storage m)) (nd1\<lparr>nd_snapshots_poisoned := True\<rparr>) (nd1'\<lparr>nd_snapshots_poisoned := True\<rparr>)"
      using calculation(3) by (simp add: twin_def)
    ultimately show ?thesis using same p n' Some twins_of_twin by (cases r) (simp_all add: reset_def Let_def)
  qed
qed

lemma twin_reset_fork:
  assumes "twin F nd nd'"
  shows "reset_fork E io d client spec nd' = reset_fork E io d client spec nd"
proof -
  have e: "nd_get_fork_url nd' = nd_get_fork_url nd" "nd_get_cache_config nd' = nd_get_cache_config nd"
    unfolding nd_get_fork_url_def nd_get_cache_config_def
    by (rule twin_read [OF assms], elim twin_innerE,
        simp add: fo_get_fork_url_def fo_get_cache_config_def twin_storage_def same_local_def)+
  have "reset_target spec nd' = reset_target spec nd" by (simp only: reset_target_def e)
  then show ?thesis by (simp only: reset_fork_def e)
qed

lemma twin_reset_network:
  assumes "twin F nd nd'"
  shows "alike twins (reset_network E io d client spec nd) (reset_network E io d client spec nd')"
proof -
  have "alike twins (case reset E fork nd of (Ok _, nd') \<Rightarrow> (Ok True, nd') | (Err e, nd') \<Rightarrow> (Err e, nd') | (Panic, nd') \<Rightarrow> (Panic, nd'))
      (case reset E fork nd' of (Ok _, nd') \<Rightarrow> (Ok True, nd') | (Err e, nd') \<Rightarrow> (Err e, nd') | (Panic, nd') \<Rightarrow> (Panic, nd'))" for fork
    using twin_reset [OF assms, of E fork] by (elim alikeE) (simp split: res.split)
  then show ?thesis
    using twin_reset_fork [OF assms] twins_of_twin [OF assms] by (simp add: reset_network_def split: res.split)
qed

lemma twin_account:
  assumes "twin F nd nd'"
  shows "alike twins (answer_hardhat W r nd) (answer_hardhat W r nd')" "alike twins (answer_anvil W r nd) (answer_anvil W r nd')"
  using twin_operations [OF assms, THEN alike_twins] twin_clock [OF assms, THEN alike_twins] twin_reset_network [OF assms]
  by (cases r; auto intro!: alike_answered alike_rpc simp: hardhat_set_balance_def hardhat_set_nonce_def hardhat_mine_def hardhat_reset_def
      hardhat_impersonate_account_def hardhat_stop_impersonating_account_def hardhat_set_code_def hardhat_set_storage_at_def
      anvil_set_balance_def anvil_set_nonce_def anvil_mine_def anvil_reset_def anvil_impersonate_account_def
      anvil_stop_impersonating_account_def anvil_set_code_def anvil_set_storage_at_def)+

lemma twin_evm:
  assumes "twin F nd nd'"
  shows "alike twins (answer_evm W r nd) (answer_evm W r nd')"
  using twin_operations [OF assms, THEN alike_twins] twin_clock [OF assms, THEN alike_twins]
    twin_nd_snapshot [OF assms, THEN alike_twins] twin_revert [OF assms, THEN alike_twins]
  by (cases r; auto intro!: alike_answered alike_rpc simp: evm_set_nonce_def evm_increase_time_def evm_mine_def
      evm_set_next_block_timestamp_def evm_set_time_def evm_snapshot_def evm_revert_def)

lemma twin_sent:
  assumes "twin F nd nd'"
  shows "alike (twin F) (eth_send_raw_transaction E bs nd) (eth_send_raw_transaction E bs nd')"
    "alike (twin F) (eth_send_transaction E req nd) (eth_send_transaction E req nd')"
proof -
  obtain b where n': "nd_inner nd' = (nd_inner nd)\<lparr>n_fork_storage := b\<rparr>" "fo_chain_id b = fo_chain_id (n_fork_storage (nd_inner nd))"
    using twin_node_inner [OF assms] by (auto elim!: twin_innerE simp: twin_storage_def same_local_def)
  have p: "nd_inner_poisoned nd' = nd_inner_poisoned nd" using assms by (simp add: twin_def)
  have run: "alike (twin F)
      (case run_l2_tx E tx VerifyExecute nd of (Ok u, nd') \<Rightarrow> (Ok x, nd') | (Err e, nd') \<Rightarrow> (Err (g e), nd') | (Panic, nd') \<Rightarrow> (Panic, nd'))
      (case run_l2_tx E tx VerifyExecute nd' of (Ok u, nd') \<Rightarrow> (Ok x, nd') | (Err e, nd') \<Rightarrow> (Err (g e), nd') | (Panic, nd') \<Rightarrow> (Panic, nd'))"
    for tx and x :: h256 and g :: "string \<Rightarrow> rpc_error"
    using twin_run_l2_tx [OF assms, of E tx VerifyExecute] by (elim alikeE) (simp split: res.split)
  have read: "read_inner e (\<lambda>n. Ok (fo_chain_id (n_fork_storage n))) nd' = read_inner e (\<lambda>n. Ok (fo_chain_id (n_fork_storage n))) nd"
    for e :: "(rpc_error, u64) res" by (simp add: read_inner_def p n')
  show "alike (twin F) (eth_send_raw_transaction E bs nd) (eth_send_raw_transaction E bs nd')"
    unfolding eth_send_raw_transaction_def read Let_def
    by (intro alike_same run) (simp_all add: assms)
  have may: "may_send E tx nd' = may_send E tx nd" for tx by (simp add: may_send_def read_inner_def p n')
  have prices: "read_inner e (\<lambda>n. Ok (fo_chain_id (n_fork_storage n), fp_l1_gas_price' (n_fee_input_provider n))) nd' =
      read_inner e (\<lambda>n. Ok (fo_chain_id (n_fork_storage n), fp_l1_gas_price' (n_fee_input_provider n))) nd"
    for e :: "(rpc_error, u64 \<times> u64) res" by (simp add: read_inner_def p n')
  show "alike (twin F) (eth_send_transaction E req nd) (eth_send_transaction E req nd')"
    unfolding eth_send_transaction_def may prices
    by (intro alike_same run) (simp_all add: assms)
qed

lemma twin_eth_call:
  assumes "twin F nd nd'"
  shows "alike (twin F) (eth_call E req nd) (eth_call E req nd')"
proof -
  have "alike (twin F) (run_l2_call E tx nd) (run_l2_call E tx nd')" for tx
    unfolding run_l2_call_def by (rule twin_write [OF assms twin_call_inner])
  then have "alike (twin F) (let (result, nd1) = run_l2_call E tx nd in (call_answer E result, nd1))
      (let (result, nd1) = run_l2_call E tx nd' in (call_answer E result, nd1))" for tx
    by (simp add: alike_def case_prod_beta)
  then show ?thesis unfolding eth_call_def by (intro alike_same) (simp_all add: assms)
qed

lemma twin_estimates:
  assumes "twin F nd nd'"
  shows "alike_opt (twin F) (eth_estimate_gas E req nd) (eth_estimate_gas E req nd')"
    "alike_opt (twin F) (zks_estimate_fee E req nd) (zks_estimate_fee E req nd')"
  using twin_estimate [OF twin_node_inner [OF assms], of E req] assms
  by (cases rule: alike_opt_cases; auto simp: eth_estimate_gas_def zks_estimate_fee_def twin_def)+

lemma twin_with_filters:
  "twin F nd nd' \<Longrightarrow> alike (twin F) (with_filters E x y f nd) (with_filters E x y f nd')"
  unfolding with_filters_def
  by (erule twin_write, elim twin_innerE) (auto simp: twin_inner_def split: res.split)

lemma twin_eth:
  assumes "twin F nd nd'"
  shows "alike twins (answer_eth W r nd) (answer_eth W r nd')"
proof -
  let ?E = "wo_ext W"
  note w = twin_write [OF assms, THEN alike_twins]
  show ?thesis
  proof (cases r)
    case (EthGetCode a)
    then show ?thesis unfolding EthGetCode answer_eth.simps eth_get_code_def
      by (intro alike_answered w) (rule twin_code_at)
  next
    case (EthGetTransactionCount a)
    have "alike (twin_inner F) (let (r, n') = read_key ?E k n in (rbind r g, n')) (let (r, n') = read_key ?E k m in (rbind r g, n'))"
      if "twin_inner F n m" for n m k and g :: "h256 \<Rightarrow> u256 rpc"
      using twin_read_key [OF that, of ?E k] by (simp add: alike_def case_prod_beta)
    then show ?thesis unfolding EthGetTransactionCount answer_eth.simps eth_get_transaction_count_def
      by (intro alike_answered w) blast
  next
    case (EthEstimateGas req)
    have "alike_opt twins (eth_estimate_gas ?E req nd) (eth_estimate_gas ?E req nd')"
      using twin_estimates(1) [OF assms, of ?E req] by (rule option.rel_mono_strong) (rule alike_twins)
    then show ?thesis using EthEstimateGas alike_computed twins_of_twin [OF assms] by simp
  next
    case (EthUninstallFilter i)
    then show ?thesis unfolding EthUninstallFilter answer_eth.simps eth_uninstall_filter_def
      by (intro alike_answered w) (erule twin_frame; simp add: Let_def case_prod_beta)
  next
    case (EthGetFilterChanges i)
    then show ?thesis unfolding EthGetFilterChanges answer_eth.simps eth_get_filter_changes_def
      by (intro alike_answered w) (erule twin_frame; simp add: Let_def case_prod_beta)
  qed (use twin_sent [OF assms, THEN alike_twins] twin_eth_call [OF assms, THEN alike_twins] twin_with_filters [OF assms, THEN alike_twins]
       in \<open>auto intro!: alike_answered w twin_read_key twin_storage_at simp: eth_get_balance_def eth_get_storage_def
         eth_new_filter_def eth_new_block_filter_def eth_new_pending_transaction_filter_def\<close>)
qed

lemma twin_config_read:
  assumes "twin F nd nd'" and "\<And>n b. f (n\<lparr>n_fork_storage := b\<rparr>) = f n"
  shows "config_read E f nd' = config_read E f nd"
  unfolding config_read_def using assms(2) by (intro twin_read [OF assms(1)]) (elim twin_innerE, simp)

lemma twin_config_write:
  "twin F nd nd' \<Longrightarrow> alike (twin F) (config_write E f g nd) (config_write E f g nd')"
  unfolding config_write_def by (erule twin_write, erule twin_frame) simp_all

lemma twin_observed:
  assumes "twin F nd nd'"
  shows "alike (twin F) (with_observability E f nd) (with_observability E f nd')"
proof -
  obtain b where n': "nd_inner nd' = (nd_inner nd)\<lparr>n_fork_storage := b\<rparr>" and b: "twin_storage F (n_fork_storage (nd_inner nd)) b"
    using twin_node_inner [OF assms] by (rule twin_innerE)
  have "twin F (nd\<lparr>nd_inner := (nd_inner nd)\<lparr>n_observability := x\<rparr>\<rparr>) (nd'\<lparr>nd_inner := (nd_inner nd')\<lparr>n_observability := x\<rparr>\<rparr>)" for x
    by (rule twin_with_inner [OF assms]) (simp add: n' b twin_inner_def)
  then show ?thesis using assms n' by (simp add: with_observability_def twin_def split: option.split prod.split res.split)
qed

lemma twin_config:
  assumes "twin F nd nd'"
  shows "alike twins (answer_config W r nd) (answer_config W r nd')"
proof -
  have "alike twins (config_read E f nd, nd) (config_read E f nd', nd')" if "\<And>n b. f (n\<lparr>n_fork_storage := b\<rparr>) = f n"
    for E and f :: "inner \<Rightarrow> string"
    using twin_config_read [OF assms that] twins_of_twin [OF assms] by simp
  then show ?thesis
    using twin_config_write [OF assms, THEN alike_twins] twin_observed [OF assms, THEN alike_twins]
    by (cases r; auto intro!: alike_answered simp: config_set_show_calls_def config_set_show_outputs_def config_get_show_calls_def
        config_set_show_storage_logs_def config_set_show_vm_details_def config_set_show_gas_details_def config_set_resolve_hashes_def
        config_set_log_level_def config_set_logging_def split: res.split)
qed

lemma twin_confirmed_tokens: "twin F nd nd' \<Longrightarrow> zks_get_confirmed_tokens E i k nd' = zks_get_confirmed_tokens E i k nd"
  unfolding zks_get_confirmed_tokens_def
  by (erule twin_read, elim twin_innerE) (simp add: twin_storage_def same_local_def)

lemma twin_all_balances:
  assumes "twin F nd nd'"
  shows "alike (twin F) (zks_get_all_account_balances E d a nd) (zks_get_all_account_balances E d a nd')"
  unfolding zks_get_all_account_balances_def twin_confirmed_tokens [OF assms]
  by (intro alike_same twin_write [OF assms] twin_balances) (simp_all add: assms)

lemma twin_debug_trace_call:
  assumes "twin F nd nd'"
  shows "alike (twin F) (debug_trace_call E req bl t nd) (debug_trace_call E req bl t nd')"
proof -
  have p: "nd_inner_poisoned nd' = nd_inner_poisoned nd" using assms by (simp add: twin_def)
  have "alike (twin F)
      (case trace_call_inner E flat tx (nd_inner nd) of (Panic, _) \<Rightarrow> (Panic, nd)
       | (r, fo) \<Rightarrow> (r, nd\<lparr>nd_inner := (nd_inner nd)\<lparr>n_fork_storage := fo\<rparr>\<rparr>))
      (case trace_call_inner E flat tx (nd_inner nd') of (Panic, _) \<Rightarrow> (Panic, nd')
       | (r, fo) \<Rightarrow> (r, nd'\<lparr>nd_inner := (nd_inner nd')\<lparr>n_fork_storage := fo\<rparr>\<rparr>))" for flat tx
  proof -
    obtain r s t where c: "trace_call_inner E flat tx (nd_inner nd) = (r, s)" "trace_call_inner E flat tx (nd_inner nd') = (r, t)"
        "twin_storage F s t"
      using twin_trace_call [OF twin_node_inner [OF assms]] by (rule alikeE)
    have "twin_inner F ((nd_inner nd)\<lparr>n_fork_storage := s\<rparr>) ((nd_inner nd')\<lparr>n_fork_storage := t\<rparr>)"
      using twin_node_inner [OF assms] c(3) by (elim twin_innerE) (simp add: twin_innerI2)
    then show ?thesis using c assms twin_with_inner [OF assms] by (cases r) simp_all
  qed
  then show ?thesis unfolding debug_trace_call_def p by (intro alike_same) (simp_all add: assms)
qed

section \<open>Queries\<close>

lemma collect_traces_storage: "collect_traces E (n\<lparr>n_fork_storage := b\<rparr>) flat hs = collect_traces E n flat hs"
  by (induction hs) (simp_all split: option.split)

lemma query_frames:
  "block_at k (n\<lparr>n_fork_storage := b\<rparr>) = block_at k n"
  "trace_block_inner E flat found (n\<lparr>n_fork_storage := b\<rparr>) = trace_block_inner E flat found n"
  "matching_logs lf (n\<lparr>n_fork_storage := b\<rparr>) = matching_logs lf n"
  "recorded_transactions (n\<lparr>n_fork_storage := b\<rparr>) B = recorded_transactions n B"
  "local_block_details E (n\<lparr>n_fork_storage := b\<rparr>) B = local_block_details E n B"
  by (simp_all add: block_at_def trace_block_inner_def collect_traces_storage matching_logs_def recorded_transactions_def
      local_block_details_def split: option.split)

lemma lookup_frames:
  assumes "fo_fork b = fo_fork (n_fork_storage n)"
  shows "fork_lookup (n\<lparr>n_fork_storage := b\<rparr>) f = fork_lookup n f"
    "or_fork found (n\<lparr>n_fork_storage := b\<rparr>) f = or_fork found n f"
    "indexed_tx (n\<lparr>n_fork_storage := b\<rparr>) B i = indexed_tx n B i"
  using assms by (simp_all add: fork_lookup_def or_fork_def indexed_tx_def split: option.split tx_variant.split)

lemma twin_query:
  assumes "twin F nd nd'"
  shows "answer_query W q nd' = answer_query W q nd"
proof -
  obtain b where n': "nd_inner nd' = (nd_inner nd)\<lparr>n_fork_storage := b\<rparr>"
    and b: "fo_chain_id b = fo_chain_id (n_fork_storage (nd_inner nd))" "fo_fork b = fo_fork (n_fork_storage (nd_inner nd))"
    using twin_node_inner [OF assms] by (auto elim!: twin_innerE simp: twin_storage_def same_local_def)
  have p: "nd_inner_poisoned nd' = nd_inner_poisoned nd" using assms by (simp add: twin_def)
  have read: "read_inner e f nd' = read_inner e f nd"
    if "f ((nd_inner nd)\<lparr>n_fork_storage := b\<rparr>) = f (nd_inner nd)" for e and f :: "inner \<Rightarrow> ('e, 'a) res"
    using that by (simp add: read_inner_def p n')
  have filter_logs: "eth_get_filter_logs E i nd' = eth_get_filter_logs E i nd" for E i
    unfolding eth_get_filter_logs_def by (rule read) (simp add: query_frames split: option.split filter_type.split)
  have details: "zks_get_block_details E k nd' = zks_get_block_details E k nd"
    "zks_get_transaction_details E h nd' = zks_get_transaction_details E h nd"
    "zks_get_raw_block_transactions E k nd' = zks_get_raw_block_transactions E k nd" for E k h
    unfolding zks_get_block_details_def zks_get_transaction_details_def zks_get_raw_block_transactions_def
    by (rule read, simp add: b query_frames lookup_frames split: option.split)+
  show ?thesis
  proof (cases q)
    case (NodeQuery r)
    show ?thesis unfolding NodeQuery answer_query.simps
      by (cases r) (simp_all add: read query_frames config_get_show_calls_def config_get_show_outputs_def
          config_get_current_timestamp_def config_read_def debug_trace_block_by_number_def debug_trace_block_by_hash_def
          debug_trace_transaction_def)
  next
    case (EthQuery r)
    show ?thesis unfolding EthQuery answer_query.simps
      by (cases r) (simp_all add: read b query_frames lookup_frames eth_get_block_number_def eth_chain_id_def eth_gas_price_def
          eth_get_logs_def filter_logs eth_get_block_by_number_def eth_get_block_by_hash_def
          eth_get_block_transaction_count_by_number_def eth_get_block_transaction_count_by_hash_def
          eth_get_transaction_by_hash_def eth_get_transaction_by_block_hash_and_index_def
          eth_get_transaction_by_block_number_and_index_def eth_get_transaction_receipt_def eth_accounts_def eth_fee_history_def Let_def)
  next
    case (ZksQuery r)
    show ?thesis unfolding ZksQuery answer_query.simps
      using twin_confirmed_tokens [OF assms]
      by (cases r) (simp_all add: read b query_frames lookup_frames zks_get_bridge_contracts_def zks_l1_chain_id_def eth_chain_id_def
          details)
  qed
qed

section \<open>Sessions\<close>

lemma twins_request:
  assumes "twins nd nd'"
  shows "alike twins (answer_request W r nd) (answer_request W r nd')"
proof -
  obtain F where t: "twin F nd nd'" using assms by (auto simp: twins_def)
  note w = twin_write [OF t, THEN alike_twins]
  show ?thesis
  proof (cases r)
    case (ZksEstimateFee req)
    have "alike_opt twins (zks_estimate_fee (wo_ext W) req nd) (zks_estimate_fee (wo_ext W) req nd')"
      using twin_estimates(2) [OF t, of "wo_ext W" req] by (rule option.rel_mono_strong) (rule alike_twins)
    then show ?thesis using ZksEstimateFee alike_computed assms by simp
  next
    case (ZksGetBytecodeByHash h)
    then show ?thesis unfolding ZksGetBytecodeByHash answer_request.simps zks_get_bytecode_by_hash_def
      by (intro alike_answered w) (rule twin_bytecode)
  qed (use assms twin_account [OF t] twin_evm [OF t] twin_eth [OF t] twin_config [OF t] twin_query [OF t]
       in \<open>auto intro!: alike_answered twin_all_balances [OF t, THEN alike_twins] twin_debug_trace_call [OF t, THEN alike_twins]\<close>)
qed

lemma twins_cold: "twins nd nd' \<Longrightarrow> twins nd (cold nd')"
proof -
  assume t: "twins nd nd'"
  have "cold (cold nd') = cold nd'"
    by (simp add: cold_def cold_inner_def cold_storage_def cold_snapshot_def)
  moreover have "coherent_node (cold nd')"
    by (simp add: coherent_node_def restore_snapshot_def cold_def cold_inner_def cold_storage_def cold_snapshot_def
        caches_coherent_def)
  ultimately show "twins nd (cold nd')" using t by (simp add: twins_iff)
qed

lemma twins_sessions:
  "twins nd nd' \<Longrightarrow> alike twins (session W rs nd) (cold_session W rs nd')"
proof (induction rs arbitrary: nd nd')
  case (Cons r rs)
  have "alike twins (answer_request W r nd) (answer_request W r (cold nd'))"
    by (rule twins_request [OF twins_cold [OF Cons.prems]])
  then obtain x nd1 nd1' where 1: "answer_request W r nd = (x, nd1)" "answer_request W r (cold nd') = (x, nd1')" "twins nd1 nd1'"
    by (rule alikeE)
  show ?case using Cons.IH [OF 1(3)] by (elim alikeE) (simp add: 1)
qed simp

text \<open>A node that satisfies the invariant is coherent, and so is a new one.\<close>

lemma node_ok_coherent: "node_ok nd \<Longrightarrow> coherent_node nd"
  by (simp add: node_ok_def inner_ok_def coherent_node_def)

lemma reachable_coherent: "reachable W nd \<Longrightarrow> honest_world W \<Longrightarrow> coherent_node nd"
  by (rule node_ok_coherent [OF reachable_node_ok])

section \<open>Properties\<close>

text \<open>C5: the caches are invisible. Whatever requests a client sends to a node whose caches repeat the
  remote node (as those of every reachable node do), with whatever results, it gets the very answers it would get from a node that forgets
  what it has cached, snapshots included, before every single request; and afterwards the two nodes
  differ in nothing but their caches, which still repeat the remote node.\<close>

theorem caches_are_invisible:
  assumes "coherent_node nd"
  shows "fst (session W rs nd) = fst (cold_session W rs nd) \<and>
    cold (snd (session W rs nd)) = cold (snd (cold_session W rs nd)) \<and>
    coherent_node (snd (session W rs nd))"
  using twins_sessions [of nd nd W rs] assms by (simp add: alike_def twins_iff)

text \<open>The witness: a node on a fork that already holds a value of the remote node in its cache.\<close>

definition warm_node :: node where
  "warm_node = node0\<lparr>nd_inner := inner0\<lparr>n_fork_storage :=
     witness_fork_storage\<lparr>fo_value_cache := [StorageKey 20 1 \<mapsto> 77]\<rparr>\<rparr>\<rparr>"

lemma caches_are_invisible_witness:
  "fst (session lone_world [Eth (EthGetStorage 20 1 None), Evm EvmSnapshot, Eth (EthGetStorage 20 1 None)] warm_node) =
   fst (cold_session lone_world [Eth (EthGetStorage 20 1 None), Evm EvmSnapshot, Eth (EthGetStorage 20 1 None)] warm_node) \<and>
   cold warm_node \<noteq> warm_node"
proof -
  have "coherent_node warm_node"
    by (simp add: warm_node_def coherent_node_def node0_def caches_coherent_def witness_fork_storage_def remote_value_def
        witness_fork_details_def)
  moreover have "fo_value_cache (n_fork_storage (nd_inner (cold warm_node))) (StorageKey 20 1) \<noteq>
      fo_value_cache (n_fork_storage (nd_inner warm_node)) (StorageKey 20 1)"
    by (simp add: warm_node_def cold_def cold_inner_def cold_storage_def)
  ultimately show ?thesis using caches_are_invisible [of warm_node lone_world] by (metis (no_types))
qed

end
