(* ===== verification/Test_Support.thy ===== *)
theory Test_Support
  imports Mining
begin

text \<open>
  The parts of \<open>src/testing.rs\<close> that the node's own state goes through: the fork source that
  answers from an in-memory storage (\<open>ExternalStorage\<close>), the builders of transactions and
  logs, and the helpers that run a built transaction on a node. Behind the fork source stands
  a general fact about forks: a fork whose source answers from some storage is one local
  storage, the two flattened into one, until a run clears a slot that the source holds.
\<close>

section \<open>A fork source that answers from a storage\<close>

record external_storage =
  raw_storage :: in_memory_storage

text \<open>The operations that are \<open>todo!()\<close> panic.\<close>

definition external_block_details :: "u32 \<Rightarrow> block_details" where
  "external_block_details miniblock =
     \<lparr>bd_number = miniblock, bd_l1_batch_number = 123, bd_timestamp = 0, bd_l1_tx_count = 0,
      bd_l2_tx_count = 0, bd_root_hash = None, bd_status = BlockSealed, bd_commit_tx_hash = None,
      bd_committed_at = None, bd_prove_tx_hash = None, bd_proven_at = None,
      bd_execute_tx_hash = None, bd_executed_at = None, bd_l1_gas_price = 123,
      bd_l2_fair_gas_price = 234, bd_fair_pubdata_price = Some 345,
      bd_base_system_contracts_hashes = (0, 0), bd_operator_address = 0,
      bd_protocol_version = None\<rparr>"

definition external_source :: "external_storage \<Rightarrow> fork_source" where
  "external_source s =
     \<lparr>fs_fork_url = Err ''Not implemented'',
      fs_storage_at = \<lambda>a idx _. Ok (unwrap_or (im_state (raw_storage s) (StorageKey a idx)) 0),
      fs_bytecode_by_hash = \<lambda>hash. Ok (im_factory_deps (raw_storage s) hash),
      fs_transaction_by_hash = \<lambda>_. Panic, fs_transaction_details = \<lambda>_. Panic,
      fs_raw_block_transactions = \<lambda>_. Panic, fs_block_by_hash = \<lambda>_ _. Panic,
      fs_block_by_number = \<lambda>_ _. Panic,
      fs_block_details = \<lambda>miniblock. Ok (Some (external_block_details miniblock)),
      fs_fee_params = Panic, fs_transaction_count_by_hash = \<lambda>_. Panic,
      fs_transaction_count_by_number = \<lambda>_. Panic,
      fs_transaction_by_block_hash_and_index = \<lambda>_ _. Panic,
      fs_transaction_by_block_number_and_index = \<lambda>_ _. Panic,
      fs_bridge_contracts = Panic, fs_confirmed_tokens = \<lambda>_ _. Panic\<rparr>"

section \<open>A fork as one storage\<close>

text \<open>
  The storage of a fork seen as one: a local value counts unless it is zero, then that of the
  base does; a key whose value is zero in both is recorded when the local
  storage records it.
\<close>

definition flattened :: "in_memory_storage \<Rightarrow> in_memory_storage \<Rightarrow> in_memory_storage" where
  "flattened front base =
     \<lparr>im_state = (\<lambda>k. if im_read_value front k \<noteq> 0 then Some (im_read_value front k)
                      else if im_read_value base k \<noteq> 0 then Some (im_read_value base k)
                      else im_state front k),
      im_factory_deps = im_factory_deps base ++ im_factory_deps front\<rparr>"

definition im_store_keys :: "(storage_key \<rightharpoonup> h256) \<Rightarrow> in_memory_storage \<Rightarrow> in_memory_storage" where
  "im_store_keys m s = s\<lparr>im_state := im_state s ++ m\<rparr>"

text \<open>Programs run one after the other, each against a fresh view, the modified keys stored.\<close>

fun fork_session :: "'r sprog list \<Rightarrow> fork_storage \<Rightarrow> ('r list \<times> fork_storage) option" where
  "fork_session [] fo = Some ([], fo)"
| "fork_session (p # ps) fo =
     (case run fo_ops p (storage_view_new fo) of
        None \<Rightarrow> None
      | Some (r, sv) \<Rightarrow>
          map_option (\<lambda>(rs, fo'). (r # rs, fo'))
            (fork_session ps (store_keys (sv_modified sv) (sv_storage_handle sv))))"

fun local_session :: "'r sprog list \<Rightarrow> in_memory_storage \<Rightarrow> ('r list \<times> in_memory_storage) option" where
  "local_session [] s = Some ([], s)"
| "local_session (p # ps) s =
     (case run im_ops p (storage_view_new s) of
        None \<Rightarrow> None
      | Some (r, sv) \<Rightarrow>
          map_option (\<lambda>(rs, s'). (r # rs, s'))
            (local_session ps (im_store_keys (sv_modified sv) (sv_storage_handle sv))))"

definition clears_none :: "in_memory_storage \<Rightarrow> (storage_key \<rightharpoonup> h256) \<Rightarrow> bool" where
  "clears_none base m \<longleftrightarrow> (\<forall>k. m k = Some 0 \<longrightarrow> im_read_value base k = 0)"

text \<open>No run of the session on the local storage writes a zero to a key that the base
  holds.\<close>

fun session_clears_none :: "in_memory_storage \<Rightarrow> 'r sprog list \<Rightarrow> in_memory_storage \<Rightarrow> bool" where
  "session_clears_none base [] s = True"
| "session_clears_none base (p # ps) s =
     (case run im_ops p (storage_view_new s) of
        None \<Rightarrow> True
      | Some (r, sv) \<Rightarrow> clears_none base (sv_modified sv) \<and>
          session_clears_none base ps (im_store_keys (sv_modified sv) (sv_storage_handle sv)))"

subsection \<open>What flattening keeps\<close>

lemma flattened_read:
  "im_read_value (flattened front base) k =
     (if im_read_value front k \<noteq> 0 then im_read_value front k else im_read_value base k)"
  by (auto simp: flattened_def im_read_value_def split: option.splits)

lemma flattened_initial:
  "im_is_write_initial (flattened front base) k =
     (im_read_value (flattened front base) k = 0 \<and> im_is_write_initial front k)"
  by (auto simp: flattened_def im_read_value_def im_is_write_initial_def split: option.splits)

lemma flattened_dep:
  "im_load_factory_dep (flattened front base) h = or_else (im_load_factory_dep front h) (im_load_factory_dep base h)"
  by (simp add: flattened_def im_load_factory_dep_def or_else_def map_add_def)

lemma read_store_keys:
  "im_read_value (im_store_keys m s) k = (case m k of Some v \<Rightarrow> v | None \<Rightarrow> im_read_value s k)"
  by (simp add: im_store_keys_def im_read_value_def map_add_def split: option.split)

text \<open>Storing into the fork and storing into the flattened storage agree exactly when nothing
  that the base holds is cleared.\<close>

lemma flattened_store_iff:
  "flattened (im_store_keys m front) base = im_store_keys m (flattened front base) \<longleftrightarrow> clears_none base m"
proof
  assume e: "flattened (im_store_keys m front) base = im_store_keys m (flattened front base)"
  show "clears_none base m"
    unfolding clears_none_def
  proof (intro allI impI)
    fix k assume "m k = Some 0"
    then show "im_read_value base k = 0"
      using arg_cong [OF e, of "\<lambda>s. im_read_value s k"] by (simp add: flattened_read read_store_keys)
  qed
next
  assume "clears_none base m"
  then show "flattened (im_store_keys m front) base = im_store_keys m (flattened front base)"
    by (auto simp: flattened_def im_store_keys_def im_read_value_def clears_none_def map_add_def fun_eq_iff
        split: option.splits)
qed

subsection \<open>A run on a fork is the run on the flattened storage\<close>

text \<open>The source answers every read of a storage slot and of a bytecode, which are those of \<open>base\<close>.\<close>

definition answers_from :: "fork_source \<Rightarrow> in_memory_storage \<Rightarrow> bool" where
  "answers_from source base \<longleftrightarrow>
     (\<forall>k b. fs_storage_at source (key_address k) (key_slot k) b = Ok (im_read_value base k)) \<and>
     (\<forall>h. fs_bytecode_by_hash source h = Ok (im_load_factory_dep base h))"

definition forked_from :: "in_memory_storage \<Rightarrow> fork_storage \<Rightarrow> bool" where
  "forked_from base fo \<longleftrightarrow> caches_coherent fo \<and>
     (\<exists>fd. fo_fork fo = Some fd \<and> answers_from (fd_source fd) base)"

definition fork_flattened :: "in_memory_storage \<Rightarrow> fork_storage \<Rightarrow> in_memory_storage" where
  "fork_flattened base fo = flattened (fo_raw fo) base"

lemma external_answers: "answers_from (external_source s) (raw_storage s)"
proof -
  have "StorageKey (key_address k) (key_slot k) = k" for k by (cases k) simp
  then show ?thesis
    by (simp add: answers_from_def external_source_def im_read_value_def im_load_factory_dep_def)
qed

lemma forked_contents:
  assumes "forked_from base fo"
  shows "fork_value fo k = Ok (im_read_value (fork_flattened base fo) k)"
    and "fork_initial fo k = Ok (im_is_write_initial (fork_flattened base fo) k)"
    and "fork_dep fo h = Ok (im_load_factory_dep (fork_flattened base fo) h)"
proof -
  obtain fd where fd: "fo_fork fo = Some fd" "answers_from (fd_source fd) base"
    using assms by (auto simp: forked_from_def)
  then show v: "fork_value fo k = Ok (im_read_value (fork_flattened base fo) k)" for k
    by (simp add: fork_value_def remote_value_def answers_from_def fork_flattened_def flattened_read)
  show "fork_initial fo k = Ok (im_is_write_initial (fork_flattened base fo) k)"
    by (simp add: fork_initial_def v) (simp add: fork_flattened_def flattened_initial)
  show "fork_dep fo h = Ok (im_load_factory_dep (fork_flattened base fo) h)"
    using fd by (auto simp: fork_dep_def answers_from_def fork_flattened_def flattened_dep)
qed

lemma new_view:
  "sv_storage_handle (storage_view_new x) = x" "sv_modified (storage_view_new x) = Map.empty"
  by (simp_all add: storage_view_new_def)

lemma in_memory_view_handle:
  "get_value_no_log im_ops k sv = Some (v, sv') \<Longrightarrow> sv_storage_handle sv' = sv_storage_handle sv"
  "sv_is_write_initial im_ops k sv = Some (b, sv') \<Longrightarrow> sv_storage_handle sv' = sv_storage_handle sv"
  "sv_load_factory_dep im_ops h sv = Some (d, sv') \<Longrightarrow> sv_storage_handle sv' = sv_storage_handle sv"
  by (auto simp: get_value_no_log_def sv_is_write_initial_def sv_load_factory_dep_def im_ops_def
      split: option.splits)

lemma in_memory_run_handle:
  "run im_ops p sv = Some (r, sv') \<Longrightarrow> sv_storage_handle sv' = sv_storage_handle sv"
proof (induction p arbitrary: sv)
  case (SetValue k v p)
  then obtain w sv1 where 1: "get_value_no_log im_ops k sv = Some (w, sv1)"
      "run im_ops (p w) (sv1\<lparr>sv_modified := (sv_modified sv1)(k \<mapsto> v)\<rparr>) = Some (r, sv')"
    by (auto simp: sv_set_value_def split: option.splits)
  then show ?case using SetValue.IH [OF rangeI 1(2)] in_memory_view_handle(1) by simp
qed (auto split: option.splits, (metis rangeI in_memory_view_handle)+)

lemma forked_run:
  assumes "forked_from base fo"
  shows "(case run im_ops p (storage_view_new (fork_flattened base fo)) of
      None \<Rightarrow> run fo_ops p (storage_view_new fo) = None
    | Some (r, sv) \<Rightarrow> sv_storage_handle sv = fork_flattened base fo \<and>
        (\<exists>sv'. run fo_ops p (storage_view_new fo) = Some (r, sv') \<and> sv_modified sv' = sv_modified sv \<and>
           same_contents fo (sv_storage_handle sv')))"
proof -
  let ?s = "fork_flattened base fo"
  have c: "(\<lambda>k. unwrap (fork_value fo k)) = (\<lambda>k. Some (im_read_value ?s k))"
      "(\<lambda>k. unwrap (fork_initial fo k)) = (\<lambda>k. Some (im_is_write_initial ?s k))"
      "(\<lambda>h. unwrap (fork_dep fo h)) = (\<lambda>h. Some (im_load_factory_dep ?s h))"
    using forked_contents [OF assms] by (simp_all add: fun_eq_iff)
  have i: "fo.view_inv (storage_view_new fo)" "im.view_inv (storage_view_new ?s)"
    using assms by (simp_all add: forked_from_def fo.view_new im.view_new)
  let ?run = "pure_run (\<lambda>k. Some (im_read_value ?s k)) (\<lambda>k. Some (im_is_write_initial ?s k))
      (\<lambda>h. Some (im_load_factory_dep ?s h)) p Map.empty"
  note l = im.run_refines [OF i(2), of p, unfolded new_view] 
    and f = fo.run_refines [OF i(1), of p, unfolded new_view c]
  show ?thesis
  proof (cases ?run)
    case None
    then show ?thesis using l f by simp
  next
    case (Some x)
    then obtain r m where rm: "?run = Some (r, m)" by (cases x) auto
    obtain sv where sv: "run im_ops p (storage_view_new ?s) = Some (r, sv)" "sv_modified sv = m"
      using l rm by auto
    obtain sv' where sv': "run fo_ops p (storage_view_new fo) = Some (r, sv')" "sv_modified sv' = m"
        "caches_coherent (sv_storage_handle sv')"
      using f rm by (auto simp: fo.same_below_def fo.view_inv_def)
    show ?thesis
      using sv sv' run_local [OF sv'(1)] in_memory_run_handle [OF sv(1)]
      by (simp add: new_view same_contents_def same_local_def)
  qed
qed

lemma forked_commit:
  assumes "forked_from base fo" and "same_contents fo fo'"
  shows "forked_from base (store_keys m fo') \<and>
    (clears_none base m \<longleftrightarrow>
       fork_flattened base (store_keys m fo') = im_store_keys m (fork_flattened base fo))"
proof -
  have "fork_flattened base (store_keys m fo') = flattened (im_store_keys m (fo_raw fo)) base"
    using assms(2) by (simp add: fork_flattened_def store_keys_def im_store_keys_def same_contents_def)
  then show ?thesis
    using assms by (simp add: forked_from_def same_contents_def flattened_store_iff [symmetric] fork_flattened_def)
      (simp add: store_keys_def)
qed

section \<open>Builders\<close>

record transaction_builder =
  tb_tx_hash :: h256
  tb_private_key :: h256
  tb_gas_limit :: u256
  tb_max_fee_per_gas :: u256
  tb_max_priority_fee_per_gas :: u256

text \<open>\<open>H256::repeat_byte(0x01)\<close>; the private key of a new builder is random, hence an argument.\<close>

definition transaction_builder_new :: "h256 \<Rightarrow> transaction_builder" where
  "transaction_builder_new key =
     \<lparr>tb_tx_hash = 0x0101010101010101010101010101010101010101010101010101010101010101,
      tb_private_key = key, tb_gas_limit = 4000000, tb_max_fee_per_gas = 50000000,
      tb_max_priority_fee_per_gas = 50000000\<rparr>"

definition tb_set_hash :: "h256 \<Rightarrow> transaction_builder \<Rightarrow> transaction_builder" where
  "tb_set_hash hash b = b\<lparr>tb_tx_hash := hash\<rparr>"

definition tb_set_gas_limit :: "u256 \<Rightarrow> transaction_builder \<Rightarrow> transaction_builder" where
  "tb_set_gas_limit g b = b\<lparr>tb_gas_limit := g\<rparr>"

definition tb_set_max_fee_per_gas :: "u256 \<Rightarrow> transaction_builder \<Rightarrow> transaction_builder" where
  "tb_set_max_fee_per_gas g b = b\<lparr>tb_max_fee_per_gas := g\<rparr>"

definition tb_set_max_priority_fee_per_gas :: "u256 \<Rightarrow> transaction_builder \<Rightarrow> transaction_builder" where
  "tb_set_max_priority_fee_per_gas g b = b\<lparr>tb_max_priority_fee_per_gas := g\<rparr>"

text \<open>
  \<open>L2Tx::new_signed\<close> of the library: recipient, calldata, nonce, fee, value, chain id, private
  key and factory dependencies (the paymaster parameters are always the default ones); it
  fails when signing does.
\<close>

type_synonym signer =
  "address option \<Rightarrow> bytes \<Rightarrow> u32 \<Rightarrow> fee \<Rightarrow> u256 \<Rightarrow> u64 \<Rightarrow> h256 \<Rightarrow> bytes list \<Rightarrow> l2_tx option"

text \<open>The recipient is a random address.\<close>

definition tb_build :: "ext \<Rightarrow> signer \<Rightarrow> address \<Rightarrow> transaction_builder \<Rightarrow> l2_tx option" where
  "tb_build E new_signed random_address b =
     map_option (\<lambda>tx. x_set_input E tx [] (tb_tx_hash b))
       (new_signed (Some random_address) [] 0
          \<lparr>gas_limit = tb_gas_limit b, max_fee_per_gas = tb_max_fee_per_gas b,
           max_priority_fee_per_gas = tb_max_priority_fee_per_gas b, gas_per_pubdata_limit = 50000\<rparr>
          1 260 (tb_private_key b) [])"

record log_builder =
  lb_block_number :: u64
  lb_block_timestamp :: u64
  lb_address :: "address option"
  lb_topics :: "h256 list option"

definition log_builder_new :: log_builder where
  "log_builder_new = \<lparr>lb_block_number = 0, lb_block_timestamp = 0, lb_address = None, lb_topics = None\<rparr>"

definition lb_set_block :: "u64 \<Rightarrow> log_builder \<Rightarrow> log_builder" where
  "lb_set_block number b = b\<lparr>lb_block_number := number\<rparr>"

definition lb_set_address :: "address \<Rightarrow> log_builder \<Rightarrow> log_builder" where
  "lb_set_address a b = b\<lparr>lb_address := Some a\<rparr>"

definition lb_set_topics :: "h256 list \<Rightarrow> log_builder \<Rightarrow> log_builder" where
  "lb_set_topics ts b = b\<lparr>lb_topics := Some ts\<rparr>"

definition lb_build :: "log_builder \<Rightarrow> log" where
  "lb_build b =
     \<lparr>l_address = unwrap_or (lb_address b) 0, l_topics = unwrap_or (lb_topics b) [], l_data = [],
      l_block_hash = Some 0, l_block_number = Some (lb_block_number b), l_l1_batch_number = None,
      l_transaction_hash = None, l_transaction_index = None, l_log_index = None,
      l_transaction_log_index = None, l_removed = Some False,
      l_block_timestamp = Some (lb_block_timestamp b)\<rparr>"

section \<open>Fixtures and assertions\<close>

definition default_tx_debug_info :: debug_call where
  "default_tx_debug_info =
     DebugCallOut DebugCall 0 0 0 0 0 [] [] None None
       [DebugCallOut DebugCall 0 0 0 0 0 [] [] None None []]"

text \<open>\<open>decode\<close> is \<open>ethabi::decode\<close>, \<open>into_bytes\<close> the bytes of a token that is a byte string; every
  failure of the helper is a panic.\<close>

definition decode_tx_result ::
  "('ty list \<Rightarrow> bytes \<Rightarrow> 'tok list option) \<Rightarrow> 'ty \<Rightarrow> ('tok \<Rightarrow> bytes option) \<Rightarrow> bytes \<Rightarrow> 'ty \<Rightarrow> 'tok option" where
  "decode_tx_result decode bytes_type into_bytes output param_type =
     Option.bind (decode [bytes_type] output) (\<lambda>res.
       if res = [] then None
       else Option.bind (into_bytes (hd res)) (\<lambda>result_bytes.
       Option.bind (decode [param_type] result_bytes) (\<lambda>res'.
         if res' = [] then None else Some (hd res'))))"

definition assert_bridge_addresses_eq :: "bridge_addresses \<Rightarrow> bridge_addresses \<Rightarrow> unit option" where
  "assert_bridge_addresses_eq expected actual =
     (if br_l1_erc20_default_bridge expected = br_l1_erc20_default_bridge actual \<and>
         br_l2_erc20_default_bridge expected = br_l2_erc20_default_bridge actual \<and>
         br_l1_weth_bridge expected = br_l1_weth_bridge actual \<and>
         br_l2_weth_bridge expected = br_l2_weth_bridge actual
      then Some () else None)"

section \<open>Transactions on a node\<close>

text \<open>The hash and the number of the next block, computed under the read lock.\<close>

definition next_block :: "ext \<Rightarrow> h256 \<Rightarrow> node \<Rightarrow> (string, h256 \<times> u64) res" where
  "next_block E tx_hash nd =
     (if nd_inner_poisoned nd then Panic
      else let next_miniblock = sat_add (n_current_miniblock (nd_inner nd)) 1 in
        Ok (compute_hash E next_miniblock tx_hash, next_miniblock))"

definition expect_applied :: "'a \<Rightarrow> (string, unit) res \<times> node \<Rightarrow> (string, 'a) res \<times> node" where
  "expect_applied x r = ((case fst r of Ok _ \<Rightarrow> Ok x | _ \<Rightarrow> Panic), snd r)"

definition apply_tx ::
  "ext \<Rightarrow> signer \<Rightarrow> h256 \<Rightarrow> address \<Rightarrow> h256 \<Rightarrow> node \<Rightarrow> (string, h256 \<times> u64) res \<times> node" where
  "apply_tx E new_signed random_key random_address tx_hash nd =
     (case next_block E tx_hash nd of
        Ok produced \<Rightarrow>
          (case tb_build E new_signed random_address (tb_set_hash tx_hash (transaction_builder_new random_key)) of
             None \<Rightarrow> (Panic, nd)
           | Some tx \<Rightarrow>
               (case set_rich_account E (initiator tx) nd of
                  (Ok _, nd1) \<Rightarrow> expect_applied produced (apply_txs E [tx] nd1)
                | (_, nd1) \<Rightarrow> (Panic, nd1)))
      | _ \<Rightarrow> (Panic, nd))"

text \<open>
  \<open>client_hash\<close> is \<open>hash_bytecode\<close> of the client library, \<open>encode_create\<close> its ABI encoding of the call
  \<open>create(salt, bytecode hash, input)\<close> with a salt of zeros.
\<close>

definition deploy_contract ::
  "ext \<Rightarrow> signer \<Rightarrow> (bytes \<Rightarrow> h256 option) \<Rightarrow> (bytes \<Rightarrow> h256 \<Rightarrow> bytes \<Rightarrow> bytes option) \<Rightarrow>
     h256 \<Rightarrow> h256 \<Rightarrow> bytes \<Rightarrow> bytes option \<Rightarrow> u32 \<Rightarrow> node \<Rightarrow> (string, h256) res \<times> node" where
  "deploy_contract E new_signed client_hash encode_create tx_hash private_key bytecode input k nd =
     (case next_block E tx_hash nd of
        Ok (produced_block_hash, _) \<Rightarrow>
          (let tx =
             Option.bind (client_hash bytecode) (\<lambda>bytecode_hash.
             Option.bind (encode_create (replicate 32 0) bytecode_hash (unwrap_or input [])) (\<lambda>data.
             map_option (\<lambda>tx. x_set_input E tx [] tx_hash)
               (new_signed (Some (x_contract_deployer_address E)) data k
                  \<lparr>gas_limit = 400000000, max_fee_per_gas = 50000000,
                   max_priority_fee_per_gas = 50000000, gas_per_pubdata_limit = 50000\<rparr>
                  0 260 private_key [bytecode])))
           in case tx of
                None \<Rightarrow> (Panic, nd)
              | Some tx \<Rightarrow> expect_applied produced_block_hash (apply_txs E [tx] nd))
      | _ \<Rightarrow> (Panic, nd))"

section \<open>Properties\<close>

text \<open>C13: when a forked node is a local one. On a fork whose source answers from a storage, running
  programs one after the other and storing what each has modified gives the same results, the
  same panics and in the end the same contents as on the one local storage into which the two
  are flattened, as long as no program clears a slot that the source holds.\<close>

theorem fork_is_one_storage:
  assumes "forked_from base fo" and "session_clears_none base ps (fork_flattened base fo)"
  shows "map_option (\<lambda>(rs, fo'). (rs, fork_flattened base fo')) (fork_session ps fo) =
    local_session ps (fork_flattened base fo)"
  using assms
proof (induction ps arbitrary: fo)
  case (Cons p ps)
  let ?s = "fork_flattened base fo"
  show ?case
  proof (cases "run im_ops p (storage_view_new ?s)")
    case None
    then show ?thesis using forked_run [OF Cons.prems(1), of p] by simp
  next
    case (Some x)
    then obtain r sv where sv: "run im_ops p (storage_view_new ?s) = Some (r, sv)" by (cases x) auto
    then obtain sv' where sv': "run fo_ops p (storage_view_new fo) = Some (r, sv')"
        "sv_modified sv' = sv_modified sv" "same_contents fo (sv_storage_handle sv')" "sv_storage_handle sv = ?s"
      using forked_run [OF Cons.prems(1), of p] by auto
    let ?fo = "store_keys (sv_modified sv) (sv_storage_handle sv')"
    have c: "clears_none base (sv_modified sv)"
        "session_clears_none base ps (im_store_keys (sv_modified sv) ?s)"
      using Cons.prems(2) sv sv'(4) by simp_all
    have f: "forked_from base ?fo" "fork_flattened base ?fo = im_store_keys (sv_modified sv) ?s"
      using forked_commit [OF Cons.prems(1) sv'(3)] c(1) by blast+
    have ih: "local_session ps (im_store_keys (sv_modified sv) ?s) =
        map_option (\<lambda>(rs, fo'). (rs, fork_flattened base fo')) (fork_session ps ?fo)"
      using Cons.IH [OF f(1)] c(2) f(2) by simp
    then show ?thesis
      using sv sv' by (cases "fork_session ps ?fo") (auto simp: ih)
  qed
qed simp

text \<open>The witness: a fork over a storage that holds 77 in one slot; the first program copies the
  slot plus one into another, the second reads it back.\<close>

definition witness_external :: external_storage where
  "witness_external = \<lparr>raw_storage = \<lparr>im_state = [StorageKey 20 1 \<mapsto> 77], im_factory_deps = Map.empty\<rparr>\<rparr>"

definition witness_external_fork :: fork_storage where
  "witness_external_fork = witness_fork_storage\<lparr>fo_fork :=
     Some (witness_fork_details\<lparr>fd_source := external_source witness_external\<rparr>)\<rparr>"

definition witness_programs :: "h256 sprog list" where
  "witness_programs =
     [ReadValue (StorageKey 20 1) (\<lambda>v. SetValue (StorageKey 20 2) (v + 1) (\<lambda>_. Return v)),
      ReadValue (StorageKey 20 2) Return]"

lemma witness_forked: "forked_from (raw_storage witness_external) witness_external_fork"
  by (simp add: forked_from_def witness_external_fork_def caches_coherent_def witness_fork_storage_def
      external_answers)

lemma fork_is_one_storage_witness:
  "\<exists>fo'. fork_session witness_programs witness_external_fork = Some ([77, 78], fo')"
proof -
  let ?base = "raw_storage witness_external"
  let ?s = "fork_flattened ?base witness_external_fork"
  have r: "im_read_value ?s (StorageKey 20 1) = 77" "im_read_value ?s (StorageKey 20 2) = 0"
    unfolding fork_flattened_def flattened_read
    by (simp_all add: witness_external_fork_def witness_fork_storage_def witness_external_def im_read_value_def)
  have c: "session_clears_none ?base witness_programs ?s"
    and l: "\<exists>s'. local_session witness_programs ?s = Some ([77, 78], s')"
    using r by (simp_all add: witness_programs_def get_value_no_log_def sv_set_value_def im_ops_def new_view
        read_store_keys clears_none_def storage_view_new_def)
  then show ?thesis
    using fork_is_one_storage [OF witness_forked c] by (auto split: prod.splits)
qed

text \<open>Clearing a slot that the source holds is the one exception, and a real one: after the store the
  fork still reads the old value, the flattened storage zero.\<close>

lemma cleared_slot_differs:
  assumes "forked_from base fo" and "same_contents fo fo'" and "m k = Some 0" and "im_read_value base k \<noteq> 0"
  shows "fork_flattened base (store_keys m fo') \<noteq> im_store_keys m (fork_flattened base fo)"
  using forked_commit [OF assms(1,2), of m] assms(3,4) by (auto simp: clears_none_def)

text \<open>What \<open>apply_tx\<close> reports. When it succeeds, the hash and the number are those of the block it has
  added: the number is the next one, the node records the hash under it, and the transaction's
  receipt points at it. The law about the library is that a transaction whose input was set
  has the hash it was set with.\<close>

lemma next_block_Ok:
  "next_block E h nd = Ok (bh, k) \<longleftrightarrow> \<not> nd_inner_poisoned nd \<and>
     k = sat_add (n_current_miniblock (nd_inner nd)) 1 \<and> bh = compute_hash E k h"
  by (auto simp: next_block_def Let_def)

lemma expect_applied_Ok: "expect_applied x r = (Ok y, nd') \<longleftrightarrow> x = y \<and> r = (Ok (), nd')"
  by (cases r; cases "fst r") (auto simp: expect_applied_def)

lemma applied_next_block:
  assumes "apply_txs E [tx] nd = (Ok u, nd')"
    and "unat (n_current_miniblock (nd_inner nd)) < 2 ^ 64 - 2"
    and "k = sat_add (n_current_miniblock (nd_inner nd)) 1"
  shows "n_block_hashes (nd_inner nd') k = Some (compute_hash E k (x_tx_hash E tx)) \<and>
    (\<exists>tr. map_of (n_tx_results (nd_inner nd')) (x_tx_hash E tx) = Some tr \<and>
       r_block_hash (tr_receipt tr) = compute_hash E k (x_tx_hash E tx) \<and> r_block_number (tr_receipt tr) = k)"
proof -
  have r: "run_l2_tx E tx VerifyExecute nd = (Ok u, nd')" using assms(1) by (auto split: prod.splits res.splits)
  obtain lt :: l2_tx_result and b2 tr where e: "two_blocks E tx (lt_block lt) b2 (nd_inner nd) (nd_inner nd')"
      "n_tx_results (nd_inner nd') = al_insert (x_tx_hash E tx) tr (n_tx_results (nd_inner nd))"
      "r_block_hash (tr_receipt tr) = b_hash (lt_block lt)" "r_block_number (tr_receipt tr) = b_number (lt_block lt)"
    using run_l2_tx_effects [OF r] by blast
  have n: "unat (b_number (lt_block lt)) = unat (n_current_miniblock (nd_inner nd)) + 1"
      "unat (b_number b2) = unat (n_current_miniblock (nd_inner nd)) + 2"
    using e(1) assms(2) by (auto simp: two_blocks_def unat_sat_add)
  then have "b_number b2 \<noteq> b_number (lt_block lt)" by auto
  then show ?thesis using e assms(3) by (auto simp: two_blocks_def map_of_al_insert)
qed

theorem apply_tx_reports_its_block:
  assumes "apply_tx E new_signed key a h nd = (Ok (bh, k), nd')"
    and "\<forall>tx bs. x_tx_hash E (x_set_input E tx bs h) = h"
    and "caches_coherent (n_fork_storage (nd_inner nd))"
    and "unat (n_current_miniblock (nd_inner nd)) < 2 ^ 64 - 2"
  shows "unat k = unat (n_current_miniblock (nd_inner nd)) + 1 \<and> n_block_hashes (nd_inner nd') k = Some bh \<and>
    (\<exists>tr. map_of (n_tx_results (nd_inner nd')) h = Some tr \<and>
       r_block_hash (tr_receipt tr) = bh \<and> r_block_number (tr_receipt tr) = k)"
proof -
  obtain tx nd1 u where b: "tb_build E new_signed a (tb_set_hash h (transaction_builder_new key)) = Some tx"
      and nb: "next_block E h nd = Ok (bh, k)"
      and s: "set_rich_account E (initiator tx) nd = (Ok (), nd1)" and t: "apply_txs E [tx] nd1 = (Ok u, nd')"
    using assms(1)
    by (auto simp: apply_tx_def expect_applied_Ok simp del: apply_txs.simps
        split: res.splits option.splits prod.splits)
  have h: "x_tx_hash E tx = h" using b assms(2) by (auto simp: tb_build_def tb_set_hash_def)
  note nb = nb [unfolded next_block_Ok]
  obtain n' where n': "rich_inner E (initiator tx) (nd_inner nd) = (Ok (), n')" "nd_inner nd1 = n'"
    using s nb by (cases "rich_inner E (initiator tx) (nd_inner nd)") (auto simp: set_rich_account_def write_inner_def split: res.splits)
  have "n_current_miniblock (nd_inner nd1) = n_current_miniblock (nd_inner nd)"
    using rich_inner_effect [OF assms(3) n'(1)] n'(2) by auto
  then show ?thesis
    using applied_next_block [OF t, of k] nb assms(4) by (simp add: h unat_sat_add)
qed

end
