(* ===== verification/Sent_Tx.thy ===== *)
theory Sent_Tx
  imports Zks_Api Debug_Api
begin

text \<open>
  What the queries of the three namespaces (\<open>src/node/eth.rs\<close>, \<open>src/node/zks.rs\<close>,
  \<open>src/node/debug.rs\<close>) answer about a transaction that has been sent. No code of its own: the
  theory says in one place what a client sees of a transaction, and that it is what the run of
  the virtual machine has given.
\<close>

section \<open>What is seen of a transaction\<close>

text \<open>
  The eth namespace: the receipt under the hash; the block of the receipt by hash and by number,
  with the transaction or with its hash, and the count of its transactions; the transaction by its
  place in the block; the transaction by its hash, where the input and the chain it was signed for
  are known (otherwise only the fork is asked), but under its own hash in place of the block's.
  The logs of the receipt are among the answers to every log query that accepts them, and a query
  without conditions accepts them all.
\<close>

definition seen_by_hash :: "ext \<Rightarrow> h256 \<Rightarrow> l2_tx \<Rightarrow> block \<Rightarrow> node \<Rightarrow> bool" where
  "seen_by_hash E h tx b nd \<longleftrightarrow>
     (\<forall>input chain_id. tx_input tx = Some input \<longrightarrow> x_extract_chain_id E tx = Some chain_id \<longrightarrow>
       (\<exists>a. eth_get_transaction_by_hash E h nd = Ok (Some a) \<and> at_hash a = h \<and> at_block_hash a = Some h \<and>
          at_block_number a = Some (b_number b) \<and> at_transaction_index a = Some 0 \<and>
          at_l1_batch_number a = b_l1_batch_number b \<and> at_from a = Some (initiator tx) \<and> at_to a = recipient tx \<and>
          at_value a = tx_value tx \<and> at_nonce a = ucast (nonce tx) \<and> at_input a = in_data input \<and>
          at_chain_id a = ucast chain_id \<and> at_transaction_type a = Some (tx_type_number (transaction_type tx)) \<and>
          at_max_fee_per_gas a = Some (max_fee_per_gas (tx_fee tx)) \<and>
          at_max_priority_fee_per_gas a = Some (max_priority_fee_per_gas (tx_fee tx)))) \<and>
     (tx_input tx = None \<or> x_extract_chain_id E tx = None \<longrightarrow>
       eth_get_transaction_by_hash E h nd = fork_lookup (nd_inner nd) (\<lambda>s. fs_transaction_by_hash s h))"

definition seen_logs :: "ext \<Rightarrow> receipt \<Rightarrow> node \<Rightarrow> bool" where
  "seen_logs E r nd \<longleftrightarrow>
     (\<forall>f logs. eth_get_logs E f nd = Ok logs \<longrightarrow>
        (\<forall>lg \<in> set (r_logs r).
           log_matches (log_filter_new (unwrap_or (fr_from_block f) Earliest) (unwrap_or (fr_to_block f) Latest)
             (unwrap_or (fr_address f) []) (filter_topics f)) lg (n_current_miniblock (nd_inner nd)) = Some True \<longrightarrow>
           lg \<in> set logs)) \<and>
     (\<forall>logs. eth_get_logs E \<lparr>fr_from_block = None, fr_to_block = None, fr_address = None, fr_topics = None\<rparr> nd = Ok logs \<longrightarrow>
        set (r_logs r) \<subseteq> set logs)"

definition eth_sees :: "ext \<Rightarrow> h256 \<Rightarrow> l2_tx \<Rightarrow> block \<Rightarrow> api_tx \<Rightarrow> receipt \<Rightarrow> node \<Rightarrow> bool" where
  "eth_sees E h tx b t r nd \<longleftrightarrow>
     eth_get_transaction_receipt E h nd = Ok (Some r) \<and>
     eth_get_block_by_hash E (r_block_hash r) True nd = Ok (Some b) \<and>
     eth_get_block_by_number E (Number (r_block_number r)) True nd = Ok (Some b) \<and>
     eth_get_block_by_hash E (r_block_hash r) False nd = Ok (Some (b\<lparr>b_transactions := [TxHash (at_hash t)]\<rparr>)) \<and>
     eth_get_block_by_number E (Number (r_block_number r)) False nd = Ok (Some (b\<lparr>b_transactions := [TxHash (at_hash t)]\<rparr>)) \<and>
     eth_get_block_transaction_count_by_hash E (r_block_hash r) nd = Ok (Some 1) \<and>
     eth_get_block_transaction_count_by_number E (Number (r_block_number r)) nd = Ok (Some 1) \<and>
     eth_get_transaction_by_block_hash_and_index E (r_block_hash r) 0 nd = Ok (Some t) \<and>
     eth_get_transaction_by_block_number_and_index E (Number (r_block_number r)) 0 nd = Ok (Some t) \<and>
     seen_by_hash E h tx b nd \<and> seen_logs E r nd"

text \<open>
  The zks namespace: the details of the transaction, whose fee is the price times the gas of the
  receipt (a panic when that or the time of its arrival cannot be represented), and the block by
  its number, where that fits into the 32 bits of the parameter.
\<close>

definition zks_sees :: "ext \<Rightarrow> h256 \<Rightarrow> l2_tx \<Rightarrow> block \<Rightarrow> api_tx \<Rightarrow> receipt \<Rightarrow> node \<Rightarrow> bool" where
  "zks_sees E h tx b t r nd \<longleftrightarrow>
     (\<forall>price used received_at. r_effective_gas_price r = Some price \<longrightarrow> r_gas_used r = Some used \<longrightarrow>
        unat price * unat used < 2 ^ 256 \<longrightarrow>
        utc_datetime_from_epoch_ms E (received_timestamp_ms tx) = Some received_at \<longrightarrow>
        zks_get_transaction_details E h nd = Ok (Some
          \<lparr>td_is_l1_originated = False, td_status = TxIncluded, td_fee = price * used,
           td_gas_per_pubdata = gas_per_pubdata_limit (tx_fee tx), td_initiator_address = initiator tx,
           td_received_at = received_at, td_eth_commit_tx_hash = None, td_eth_prove_tx_hash = None,
           td_eth_execute_tx_hash = None\<rparr>)) \<and>
     (\<forall>k. ucast k = r_block_number r \<longrightarrow>
        (at_hash t = h \<longrightarrow> zks_get_raw_block_transactions E k nd = Ok [RawL2 tx]) \<and>
        (\<exists>details. zks_get_block_details E k nd = Ok (Some details) \<and> bd_number details = k \<and>
           bd_root_hash details = Some (b_hash b) \<and> bd_l2_tx_count details = 1 \<and>
           ucast (bd_timestamp details) = b_timestamp b \<and>
           Some (ucast (bd_l1_batch_number details)) = b_l1_batch_number b))"

text \<open>
  The debug namespace: the trace of the transaction and, with just that trace, those of its block.
\<close>

definition debug_sees :: "ext \<Rightarrow> h256 \<Rightarrow> api_tx \<Rightarrow> receipt \<Rightarrow> (bool \<Rightarrow> debug_call) \<Rightarrow> node \<Rightarrow> bool" where
  "debug_sees E h t r trace nd \<longleftrightarrow>
     (\<forall>options. debug_trace_transaction E h options nd = Ok (Some (trace (options = Some True))) \<and>
        (at_hash t = h \<longrightarrow>
          debug_trace_block_by_hash E (r_block_hash r) options nd = Ok [trace (options = Some True)] \<and>
          debug_trace_block_by_number E (Number (r_block_number r)) options nd = Ok [trace (options = Some True)]))"

text \<open>The trace that is answered is the debug output of the run, without its inner calls if only the
  top call is asked for.\<close>

fun without_calls :: "debug_call \<Rightarrow> debug_call" where
  "without_calls (DebugCallOut ty fr tt g gu v i ou er rv calls) = DebugCallOut ty fr tt g gu v i ou er rv []"

section \<open>Lemmas\<close>

text \<open>A node in which a transaction is recorded with its block.\<close>

definition holds_tx :: "ext \<Rightarrow> h256 \<Rightarrow> l2_tx \<Rightarrow> block \<Rightarrow> api_tx \<Rightarrow> transaction_result \<Rightarrow> inner \<Rightarrow> bool" where
  "holds_tx E h tx b t tr n \<longleftrightarrow>
     x_tx_hash E tx = h \<and> map_of (n_tx_results n) h = Some tr \<and>
     (\<exists>result traces m. records E tx b result traces m tr) \<and>
     n_blocks n (b_hash b) = Some b \<and> block_at (b_number b) n = Some b \<and> b_transactions b = [TxFull t] \<and>
     b_number b \<le> n_current_miniblock n"

lemma holds_tx_receipt:
  assumes "holds_tx E h tx b t tr n"
  shows "r_block_hash (tr_receipt tr) = b_hash b" "r_block_number (tr_receipt tr) = b_number b" "ti_tx (tr_info tr) = tx"
    "ti_miniblock_number (tr_info tr) = b_number b" "b_l1_batch_number b = Some (ucast (ti_batch_number (tr_info tr)))"
    "lg \<in> set (r_logs (tr_receipt tr)) \<Longrightarrow> l_block_number lg = Some (b_number b)"
  using assms by (auto simp: holds_tx_def records_def log_of_event_def)

lemma holds_tx_blocks:
  assumes "holds_tx E h tx b t tr (nd_inner nd)" and "\<not> nd_inner_poisoned nd"
  shows "eth_get_transaction_receipt E h nd = Ok (Some (tr_receipt tr))"
    "eth_get_block_by_hash E (b_hash b) full nd = shown_block full (Some b)"
    "eth_get_block_by_number E (Number (b_number b)) full nd = shown_block full (Some b)"
    "eth_get_block_transaction_count_by_hash E (b_hash b) nd = Ok (Some 1)"
    "eth_get_block_transaction_count_by_number E (Number (b_number b)) nd = Ok (Some 1)"
    "eth_get_transaction_by_block_hash_and_index E (b_hash b) 0 nd = Ok (Some t)"
    "eth_get_transaction_by_block_number_and_index E (Number (b_number b)) 0 nd = Ok (Some t)"
  using assms
  by (simp_all add: holds_tx_def eth_get_transaction_receipt_def eth_get_block_by_hash_def eth_get_block_by_number_def
      eth_get_block_transaction_count_by_hash_def eth_get_block_transaction_count_by_number_def count_answer_def tx_count_def
      eth_get_transaction_by_block_hash_and_index_def eth_get_transaction_by_block_number_and_index_def indexed_tx_def
      nth_option_def to_real_block_number_def)

lemma holds_tx_by_hash:
  assumes "holds_tx E h tx b t tr (nd_inner nd)" and "\<not> nd_inner_poisoned nd"
  shows "seen_by_hash E h tx b nd"
proof -
  have found: "eth_get_transaction_by_hash E h nd =
      or_fork (recorded_tx E h (tr_info tr)) (nd_inner nd) (\<lambda>s. fs_transaction_by_hash s h)"
    using assms by (simp add: eth_get_transaction_by_hash_def holds_tx_def)
  show ?thesis
    using holds_tx_receipt(3-5) [OF assms(1)]
    by (auto simp: seen_by_hash_def found recorded_tx_def Let_def)
qed

lemma those_map_mem: "those (map g xs) = Some ys \<Longrightarrow> x \<in> set xs \<Longrightarrow> \<exists>y \<in> set ys. g x = Some y"
  by (induction xs arbitrary: ys) (auto split: option.splits)

lemma number_in_chain:
  assumes "(k :: u64) < 2 ^ 64 - 2"
  shows "k + 1 \<le> k + 2"
proof -
  have "unat k < 2 ^ 64 - 2" using assms by (simp add: word_less_nat_alt)
  then show ?thesis by (simp add: word_le_nat_alt unat_word_ariths)
qed

lemma matching_logs_mem:
  assumes "matching_logs f n = Some logs" and "map_of (n_tx_results n) h = Some tr" and "lg \<in> set (r_logs (tr_receipt tr))"
    and "log_matches f lg (n_current_miniblock n) = Some True"
  shows "lg \<in> set logs"
proof -
  let ?g = "\<lambda>lg. map_option (Pair lg) (log_matches f lg (n_current_miniblock n))"
  let ?xs = "concat (map (\<lambda>(_, tr). r_logs (tr_receipt tr)) (n_tx_results n))"
  obtain ms where ms: "those (map ?g ?xs) = Some ms" "logs = map fst (filter snd ms)"
    using assms(1) by (auto simp: matching_logs_def)
  have "lg \<in> set ?xs" using map_of_SomeD [OF assms(2)] assms(3) by force
  then have "(lg, True) \<in> set ms" using those_map_mem [OF ms(1)] assms(4) by fastforce
  then show ?thesis using ms(2) by force
qed

lemma holds_tx_logs:
  assumes "holds_tx E h tx b t tr (nd_inner nd)" and "\<not> nd_inner_poisoned nd"
  shows "seen_logs E (tr_receipt tr) nd"
proof -
  have logs: "lg \<in> set logs" if "eth_get_logs E f nd = Ok logs" "lg \<in> set (r_logs (tr_receipt tr))"
      "log_matches (log_filter_new (unwrap_or (fr_from_block f) Earliest) (unwrap_or (fr_to_block f) Latest)
        (unwrap_or (fr_address f) []) (filter_topics f)) lg (n_current_miniblock (nd_inner nd)) = Some True" for f logs lg
    using that assms matching_logs_mem [of _ "nd_inner nd" logs h tr lg]
    by (auto simp: eth_get_logs_def holds_tx_def expect_Ok)
  have "log_matches (log_filter_new Earliest Latest [] (replicate 4 None)) lg (n_current_miniblock (nd_inner nd)) = Some True"
    if "lg \<in> set (r_logs (tr_receipt tr))" for lg
    using log_matches_spec [OF holds_tx_receipt(6) [OF assms(1) that]] assms(1)
    by (simp add: log_filter_new_def to_real_block_number_def topic_ok_def holds_tx_def)
  then have "lg \<in> set logs"
    if "eth_get_logs E \<lparr>fr_from_block = None, fr_to_block = None, fr_address = None, fr_topics = None\<rparr> nd = Ok logs"
      "lg \<in> set (r_logs (tr_receipt tr))" for logs lg
    using logs [OF that] that(2) by (simp add: filter_topics_def)
  then show ?thesis using logs by (auto simp: seen_logs_def)
qed

lemma holds_tx_eth:
  assumes "holds_tx E h tx b t tr (nd_inner nd)" and "\<not> nd_inner_poisoned nd"
  shows "eth_sees E h tx b t (tr_receipt tr) nd"
proof -
  have "b_transactions b = [TxFull t]" using assms(1) by (simp add: holds_tx_def)
  then have "shown_block True (Some b) = Ok (Some b)"
    "shown_block False (Some b) = Ok (Some (b\<lparr>b_transactions := [TxHash (at_hash t)]\<rparr>))"
    by (simp_all add: shown_block_def)
  then show ?thesis
    using holds_tx_blocks [OF assms] holds_tx_by_hash [OF assms] holds_tx_logs [OF assms] holds_tx_receipt(1,2) [OF assms(1)]
    by (simp add: eth_sees_def)
qed

lemma holds_tx_zks:
  assumes "holds_tx E h tx b t tr (nd_inner nd)" and "\<not> nd_inner_poisoned nd" and "b_timestamp b = ucast (ts :: u64)"
  shows "zks_sees E h tx b t (tr_receipt tr) nd"
proof -
  note r = holds_tx_receipt [OF assms(1)]
  have "\<exists>details. zks_get_block_details E k nd = Ok (Some details) \<and> bd_number details = k \<and>
      bd_root_hash details = Some (b_hash b) \<and> bd_l2_tx_count details = 1 \<and>
      ucast (bd_timestamp details) = b_timestamp b \<and> Some (ucast (bd_l1_batch_number details)) = b_l1_batch_number b"
    if "ucast k = b_number b" for k
  proof -
    have "block_at (ucast k) (nd_inner nd) = Some b" "as_u32 (b_number b) = Some k"
      using assms(1) by (simp_all add: holds_tx_def that flip: that)
    then show ?thesis
      using assms r(5) by (simp add: zks_get_block_details_def local_block_details_def holds_tx_def)
  qed
  moreover have "zks_get_raw_block_transactions E k nd = Ok [RawL2 tx]" if "ucast k = b_number b" "at_hash t = h" for k
    using assms that r(3) by (simp add: zks_get_raw_block_transactions_def recorded_transactions_def holds_tx_def)
  ultimately show ?thesis
    using assms(1,2) r(2,3)
    by (auto simp: zks_sees_def zks_get_transaction_details_def local_transaction_details_def holds_tx_def checked_mul_def Let_def)
qed

lemma debug_info_calls: "debug_info tr flat = (if flat then without_calls (tr_debug tr) else tr_debug tr)"
  by (simp add: debug_info_def split: debug_call.split)

lemma holds_tx_debug:
  assumes "holds_tx E h tx b t tr (nd_inner nd)" and "\<not> nd_inner_poisoned nd"
  shows "debug_sees E h t (tr_receipt tr) (\<lambda>flat. if flat then without_calls (tr_debug tr) else tr_debug tr) nd"
  using assms holds_tx_receipt(1,2) [OF assms(1)]
  by (simp add: debug_sees_def holds_tx_def debug_trace_transaction_def debug_trace_block_by_hash_def
      debug_trace_block_by_number_def trace_block_inner_def debug_info_calls only_top_def to_real_block_number_def)

section \<open>Properties\<close>

text \<open>C8: what can be seen of a sent transaction. When either way of sending one answers a hash, the node
  has run the transaction that the bytes or the request stand for, with that hash (from an
  impersonated account, if it was sent unsigned), and the run of the virtual machine for it is what the queries answer: the receipt under the hash, as
  the run's result gives it; the block of the receipt, by its hash and by its number, with just
  that transaction; the transaction by its place in the block and by its hash; its logs; the
  details, the raw transaction and the block's details of the zks namespace; and the trace of the
  run, for the transaction and for its block. The chain is two blocks longer. The hashes of the
  two new blocks must differ and the block number must not saturate; that the library's form of
  the transaction carries the same hash is only needed where the block leads back to it.\<close>

theorem sent_transaction_is_queryable:
  assumes "eth_send_raw_transaction E tx_bytes nd = (Ok h, nd') \<or> eth_send_transaction E req nd = (Ok h, nd')"
    and "n_current_miniblock (nd_inner nd) < 2 ^ 64 - 2"
    and "compute_hash E (n_current_miniblock (nd_inner nd) + 1) h \<noteq> compute_hash E (n_current_miniblock (nd_inner nd) + 2) 0"
  shows "\<exists>tx env ctx out sv tr b t. run_l2_tx E tx VerifyExecute nd = (Ok (), nd') \<and> x_tx_hash E tx = h \<and>
    (eth_send_raw_transaction E tx_bytes nd = (Ok h, nd') \<and> raw_stands_for E tx_bytes (nd_inner nd) tx \<or>
     eth_send_transaction E req nd = (Ok h, nd') \<and> request_stands_for E req (nd_inner nd) tx \<and>
       initiator tx \<in> n_impersonated_accounts (nd_inner nd)) \<and>
    vm_run E tx VerifyExecute (nd_inner nd) = Some (env, ctx, out, sv) \<and>
    b = tx_block E (nd_inner nd) tx env ctx (io_result out) \<and>
    b_number b = n_current_miniblock (nd_inner nd) + 1 \<and>
    b_transactions b = [TxFull t] \<and> at_hash t = at_hash (x_api_tx_of_l2_tx E tx) \<and>
    records E tx b (io_result out) (io_traces out) (nd_inner nd) tr \<and>
    r_transaction_hash (tr_receipt tr) = h \<and> r_block_hash (tr_receipt tr) = b_hash b \<and>
    r_block_number (tr_receipt tr) = b_number b \<and>
    eth_sees E h tx b t (tr_receipt tr) nd' \<and>
    zks_sees E h tx b t (tr_receipt tr) nd' \<and>
    create_debug_output E tx (io_result out) (io_traces out) = Ok (tr_debug tr) \<and>
    debug_sees E h t (tr_receipt tr) (\<lambda>flat. if flat then without_calls (tr_debug tr) else tr_debug tr) nd' \<and>
    eth_get_block_number E nd' = Ok (n_current_miniblock (nd_inner nd) + 2)"
proof -
  obtain tx where tx: "run_l2_tx E tx VerifyExecute nd = (Ok (), nd')" "x_tx_hash E tx = h"
      "eth_send_raw_transaction E tx_bytes nd = (Ok h, nd') \<and> raw_stands_for E tx_bytes (nd_inner nd) tx \<or>
       eth_send_transaction E req nd = (Ok h, nd') \<and> request_stands_for E req (nd_inner nd) tx \<and>
         initiator tx \<in> n_impersonated_accounts (nd_inner nd)"
    using sent_is_run [OF assms(1)] by blast
  obtain env ctx out sv tr b t where q: "vm_run E tx VerifyExecute (nd_inner nd) = Some (env, ctx, out, sv)"
      "b = tx_block E (nd_inner nd) tx env ctx (io_result out)" "records E tx b (io_result out) (io_traces out) (nd_inner nd) tr"
      "b_transactions b = [TxFull t]" "at_hash t = at_hash (x_api_tx_of_l2_tx E tx)"
      "b_number b = n_current_miniblock (nd_inner nd) + 1" and np: "\<not> nd_inner_poisoned nd'"
      and k: "n_current_miniblock (nd_inner nd') = n_current_miniblock (nd_inner nd) + 2"
      and found: "map_of (n_tx_results (nd_inner nd')) h = Some tr" "n_blocks (nd_inner nd') (b_hash b) = Some b"
        "block_at (b_number b) (nd_inner nd') = Some b"
      and ts: "b_timestamp b = ucast (sat_add (n_current_timestamp (nd_inner nd)) 1)"
    using run_l2_tx_queries [OF tx(1) assms(2)] assms(3) unfolding tx(2) by blast
  have "b_number b \<le> n_current_miniblock (nd_inner nd')"
    using number_in_chain [OF assms(2)] q(6) k by simp
  then have holds: "holds_tx E h tx b t tr (nd_inner nd')"
    using tx(2) q(3,4) found by (auto simp: holds_tx_def)
  moreover have "create_debug_output E tx (io_result out) (io_traces out) = Ok (tr_debug tr)"
    "r_transaction_hash (tr_receipt tr) = h"
    using q(3) tx(2) by (simp_all add: records_def)
  ultimately show ?thesis
    using tx q k np holds_tx_eth [OF holds np] holds_tx_zks [OF holds np ts] holds_tx_debug [OF holds np] holds_tx_receipt(1,2) [OF holds]
    by (intro exI [of _ tx] exI [of _ env] exI [of _ ctx] exI [of _ out] exI [of _ sv] exI [of _ tr] exI [of _ b] exI [of _ t])
      (simp add: eth_get_block_number_def)
qed

lemma sent_transaction_is_queryable_witness:
  "\<exists>nd' r a c. eth_send_raw_transaction (with_requests ext0) [] node0 = (Ok 500, nd') \<and>
     eth_get_transaction_receipt (with_requests ext0) 500 nd' = Ok (Some r) \<and> r_block_number r = 1 \<and>
     eth_get_transaction_by_hash (with_requests ext0) 500 nd' = Ok (Some a) \<and> at_chain_id a = 260 \<and>
     zks_get_raw_block_transactions (with_requests ext0) 1 nd' = Ok [RawL2 tx0] \<and>
     debug_trace_block_by_hash (with_requests ext0) (r_block_hash r) None nd' = Ok [c] \<and>
     debug_trace_transaction (with_requests ext0) 500 None nd' = Ok (Some c)"
proof -
  let ?E = "with_requests ext0"
  obtain nd' where s: "eth_send_raw_transaction ?E [] node0 = (Ok 500, nd')" using send_raw0 by blast
  have n: "n_current_miniblock (nd_inner node0) = 0" "n_impersonated_accounts (nd_inner node0) = {}" by (simp_all add: inner0_def)
  have c1: "n_current_miniblock (nd_inner node0) < 2 ^ 64 - 2" unfolding n(1) by simp
  have c2: "compute_hash ?E (n_current_miniblock (nd_inner node0) + 1) 500 \<noteq>
      compute_hash ?E (n_current_miniblock (nd_inner node0) + 2) 0"
    unfolding n(1) using compute_hash0 by simp
  obtain tx r trace b t where q: "raw_stands_for ?E [] (nd_inner node0) tx"
      "at_hash t = at_hash (x_api_tx_of_l2_tx ?E tx)" "b_number b = n_current_miniblock (nd_inner node0) + 1" "r_block_number r = b_number b"
      "eth_sees ?E 500 tx b t r nd'" "zks_sees ?E 500 tx b t r nd'" "debug_sees ?E 500 t r trace nd'"
    using sent_transaction_is_queryable [OF disjI1 [OF s] c1 c2, of request0] n(2) by blast
  have tx: "tx = tx0" using q(1) by (simp add: raw_stands_for_def)
  then obtain a where a: "eth_get_transaction_by_hash ?E 500 nd' = Ok (Some a)" "at_chain_id a = 260"
    using q(5) by (auto simp: eth_sees_def seen_by_hash_def tx0_def witness_l2_tx_def)
  have t: "at_hash t = 500" using q(2) tx by (simp add: ext0_def tx0_def witness_l2_tx_def)
  have "ucast (1 :: u32) = r_block_number r" using q(3,4) n(1) by simp
  then show ?thesis
    using s a t q(3-7) tx by (auto simp: eth_sees_def zks_sees_def debug_sees_def)
qed

end
