(* ===== verification/Spec2Isabelle.thy ===== *)
theory Spec2Isabelle
  imports Startup Printed_Node Logging Rpc Interleaving Twins Test_Support Sent_Tx
begin

text \<open>
  era-test-node, an in-memory zkSync Era node for testing. A process reads its options, may fork
  a remote chain at some block, builds one node and serves JSON-RPC requests from it. The node
  keeps its own blocks, transaction results, filters, impersonated accounts, snapshots and fee
  parameters; every transaction is run by a virtual machine on a view of the storage, and a
  successful one is committed in a block of its own, followed by an empty block. This library
  models the implementation under \<open>src/src\<close>, module by module.

  \<^bold>\<open>The program and its model.\<close>

  \<^item> \<open>Prelude\<close>: machine integers (words of the code's width; \<open>+\<close> wraps, as in a release build,
    and the saturating and checked operations are defined), results (\<open>res\<close>: \<open>Ok\<close>, \<open>Err\<close>, \<open>Panic\<close>),
    association lists, decimal printing and reading.
  \<^item> \<open>Api_Types\<close>: blocks, transactions, receipts, calls and errors as records and datatypes, with
    the fields of the library types. \<open>Externals\<close>: the record \<open>ext\<close> of the library functions and
    constants (hashes, keys of system contracts, decoding of transactions, the virtual machine).
    It is an argument of every definition that uses one of them. A virtual machine is a program
    \<open>sprog\<close> that asks its storage for values and deposits, writes, and ends with a result;
    \<open>ext0\<close> is a concrete instance, on which the witnesses compute.
  \<^item> \<open>Utils\<close> (\<open>utils.rs\<close>): thousands separators, bytecode chunks, block numbers, debug calls.
  \<^item> \<open>Config\<close> (\<open>config/\<close>, \<open>observability.rs\<close>): options, their defaults, parsers and printers,
    precedence of the command line over the file, and the directives of the log filter.
  \<^item> \<open>Filters\<close> (\<open>filters.rs\<close>): installing, removing, notifying and polling filters.
  \<^item> \<open>Cache\<close> (\<open>cache.rs\<close>), \<open>Http_Fork_Source\<close> (\<open>http_fork_source.rs\<close>): the cache and its files, and
    the source that asks a remote node and remembers its answers.
  \<^item> \<open>Fork\<close> (\<open>fork.rs\<close>): networks, fork details, the transactions to replay. \<open>System_Contracts\<close>
    (\<open>system_contracts.rs\<close>, \<open>deps/system_contracts.rs\<close>): the sets of contracts a node runs with.
  \<^item> \<open>Fork_Storage\<close> (\<open>deps/mod.rs\<close>, \<open>fork.rs\<close>, \<open>deps/storage_view.rs\<close>): local storage, storage over a
    fork with its caches, the view a transaction runs on, and the run of a program.
  \<^item> \<open>Fee_Model\<close> (\<open>node/fee_model.rs\<close>, \<open>bootloader_debug.rs\<close>): fee parameters and the gas report.
  \<^item> \<open>Node_State\<close>, \<open>Node_Tx\<close> (\<open>node/in_memory.rs\<close>): the records \<open>inner\<close> (the state behind the lock)
    and \<open>node\<close> (that state, whether its lock is poisoned, and the snapshots), their construction,
    the batch environment, archiving, snapshots; validation, run and commit of a transaction,
    calls, wallets and resetting.
  \<^item> \<open>Mining\<close> (\<open>mine_empty_blocks\<close> of \<open>utils.rs\<close>), \<open>Float32\<close> (single precision on words) and
    \<open>Gas_Estimation\<close> (\<open>estimate_gas_impl\<close>, \<open>estimate_gas_step\<close> of \<open>node/in_memory.rs\<close>).
  \<^item> \<open>Node_Ext\<close> (\<open>node/in_memory_ext.rs\<close>, \<open>hardhat.rs\<close>, \<open>anvil.rs\<close>, \<open>evm.rs\<close>, \<open>net.rs\<close>, \<open>web3.rs\<close>),
    \<open>Eth_Api\<close> (\<open>node/eth.rs\<close>), \<open>Zks_Api\<close> (\<open>node/zks.rs\<close>), \<open>Debug_Api\<close> (\<open>node/debug.rs\<close>), \<open>Config_Api\<close>
    (\<open>node/config_api.rs\<close>): every handler of every namespace. \<open>Sent_Tx\<close> has no code of its own: it
    says what the queries of the namespaces answer about a transaction that was sent.
  \<^item> \<open>Resolver\<close> (\<open>resolver.rs\<close>), \<open>Formatter\<close> (\<open>formatter.rs\<close>), \<open>Storage_Logs\<close> (\<open>node/storage_logs.rs\<close>),
    \<open>Console_Log\<close> (\<open>console_log.rs\<close>), \<open>Logging\<close> (\<open>logging_middleware.rs\<close>,
    \<open>node/call_error_tracer.rs\<close>): what is printed, as the list of the lines; a printing that asks
    the resolver also gives the disk on which selectors are kept, after a panic too, and what
    \<open>console.log\<close> prints are events with their level and target. \<open>Run_Report\<close>
    (\<open>node/in_memory.rs\<close>): what a transaction and a call print, and the two operations as they run
    with their printing, next to those of \<open>Node_Tx\<close>, which are without it. \<open>Printed_Node\<close>
    (\<open>node/eth.rs\<close>): the handlers that run them, and a server made of these.
  \<^item> \<open>Requests\<close> (\<open>main.rs\<close>, \<open>build_json_http\<close>): the requests of all namespaces, what they are answered
    with, the function \<open>answer_request\<close> that serves one and \<open>serve_request\<close>, the node it leaves
    behind. \<open>Node_Steps\<close>: the invariant of the node and the nodes reachable from a new one.
    \<open>Startup\<close> (\<open>main.rs\<close>, \<open>bytecode_override.rs\<close>): the way from the options to the first node.
    \<open>Ledger\<close>: the abstract specification, a ledger of blocks, transactions, storage and saved chains,
    the actions of each request on it, and the simulation. \<open>Rpc\<close> (\<open>namespaces/\<close>, \<open>main.rs\<close>): the
    declared methods with the types of their parameters and results, the handler and the call of a method.
    \<open>Interleaving\<close>: \<open>run_l2_tx\<close> as the four sections in which it holds the lock, and any interleaving of
    such sections and requests. \<open>Twins\<close>: nodes that differ in their caches only, and sessions on them.
  \<^item> \<open>Test_Support\<close> (\<open>testing.rs\<close>): the fork source over an in-memory storage, the builders, the helpers
    that apply a transaction to a node; and a fork seen as the one storage it amounts to.

  \<^bold>\<open>Conventions.\<close> A handler takes the node and gives its answer and the new node. \<open>write_inner\<close> and
  \<open>read_inner\<close> are the two lock guards: a panic under the write guard poisons the lock, and the
  handlers of a poisoned node answer the error the code maps it to. A map that the code only
  looks up is a function to options, one that it iterates over an association list. An operation
  whose only failure is a panic gives an option.

  \<^bold>\<open>Interfaces.\<close> \<open>read_storage\<close> and \<open>viewed_storage\<close> (\<open>Fork_Storage\<close>) state what a storage promises its
  reader and what a view of it promises; both storages of the code interpret them, and a view is
  a readable storage again (\<open>sublocale\<close>). \<open>map_cache\<close> (\<open>Cache\<close>) and \<open>read_through\<close>
  (\<open>Http_Fork_Source\<close>) are the contracts of one map of the cache and of one cached request;
  \<open>update_stream\<close> (\<open>Filters\<close>) is the contract of a filter's pending changes. \<open>quiet_relation\<close>
  (\<open>Node_Steps\<close>) collects what a relation on inner states has to allow for every request that
  leaves the chain alone to stay in it; the invariant (\<open>st\<close>) and the ledger (\<open>Ledger\<close>, \<open>ch\<close>)
  interpret it.

  \<^bold>\<open>What is proved.\<close>

  \<^item> The node: the invariant of every reachable state (blocks under their own hashes, the archive's
    bound, well-formed filters, coherent caches, at most a hundred snapshots that restore to
    well-formed states); a transaction that succeeds as one run of the virtual machine (\<open>vm_run\<close>) whose
    environment, result and modified keys make the two blocks, the record (\<open>records\<close>) and the storage
    that are left; what each way of failing leaves; the read-only call, snapshots, mining, resetting, and the state after start-up. Every request
    refines one action of the ledger or none, so that it takes effect as a whole or not at all, and
    without mining, reverting and resetting the past is never changed. The invariant survives every
    interleaving of transactions; of two that were run before either was committed, the second
    commit panics and poisons the lock.
  \<^item> The interface: the names of the declared methods are distinct, and a call with parameters of the
    declared types is served as the request of its method and answered with a result of the declared type.
  \<^item> The storages: a run on a view computes what a run on an overlay of the storage's contents
    computes, whichever caches are filled; reads see the last write; the fork source's session
    gives the remote node's answers. The caches of the fork storage cannot be seen from outside: any
    session of requests is answered as by a node that forgets them before every request. A fork whose
    source answers from a storage is one local storage, until a slot the source holds is cleared.
  \<^item> The queries: what they answer about a sent transaction is the run of it (its receipt, block,
    place, logs, details and traces), the two ways to a block agree,
    storage at an earlier block, fee history, balances and traces.
  \<^item> Gas estimation ends and its answer is bracketed by runs that succeed and fail.
  \<^item> Filters deliver every matching change exactly once, in order; identifiers only grow.
  \<^item> Printing: thousands separators, selectors that are remembered, write charges that add up,
    and the declarations and output of \<open>console.log\<close>. Printing does not change what a transaction
    or a call does as long as hashes are not resolved; when they are, a failed lookup is a panic
    under the lock. With any display options, a server that prints keeps the invariant and refines
    the ledger.

  \<^bold>\<open>Bounds and termination.\<close> Every definition is total except \<open>gas_search\<close>, a
  \<open>partial_function (option)\<close> for the binary search of the estimation: it is proved to return
  when the largest gas limit is at most 2 to the 63rd, so that no midpoint wraps. There is no
  fuel. The archive holds at most 129 states (the limit of 128 is checked before the insertion),
  the snapshots 100. Theorems that count blocks ask the current number to be below 2 to the 64th
  less the blocks they add, and those about forks ask for fork blocks below 2 to the 32nd,
  because the code narrows them to 32 bits.

  \<^bold>\<open>Assumptions.\<close> A hypothesis about a library is stated where it is used: for
  example that a remote node answers consistently (\<open>honest_remote\<close>: the block under the root hash
  of block \<open>k\<close> has the number \<open>k\<close>, and the chain is shorter than 2 to the 32nd) or that the hashes of
  the two blocks of a transaction differ. Each has a witness that discharges it on a concrete
  instance, \<open>ext0\<close> or a remote node built for it.

  \<^bold>\<open>Not modelled.\<close> The transport (HTTP server, the parsing and rendering of JSON), the log
  subscriber, terminal colours, wall-clock timing, the telemetry counters of the storage view,
  the mock HTTP server of \<open>testing.rs\<close> with the JSON of its responses, and the tests of every module. The virtual machine, the
  bootloader, Keccak, RLP and ABI coding are library code and parameters. Answers are values,
  not their JSON form. \<open>serve_request\<close> serves transactions and calls without
  their printing, \<open>serve_printing\<close> with it; the two are the same as long as hashes are not resolved
  (\<open>printing_server_is_sound\<close>). The few lines that the other handlers log are left out.
\<close>

end
